(* ===== verification/Prelude.thy ===== *)
theory Prelude
  imports Main "HOL-Library.Word" "HOL-Library.Monad_Syntax"
begin

text \<open>
  The vocabulary the component theories share: Go values (bytes, strings, 64-bit \<open>int\<close>,
  errors), Go slices with their run-time panics, the big-endian 16-bit codec of
  \<^verbatim>\<open>encoding/binary\<close>, decimal printing of \<^verbatim>\<open>strconv\<close>, and the list lemmas and named
  collections the component proofs rest on.

  Conventions of the whole development:
  \<^item> a Go \<^verbatim>\<open>[]byte\<close> is a list of 8-bit words, a Go \<^verbatim>\<open>string\<close> is a \<^typ>\<open>string\<close> (a list of
    8-bit characters, so its length counts bytes as Go's \<^verbatim>\<open>len\<close> does);
  \<^item> an operation that may panic (index or slice out of range) returns an \<open>option\<close>, and
    \<^const>\<open>None\<close> is the panic; a slice is bounded by its length, that is, the capacity
    of a slice is taken to be its length;
  \<^item> an operation that returns a Go \<^verbatim>\<open>error\<close> returns a sum, \<^const>\<open>Inl\<close> of the error, or
    an optional \<open>go_error\<close> where \<^verbatim>\<open>nil\<close> is \<^const>\<open>None\<close>;
  \<^item> \<^verbatim>\<open>int\<close> is the 64-bit signed integer of the 64-bit targets: mathematical integers,
    with the wrap-around (\<open>wrap64\<close>) written where the source can overflow.
\<close>

named_theorems go_simps \<open>unfolding rules for Go slices, indices and codecs\<close>

section \<open>Bytes and strings\<close>

type_synonym byte = "8 word"
type_synonym bytes = "byte list"

definition string_of_bytes :: "bytes \<Rightarrow> string" where
  "string_of_bytes bs = map (\<lambda>b. char_of (unat b)) bs"

definition bytes_of_string :: "string \<Rightarrow> bytes" where
  "bytes_of_string s = map (\<lambda>c. of_nat (of_char c)) s"

lemma bytes_of_string_simps [simp]:
  "bytes_of_string [] = []"
  "bytes_of_string (c # s) = of_nat (of_char c) # bytes_of_string s"
  "bytes_of_string (s @ t) = bytes_of_string s @ bytes_of_string t"
  "length (bytes_of_string s) = length s"
  by (simp_all add: bytes_of_string_def)

lemma length_string_of_bytes [simp]: "length (string_of_bytes bs) = length bs"
  by (simp add: string_of_bytes_def)

lemma of_char_lt_256: "(of_char c :: nat) < 256"
  by (metis of_char_of of_char_mod_256 mod_less_divisor zero_less_numeral)

lemma string_of_bytes_of_string [simp]: "string_of_bytes (bytes_of_string s) = s"
  by (induction s)
    (simp_all add: string_of_bytes_def bytes_of_string_def unat_of_nat of_char_lt_256)

lemma bytes_of_string_of_bytes [simp]: "bytes_of_string (string_of_bytes bs) = bs"
proof -
  have "(of_nat (of_char (char_of (unat b))) :: byte) = b" for b :: byte
    using unsigned_less [of b, where ?'a = nat] by (simp add: of_char_of)
  then show ?thesis
    by (simp add: string_of_bytes_def bytes_of_string_def comp_def)
qed

lemma bytes_of_string_inject [simp]: "bytes_of_string s = bytes_of_string t \<longleftrightarrow> s = t"
  by (metis string_of_bytes_of_string)

section \<open>Errors (internal/errors)\<close>

text \<open>
  A Go error value: a message (\<^verbatim>\<open>errors.New\<close>, \<^verbatim>\<open>fmt.Errorf\<close>), an error wrapped with the
  operation that failed (\<open>opError\<close> of \<^verbatim>\<open>internal/errors\<close>), or one of the sentinel values
  the sources compare against.
\<close>

datatype go_error =
    ErrorNew string
  | opError string go_error
  | IoEOF
  | IoErrUnexpectedEOF
  | IoErrShortBuffer
  | NetErrClosed
  | TimeoutError

fun Error :: "go_error \<Rightarrow> string" where
  "Error (ErrorNew s) = s"
| "Error (opError op err) = op @ '': '' @ Error err"
| "Error IoEOF = ''EOF''"
| "Error IoErrUnexpectedEOF = ''unexpected EOF''"
| "Error IoErrShortBuffer = ''short buffer''"
| "Error NetErrClosed = ''use of closed network connection''"
| "Error TimeoutError = ''i/o timeout''"

fun Unwrap :: "go_error \<Rightarrow> go_error option" where
  "Unwrap (opError op err) = Some err"
| "Unwrap _ = None"

definition WithStr :: "string \<Rightarrow> go_error \<Rightarrow> go_error" where
  "WithStr op err = opError op err"

section \<open>Slices and indices\<close>

definition go_index :: "'a list \<Rightarrow> int \<Rightarrow> 'a option" where
  "go_index xs i = (if 0 \<le> i \<and> i < int (length xs) then Some (xs ! nat i) else None)"

definition go_slice :: "'a list \<Rightarrow> int \<Rightarrow> int \<Rightarrow> 'a list option" where
  "go_slice xs lo hi =
     (if 0 \<le> lo \<and> lo \<le> hi \<and> hi \<le> int (length xs)
      then Some (take (nat (hi - lo)) (drop (nat lo) xs)) else None)"

lemma go_index_eq_Some [go_simps]:
  "0 \<le> i \<Longrightarrow> i < int (length xs) \<Longrightarrow> go_index xs i = Some (xs ! nat i)"
  by (simp add: go_index_def)

lemma go_slice_eq_Some [go_simps]:
  "0 \<le> lo \<Longrightarrow> lo \<le> hi \<Longrightarrow> hi \<le> int (length xs) \<Longrightarrow>
   go_slice xs lo hi = Some (take (nat (hi - lo)) (drop (nat lo) xs))"
  by (simp add: go_slice_def)

lemma go_index_SomeD: "go_index xs i = Some x \<Longrightarrow> 0 \<le> i \<and> i < int (length xs) \<and> x = xs ! nat i"
  by (auto simp: go_index_def split: if_splits)

lemma go_slice_SomeD:
  "go_slice xs lo hi = Some ys \<Longrightarrow>
     0 \<le> lo \<and> lo \<le> hi \<and> hi \<le> int (length xs) \<and> ys = take (nat (hi - lo)) (drop (nat lo) xs)"
  by (auto simp: go_slice_def split: if_splits)

lemma go_slice_length: "go_slice xs lo hi = Some ys \<Longrightarrow> int (length ys) = hi - lo"
  by (auto dest!: go_slice_SomeD simp: of_nat_diff)

lemma go_slice_prefix [simp]: "go_slice xs 0 (int n) = (if n \<le> length xs then Some (take n xs) else None)"
  by (simp add: go_slice_def)

lemma go_slice_suffix [simp]:
  "go_slice xs (int n) (int (length xs)) = (if n \<le> length xs then Some (drop n xs) else None)"
  by (simp add: go_slice_def nat_diff_distrib)

lemma go_slice_append_middle:
  "go_slice (pre @ mid @ post) (int (length pre)) (int (length pre) + int (length mid)) = Some mid"
  by (simp add: go_slice_def)

lemma go_index_append_middle [simp]: "go_index (pre @ x # post) (int (length pre)) = Some x"
  by (simp add: go_index_def)

text \<open>\<^verbatim>\<open>copy(dst, src)\<close>: the destination afterwards.\<close>

definition go_copy :: "'a list \<Rightarrow> 'a list \<Rightarrow> 'a list" where
  "go_copy dst src = take (length dst) src @ drop (length src) dst"

lemma length_go_copy [simp]: "length (go_copy dst src) = length dst"
  by (simp add: go_copy_def)

lemma go_copy_same_length [simp]: "length src = length dst \<Longrightarrow> go_copy dst src = src"
  by (simp add: go_copy_def)

lemma those_map_Some [simp]: "those (map (\<lambda>x. Some (f x)) xs) = Some (map f xs)"
  by (induction xs) simp_all

lemma those_map_cong: "(\<And>x. x \<in> set xs \<Longrightarrow> f x = Some (g x)) \<Longrightarrow> those (map f xs) = Some (map g xs)"
  by (induction xs) simp_all

section \<open>Big-endian 16-bit integers (encoding/binary)\<close>

fun be_uint16 :: "bytes \<Rightarrow> int option" where
  "be_uint16 (a # b # _) = Some (256 * uint a + uint b)"
| "be_uint16 _ = None"

definition put_uint16 :: "int \<Rightarrow> bytes" where
  "put_uint16 v = [word_of_int (v div 256), word_of_int v]"

lemma length_put_uint16 [simp]: "length (put_uint16 v) = 2"
  by (simp add: put_uint16_def)

lemma uint_byte_bounds: "0 \<le> uint (b :: byte) \<and> uint b < 256"
  using uint_lt2p [of b] by simp

lemma be_pair_bounds: "0 \<le> 256 * uint (a :: byte) + uint (b :: byte) \<and> 256 * uint a + uint b < 65536"
  using uint_byte_bounds [of a] uint_byte_bounds [of b] by linarith

lemma be_uint16_bounds: "be_uint16 bs = Some v \<Longrightarrow> 0 \<le> v \<and> v < 65536"
  by (cases bs rule: be_uint16.cases) (auto simp: be_pair_bounds)

lemma be_uint16_put [simp]: "be_uint16 (put_uint16 v @ rest) = Some (v mod 65536)"
proof -
  have "256 * ((v div 256) mod 256) + v mod 256 = v mod 65536"
    using mod_mult2_eq' [of v 256 256] by (simp add: algebra_simps)
  then show ?thesis
    by (simp add: put_uint16_def uint_word_of_int)
qed

lemma be_uint16_eq_Some: "2 \<le> length bs \<Longrightarrow> \<exists>v. be_uint16 bs = Some v \<and> 0 \<le> v \<and> v < 65536"
  by (cases bs rule: be_uint16.cases) (auto simp: be_pair_bounds)

text \<open>\<^verbatim>\<open>binary.BigEndian.Uint16(data[i:i+2])\<close>.\<close>

definition be16_at :: "bytes \<Rightarrow> int \<Rightarrow> int option" where
  "be16_at data i = do { s \<leftarrow> go_slice data i (i + 2); be_uint16 s }"

definition be16_val :: "bytes \<Rightarrow> int \<Rightarrow> int" where
  "be16_val data i = 256 * uint (data ! nat i) + uint (data ! nat (i + 1))"

lemma be16_val_bounds: "0 \<le> be16_val data i" "be16_val data i < 65536"
  by (simp_all add: be16_val_def be_pair_bounds)

lemma be16_at_eq [go_simps]:
  assumes "0 \<le> i" and "i + 2 \<le> int (length data)"
  shows "be16_at data i = Some (be16_val data i)"
proof -
  from assms have lt: "Suc (nat i) < length data" by linarith
  then have "take 2 (drop (nat i) data) = [data ! nat i, data ! Suc (nat i)]"
    by (simp add: numeral_2_eq_2 Cons_nth_drop_Suc [symmetric])
  with assms show ?thesis
    by (simp add: be16_at_def be16_val_def go_slice_def nat_add_distrib)
qed

lemma be16_at_None: "\<not> (0 \<le> i \<and> i + 2 \<le> int (length data)) \<Longrightarrow> be16_at data i = None"
  by (auto simp: be16_at_def go_slice_def)

lemma be16_at_SomeD:
  "be16_at data i = Some v \<Longrightarrow> 0 \<le> i \<and> i + 2 \<le> int (length data) \<and> v = be16_val data i"
  using be16_at_None [of i data] be16_at_eq [of i data]
  by (cases "0 \<le> i \<and> i + 2 \<le> int (length data)") auto

lemma be16_at_put:
  "be16_at (pre @ put_uint16 v @ post) (int (length pre)) = Some (v mod 65536)"
proof -
  have "go_slice (pre @ put_uint16 v @ post) (int (length pre)) (int (length pre) + 2) = Some (put_uint16 v)"
    using go_slice_append_middle [of pre "put_uint16 v" post] by simp
  then show ?thesis using be_uint16_put [of v "[]"] by (simp add: be16_at_def)
qed

section \<open>64-bit integers and decimal text\<close>

definition wrap64 :: "int \<Rightarrow> int" where
  "wrap64 x = (x + 2 ^ 63) mod 2 ^ 64 - 2 ^ 63"

lemma wrap64_id [simp]: "- (2 ^ 63) \<le> x \<Longrightarrow> x < 2 ^ 63 \<Longrightarrow> wrap64 x = x"
  by (simp add: wrap64_def)

lemma wrap64_bounds: "- (2 ^ 63) \<le> wrap64 x \<and> wrap64 x < 2 ^ 63"
proof -
  have "0 \<le> (x + 2 ^ 63) mod 2 ^ 64 \<and> (x + 2 ^ 63) mod 2 ^ 64 < (2 ^ 64 :: int)" by simp
  then show ?thesis unfolding wrap64_def by simp
qed

fun nat_digits :: "nat \<Rightarrow> string" where
  "nat_digits n =
     (if n < 10 then [char_of (48 + n)]
      else nat_digits (n div 10) @ [char_of (48 + n mod 10)])"

declare nat_digits.simps [simp del]

text \<open>\<^verbatim>\<open>strconv.Itoa\<close>, \<^verbatim>\<open>F.Int\<close> and \<^verbatim>\<open>F.Uint\<close>: decimal, with a leading minus sign.\<close>

definition Itoa :: "int \<Rightarrow> string" where
  "Itoa i = (if i < 0 then CHR ''-'' # nat_digits (nat (- i)) else nat_digits (nat i))"

definition is_digit :: "char \<Rightarrow> bool" where
  "is_digit c \<longleftrightarrow> 48 \<le> (of_char c :: nat) \<and> (of_char c :: nat) \<le> 57"

definition digit_val :: "char \<Rightarrow> int" where
  "digit_val c = int (of_char c) - 48"

lemma is_digit_char_of [simp]: "n < 10 \<Longrightarrow> is_digit (char_of (48 + n :: nat))"
  by (simp add: is_digit_def of_char_of)

lemma digit_val_char_of [simp]: "n < 10 \<Longrightarrow> digit_val (char_of (48 + n :: nat)) = int n"
  by (simp add: digit_val_def of_char_of)

lemma nat_digits_nonempty [simp]: "nat_digits n \<noteq> []"
  by (subst nat_digits.simps) simp

lemma nat_digits_are_digits: "c \<in> set (nat_digits n) \<Longrightarrow> is_digit c"
proof (induction n rule: nat_digits.induct)
  case (1 n)
  show ?case
  proof (cases "n < 10")
    case True
    with "1.prems" show ?thesis by (simp add: nat_digits.simps [of n])
  next
    case False
    with 1 show ?thesis by (auto simp: nat_digits.simps [of n])
  qed
qed

text \<open>The mathematical value of a run of digits, most significant first.\<close>

definition digits_val :: "string \<Rightarrow> int" where
  "digits_val s = foldl (\<lambda>a c. a * 10 + digit_val c) 0 s"

lemma digits_val_nat_digits [simp]: "digits_val (nat_digits n) = int n"
proof (induction n rule: nat_digits.induct)
  case (1 n)
  show ?case
  proof (cases "n < 10")
    case True
    then show ?thesis by (simp add: nat_digits.simps [of n] digits_val_def)
  next
    case False
    with "1.IH" have "digits_val (nat_digits n) = int (n div 10) * 10 + int (n mod 10)"
      by (simp add: nat_digits.simps [of n] digits_val_def)
    also have "\<dots> = int (n div 10 * 10 + n mod 10)" by (simp only: of_nat_add of_nat_mult of_nat_numeral)
    finally show ?thesis by simp
  qed
qed

lemma foldl_digits_mono:
  assumes "\<And>c. c \<in> set s \<Longrightarrow> is_digit c" and "0 \<le> a"
  shows "a \<le> foldl (\<lambda>a c. a * 10 + digit_val c) a s"
  using assms
proof (induction s arbitrary: a)
  case Nil
  then show ?case by simp
next
  case (Cons c s)
  have "0 \<le> digit_val c" using Cons.prems(1) [of c] by (simp add: is_digit_def digit_val_def)
  with Cons.prems(2) have "a \<le> a * 10 + digit_val c" and "0 \<le> a * 10 + digit_val c" by simp_all
  with Cons.IH [of "a * 10 + digit_val c"] Cons.prems(1) show ?case by simp
qed

section \<open>String predicates (strings, bytes)\<close>

definition HasPrefix :: "string \<Rightarrow> string \<Rightarrow> bool" where
  "HasPrefix s p \<longleftrightarrow> take (length p) s = p"

definition Contains_char :: "string \<Rightarrow> char \<Rightarrow> bool" where
  "Contains_char s c \<longleftrightarrow> c \<in> set s"

text \<open>\<^verbatim>\<open>bytes.LastIndexByte\<close> and \<^verbatim>\<open>strings.LastIndexByte\<close>: the last position, or -1.\<close>

fun LastIndex_from :: "int \<Rightarrow> 'a list \<Rightarrow> 'a \<Rightarrow> int" where
  "LastIndex_from i [] c = -1"
| "LastIndex_from i (x # xs) c =
     (let r = LastIndex_from (i + 1) xs c in if r \<noteq> -1 then r else if x = c then i else -1)"

definition LastIndexByte :: "'a list \<Rightarrow> 'a \<Rightarrow> int" where
  "LastIndexByte xs c = LastIndex_from 0 xs c"

lemma LastIndex_from_cases:
  "0 \<le> i \<Longrightarrow>
   (LastIndex_from i xs c = -1 \<and> c \<notin> set xs) \<or>
   (i \<le> LastIndex_from i xs c \<and> LastIndex_from i xs c < i + int (length xs) \<and>
    xs ! nat (LastIndex_from i xs c - i) = c \<and>
    c \<notin> set (drop (nat (LastIndex_from i xs c - i) + 1) xs))"
proof (induction xs arbitrary: i)
  case Nil
  then show ?case by simp
next
  case (Cons x xs)
  from Cons.prems have i: "0 \<le> i + 1" by simp
  consider (absent) "LastIndex_from (i + 1) xs c = -1" "c \<notin> set xs"
    | (present) "i + 1 \<le> LastIndex_from (i + 1) xs c"
      "LastIndex_from (i + 1) xs c < i + 1 + int (length xs)"
      "xs ! nat (LastIndex_from (i + 1) xs c - (i + 1)) = c"
      "c \<notin> set (drop (nat (LastIndex_from (i + 1) xs c - (i + 1)) + 1) xs)"
    using Cons.IH [OF i] by blast
  then show ?case
  proof cases
    case absent
    with Cons.prems show ?thesis by simp
  next
    case present
    let ?r = "LastIndex_from (i + 1) xs c"
    from present(1) have "nat (?r - i) = Suc (nat (?r - (i + 1)))" by simp
    with present Cons.prems show ?thesis by (simp add: Let_def)
  qed
qed

lemma LastIndexByte_absent [simp]: "LastIndexByte xs c = -1 \<longleftrightarrow> c \<notin> set xs"
proof (cases "LastIndex_from 0 xs c = -1")
  case True
  with LastIndex_from_cases [of 0 xs c] show ?thesis by (auto simp: LastIndexByte_def)
next
  case False
  with LastIndex_from_cases [of 0 xs c] have "nat (LastIndex_from 0 xs c) < length xs"
    and "xs ! nat (LastIndex_from 0 xs c) = c" by auto
  then have "c \<in> set xs" by (metis nth_mem)
  with False show ?thesis by (simp add: LastIndexByte_def)
qed

lemma LastIndexByte_present:
  assumes "LastIndexByte xs c \<noteq> -1"
  shows "0 \<le> LastIndexByte xs c" and "LastIndexByte xs c < int (length xs)"
    and "xs ! nat (LastIndexByte xs c) = c"
    and "c \<notin> set (drop (nat (LastIndexByte xs c) + 1) xs)"
  using LastIndex_from_cases [of 0 xs c] assms by (auto simp: LastIndexByte_def)

section \<open>Lists\<close>

lemma length_le_concat: "x \<in> set xs \<Longrightarrow> length x \<le> length (concat xs)"
  by (induction xs) auto

lemma concat_take_drop_chunks:
  assumes "k * b \<le> length xs"
  shows "concat (map (\<lambda>i. take b (drop (i * b) xs)) [0..<k]) = take (k * b) xs"
  using assms
proof (induction k)
  case 0
  then show ?case by simp
next
  case (Suc k)
  then have "concat (map (\<lambda>i. take b (drop (i * b) xs)) [0..<Suc k]) =
    take (k * b) xs @ take b (drop (k * b) xs)"
    by simp
  also have "\<dots> = take (k * b + b) xs" by (simp add: take_add)
  finally show ?case by (simp add: add.commute)
qed

lemma take_length_drop_append [simp]: "take (length xs - n) (drop n xs) = drop n xs"
  by simp

end
