(* ===== verification/Pattern.thy ===== *)
theory Pattern
  imports Prelude
begin

text \<open>
  Pattern expansion, \<^verbatim>\<open>expandPattern\<close> and \<^verbatim>\<open>splitByPipe\<close> of \<^verbatim>\<open>internal/utils.go\<close>: a configuration
  key such as \<^verbatim>\<open>*.(a|b).example\<close> stands for the list of its alternatives. The keys come from
  JSON and are valid UTF-8, on which ranging over the runes and appending them copies the
  bytes, so the model works on bytes. Shown here: the expansion terminates, and the text of
  a sequence of groups expands to exactly the concatenations of their alternatives, in
  order.
\<close>

section \<open>The functions\<close>

fun pipe_loop :: "string \<Rightarrow> string \<Rightarrow> string list \<Rightarrow> string list" where
  "pipe_loop [] cur result = result @ [cur]"
| "pipe_loop (ch # s) cur result =
     (if ch = CHR ''|'' then pipe_loop s [] (result @ [cur]) else pipe_loop s (cur @ [ch]) result)"

definition splitByPipe :: "string \<Rightarrow> string list" where
  "splitByPipe s = (if s = [] then [[]] else pipe_loop s [] [])"

text \<open>The text up to the parenthesis that closes depth \<open>d\<close>, and the text after it.\<close>

fun close_paren :: "nat \<Rightarrow> string \<Rightarrow> string \<Rightarrow> (string \<times> string) option" where
  "close_paren d inner [] = None"
| "close_paren d inner (c # s) =
     (if c = CHR ''('' then close_paren (d + 1) (inner @ [c]) s
      else if c = CHR '')'' then
        (if d = 1 then Some (inner, s) else close_paren (d - 1) (inner @ [c]) s)
      else close_paren d (inner @ [c]) s)"

lemma close_paren_shorter: "close_paren d inner s = Some (i, rest) \<Longrightarrow> length rest < length s"
  by (induction s arbitrary: d inner) (auto split: if_splits intro: less_SucI)

text \<open>The prefix before the first open parenthesis, the alternatives inside, the expanded suffix.\<close>

function expandPattern :: "string \<Rightarrow> string list" where
  "expandPattern s =
     (case dropWhile (\<lambda>c. c \<noteq> CHR ''('') s of
        [] \<Rightarrow> splitByPipe s
      | _ # after \<Rightarrow> (case close_paren 1 [] after of
            None \<Rightarrow> splitByPipe s
          | Some (inner, suffix) \<Rightarrow>
              let pre = takeWhile (\<lambda>c. c \<noteq> CHR ''('') s; suffixResults = expandPattern suffix
              in concat (map (\<lambda>part. map (\<lambda>suff. pre @ part @ suff) suffixResults) (splitByPipe inner))))"
  by pat_completeness auto
termination
proof (relation "measure length", goal_cases)
  case (2 s c after a inner suffix)
  then have "length after < length s"
    using length_dropWhile_le [of "\<lambda>c. c \<noteq> CHR ''(''" s] by simp
  with 2 close_paren_shorter [of 1 "[]" after inner suffix] show ?case by simp
qed simp

declare expandPattern.simps [simp del]

section \<open>Splitting at the bars\<close>

fun bar_join :: "string list \<Rightarrow> string" where
  "bar_join [] = []"
| "bar_join [x] = x"
| "bar_join (x # xs) = x @ CHR ''|'' # bar_join xs"

lemma pipe_loop_plain:
  "CHR ''|'' \<notin> set x \<Longrightarrow> pipe_loop (x @ s) cur result = pipe_loop s (cur @ x) result"
  by (induction x arbitrary: cur) auto

lemma pipe_loop_bar_join:
  "xs \<noteq> [] \<Longrightarrow> (\<And>x. x \<in> set xs \<Longrightarrow> CHR ''|'' \<notin> set x) \<Longrightarrow>
   pipe_loop (bar_join xs) cur result = result @ (cur @ hd xs) # tl xs"
proof (induction xs arbitrary: cur result rule: bar_join.induct)
  case (2 x)
  then show ?case using pipe_loop_plain [of x "[]" cur result] by simp
next
  case (3 x y xs)
  have "pipe_loop (bar_join (x # y # xs)) cur result = pipe_loop (bar_join (y # xs)) [] (result @ [cur @ x])"
    using 3 by (simp add: pipe_loop_plain)
  with "3.IH" [of "[]" "result @ [cur @ x]"] 3 show ?case by simp
qed simp

lemma splitByPipe_bar_join:
  assumes "xs \<noteq> []" and "\<And>x. x \<in> set xs \<Longrightarrow> CHR ''|'' \<notin> set x"
  shows "splitByPipe (bar_join xs) = xs"
proof (cases "bar_join xs = []")
  case True
  with assms(1) have "xs = [[]]" by (cases xs rule: bar_join.cases) auto
  then show ?thesis by (simp add: splitByPipe_def)
next
  case False
  then show ?thesis using pipe_loop_bar_join [OF assms(1), of "[]" "[]"] assms by (simp add: splitByPipe_def)
qed

lemma splitByPipe_nonempty: "splitByPipe s \<noteq> []"
proof -
  have "pipe_loop s cur result \<noteq> []" for cur result
    by (induction s arbitrary: cur result) auto
  then show ?thesis by (simp add: splitByPipe_def)
qed

section \<open>Expansion of a sequence of groups\<close>

text \<open>A group is a literal followed by alternatives in parentheses; the rest is plain alternatives.\<close>

type_synonym group = "string \<times> string list"

definition plain :: "string \<Rightarrow> bool" where
  "plain s \<longleftrightarrow> set s \<inter> {CHR ''('', CHR '')''} = {}"

definition wf_group :: "group \<Rightarrow> bool" where
  "wf_group g \<longleftrightarrow> plain (fst g) \<and> snd g \<noteq> [] \<and> (\<forall>x \<in> set (snd g). plain x \<and> CHR ''|'' \<notin> set x)"

fun show_pattern :: "group list \<Rightarrow> string list \<Rightarrow> string" where
  "show_pattern [] alts = bar_join alts"
| "show_pattern ((lit, xs) # gs) alts = lit @ CHR ''('' # bar_join xs @ CHR '')'' # show_pattern gs alts"

fun alternatives :: "group list \<Rightarrow> string list \<Rightarrow> string list" where
  "alternatives [] alts = alts"
| "alternatives ((lit, xs) # gs) alts =
     concat (map (\<lambda>x. map (\<lambda>rest. lit @ x @ rest) (alternatives gs alts)) xs)"

lemma plain_bar_join: "(\<And>x. x \<in> set xs \<Longrightarrow> plain x) \<Longrightarrow> plain (bar_join xs)"
  by (induction xs rule: bar_join.induct) (auto simp: plain_def)

lemma close_paren_plain:
  "plain x \<Longrightarrow> close_paren 1 inner (x @ CHR '')'' # s) = Some (inner @ x, s)"
  by (induction x arbitrary: inner) (auto simp: plain_def)

lemma takeWhile_plain:
  assumes "plain lit"
  shows "takeWhile (\<lambda>c. c \<noteq> CHR ''('') (lit @ CHR ''('' # s) = lit \<and>
    dropWhile (\<lambda>c. c \<noteq> CHR ''('') (lit @ CHR ''('' # s) = CHR ''('' # s"
proof -
  have "\<And>c. c \<in> set lit \<Longrightarrow> c \<noteq> CHR ''(''" using assms by (auto simp: plain_def)
  then show ?thesis by (simp add: takeWhile_append2 dropWhile_append2)
qed

text \<open>
  C21: a pattern means the list of its alternatives. The text of a sequence of literals and groups of
  alternatives, followed by plain alternatives, expands to all their concatenations, in
  order, each exactly once per combination.
\<close>

theorem expandPattern_alternatives:
  assumes "\<forall>g \<in> set gs. wf_group g" and "alts \<noteq> []" and "\<forall>x \<in> set alts. plain x \<and> CHR ''|'' \<notin> set x"
  shows "expandPattern (show_pattern gs alts) = alternatives gs alts \<and>
    length (alternatives gs alts) = prod_list (map (\<lambda>g. length (snd g)) gs) * length alts"
  using assms(1)
proof (induction gs)
  case Nil
  have "plain (bar_join alts)" using assms(3) by (intro plain_bar_join) auto
  then have dw: "dropWhile (\<lambda>c. c \<noteq> CHR ''('') (bar_join alts) = []" by (auto simp: plain_def)
  show ?case
    using assms(2,3) by (subst expandPattern.simps) (simp add: dw splitByPipe_bar_join del: dropWhile_eq_Nil_conv)
next
  case (Cons g gs)
  obtain lit xs where g: "g = (lit, xs)" by (cases g)
  with Cons.prems have wf: "plain lit" "xs \<noteq> []" "\<And>x. x \<in> set xs \<Longrightarrow> plain x \<and> CHR ''|'' \<notin> set x"
    by (auto simp: wf_group_def)
  let ?rest = "show_pattern gs alts"
  have "close_paren 1 [] (bar_join xs @ CHR '')'' # ?rest) = Some (bar_join xs, ?rest)"
    using close_paren_plain [of "bar_join xs" "[]" ?rest] plain_bar_join wf(3) by simp
  then have "expandPattern (show_pattern (g # gs) alts) =
      concat (map (\<lambda>part. map (\<lambda>suff. lit @ part @ suff) (expandPattern ?rest)) xs)"
    using takeWhile_plain [OF wf(1)] splitByPipe_bar_join [OF wf(2)] wf(3)
    by (subst expandPattern.simps) (simp add: g)
  moreover have IH: "expandPattern ?rest = alternatives gs alts"
    "length (alternatives gs alts) = prod_list (map (\<lambda>g. length (snd g)) gs) * length alts"
    using Cons by auto
  moreover have "length (concat (map (\<lambda>x. map (\<lambda>rest. lit @ x @ rest) ys) zs)) = length zs * length ys"
    for ys :: "string list" and zs
    by (induction zs) simp_all
  ultimately show ?case by (simp add: g)
qed

theorem expandPattern_alternatives_witness:
  "expandPattern ''*.(a|b).x'' = [''*.a.x'', ''*.b.x'']"
  using expandPattern_alternatives [of "[(''*.'', [''a'', ''b''])]" "[''.x'']"]
  by (simp add: wf_group_def plain_def)

text \<open>The expansion of any text is non-empty, so a configuration entry is never lost.\<close>

lemma expandPattern_nonempty: "expandPattern s \<noteq> []"
proof (induction s rule: expandPattern.induct)
  case (1 s)
  then show ?case
    by (subst expandPattern.simps)
      (auto simp: splitByPipe_nonempty Let_def split: list.split option.split)
qed

end
