(* ===== verification/ClientHello.thy ===== *)
theory ClientHello
  imports Prelude
begin

text \<open>
  The TLS ClientHello parser of \<^verbatim>\<open>internal/utils.go\<close>: where the server name lies in a TLS
  record, whether a key share and an ECH extension are present, and where the record is
  cut (\<open>findLastDotOrMidPos\<close>). The parser walks the record with explicit offsets, so every
  read is a slice that can panic. Shown here: exactly when it panics, that every offset it
  reports lies inside the record, and that it decodes what a well-formed ClientHello
  encodes (the abstract message \<open>client_hello\<close> and its wire format).
\<close>

section \<open>The parser\<close>

definition tlsRecordTypeHandshake :: byte where "tlsRecordTypeHandshake = 0x16"
definition tlsMajorVersion :: byte where "tlsMajorVersion = 0x3"
definition tlsRecordHeaderLen :: int where "tlsRecordHeaderLen = 5"
definition tlsHandshakeHeaderLen :: int where "tlsHandshakeHeaderLen = 4"
definition tlsHandshakeTypeClientHello :: byte where "tlsHandshakeTypeClientHello = 0x1"
definition tlsExtTypeSNI :: int where "tlsExtTypeSNI = 0x0000"
definition tlsExtTypeKeyShare :: int where "tlsExtTypeKeyShare = 0x0033"
definition tlsExtTypeECH :: int where "tlsExtTypeECH = 0x00fe"

lemmas tls_consts =
  tlsRecordTypeHandshake_def tlsMajorVersion_def tlsRecordHeaderLen_def tlsHandshakeHeaderLen_def
  tlsHandshakeTypeClientHello_def tlsExtTypeSNI_def tlsExtTypeKeyShare_def tlsExtTypeECH_def

text \<open>The named results of \<^verbatim>\<open>parseClientHello\<close> (a nil \<open>prtVer\<close> is the empty list).\<close>

record hello_info =
  prtVer :: bytes
  sniStart :: int
  sniLen :: int
  hasKeyShare :: bool
  hasECH :: bool

type_synonym hello_result = "hello_info \<times> go_error option"

definition hello_none :: "bytes \<Rightarrow> hello_info" where
  "hello_none ver = \<lparr>prtVer = ver, sniStart = -1, sniLen = 0, hasKeyShare = False, hasECH = False\<rparr>"

definition hello_fail :: "bytes \<Rightarrow> string \<Rightarrow> hello_result option" where
  "hello_fail ver msg = Some (hello_none ver, Some (ErrorNew msg))"

text \<open>The SNI branch of the extension loop: one server-name list with one host name.\<close>

definition parseSNI :: "bytes \<Rightarrow> int \<Rightarrow> int \<Rightarrow> int \<Rightarrow> hello_info \<Rightarrow> hello_result option" where
  "parseSNI data extDataStart extDataEnd extLen h =
     (if extLen < 2 then
        Some (h, Some (ErrorNew ''malformed SNI extension (too short for list length)''))
      else do {
        listLen \<leftarrow> be16_at data extDataStart;
        if listLen + 2 \<noteq> extLen then
          Some (h, Some (ErrorNew ''SNI list length field mismatch''))
        else do {
          let cursor = extDataStart + 2;
          if cursor + 3 > extDataEnd then Some (h, Some (ErrorNew ''SNI entry too short''))
          else do {
            nameType \<leftarrow> go_index data cursor;
            if nameType \<noteq> 0 then Some (h, Some (ErrorNew ''unsupported SNI name type''))
            else do {
              nameLen \<leftarrow> be16_at data (cursor + 1);
              let nameStart = cursor + 3;
              let nameEnd = nameStart + nameLen;
              if nameEnd > extDataEnd then
                Some (h, Some (ErrorNew ''SNI name length exceeds extension''))
              else Some (h\<lparr>sniStart := nameStart, sniLen := nameLen\<rparr>, None)
            }
          }
        }
      })"

text \<open>The flags an extension sets, then the server name if it is the first SNI extension.\<close>

definition noteExtension :: "int \<Rightarrow> hello_info \<Rightarrow> hello_info" where
  "noteExtension extType h =
     (let h1 = (if extType = tlsExtTypeKeyShare then h\<lparr>hasKeyShare := True\<rparr> else h)
      in (if extType = tlsExtTypeECH then h1\<lparr>hasECH := True\<rparr> else h1))"

definition handleExtension :: "bytes \<Rightarrow> int \<Rightarrow> int \<Rightarrow> int \<Rightarrow> hello_info \<Rightarrow> hello_result option" where
  "handleExtension data extType extDataStart extLen h =
     (let h1 = noteExtension extType h
      in if sniStart h1 = -1 \<and> extType = tlsExtTypeSNI
         then parseSNI data extDataStart (extDataStart + extLen) extLen h1 else Some (h1, None))"

function parseExtensions :: "bytes \<Rightarrow> int \<Rightarrow> int \<Rightarrow> hello_info \<Rightarrow> hello_result option" where
  "parseExtensions data offset extensionsEnd h =
     (if offset + 4 \<le> extensionsEnd then do {
        extType \<leftarrow> be16_at data offset;
        extLen \<leftarrow> be16_at data (offset + 2);
        let extDataStart = offset + 4;
        let extDataEnd = extDataStart + extLen;
        if extDataEnd > extensionsEnd then
          Some (h, Some (ErrorNew ''extension length exceeds extensions block''))
        else do {
          r \<leftarrow> handleExtension data extType extDataStart extLen h;
          if snd r \<noteq> None then Some r
          else parseExtensions data extDataEnd extensionsEnd (fst r)
        }
      } else Some (h, None))"
  by pat_completeness auto
termination
proof (relation "measure (\<lambda>(data, offset, extensionsEnd, h). nat (extensionsEnd - offset))",
    goal_cases)
  case 1
  show ?case by simp
next
  case (2 data offset extensionsEnd h extType extLen)
  then show ?case using be16_val_bounds(1) [of data "offset + 2"] by (auto dest!: be16_at_SomeD)
qed

declare parseExtensions.simps [simp del]

text \<open>The variable-length fields, one definition per section of the source.\<close>

definition helloExtensions :: "bytes \<Rightarrow> bytes \<Rightarrow> int \<Rightarrow> hello_result option" where
  "helloExtensions data ver offset =
     (if offset + 2 > int (length data) then Some (hello_none ver, None) else do {
        extTotalLen \<leftarrow> be16_at data offset;
        let offset = offset + 2;
        if offset + extTotalLen > int (length data) then
          hello_fail ver ''extensions length exceeds data''
        else parseExtensions data offset (offset + extTotalLen) (hello_none ver)
      })"

definition helloCompression :: "bytes \<Rightarrow> bytes \<Rightarrow> int \<Rightarrow> hello_result option" where
  "helloCompression data ver offset =
     (if offset \<ge> int (length data) then
        hello_fail ver ''cannot read compression_methods length'' else do {
        cmb \<leftarrow> go_index data offset;
        let compMethodsLen = uint cmb;
        let offset = offset + 1;
        if offset + compMethodsLen > int (length data) then
          hello_fail ver ''compression_methods exceed data''
        else helloExtensions data ver (offset + compMethodsLen)
      })"

definition helloCipherSuites :: "bytes \<Rightarrow> bytes \<Rightarrow> int \<Rightarrow> hello_result option" where
  "helloCipherSuites data ver offset =
     (if offset + 2 > int (length data) then
        hello_fail ver ''cannot read cipher_suites length'' else do {
        csLen \<leftarrow> be16_at data offset;
        let offset = offset + 2;
        if offset + csLen > int (length data) then hello_fail ver ''cipher_suites exceed data''
        else helloCompression data ver (offset + csLen)
      })"

definition helloSessionID :: "bytes \<Rightarrow> bytes \<Rightarrow> int \<Rightarrow> hello_result option" where
  "helloSessionID data ver offset =
     (if offset \<ge> int (length data) then hello_fail ver ''unexpected end after Random'' else do {
        sidb \<leftarrow> go_index data offset;
        let sessionIDLen = uint sidb;
        let offset = offset + 1;
        if offset + sessionIDLen > int (length data) then
          hello_fail ver ''session_id length exceeds data''
        else helloCipherSuites data ver (offset + sessionIDLen)
      })"

definition helloHandshake :: "bytes \<Rightarrow> int \<Rightarrow> hello_result option" where
  "helloHandshake data recordLen =
     (let offset = tlsRecordHeaderLen in
      if recordLen < tlsHandshakeHeaderLen then hello_fail [] ''handshake message too short''
      else do {
        ht \<leftarrow> go_index data offset;
        if ht \<noteq> tlsHandshakeTypeClientHello then
          hello_fail [] (''not a ClientHello handshake (type='' @ Itoa (uint ht) @ '')'')
        else do {
          l1 \<leftarrow> go_index data (offset + 1);
          l2 \<leftarrow> go_index data (offset + 2);
          l3 \<leftarrow> go_index data (offset + 3);
          let handshakeLen = uint l1 * 65536 + uint l2 * 256 + uint l3;
          if handshakeLen + tlsHandshakeHeaderLen > recordLen then
            hello_fail [] ''handshake length exceeds record length''
          else do {
            let offset = offset + tlsHandshakeHeaderLen;
            if handshakeLen < 2 + 32 + 1 then
              hello_fail [] ''ClientHello too short for mandatory fields''
            else do {
              ver \<leftarrow> go_slice data offset (offset + 2);
              helloSessionID data ver (offset + 2 + 32)
            }
          }
        }
      })"

definition parseClientHello :: "bytes \<Rightarrow> hello_result option" where
  "parseClientHello data = do {
     b0 \<leftarrow> go_index data 0;
     if b0 \<noteq> tlsRecordTypeHandshake then hello_fail [] ''not a TLS handshake record'' else do {
       b1 \<leftarrow> go_index data 1;
       if b1 \<noteq> tlsMajorVersion then hello_fail [] ''not a standard TLS record'' else do {
         recordLen \<leftarrow> be16_at data 3;
         if int (length data) < tlsRecordHeaderLen + recordLen then
           hello_fail [] ''record length exceeds data size''
         else helloHandshake data recordLen
       }
     }
   }"

text \<open>Where the record is cut: at the last dot of the server name, else in its middle.\<close>

definition findLastDotOrMidPos :: "bytes \<Rightarrow> int \<Rightarrow> int \<Rightarrow> int option" where
  "findLastDotOrMidPos data start len = do {
     name \<leftarrow> go_slice data start (start + len);
     let subIdx = LastIndexByte name 0x2E;
     Some (if subIdx = -1 then len div 2 + start else start + subIdx)
   }"

definition bytesHasPrefix :: "bytes \<Rightarrow> string list \<Rightarrow> bool" where
  "bytesHasPrefix b prefixes \<longleftrightarrow>
     (\<exists>p \<in> set prefixes. length b \<ge> length p \<and> string_of_bytes (take (length p) b) = p)"


lemma hello_none_fields [simp]:
  "prtVer (hello_none ver) = ver" "sniStart (hello_none ver) = -1" "sniLen (hello_none ver) = 0"
  "\<not> hasKeyShare (hello_none ver)" "\<not> hasECH (hello_none ver)"
  by (simp_all add: hello_none_def)

section \<open>No out-of-range read, and offsets inside the record\<close>

definition sni_in_range :: "bytes \<Rightarrow> int \<Rightarrow> hello_info \<Rightarrow> bool" where
  "sni_in_range data lo h \<longleftrightarrow>
     (sniStart h = -1 \<and> sniLen h = 0) \<or>
     (lo \<le> sniStart h \<and> 0 \<le> sniLen h \<and> sniStart h + sniLen h \<le> int (length data))"

lemma sni_in_range_none [simp]: "sni_in_range data lo (hello_none ver)"
  by (simp add: sni_in_range_def hello_none_def)

lemma sni_in_range_mono: "sni_in_range data lo h \<Longrightarrow> lo' \<le> lo \<Longrightarrow> sni_in_range data lo' h"
  by (auto simp: sni_in_range_def)

definition hello_ok :: "bytes \<Rightarrow> int \<Rightarrow> hello_result option \<Rightarrow> bool" where
  "hello_ok data lo r \<longleftrightarrow> (\<exists>h err. r = Some (h, err) \<and> sni_in_range data lo h)"

lemma hello_ok_simps [simp]:
  "hello_ok data lo (hello_fail ver msg)"
  "hello_ok data lo (Some (h, err)) \<longleftrightarrow> sni_in_range data lo h"
  by (auto simp: hello_ok_def hello_fail_def)

lemma sni_in_range_note [simp]: "sni_in_range data lo (noteExtension ty h) = sni_in_range data lo h"
  by (simp add: sni_in_range_def noteExtension_def Let_def)

lemma parseSNI_ok:
  assumes "0 \<le> s" and "s + n \<le> int (length data)" and "sni_in_range data lo h" and "lo \<le> s + 5"
  shows "hello_ok data lo (parseSNI data s (s + n) n h)"
proof (cases "n < 2")
  case True
  then show ?thesis using assms by (simp add: parseSNI_def)
next
  case False
  with assms have l: "be16_at data s = Some (be16_val data s)" by (simp add: be16_at_eq)
  show ?thesis
  proof (cases "be16_val data s + 2 = n \<and> \<not> s + 2 + 3 > s + n")
    case False
    with \<open>\<not> n < 2\<close> l assms show ?thesis by (auto simp: parseSNI_def Let_def)
  next
    case True
    with assms have "be16_at data (s + 2 + 1) = Some (be16_val data (s + 2 + 1))"
      and "go_index data (s + 2) = Some (data ! nat (s + 2))"
      by (simp_all add: be16_at_eq go_index_def)
    with \<open>\<not> n < 2\<close> l True assms be16_val_bounds(1) [of data "s + 2 + 1"] show ?thesis
      by (simp add: parseSNI_def sni_in_range_def Let_def)
  qed
qed

lemma handleExtension_ok:
  assumes "0 \<le> s" and "s + n \<le> int (length data)" and "sni_in_range data lo h" and "lo \<le> s + 5"
  shows "hello_ok data lo (handleExtension data ty s n h)"
  using assms by (auto simp: handleExtension_def Let_def intro: parseSNI_ok)

lemma parseExtensions_ok:
  "0 \<le> offset \<Longrightarrow> extensionsEnd \<le> int (length data) \<Longrightarrow> sni_in_range data lo h \<Longrightarrow>
   lo \<le> offset + 9 \<Longrightarrow> hello_ok data lo (parseExtensions data offset extensionsEnd h)"
proof (induction data offset extensionsEnd h rule: parseExtensions.induct)
  case (1 data offset extensionsEnd h)
  let ?ty = "be16_val data offset" and ?n = "be16_val data (offset + 2)"
  note step = parseExtensions.simps [of data offset extensionsEnd h]
  show ?case
  proof (cases "offset + 4 \<le> extensionsEnd \<and> \<not> offset + 4 + ?n > extensionsEnd")
    case False
    with "1.prems" show ?thesis by (auto simp: step be16_at_eq Let_def)
  next
    case True
    with "1.prems" have t: "be16_at data offset = Some ?ty"
      and l: "be16_at data (offset + 2) = Some ?n"
      by (simp_all add: be16_at_eq)
    from True "1.prems" handleExtension_ok [of "offset + 4" ?n data lo h ?ty]
    obtain r where r: "handleExtension data ?ty (offset + 4) ?n h = Some r"
      and rr: "sni_in_range data lo (fst r)" by (auto simp: hello_ok_def)
    have IH: "snd r = None \<Longrightarrow>
        hello_ok data lo (parseExtensions data (offset + 4 + ?n) extensionsEnd (fst r))"
      using True "1.prems" rr be16_val_bounds(1) [of data "offset + 2"]
      by (intro "1.IH" [OF _ t l refl refl _ r]) auto
    from True t l r have "parseExtensions data offset extensionsEnd h =
        (if snd r \<noteq> None then Some r else parseExtensions data (offset + 4 + ?n) extensionsEnd (fst r))"
      by (simp add: step Let_def)
    with IH rr show ?thesis by (cases r) auto
  qed
qed

text \<open>The other sections of the parser, from the inside out.\<close>

lemma helloExtensions_ok:
  "0 \<le> offset \<Longrightarrow> 0 \<le> k \<Longrightarrow> lo \<le> offset + 11 \<Longrightarrow>
   hello_ok data lo (helloExtensions data ver (offset + k))"
  by (auto simp: helloExtensions_def be16_at_eq Let_def intro!: parseExtensions_ok)

lemma helloCompression_ok:
  "0 \<le> offset \<Longrightarrow> 0 \<le> k \<Longrightarrow> lo \<le> offset + 12 \<Longrightarrow>
   hello_ok data lo (helloCompression data ver (offset + k))"
  by (auto simp: helloCompression_def go_index_def Let_def intro!: helloExtensions_ok)

lemma helloCipherSuites_ok:
  "0 \<le> offset \<Longrightarrow> 0 \<le> k \<Longrightarrow> lo \<le> offset + 14 \<Longrightarrow>
   hello_ok data lo (helloCipherSuites data ver (offset + k))"
  by (auto simp: helloCipherSuites_def be16_at_eq be16_val_bounds Let_def intro!: helloCompression_ok)

lemma helloSessionID_ok:
  "0 \<le> offset \<Longrightarrow> lo \<le> offset + 15 \<Longrightarrow> hello_ok data lo (helloSessionID data ver offset)"
  by (auto simp: helloSessionID_def go_index_def Let_def intro!: helloCipherSuites_ok)

lemma helloHandshake_ok:
  assumes "tlsRecordHeaderLen + recordLen \<le> int (length data)"
  shows "hello_ok data 58 (helloHandshake data recordLen)"
proof (cases "recordLen < tlsHandshakeHeaderLen")
  case True
  then show ?thesis by (simp add: helloHandshake_def Let_def)
next
  case False
  have b: "0 \<le> uint (x :: byte)" for x by simp
  show ?thesis
    using False assms b [of "data ! 6"] b [of "data ! 7"] b [of "data ! 8"]
    by (auto simp: helloHandshake_def go_index_def go_slice_def Let_def tls_consts
        intro!: helloSessionID_ok)
qed

lemma parseClientHello_ok:
  "5 \<le> length data \<Longrightarrow> hello_ok data 58 (parseClientHello data)"
  by (auto simp: parseClientHello_def go_index_def be16_at_eq Let_def intro!: helloHandshake_ok)


text \<open>
  The parser panics on exactly the slices too short for the three fixed header reads it
  makes unguarded: the empty slice, and a slice of fewer than five bytes that begins like a
  TLS handshake record. Every caller hands it a slice of at least five bytes or a
  whole TLS record.
\<close>

theorem parseClientHello_panics_iff:
  "parseClientHello data = None \<longleftrightarrow>
     data = [] \<or>
     (data ! 0 = tlsRecordTypeHandshake \<and>
      (length data = 1 \<or> (data ! 1 = tlsMajorVersion \<and> length data < 5)))"
proof (cases "5 \<le> length data")
  case True
  then obtain r where "parseClientHello data = Some r"
    using parseClientHello_ok [of data] by (auto simp: hello_ok_def)
  with True show ?thesis by auto
next
  case False
  then show ?thesis
    by (cases data)
      (auto simp: parseClientHello_def go_index_def be16_at_None hello_fail_def Let_def nth_Cons')
qed

text \<open>
  Whatever the bytes, when the parser returns without a panic the server name it reports
  is either absent (start -1, length 0) or lies inside the record, at or after byte 58, and
  the slice \<^verbatim>\<open>record[sniStart : sniStart+sniLen]\<close> that the callers take cannot panic.
\<close>

theorem parseClientHello_sni_in_bounds:
  assumes "parseClientHello data = Some (h, err)"
  shows "sniStart h = -1 \<and> sniLen h = 0 \<or>
    58 \<le> sniStart h \<and> 0 \<le> sniLen h \<and>
    (\<exists>name. go_slice data (sniStart h) (sniStart h + sniLen h) = Some name \<and>
       int (length name) = sniLen h)"
proof (cases "5 \<le> length data")
  case True
  with assms parseClientHello_ok [of data] have "sni_in_range data 58 h" by simp
  then show ?thesis
    by (auto simp: sni_in_range_def go_slice_def nat_le_iff)
next
  case False
  with assms have "sniStart h = -1 \<and> sniLen h = 0"
    by (auto simp: parseClientHello_def go_index_def be16_at_None hello_fail_def hello_none_def
        split: if_splits)
  then show ?thesis by simp
qed

section \<open>The wire format of a ClientHello, and decoding it\<close>

text \<open>The abstract message: the fields of a ClientHello, extensions as (type, body) pairs.\<close>

record client_hello =
  chVersion :: bytes
  chRandom :: bytes
  chSessionID :: bytes
  chCipherSuites :: bytes
  chCompression :: bytes
  chExtensions :: "(int \<times> bytes) list"

definition enc_ext :: "int \<times> bytes \<Rightarrow> bytes" where
  "enc_ext e = put_uint16 (fst e) @ put_uint16 (int (length (snd e))) @ snd e"

definition enc_sni :: "bytes \<Rightarrow> bytes" where
  "enc_sni host = put_uint16 (int (length host) + 3) @ [0] @ put_uint16 (int (length host)) @ host"

definition enc_exts :: "(int \<times> bytes) list \<Rightarrow> bytes" where
  "enc_exts es = concat (map enc_ext es)"

definition enc_body :: "client_hello \<Rightarrow> bytes" where
  "enc_body ch = chVersion ch @ chRandom ch
     @ [of_nat (length (chSessionID ch))] @ chSessionID ch
     @ put_uint16 (int (length (chCipherSuites ch))) @ chCipherSuites ch
     @ [of_nat (length (chCompression ch))] @ chCompression ch
     @ put_uint16 (int (length (enc_exts (chExtensions ch)))) @ enc_exts (chExtensions ch)"

definition enc_hello :: "byte \<Rightarrow> client_hello \<Rightarrow> bytes" where
  "enc_hello minor ch =
     (let body = enc_body ch; n = int (length body)
      in [tlsRecordTypeHandshake, tlsMajorVersion, minor] @ put_uint16 (n + 4)
         @ [tlsHandshakeTypeClientHello, word_of_int (n div 65536)] @ put_uint16 n @ body)"

definition wf_ext :: "int \<times> bytes \<Rightarrow> bool" where
  "wf_ext e \<longleftrightarrow> 0 \<le> fst e \<and> fst e < 65536 \<and> length (snd e) < 65536 \<and>
     (fst e = tlsExtTypeSNI \<longrightarrow> (\<exists>host. snd e = enc_sni host))"

definition wf_hello :: "client_hello \<Rightarrow> bool" where
  "wf_hello ch \<longleftrightarrow> length (chVersion ch) = 2 \<and> length (chRandom ch) = 32 \<and>
     length (chSessionID ch) < 256 \<and> length (chCipherSuites ch) < 65536 \<and>
     length (chCompression ch) < 256 \<and> length (enc_body ch) + 4 < 65536 \<and>
     (\<forall>e \<in> set (chExtensions ch). wf_ext e)"

text \<open>What decoding should report: the flags of all extensions, the first SNI's place.\<close>

fun scan_exts :: "int \<Rightarrow> (int \<times> bytes) list \<Rightarrow> hello_info \<Rightarrow> hello_info" where
  "scan_exts off [] h = h"
| "scan_exts off ((ty, b) # es) h =
     (let h1 = noteExtension ty h;
          h2 = (if sniStart h1 = -1 \<and> ty = tlsExtTypeSNI
                then h1\<lparr>sniStart := off + 9, sniLen := int (length b) - 5\<rparr> else h1)
      in scan_exts (off + 4 + int (length b)) es h2)"

lemma length_enc_sni: "length (enc_sni host) = length host + 5"
  by (simp add: enc_sni_def)

lemma length_enc_ext [simp]: "length (enc_ext e) = 4 + length (snd e)"
  by (simp add: enc_ext_def)

lemma be16_at_append:
  assumes "int (length pre) = i" and "0 \<le> v" and "v < 65536"
  shows "be16_at (pre @ put_uint16 v @ post) i = Some v"
  using be16_at_put [of pre v post] assms by simp

lemma parseSNI_enc:
  assumes "data = pre @ enc_sni host @ post" and "s = int (length pre)"
    and "n = int (length host) + 5" and "n < 65536"
  shows "parseSNI data s (s + n) n h =
    Some (h\<lparr>sniStart := s + 5, sniLen := int (length host)\<rparr>, None)"
proof -
  have l: "be16_at data s = Some (int (length host) + 3)"
    using assms by (simp add: enc_sni_def be16_at_append)
  have "data = (pre @ put_uint16 (int (length host) + 3)) @ 0 # put_uint16 (int (length host)) @ host @ post"
    using assms by (simp add: enc_sni_def)
  then have i: "go_index data (s + 2) = Some 0"
    using go_index_append_middle [of "pre @ put_uint16 (int (length host) + 3)" 0] assms(2)
    by (simp add: add.commute)
  have "data = (pre @ put_uint16 (int (length host) + 3) @ [0]) @ put_uint16 (int (length host)) @ host @ post"
    using assms by (simp add: enc_sni_def)
  then have m: "be16_at data (s + 2 + 1) = Some (int (length host))"
    using assms by (simp only:) (rule be16_at_append, simp_all)
  show ?thesis using l i m assms(3) by (simp add: parseSNI_def Let_def)
qed

lemma parseExtensions_enc:
  assumes "data = pre @ enc_exts es @ post" and "off = int (length pre)"
    and "\<And>e. e \<in> set es \<Longrightarrow> wf_ext e"
  shows "parseExtensions data off (off + int (length (enc_exts es))) h = Some (scan_exts off es h, None)"
  using assms
proof (induction es arbitrary: pre off h)
  case Nil
  then show ?case by (subst parseExtensions.simps) (simp add: enc_exts_def)
next
  case (Cons e es)
  obtain ty b where e: "e = (ty, b)" by (cases e)
  from Cons.prems(3) [of e] e have wf: "0 \<le> ty" "ty < 65536" "length b < 65536"
    and sni: "ty = tlsExtTypeSNI \<Longrightarrow> \<exists>host. b = enc_sni host" by (auto simp: wf_ext_def)
  let ?stop = "off + int (length (enc_exts (e # es)))"
  have data: "data = pre @ put_uint16 ty @ put_uint16 (int (length b)) @ b @ enc_exts es @ post"
    using Cons.prems(1) e by (simp add: enc_exts_def enc_ext_def)
  have end_eq: "?stop = off + 4 + int (length b) + int (length (enc_exts es))"
    by (simp add: enc_exts_def e)
  have t: "be16_at data off = Some ty"
    unfolding data using wf Cons.prems(2) by (intro be16_at_append) simp_all
  have l: "be16_at data (off + 2) = Some (int (length b))"
    using be16_at_append [of "pre @ put_uint16 ty" "off + 2" "int (length b)" "b @ enc_exts es @ post"]
      wf Cons.prems(2) by (simp add: data)
  define h2 where "h2 = (let h1 = noteExtension ty h in
    if sniStart h1 = -1 \<and> ty = tlsExtTypeSNI
    then h1\<lparr>sniStart := off + 9, sniLen := int (length b) - 5\<rparr> else h1)"
  have x: "handleExtension data ty (off + 4) (int (length b)) h = Some (h2, None)"
  proof (cases "sniStart (noteExtension ty h) = -1 \<and> ty = tlsExtTypeSNI")
    case True
    with sni obtain host where b: "b = enc_sni host" by blast
    have "parseSNI data (off + 4) (off + 4 + int (length b)) (int (length b)) (noteExtension ty h) =
      Some ((noteExtension ty h)\<lparr>sniStart := off + 4 + 5, sniLen := int (length host)\<rparr>, None)"
      by (rule parseSNI_enc [where pre = "pre @ put_uint16 ty @ put_uint16 (int (length b))"
            and post = "enc_exts es @ post"])
        (use data b wf Cons.prems(2) in \<open>simp_all add: length_enc_sni\<close>)
    with True b show ?thesis by (simp add: handleExtension_def h2_def Let_def length_enc_sni)
  next
    case False
    then show ?thesis by (auto simp: handleExtension_def h2_def Let_def)
  qed
  have "parseExtensions data off ?stop h = parseExtensions data (off + 4 + int (length b)) ?stop h2"
    using t l x by (subst parseExtensions.simps) (simp add: end_eq Let_def)
  also have "\<dots> = Some (scan_exts (off + 4 + int (length b)) es h2, None)"
    unfolding end_eq
    by (rule Cons.IH [where pre = "pre @ enc_ext e"])
      (use Cons.prems e in \<open>auto simp: enc_exts_def\<close>)
  finally show ?case by (simp add: e h2_def Let_def)
qed


lemma noteExtension_simps [simp]:
  "prtVer (noteExtension ty h) = prtVer h" "sniStart (noteExtension ty h) = sniStart h"
  "sniLen (noteExtension ty h) = sniLen h"
  "hasKeyShare (noteExtension ty h) \<longleftrightarrow> hasKeyShare h \<or> ty = tlsExtTypeKeyShare"
  "hasECH (noteExtension ty h) \<longleftrightarrow> hasECH h \<or> ty = tlsExtTypeECH"
  by (simp_all add: noteExtension_def Let_def)

lemma scan_exts_flags [simp]:
  "prtVer (scan_exts off es h) = prtVer h"
  "hasKeyShare (scan_exts off es h) \<longleftrightarrow> hasKeyShare h \<or> tlsExtTypeKeyShare \<in> fst ` set es"
  "hasECH (scan_exts off es h) \<longleftrightarrow> hasECH h \<or> tlsExtTypeECH \<in> fst ` set es"
  by (induction off es h rule: scan_exts.induct) (auto simp: Let_def)

lemma scan_exts_sni_set:
  "sniStart h \<noteq> -1 \<Longrightarrow>
   sniStart (scan_exts off es h) = sniStart h \<and> sniLen (scan_exts off es h) = sniLen h"
  by (induction off es h rule: scan_exts.induct) (simp_all add: Let_def)

lemma scan_exts_sni:
  "sniStart h = -1 \<Longrightarrow> 0 \<le> off \<Longrightarrow>
   (case map_of es tlsExtTypeSNI of
      None \<Rightarrow> sniStart (scan_exts off es h) = -1 \<and> sniLen (scan_exts off es h) = sniLen h
    | Some b \<Rightarrow> \<exists>pre post. enc_exts es = pre @ enc_ext (tlsExtTypeSNI, b) @ post \<and>
        sniStart (scan_exts off es h) = off + int (length pre) + 9 \<and>
        sniLen (scan_exts off es h) = int (length b) - 5)"
proof (induction off es h rule: scan_exts.induct)
  case (1 off h)
  then show ?case by simp
next
  case (2 off ty b es h)
  show ?case
  proof (cases "ty = tlsExtTypeSNI")
    case True
    with "2.prems" have "sniStart (scan_exts off ((ty, b) # es) h) = off + 9"
      and "sniLen (scan_exts off ((ty, b) # es) h) = int (length b) - 5"
      by (simp_all add: Let_def scan_exts_sni_set)
    moreover have "enc_exts ((ty, b) # es) = [] @ enc_ext (ty, b) @ enc_exts es"
      by (simp add: enc_exts_def)
    ultimately show ?thesis using True by (simp del: scan_exts.simps)
  next
    case False
    let ?o = "off + 4 + int (length b)" and ?h = "noteExtension ty h"
    have scan: "scan_exts off ((ty, b) # es) h = scan_exts ?o es ?h" using False by (simp add: Let_def)
    have IH: "case map_of es tlsExtTypeSNI of
      None \<Rightarrow> sniStart (scan_exts ?o es ?h) = -1 \<and> sniLen (scan_exts ?o es ?h) = sniLen ?h
    | Some b' \<Rightarrow> \<exists>pre post. enc_exts es = pre @ enc_ext (tlsExtTypeSNI, b') @ post \<and>
        sniStart (scan_exts ?o es ?h) = ?o + int (length pre) + 9 \<and>
        sniLen (scan_exts ?o es ?h) = int (length b') - 5"
      using "2.IH" [OF refl refl] "2.prems" False by (simp cong: option.case_cong)
    show ?thesis
    proof (cases "map_of es tlsExtTypeSNI")
      case None
      with IH False show ?thesis by (simp add: scan del: scan_exts.simps)
    next
      case (Some b')
      with IH obtain pre post where "enc_exts es = pre @ enc_ext (tlsExtTypeSNI, b') @ post"
        "sniStart (scan_exts ?o es ?h) = ?o + int (length pre) + 9"
        "sniLen (scan_exts ?o es ?h) = int (length b') - 5" by auto
      then have "enc_exts ((ty, b) # es) = (enc_ext (ty, b) @ pre) @ enc_ext (tlsExtTypeSNI, b') @ post"
        and "sniStart (scan_exts ?o es ?h) = off + int (length (enc_ext (ty, b) @ pre)) + 9"
        and "sniLen (scan_exts ?o es ?h) = int (length b') - 5"
        by (simp_all add: enc_exts_def)
      then have "\<exists>pre post. enc_exts ((ty, b) # es) = pre @ enc_ext (tlsExtTypeSNI, b') @ post \<and>
          sniStart (scan_exts ?o es ?h) = off + int (length pre) + 9 \<and>
          sniLen (scan_exts ?o es ?h) = int (length b') - 5" by blast
      moreover have "map_of ((ty, b) # es) tlsExtTypeSNI = Some b'" using Some False by simp
      ultimately show ?thesis by (simp only: scan option.case)
    qed
  qed
qed

text \<open>
  Decoding the sections in turn: each section's length field is what the encoder wrote, so
  the parser's offset after it is the length of everything before the next section.
\<close>

lemma go_index_at: "int (length pre) = i \<Longrightarrow> go_index (pre @ x # post) i = Some x"
  using go_index_append_middle [of pre x post] by simp

lemma uint_of_nat_byte: "n < 256 \<Longrightarrow> uint (of_nat n :: byte) = int n"
  by (simp add: uint_nat unat_of_nat)

lemma helloExtensions_enc:
  assumes "data = pre @ put_uint16 (int (length (enc_exts es))) @ enc_exts es"
    and "off = int (length pre)" and "length (enc_exts es) < 65536"
    and "\<And>e. e \<in> set es \<Longrightarrow> wf_ext e"
  shows "helloExtensions data ver off = Some (scan_exts (off + 2) es (hello_none ver), None)"
proof -
  have "be16_at data off = Some (int (length (enc_exts es)))"
    using assms by (simp add: be16_at_append)
  moreover have "parseExtensions data (off + 2) (off + 2 + int (length (enc_exts es))) (hello_none ver)
      = Some (scan_exts (off + 2) es (hello_none ver), None)"
    by (rule parseExtensions_enc [where pre = "pre @ put_uint16 (int (length (enc_exts es)))" and post = "[]"])
      (use assms in simp_all)
  moreover have "int (length data) = off + 2 + int (length (enc_exts es))" using assms by simp
  ultimately show ?thesis by (simp add: helloExtensions_def Let_def)
qed

lemma helloCompression_enc:
  assumes "data = pre @ of_nat (length cm) # cm @ post" and "off = int (length pre)"
    and "length cm < 256"
  shows "helloCompression data ver off = helloExtensions data ver (off + 1 + int (length cm))"
proof -
  have "go_index data off = Some (of_nat (length cm))" using assms by (simp add: go_index_at)
  with assms show ?thesis by (simp add: helloCompression_def Let_def uint_of_nat_byte)
qed

lemma helloCipherSuites_enc:
  assumes "data = pre @ put_uint16 (int (length cs)) @ cs @ post" and "off = int (length pre)"
    and "length cs < 65536"
  shows "helloCipherSuites data ver off = helloCompression data ver (off + 2 + int (length cs))"
proof -
  have "be16_at data off = Some (int (length cs))" using assms by (simp add: be16_at_append)
  with assms show ?thesis by (simp add: helloCipherSuites_def Let_def)
qed

lemma helloSessionID_enc:
  assumes "data = pre @ of_nat (length sid) # sid @ post" and "off = int (length pre)"
    and "length sid < 256"
  shows "helloSessionID data ver off = helloCipherSuites data ver (off + 1 + int (length sid))"
proof -
  have "go_index data off = Some (of_nat (length sid))" using assms by (simp add: go_index_at)
  with assms show ?thesis by (simp add: helloSessionID_def Let_def uint_of_nat_byte)
qed


definition body_start :: "client_hello \<Rightarrow> int" where
  "body_start ch = 49 + int (length (chSessionID ch)) + int (length (chCipherSuites ch))
     + int (length (chCompression ch))"

lemma helloSessionID_body:
  assumes "data = pre @ enc_body ch" and "length pre = 9" and "wf_hello ch"
  shows "helloSessionID data ver 43 = Some (scan_exts (body_start ch) (chExtensions ch) (hello_none ver), None)"
proof -
  let ?sid = "chSessionID ch" and ?cs = "chCipherSuites ch" and ?cm = "chCompression ch"
  let ?ex = "enc_exts (chExtensions ch)"
  let ?p1 = "pre @ chVersion ch @ chRandom ch"
  let ?p2 = "?p1 @ [of_nat (length ?sid)] @ ?sid"
  let ?p3 = "?p2 @ put_uint16 (int (length ?cs)) @ ?cs"
  let ?p4 = "?p3 @ [of_nat (length ?cm)] @ ?cm"
  have wf: "length (chVersion ch) = 2" "length (chRandom ch) = 32" "length ?sid < 256"
    "length ?cs < 65536" "length ?cm < 256" "length ?ex < 65536"
    "\<And>e. e \<in> set (chExtensions ch) \<Longrightarrow> wf_ext e"
    using assms(3) by (auto simp: wf_hello_def enc_body_def)
  have "helloSessionID data ver 43 = helloCipherSuites data ver (43 + 1 + int (length ?sid))"
    by (rule helloSessionID_enc [where pre = ?p1]) (use assms(1,2) wf in \<open>simp_all add: enc_body_def\<close>)
  also have "\<dots> = helloCompression data ver (44 + int (length ?sid) + 2 + int (length ?cs))"
    using helloCipherSuites_enc [of data ?p2 ?cs _ "44 + int (length ?sid)" ver] assms(1,2) wf
    by (simp add: enc_body_def)
  also have "\<dots> = helloExtensions data ver (body_start ch - 2)"
    using helloCompression_enc [of data ?p3 ?cm _ "46 + int (length ?sid) + int (length ?cs)" ver]
      assms(1,2) wf
    by (simp add: enc_body_def body_start_def algebra_simps)
  also have "\<dots> = Some (scan_exts (body_start ch - 2 + 2) (chExtensions ch) (hello_none ver), None)"
    by (rule helloExtensions_enc [where pre = ?p4])
      (use assms(1,2) wf in \<open>simp_all add: enc_body_def body_start_def\<close>)
  finally show ?thesis by simp
qed

lemma parseClientHello_scan:
  assumes "wf_hello ch"
  shows "parseClientHello (enc_hello minor ch) =
    Some (scan_exts (body_start ch) (chExtensions ch) (hello_none (chVersion ch)), None)"
proof -
  let ?n = "int (length (enc_body ch))" and ?data = "enc_hello minor ch"
  from assms have n: "?n + 4 < 65536" "35 \<le> ?n"
    by (auto simp: wf_hello_def enc_body_def)
  have data: "?data = [0x16, 3, minor] @ put_uint16 (?n + 4) @ 1 # 0 # put_uint16 ?n @ enc_body ch"
    using n by (simp add: enc_hello_def Let_def tls_consts)
  have len: "int (length ?data) = 9 + ?n" by (simp add: data)
  have r: "be16_at ?data 3 = Some (?n + 4)"
    unfolding data using n by (intro be16_at_append) simp_all
  have "be16_at ?data 7 = Some ?n"
    using be16_at_append [of "[0x16, 3, minor] @ put_uint16 (?n + 4) @ [1, 0]" 7 ?n "enc_body ch"] n
    by (simp add: data)
  then have l: "256 * uint (?data ! 7) + uint (?data ! 8) = ?n"
    by (auto dest!: be16_at_SomeD simp: be16_val_def)
  have i: "?data ! 5 = 1" "?data ! 6 = 0" "?data ! 0 = 0x16" "?data ! 1 = 3"
    by (simp_all add: data put_uint16_def)
  have v: "go_slice ?data 9 11 = Some (chVersion ch)"
    using go_slice_append_middle [of "[0x16, 3, minor] @ put_uint16 (?n + 4) @ 1 # 0 # put_uint16 ?n"
        "chVersion ch"] assms by (simp add: data enc_body_def wf_hello_def)
  have "helloSessionID ?data (chVersion ch) 43 =
      Some (scan_exts (body_start ch) (chExtensions ch) (hello_none (chVersion ch)), None)"
    by (rule helloSessionID_body [where pre = "[0x16, 3, minor] @ put_uint16 (?n + 4) @ 1 # 0 # put_uint16 ?n"])
      (use assms data in simp_all)
  then have "helloHandshake ?data (?n + 4) =
      Some (scan_exts (body_start ch) (chExtensions ch) (hello_none (chVersion ch)), None)"
    using i l v n len by (simp add: helloHandshake_def go_index_def tls_consts Let_def)
  then show ?thesis
    using i r n len by (simp add: parseClientHello_def go_index_def tls_consts)
qed

lemma hello_decodes:
  assumes "wf_hello ch"
  shows "\<exists>h. parseClientHello (enc_hello minor ch) = Some (h, None) \<and>
    prtVer h = chVersion ch \<and>
    (hasKeyShare h \<longleftrightarrow> tlsExtTypeKeyShare \<in> fst ` set (chExtensions ch)) \<and>
    (hasECH h \<longleftrightarrow> tlsExtTypeECH \<in> fst ` set (chExtensions ch)) \<and>
    (case map_of (chExtensions ch) tlsExtTypeSNI of
       None \<Rightarrow> sniStart h = -1
     | Some b \<Rightarrow> (\<exists>host. b = enc_sni host \<and>
         go_slice (enc_hello minor ch) (sniStart h) (sniStart h + sniLen h) = Some host))"
proof -
  let ?h = "scan_exts (body_start ch) (chExtensions ch) (hello_none (chVersion ch))"
  let ?data = "enc_hello minor ch"
  have off: "0 \<le> body_start ch" by (simp add: body_start_def)
  obtain front where data: "?data = front @ enc_exts (chExtensions ch)"
    and front: "int (length front) = body_start ch"
    using assms by (auto simp: enc_hello_def Let_def enc_body_def body_start_def wf_hello_def intro!: that)
  have "case map_of (chExtensions ch) tlsExtTypeSNI of
       None \<Rightarrow> sniStart ?h = -1
     | Some b \<Rightarrow> (\<exists>host. b = enc_sni host \<and>
         go_slice ?data (sniStart ?h) (sniStart ?h + sniLen ?h) = Some host)"
  proof (cases "map_of (chExtensions ch) tlsExtTypeSNI")
    case None
    then show ?thesis using scan_exts_sni [of "hello_none (chVersion ch)" "body_start ch" "chExtensions ch"] off
      by simp
  next
    case (Some b)
    then have "(tlsExtTypeSNI, b) \<in> set (chExtensions ch)" by (rule map_of_SomeD)
    with assms obtain host where b: "b = enc_sni host" by (auto simp: wf_hello_def wf_ext_def)
    from Some scan_exts_sni [of "hello_none (chVersion ch)" "body_start ch" "chExtensions ch"] off
    obtain pre post where ex: "enc_exts (chExtensions ch) = pre @ enc_ext (tlsExtTypeSNI, b) @ post"
      and st: "sniStart ?h = body_start ch + int (length pre) + 9" and ln: "sniLen ?h = int (length b) - 5"
      by (auto simp: hello_none_def)
    let ?p = "front @ pre @ put_uint16 tlsExtTypeSNI @ put_uint16 (int (length b))
      @ put_uint16 (int (length host) + 3) @ [0] @ put_uint16 (int (length host))"
    have "?data = ?p @ host @ post" by (simp add: data ex enc_ext_def b enc_sni_def)
    moreover have "sniStart ?h = int (length ?p)" using front st by simp
    moreover have "sniLen ?h = int (length host)" using ln b by (simp add: length_enc_sni)
    ultimately have "go_slice ?data (sniStart ?h) (sniStart ?h + sniLen ?h) = Some host"
      using go_slice_append_middle [of ?p host post] by simp
    with Some b show ?thesis by auto
  qed
  then show ?thesis
    using parseClientHello_scan [OF assms, of minor] by simp
qed

text \<open>
  C2: decoding inverts encoding. On the wire image of any well-formed ClientHello the parser
  succeeds; it returns the protocol version, whether a key-share and an ECH extension are
  present among all extensions, and the exact place of the host name of the first
  server-name extension (none if there is no such extension).
\<close>

theorem parseClientHello_decodes:
  assumes "wf_hello ch"
  shows "\<exists>h. parseClientHello (enc_hello minor ch) = Some (h, None) \<and>
    prtVer h = chVersion ch \<and>
    (hasKeyShare h \<longleftrightarrow> tlsExtTypeKeyShare \<in> fst ` set (chExtensions ch)) \<and>
    (hasECH h \<longleftrightarrow> tlsExtTypeECH \<in> fst ` set (chExtensions ch)) \<and>
    (case map_of (chExtensions ch) tlsExtTypeSNI of
       None \<Rightarrow> sniStart h = -1
     | Some b \<Rightarrow> (\<exists>host. b = enc_sni host \<and>
         go_slice (enc_hello minor ch) (sniStart h) (sniStart h + sniLen h) = Some host))"
  using assms by (rule hello_decodes)

section \<open>Where a record is cut\<close>

lemma findLastDotOrMidPos_panics_iff:
  "findLastDotOrMidPos data start len = None \<longleftrightarrow> \<not> (0 \<le> start \<and> 0 \<le> len \<and> start + len \<le> int (length data))"
  by (auto simp: findLastDotOrMidPos_def go_slice_def)

lemma findLastDotOrMidPos_cut:
  assumes "go_slice data start (start + len) = Some name"
  obtains cut where "findLastDotOrMidPos data start len = Some cut"
    and "start \<le> cut" and "cut \<le> start + len" and "0 < len \<Longrightarrow> cut < start + len"
    and "0x2E \<notin> set name \<Longrightarrow> cut = start + len div 2"
    and "0x2E \<in> set name \<Longrightarrow> name ! nat (cut - start) = 0x2E \<and> 0x2E \<notin> set (drop (nat (cut - start) + 1) name)"
proof (cases "0x2E \<in> set name")
  case True
  then have i: "LastIndexByte name 0x2E \<noteq> -1" by simp
  from go_slice_length [OF assms] have len: "int (length name) = len" by simp
  show thesis
    by (rule that [of "start + LastIndexByte name 0x2E"])
      (use True i assms len LastIndexByte_present [OF i] in \<open>simp_all add: findLastDotOrMidPos_def\<close>)
next
  case False
  from go_slice_SomeD [OF assms] have "0 \<le> len" by simp
  then show thesis
    by (intro that [of "len div 2 + start"]) (use False assms in \<open>simp_all add: findLastDotOrMidPos_def\<close>)
qed

lemma bytesHasPrefix_iff:
  "bytesHasPrefix b ps \<longleftrightarrow> (\<exists>p \<in> set ps. HasPrefix (string_of_bytes b) p)"
proof -
  have "string_of_bytes (take n b) = take n (string_of_bytes b)" for n
    by (simp add: string_of_bytes_def take_map)
  moreover have "HasPrefix (string_of_bytes b) p \<Longrightarrow> length p \<le> length b" for p
    using length_take [of "length p" "string_of_bytes b"] by (simp add: HasPrefix_def)
  ultimately show ?thesis by (auto simp: bytesHasPrefix_def HasPrefix_def)
qed

section \<open>A concrete ClientHello\<close>

definition hello_example :: client_hello where
  "hello_example = \<lparr>chVersion = [3, 3], chRandom = replicate 32 7, chSessionID = [],
     chCipherSuites = [0x13, 0x01], chCompression = [0],
     chExtensions = [(tlsExtTypeKeyShare, [0, 0]), (tlsExtTypeSNI, enc_sni (bytes_of_string ''a.io''))]\<rparr>"

lemma wf_hello_example: "wf_hello hello_example"
  by (auto simp: wf_hello_def hello_example_def wf_ext_def tls_consts enc_body_def enc_exts_def
      length_enc_sni)

text \<open>A record-shaped slice with the name \<^verbatim>\<open>a.b\<close> at offset 58.\<close>

definition record_example :: bytes where
  "record_example = [0x16, 3, 1, 0, 60] @ replicate 53 0 @ [0x61, 0x2E, 0x62] @ replicate 4 0"

lemma record_example_name: "go_slice record_example 58 (58 + 3) = Some [0x61, 0x2E, 0x62]"
  by (simp add: record_example_def go_slice_def)

theorem parseClientHello_decodes_witness:
  "\<exists>h. parseClientHello (enc_hello 1 hello_example) = Some (h, None) \<and> hasKeyShare h \<and> \<not> hasECH h \<and>
     go_slice (enc_hello 1 hello_example) (sniStart h) (sniStart h + sniLen h) = Some (bytes_of_string ''a.io'')"
proof -
  have sni: "enc_sni host = enc_sni host' \<Longrightarrow> host = host'" for host host'
    using length_enc_sni [of host] length_enc_sni [of host'] by (simp add: enc_sni_def)
  show ?thesis
    using parseClientHello_decodes [OF wf_hello_example, of 1]
    by (auto simp: hello_example_def tls_consts dest: sni)
qed

theorem parseClientHello_sni_in_bounds_witness:
  "\<exists>h e. parseClientHello (enc_hello 1 hello_example) = Some (h, e) \<and>
     (sniStart h = -1 \<and> sniLen h = 0 \<or> 58 \<le> sniStart h)"
proof -
  obtain h where "parseClientHello (enc_hello 1 hello_example) = Some (h, None)"
    using parseClientHello_scan [OF wf_hello_example, of 1] by blast
  with parseClientHello_sni_in_bounds [of "enc_hello 1 hello_example" h None] show ?thesis by blast
qed

end
