(* ===== verification/GoIO.thy ===== *)
theory GoIO
  imports Prelude
begin

text \<open>
  Go code with effects: a computation transforms an explicit world and ends in a value, a Go
  error, or a panic. One world is shared by the code that writes to the remote TCP socket
  (\<^verbatim>\<open>fragment.go\<close>, \<^verbatim>\<open>oob_unix.go\<close>, \<^verbatim>\<open>waitack_linux.go\<close>, \<^verbatim>\<open>desync_linux.go\<close>,
  \<^verbatim>\<open>tun_bridge.go\<close>): the log of the system calls made on the socket, and the clock. The
  operating system is a parameter of every operation: from the world and a system call it
  gives a reply, which may be an error and takes some time.
\<close>

section \<open>Outcomes and sequencing\<close>

datatype 'a outcome = Ok 'a | Fail go_error | Panic

type_synonym ('w, 'a) io = "'w \<Rightarrow> 'a outcome \<times> 'w"

definition io_return :: "'a \<Rightarrow> ('w, 'a) io" where
  "io_return x w = (Ok x, w)"

definition io_fail :: "go_error \<Rightarrow> ('w, 'a) io" where
  "io_fail e w = (Fail e, w)"

text \<open>\<open>x, err := m; if err != nil { return err }; k x\<close>.\<close>

definition io_bind :: "('w, 'a) io \<Rightarrow> ('a \<Rightarrow> ('w, 'b) io) \<Rightarrow> ('w, 'b) io" where
  "io_bind m k w = (case m w of
       (Ok x, w') \<Rightarrow> k x w'
     | (Fail e, w') \<Rightarrow> (Fail e, w')
     | (Panic, w') \<Rightarrow> (Panic, w'))"

text \<open>\<open>if err := m; err != nil { return E.WithStr(op, err) }\<close>.\<close>

definition io_wrap :: "string \<Rightarrow> ('w, 'a) io \<Rightarrow> ('w, 'a) io" where
  "io_wrap op m w = (case m w of (Fail e, w') \<Rightarrow> (Fail (WithStr op e), w') | r \<Rightarrow> r)"

text \<open>\<open>x, err := m\<close> with both kept: an error is handed to the continuation.\<close>

definition io_try :: "('w, 'a) io \<Rightarrow> ('w, go_error + 'a) io" where
  "io_try m w = (case m w of
       (Ok x, w') \<Rightarrow> (Ok (Inr x), w')
     | (Fail e, w') \<Rightarrow> (Ok (Inl e), w')
     | (Panic, w') \<Rightarrow> (Panic, w'))"

text \<open>An index or slice expression: out of range is a run-time panic.\<close>

definition io_option :: "'a option \<Rightarrow> ('w, 'a) io" where
  "io_option x w = (case x of None \<Rightarrow> (Panic, w) | Some a \<Rightarrow> (Ok a, w))"

fun io_each :: "('a \<Rightarrow> ('w, unit) io) \<Rightarrow> 'a list \<Rightarrow> ('w, unit) io" where
  "io_each f [] = io_return ()"
| "io_each f (x # xs) = io_bind (f x) (\<lambda>_. io_each f xs)"

text \<open>\<open>for i, x := range xs\<close>.\<close>

definition io_each_indexed :: "(nat \<Rightarrow> 'a \<Rightarrow> ('w, unit) io) \<Rightarrow> 'a list \<Rightarrow> ('w, unit) io" where
  "io_each_indexed f xs = io_each (\<lambda>(i, x). f i x) (enumerate 0 xs)"

lemma io_bind_return [simp]: "io_bind (io_return x) k = k x" "io_bind m io_return = m"
  by (auto simp: io_bind_def io_return_def fun_eq_iff split: outcome.splits prod.splits)

lemma io_bind_fail [simp]: "io_bind (io_fail e) k = io_fail e"
  by (simp add: io_bind_def io_fail_def fun_eq_iff)

lemma io_bind_assoc [simp]: "io_bind (io_bind m f) g = io_bind m (\<lambda>x. io_bind (f x) g)"
  by (auto simp: io_bind_def fun_eq_iff split: outcome.splits prod.splits)

lemma io_option_simps [simp]: "io_option (Some x) = io_return x" "io_option None w = (Panic, w)"
  by (simp_all add: io_option_def io_return_def fun_eq_iff)

lemma io_each_map: "io_each f (map g xs) = io_each (\<lambda>x. f (g x)) xs"
  by (induction xs) simp_all

lemma io_each_append [simp]: "io_each f (xs @ ys) = io_bind (io_each f xs) (\<lambda>_. io_each f ys)"
  by (induction xs) simp_all

lemma io_bind_Ok_iff [simp]:
  "io_bind m k w = (Ok y, w2) \<longleftrightarrow> (\<exists>x w1. m w = (Ok x, w1) \<and> k x w1 = (Ok y, w2))"
  by (auto simp: io_bind_def split: outcome.splits prod.splits)

lemma io_return_Ok_iff [simp]: "io_return x w = (Ok y, w') \<longleftrightarrow> y = x \<and> w' = w"
  by (auto simp: io_return_def)

lemma io_fail_not_Ok [simp]: "io_fail e w = (Ok y, w') \<longleftrightarrow> False"
  by (simp add: io_fail_def)

lemma io_wrap_Ok_iff [simp]: "io_wrap op m w = (Ok y, w') \<longleftrightarrow> m w = (Ok y, w')"
  by (auto simp: io_wrap_def split: outcome.splits prod.splits)

lemma io_option_Ok_iff [simp]: "io_option x w = (Ok y, w') \<longleftrightarrow> x = Some y \<and> w' = w"
  by (auto simp: io_option_def split: option.splits)

subsection \<open>Computations that return\<close>

text \<open>
  \<open>returns I ok m\<close>: from a world that satisfies \<open>I\<close>, \<open>m\<close> does not panic and ends in a world
  that satisfies \<open>I\<close>; when \<open>ok\<close> holds it does not fail either. The rules follow the code, so
  one derivation gives both that a routine never panics and that it succeeds when nothing
  it calls fails.
\<close>

definition returns :: "('w \<Rightarrow> bool) \<Rightarrow> bool \<Rightarrow> ('w, 'a) io \<Rightarrow> bool" where
  "returns I ok m \<longleftrightarrow> (\<forall>w. I w \<longrightarrow>
     fst (m w) \<noteq> Panic \<and> (ok \<longrightarrow> (\<forall>e. fst (m w) \<noteq> Fail e)) \<and> I (snd (m w)))"

named_theorems returns_intros \<open>syntax-directed rules for \<open>returns\<close>\<close>

lemma returns_return [returns_intros]: "returns I ok (io_return x)"
  by (simp add: returns_def io_return_def)

lemma returns_fail [returns_intros]: "\<not> ok \<Longrightarrow> returns I ok (io_fail e)"
  by (simp add: returns_def io_fail_def)

lemma returns_option [returns_intros]: "x = Some a \<Longrightarrow> returns I ok (io_option x)"
  by (simp add: returns_def io_return_def)

lemma returns_bind [returns_intros]:
  assumes "returns I ok m" and "\<And>x. returns I ok (k x)"
  shows "returns I ok (io_bind m k)"
  unfolding returns_def
proof (intro allI impI)
  fix w assume w: "I w"
  obtain r w1 where m: "m w = (r, w1)" by (cases "m w")
  with assms(1) w have r: "r \<noteq> Panic" "ok \<Longrightarrow> \<forall>e. r \<noteq> Fail e" "I w1" by (auto simp: returns_def)
  then show "fst (io_bind m k w) \<noteq> Panic \<and> (ok \<longrightarrow> (\<forall>e. fst (io_bind m k w) \<noteq> Fail e)) \<and>
      I (snd (io_bind m k w))"
    using assms(2) m by (cases r) (auto simp: returns_def io_bind_def)
qed

lemma returns_wrap [returns_intros]: "returns I ok m \<Longrightarrow> returns I ok (io_wrap op m)"
  unfolding returns_def io_wrap_def by (auto split: outcome.split prod.split)

lemma returns_try: "returns I False m \<Longrightarrow> returns I ok (io_try m)"
  unfolding returns_def io_try_def by (auto split: outcome.split prod.split)

lemma returns_each [returns_intros]:
  "(\<And>x. x \<in> set xs \<Longrightarrow> returns I ok (f x)) \<Longrightarrow> returns I ok (io_each f xs)"
  by (induction xs) (auto intro: returns_intros)

lemma returns_each_indexed [returns_intros]:
  "(\<And>i x. x \<in> set xs \<Longrightarrow> returns I ok (f i x)) \<Longrightarrow> returns I ok (io_each_indexed f xs)"
  unfolding io_each_indexed_def
  by (rule returns_each) (auto simp: in_set_enumerate_eq)

lemma returns_if [returns_intros]:
  "(b \<Longrightarrow> returns I ok m) \<Longrightarrow> (\<not> b \<Longrightarrow> returns I ok n) \<Longrightarrow> returns I ok (if b then m else n)"
  by simp

lemma returns_OkE:
  assumes "returns I True m" and "I w"
  obtains x w' where "m w = (Ok x, w')" and "I w'"
  using assms by (cases "m w"; cases "fst (m w)") (auto simp: returns_def)

section \<open>The socket world\<close>

text \<open>
  The system calls on one TCP socket. A send that a signal interrupted (\<^verbatim>\<open>EINTR\<close>) has sent
  nothing and is repeated by the code; the call recorded here is the one that was not
  interrupted. The calls of the Windows build that are not on the socket itself (a temporary file, an event,
  the transmission of the file) are grouped apart.
\<close>

datatype win_op =
    FileCreate
  | FileSeek
  | FileWrite bytes
  | FileSync
  | FileRawConn
  | FileControl
  | FileClose
  | FileRemove
  | EventCreate
  | EventWait
  | EventClose
  | SemAcquire
  | SemRelease
  | Transmit nat
  | TransmitResult
  | GetLastError

datatype sock_op =
    SyscallConn
  | RawControl
  | RawWrite
  | ConnWrite bytes
  | SendOOB bytes
  | Sleep int
  | GetTCPInfo
  | GetTTL bool
  | SetTTL bool int
  | Pipe
  | Mmap
  | Vmsplice nat
  | Splice nat
  | PageStore bytes
  | Win win_op

record reply =
  rerr :: "go_error option"
  rval :: int
  rdur :: nat

record sock =
  is_tcp :: bool
  calls :: "(sock_op \<times> go_error option) list"
  now :: int

type_synonym sock_env = "sock \<Rightarrow> sock_op \<Rightarrow> reply"

text \<open>One system call; a sleep cannot fail and takes at least its duration.\<close>

definition sys :: "sock_env \<Rightarrow> sock_op \<Rightarrow> (sock, int) io" where
  "sys env op w =
     (let r = env w op;
          w' = w\<lparr>calls := calls w @ [(op, rerr r)], now := now w + int (rdur r)\<rparr>
      in (case rerr r of None \<Rightarrow> Ok (rval r) | Some e \<Rightarrow> Fail e, w'))"

definition sleep :: "sock_env \<Rightarrow> int \<Rightarrow> (sock, unit) io" where
  "sleep env d w =
     (Ok (), w\<lparr>calls := calls w @ [(Sleep d, None)], now := now w + max 0 d + int (rdur (env w (Sleep d)))\<rparr>)"

text \<open>When \<open>ok\<close> is asked for: a TCP connection, and an operating system that reports no error.\<close>

definition sock_ok :: "bool \<Rightarrow> sock \<Rightarrow> bool" where
  "sock_ok ok w \<longleftrightarrow> (ok \<longrightarrow> is_tcp w)"

definition env_ok :: "bool \<Rightarrow> sock_env \<Rightarrow> bool" where
  "env_ok ok env \<longleftrightarrow> (ok \<longrightarrow> (\<forall>w op. rerr (env w op) = None))"

lemma env_ok_False [simp]: "env_ok False env" "sock_ok False w"
  by (simp_all add: env_ok_def sock_ok_def)

lemma returns_sys [returns_intros]: "env_ok ok env \<Longrightarrow> returns (sock_ok ok) ok (sys env op)"
  by (simp add: returns_def sys_def sock_ok_def env_ok_def Let_def split: option.splits)

lemma returns_sleep [returns_intros]: "returns (sock_ok ok) ok (sleep env d)"
  by (simp add: returns_def sleep_def sock_ok_def)

text \<open>\<^verbatim>\<open>getTCPRawConn\<close> of \<^verbatim>\<open>utils.go\<close>.\<close>

definition getTCPRawConn :: "sock_env \<Rightarrow> (sock, unit) io" where
  "getTCPRawConn env w =
     (if \<not> is_tcp w then io_fail (ErrorNew ''connection is not *net.TCPConn'') w
      else io_bind (io_wrap ''get raw conn'' (sys env SyscallConn)) (\<lambda>_. io_return ()) w)"

lemma returns_getTCPRawConn [returns_intros]:
  assumes "env_ok ok env"
  shows "returns (sock_ok ok) ok (getTCPRawConn env)"
proof -
  have "returns (sock_ok ok) ok
      (io_bind (io_wrap ''get raw conn'' (sys env SyscallConn)) (\<lambda>_. io_return () :: (sock, unit) io))"
    using assms by (intro returns_intros)
  then show ?thesis by (auto simp: returns_def getTCPRawConn_def io_fail_def sock_ok_def)
qed

text \<open>\<^verbatim>\<open>conn.Write(b)\<close>, the error only.\<close>

definition conn_write :: "sock_env \<Rightarrow> bytes \<Rightarrow> (sock, unit) io" where
  "conn_write env b = io_bind (sys env (ConnWrite b)) (\<lambda>_. io_return ())"

lemma returns_conn_write [returns_intros]: "env_ok ok env \<Longrightarrow> returns (sock_ok ok) ok (conn_write env b)"
  unfolding conn_write_def by (intro returns_intros)

subsection \<open>What a run adds to the log\<close>

text \<open>
  \<open>adds m P\<close>: a run of \<open>m\<close> that succeeds appends to the log calls that all succeeded and
  whose list satisfies \<open>P\<close>. The rules follow the structure of the code.
\<close>

definition adds :: "(sock, 'a) io \<Rightarrow> ('a \<Rightarrow> sock_op list \<Rightarrow> bool) \<Rightarrow> bool" where
  "adds m P \<longleftrightarrow> (\<forall>w x w'. m w = (Ok x, w') \<longrightarrow>
     is_tcp w' = is_tcp w \<and> (\<exists>ops. calls w' = calls w @ map (\<lambda>op. (op, None)) ops \<and> P x ops))"

lemma addsD:
  "adds m P \<Longrightarrow> m w = (Ok x, w') \<Longrightarrow> \<exists>ops. calls w' = calls w @ map (\<lambda>op. (op, None)) ops \<and> P x ops"
  unfolding adds_def by blast

lemma adds_weaken: "adds m P \<Longrightarrow> (\<And>x ops. P x ops \<Longrightarrow> Q x ops) \<Longrightarrow> adds m Q"
  unfolding adds_def by blast

lemma adds_return: "P x [] \<Longrightarrow> adds (io_return x) P"
  by (simp add: adds_def)

lemma adds_fail: "adds (io_fail e) P"
  by (simp add: adds_def)

lemma adds_wrap: "adds m P \<Longrightarrow> adds (io_wrap op m) P"
  by (simp add: adds_def)

lemma adds_option: "(\<And>a. x = Some a \<Longrightarrow> P a []) \<Longrightarrow> adds (io_option x) P"
  by (auto simp: adds_def)

lemma adds_sys: "(\<And>v. P v [op]) \<Longrightarrow> adds (sys env op) P"
  by (auto simp: adds_def sys_def Let_def Cons_eq_map_conv split: option.splits)

lemma adds_sleep: "P () [Sleep d] \<Longrightarrow> adds (sleep env d) P"
  by (auto simp: adds_def sleep_def Cons_eq_map_conv)

lemma adds_bind:
  assumes "adds m P" and "\<And>x ops. P x ops \<Longrightarrow> adds (k x) (\<lambda>y ops'. Q y (ops @ ops'))"
  shows "adds (io_bind m k) Q"
  unfolding adds_def
proof (intro allI impI)
  fix w y w2 assume "io_bind m k w = (Ok y, w2)"
  then obtain x w1 where m: "m w = (Ok x, w1)" and k: "k x w1 = (Ok y, w2)" by auto
  from assms(1) m obtain ops where 1: "is_tcp w1 = is_tcp w" "P x ops"
    "calls w1 = calls w @ map (\<lambda>op. (op, None)) ops"
    unfolding adds_def by blast
  from assms(2) [OF 1(2)] k obtain ops' where 2: "is_tcp w2 = is_tcp w1" "Q y (ops @ ops')"
    "calls w2 = calls w1 @ map (\<lambda>op. (op, None)) ops'"
    unfolding adds_def by blast
  show "is_tcp w2 = is_tcp w \<and> (\<exists>ops. calls w2 = calls w @ map (\<lambda>op. (op, None)) ops \<and> Q y ops)"
    using 1 2 by (intro conjI exI [of _ "ops @ ops'"]) simp_all
qed

lemma adds_seq: "adds m (\<lambda>_. P) \<Longrightarrow> (\<And>ops. P ops \<Longrightarrow> adds n (\<lambda>y ops'. Q y (ops @ ops'))) \<Longrightarrow>
  adds (io_bind m (\<lambda>_. n)) Q"
  by (rule adds_bind [where P = "\<lambda>_. P"])

lemma adds_option_bind: "(\<And>a. x = Some a \<Longrightarrow> adds (k a) Q) \<Longrightarrow> adds (io_bind (io_option x) k) Q"
  by (cases x) (auto simp: adds_def)

text \<open>The same where the first part makes a fixed list of calls.\<close>

lemma adds_fixed:
  "adds m (\<lambda>_ ops. ops = os) \<Longrightarrow> (\<And>x. adds (k x) (\<lambda>y ops'. Q y (os @ ops'))) \<Longrightarrow> adds (io_bind m k) Q"
  by (rule adds_bind [where P = "\<lambda>_ ops. ops = os"]) auto

lemma adds_sys_fixed: "adds (sys env op) (\<lambda>_ ops. ops = [op])"
  by (rule adds_sys) simp

lemma adds_wrap_sys: "adds (io_wrap s (sys env op)) (\<lambda>_ ops. ops = [op])"
  by (rule adds_wrap [OF adds_sys_fixed])

lemma adds_getTCPRawConn: "adds (getTCPRawConn env) (\<lambda>_ ops. ops = [SyscallConn])"
  by (auto simp: adds_def getTCPRawConn_def sys_def Let_def split: if_splits option.splits)

lemma adds_conn_write: "adds (conn_write env b) (\<lambda>_ ops. ops = [ConnWrite b])"
  unfolding conn_write_def by (rule adds_bind, rule adds_sys) (auto intro: adds_return)

subsection \<open>What the peer receives\<close>

text \<open>
  TCP urgent data as the receiving side delivers it in band: the byte under the urgent
  pointer, the last byte of the last urgent send, is taken out of the stream; the urgent
  byte of an earlier send is overtaken by the later pointer and stays in the stream.
\<close>

fun has_oob :: "sock_op list \<Rightarrow> bool" where
  "has_oob [] \<longleftrightarrow> False"
| "has_oob (SendOOB b # ops) \<longleftrightarrow> True"
| "has_oob (_ # ops) \<longleftrightarrow> has_oob ops"

fun received :: "sock_op list \<Rightarrow> bytes" where
  "received [] = []"
| "received (ConnWrite b # ops) = b @ received ops"
| "received (SendOOB b # ops) = (if has_oob ops then b else butlast b) @ received ops"
| "received (_ # ops) = received ops"

lemma has_oob_append [simp]: "has_oob (xs @ ys) \<longleftrightarrow> has_oob xs \<or> has_oob ys"
  by (induction xs rule: has_oob.induct) auto

lemma received_append [simp]:
  "\<not> has_oob ys \<Longrightarrow> received (xs @ ys) = received xs @ received ys"
  by (induction xs rule: received.induct) auto

lemma received_append_quiet [simp]:
  "\<not> has_oob xs \<Longrightarrow> received (xs @ ys) = received xs @ received ys"
  by (induction xs rule: received.induct) auto

text \<open>Calls that put nothing on the wire.\<close>

definition quiet :: "sock_op list \<Rightarrow> bool" where
  "quiet ops \<longleftrightarrow> (\<forall>op \<in> set ops. \<forall>b n. op \<noteq> ConnWrite b \<and> op \<noteq> SendOOB b \<and> op \<noteq> Splice n)"

lemma quiet_simps [simp]:
  "quiet []" "quiet (xs @ ys) \<longleftrightarrow> quiet xs \<and> quiet ys"
  "quiet (op # ops) \<longleftrightarrow> (\<forall>b n. op \<noteq> ConnWrite b \<and> op \<noteq> SendOOB b \<and> op \<noteq> Splice n) \<and> quiet ops"
  by (auto simp: quiet_def)

lemma quiet_no_oob: "quiet ops \<Longrightarrow> \<not> has_oob ops"
  by (induction ops rule: has_oob.induct) auto

lemma quiet_received: "quiet ops \<Longrightarrow> received ops = []"
  by (induction ops rule: received.induct) auto

lemma received_quiet_middle:
  "quiet ops \<Longrightarrow> received (xs @ ops @ ys) = received (xs @ ys)"
  by (induction xs rule: received.induct) (auto simp: quiet_no_oob quiet_received)

section \<open>A concrete socket\<close>

text \<open>An operating system that reports no error and answers at once.\<close>

definition quiet_env :: sock_env where
  "quiet_env w op = \<lparr>rerr = None, rval = 0, rdur = 0\<rparr>"

definition sock_example :: sock where
  "sock_example = \<lparr>is_tcp = True, calls = [], now = 0\<rparr>"

end
