(* ===== verification/WaitAck.thy ===== *)
theory WaitAck
  imports GoIO
begin

text \<open>
  \<^verbatim>\<open>oob_unix.go\<close> and \<^verbatim>\<open>waitack_linux.go\<close>: a send with an urgent byte, and the wait for the
  peer's acknowledgement that polls \<^verbatim>\<open>TCP_INFO\<close> every 10 ms for at most 5 s. Shown here: the
  poll loop ends whatever the kernel answers, in a bounded number of polls; what each
  routine puts on the wire; and the result of the wait on each of its paths.
\<close>

section \<open>Sending with an urgent byte\<close>

definition sendWithOOB :: "sock_env \<Rightarrow> bytes \<Rightarrow> byte \<Rightarrow> (sock, unit) io" where
  "sendWithOOB env data oob =
     io_bind (getTCPRawConn env) (\<lambda>_.
     io_bind (io_wrap ''raw write (send)'' (sys env RawWrite)) (\<lambda>_.
     io_bind (io_wrap ''send (MSG_OOB)'' (sys env (SendOOB (data @ [oob])))) (\<lambda>_.
     io_return ())))"

lemma returns_sendWithOOB [returns_intros]:
  "env_ok ok env \<Longrightarrow> returns (sock_ok ok) ok (sendWithOOB env data oob)"
  unfolding sendWithOOB_def by (intro returns_intros)

lemma adds_sendWithOOB:
  "adds (sendWithOOB env data oob) (\<lambda>_ ops. ops = [SyscallConn, RawWrite, SendOOB (data @ [oob])])"
  unfolding sendWithOOB_def
  by (intro adds_fixed [OF adds_getTCPRawConn] adds_fixed [OF adds_wrap_sys] adds_return) simp

section \<open>Waiting for the acknowledgement\<close>

definition waitForAckOverallTimeout :: int where "waitForAckOverallTimeout = 5000000000"
definition waitForAckEarlyThreshold :: int where "waitForAckEarlyThreshold = 20000000"
definition waitForAckPollInterval :: int where "waitForAckPollInterval = 10000000"

lemmas ack_consts = waitForAckOverallTimeout_def waitForAckEarlyThreshold_def waitForAckPollInterval_def

text \<open>The loop inside \<^verbatim>\<open>rawConn.Control\<close>; its failure is \<^verbatim>\<open>innerErr\<close>.\<close>

function pollAck :: "sock_env \<Rightarrow> int \<Rightarrow> int \<Rightarrow> (sock, unit) io" where
  "pollAck env delay start w =
     (if now w > start + waitForAckOverallTimeout
      then (Fail (ErrorNew ''wait for ACK: timeout exceeded''), w)
      else case sys env GetTCPInfo w of
          (Ok unacked, w1) \<Rightarrow>
            (if unacked = 0
             then (if now w1 - start \<le> waitForAckEarlyThreshold then sleep env delay w1 else (Ok (), w1))
             else pollAck env delay start (snd (sleep env waitForAckPollInterval w1)))
        | (Fail e, w1) \<Rightarrow> (Fail e, w1)
        | (Panic, w1) \<Rightarrow> (Panic, w1))"
  by pat_completeness auto
termination
  by (relation "measure (\<lambda>(env, delay, start, w). nat (start + waitForAckOverallTimeout + 1 - now w))")
    (auto simp: sys_def sleep_def ack_consts Let_def split: option.splits)

declare pollAck.simps [simp del]

definition waitForAck :: "sock_env \<Rightarrow> bool \<Rightarrow> int \<Rightarrow> (sock, unit) io" where
  "waitForAck env enabled delay =
     (if \<not> enabled then sleep env delay
      else io_bind (getTCPRawConn env) (\<lambda>_.
           io_bind (io_wrap ''wait for ACK: raw control'' (sys env RawControl)) (\<lambda>_ w.
           io_wrap ''wait for ACK'' (pollAck env delay (now w)) w)))"

lemma pollAck_no_panic: "fst (pollAck env delay start w) \<noteq> Panic"
proof (induction env delay start w rule: pollAck.induct)
  case (1 env delay start w)
  then show ?case
    by (subst pollAck.simps) (auto simp: sys_def sleep_def Let_def split: option.split)
qed

lemma returns_waitForAck [returns_intros]:
  assumes "ok \<Longrightarrow> \<not> enabled"
  shows "returns (sock_ok ok) ok (waitForAck env enabled delay)"
proof (cases ok)
  case True
  with assms show ?thesis by (auto simp: waitForAck_def intro: returns_intros)
next
  case False
  have poll: "returns (sock_ok False) False (\<lambda>w. io_wrap op (pollAck env delay (now w)) w)" for op
    using pollAck_no_panic by (auto simp: returns_def io_wrap_def split: outcome.split prod.split)
      (metis fst_conv)
  show ?thesis unfolding waitForAck_def using False poll
    by (auto intro!: returns_intros)
qed

lemma adds_pollAck_aux:
  "pollAck env delay start w = (Ok x, w') \<Longrightarrow>
   is_tcp w' = is_tcp w \<and> (\<exists>ops. calls w' = calls w @ map (\<lambda>op. (op, None)) ops \<and> quiet ops)"
proof (induction env delay start w rule: pollAck.induct)
  case (1 env delay start w)
  show ?case
  proof (cases "now w > start + waitForAckOverallTimeout")
    case True
    with "1.prems" show ?thesis by (subst (asm) pollAck.simps) simp
  next
    case False
    obtain v w1 where s: "sys env GetTCPInfo w = (Ok v, w1)"
      using "1.prems" False by (subst (asm) pollAck.simps) (auto split: prod.splits outcome.splits)
    then have w1: "is_tcp w1 = is_tcp w" "calls w1 = calls w @ [(GetTCPInfo, None)]"
      by (auto simp: sys_def Let_def split: option.splits)
    let ?w2 = "snd (sleep env waitForAckPollInterval w1)"
    show ?thesis
    proof (cases "v = 0")
      case True
      with "1.prems" False s show ?thesis
        by (subst (asm) pollAck.simps) (use w1 in \<open>auto simp: sleep_def Cons_eq_map_conv split: if_splits\<close>)
    next
      case nz: False
      with "1.prems" False s have "pollAck env delay start ?w2 = (Ok x, w')"
        by (subst (asm) pollAck.simps) simp
      from "1.IH" [OF False s [symmetric] refl nz this]
      obtain ops where "is_tcp w' = is_tcp ?w2" "quiet ops"
        "calls w' = calls ?w2 @ map (\<lambda>op. (op, None)) ops" by blast
      then show ?thesis
        by (auto simp: sleep_def w1
            intro!: exI [of _ "GetTCPInfo # Sleep waitForAckPollInterval # ops"])
    qed
  qed
qed

lemma adds_waitForAck: "adds (waitForAck env enabled delay) (\<lambda>_. quiet)"
proof (cases enabled)
  case False
  then show ?thesis by (auto simp: waitForAck_def intro!: adds_sleep)
next
  case True
  have poll: "adds (\<lambda>w. io_wrap ''wait for ACK'' (pollAck env delay (now w)) w) (\<lambda>_. quiet)"
    unfolding adds_def using adds_pollAck_aux by simp
  show ?thesis using True
    by (auto simp: waitForAck_def
        intro!: adds_fixed [OF adds_getTCPRawConn] adds_fixed [OF adds_wrap_sys] adds_weaken [OF poll])
qed

section \<open>The number of polls\<close>

definition polls :: "sock \<Rightarrow> int" where
  "polls w = int (length (filter (\<lambda>c. fst c = GetTCPInfo) (calls w)))"

definition polls_left :: "int \<Rightarrow> sock \<Rightarrow> int" where
  "polls_left start w =
     (if now w > start + waitForAckOverallTimeout then 0
      else (start + waitForAckOverallTimeout - now w) div waitForAckPollInterval + 1)"

lemma polls_left_nonneg: "0 \<le> polls_left start w"
  by (simp add: polls_left_def ack_consts pos_imp_zdiv_nonneg_iff)

lemma polls_left_pos: "now w \<le> start + waitForAckOverallTimeout \<Longrightarrow> 1 \<le> polls_left start w"
  by (simp add: polls_left_def ack_consts pos_imp_zdiv_nonneg_iff)

lemma polls_left_later:
  assumes "now w \<le> start + waitForAckOverallTimeout" and "now w + waitForAckPollInterval \<le> now w2"
  shows "polls_left start w2 + 1 \<le> polls_left start w"
  using assms by (auto simp: polls_left_def ack_consts)

lemma sys_polls: "sys env op w = (r, w1) \<Longrightarrow>
   polls w1 = polls w + (if op = GetTCPInfo then 1 else 0) \<and> now w \<le> now w1"
  by (auto simp: sys_def polls_def Let_def)

lemma sleep_polls: "sleep env d w = (r, w1) \<Longrightarrow> polls w1 = polls w \<and> now w + d \<le> now w1"
  by (auto simp: sleep_def polls_def)

lemma pollAck_polls: "polls (snd (pollAck env delay start w)) \<le> polls w + polls_left start w"
proof (induction env delay start w rule: pollAck.induct)
  case (1 env delay start w)
  show ?case
  proof (cases "now w > start + waitForAckOverallTimeout")
    case True
    then show ?thesis by (subst pollAck.simps) (simp add: polls_left_nonneg)
  next
    case False
    obtain r w1 where s: "sys env GetTCPInfo w = (r, w1)" by (cases "sys env GetTCPInfo w")
    from sys_polls [OF s] have p1: "polls w1 = polls w + 1" "now w \<le> now w1" by simp_all
    from False have pos: "1 \<le> polls_left start w" by (intro polls_left_pos) simp
    show ?thesis
    proof (cases "\<exists>v. r = Ok v \<and> v \<noteq> 0")
      case True
      then obtain v where v: "r = Ok v" "v \<noteq> 0" by blast
      obtain w2 where s2: "sleep env waitForAckPollInterval w1 = (Ok (), w2)"
        by (simp add: sleep_def)
      from sleep_polls [OF s2] p1 False have "polls_left start w2 + 1 \<le> polls_left start w"
        by (intro polls_left_later) simp_all
      moreover from "1.IH" [OF False s [symmetric] v(1) v(2)] s2
      have "polls (snd (pollAck env delay start w2)) \<le> polls w2 + polls_left start w2" by simp
      moreover from False s s2 v have "pollAck env delay start w = pollAck env delay start w2"
        by (subst pollAck.simps) simp
      ultimately show ?thesis using sleep_polls [OF s2] p1 by simp
    next
      case nz: False
      obtain w3 where s3: "sleep env delay w1 = (Ok (), w3)" by (simp add: sleep_def)
      have "snd (pollAck env delay start w) = w1 \<or> snd (pollAck env delay start w) = w3"
        using False s s3 nz by (subst (1 2) pollAck.simps) (auto split: outcome.split)
      then show ?thesis using p1 pos sleep_polls [OF s3] by auto
    qed
  qed
qed

lemma getTCPRawConn_polls: "polls (snd (getTCPRawConn env w)) = polls w"
  by (simp add: getTCPRawConn_def io_fail_def io_bind_def io_wrap_def io_return_def sys_def polls_def Let_def
      split: option.split)

text \<open>
  C8: waiting for the acknowledgement always ends. Whatever the kernel answers, the wait makes
  at most 501 polls (5 s in steps of 10 ms, and the first one) and never panics.
\<close>

theorem waitForAck_bounded:
  "polls (snd (waitForAck env enabled delay w)) \<le> polls w + 501 \<and>
   fst (waitForAck env enabled delay w) \<noteq> Panic"
proof
  show "fst (waitForAck env enabled delay w) \<noteq> Panic"
    using returns_waitForAck [of False] by (simp add: returns_def)
  show "polls (snd (waitForAck env enabled delay w)) \<le> polls w + 501"
  proof (cases enabled)
    case False
    then show ?thesis using sleep_polls [of env delay w] by (simp add: waitForAck_def sleep_def)
  next
    case True
    obtain r1 w1 where r: "getTCPRawConn env w = (r1, w1)" by (cases "getTCPRawConn env w")
    obtain r2 w2 where c: "sys env RawControl w1 = (r2, w2)" by (cases "sys env RawControl w1")
    have p: "polls w2 = polls w" using getTCPRawConn_polls [of env w] r sys_polls [OF c] by simp
    have "polls_left (now w2) w2 = 501" by (simp add: polls_left_def ack_consts)
    with pollAck_polls [of env delay "now w2" w2] p
    have "polls (snd (pollAck env delay (now w2) w2)) \<le> polls w + 501" by simp
    moreover have "snd (waitForAck env enabled delay w) \<in> {w1, w2, snd (pollAck env delay (now w2) w2)}"
      using True r c by (auto simp: waitForAck_def io_bind_def io_wrap_def split: outcome.split prod.split)
    ultimately show ?thesis using p getTCPRawConn_polls [of env w] r by auto
  qed
qed

end
