(* ===== verification/Framing.thy ===== *)
theory Framing
  imports Prelude
begin

text \<open>
  The contract of a message framing: a decoder that takes one frame off the front of a byte
  stream and inverts the encoder. Everything a client needs about streams of frames follows
  once, here: decoding a concatenation gives the frames back, two different frame sequences
  never share a wire image. The TLS record layer, DNS over TCP and the SOCKS5 address format
  provide it.
\<close>

text \<open>Reading a whole stream of frames; \<open>n\<close> bounds the number of frames.\<close>

fun decode_frames :: "(bytes \<Rightarrow> ('a \<times> bytes) option) \<Rightarrow> nat \<Rightarrow> bytes \<Rightarrow> 'a list option" where
  "decode_frames dec n bs =
     (if bs = [] then Some []
      else case n of 0 \<Rightarrow> None
      | Suc m \<Rightarrow> (case dec bs of None \<Rightarrow> None
          | Some (x, rest) \<Rightarrow> map_option (Cons x) (decode_frames dec m rest)))"

declare decode_frames.simps [simp del]

lemma decode_frames_Nil [simp]: "decode_frames dec n [] = Some []"
  by (simp add: decode_frames.simps)

locale framing =
  fixes wf :: "'a \<Rightarrow> bool"
    and enc :: "'a \<Rightarrow> bytes"
    and dec :: "bytes \<Rightarrow> ('a \<times> bytes) option"
  assumes dec_enc: "wf x \<Longrightarrow> dec (enc x @ rest) = Some (x, rest)"
    and enc_nonempty: "wf x \<Longrightarrow> enc x \<noteq> []"
begin

lemma enc_inject: "wf x \<Longrightarrow> wf y \<Longrightarrow> enc x @ r = enc y @ s \<longleftrightarrow> x = y \<and> r = s"
  by (metis dec_enc option.inject prod.inject)

lemma decode_frames_enc:
  assumes "\<And>x. x \<in> set xs \<Longrightarrow> wf x" and "length (concat (map enc xs)) \<le> n"
  shows "decode_frames dec n (concat (map enc xs)) = Some xs"
  using assms
proof (induction xs arbitrary: n)
  case Nil
  then show ?case by simp
next
  case (Cons x xs)
  from Cons.prems(1) have x: "wf x" by simp
  then obtain m where n: "n = Suc m" and m: "length (concat (map enc xs)) \<le> m"
    using Cons.prems(2) enc_nonempty [OF x] by (cases n; cases "enc x") auto
  have "decode_frames dec m (concat (map enc xs)) = Some xs" using Cons m by simp
  then show ?case
    using x enc_nonempty [OF x] by (subst decode_frames.simps) (simp add: n dec_enc)
qed

text \<open>The frame sequence is determined by its wire image.\<close>

lemma stream_inject:
  assumes "\<And>x. x \<in> set xs \<Longrightarrow> wf x" and "\<And>y. y \<in> set ys \<Longrightarrow> wf y"
    and "concat (map enc xs) = concat (map enc ys)"
  shows "xs = ys"
proof -
  have "decode_frames dec (length (concat (map enc xs))) (concat (map enc xs)) = Some xs"
    by (rule decode_frames_enc) (use assms(1) in auto)
  moreover have "decode_frames dec (length (concat (map enc ys))) (concat (map enc ys)) = Some ys"
    by (rule decode_frames_enc) (use assms(2) in auto)
  ultimately show ?thesis using assms(3) by (metis option.inject)
qed

lemma stream_cons_inject:
  assumes "wf x" and "wf y" and "concat (map enc (x # xs)) = concat (map enc (y # ys))"
  shows "x = y \<and> concat (map enc xs) = concat (map enc ys)"
  using assms enc_inject [of x y "concat (map enc xs)" "concat (map enc ys)"] by simp

end

end
