(* ===== verification/Fragment.thy ===== *)
theory Fragment
  imports ClientHello WaitAck Framing
begin

text \<open>
  TLS record fragmentation, \<^verbatim>\<open>internal/fragment.go\<close>: the ClientHello is cut at the server
  name and sent as several TLS records, several TCP segments, or with urgent bytes between
  them. Shown here: the split loses nothing and respects the requested counts, the records
  the peer reassembles carry exactly the handshake bytes, the routine does not panic on a
  cut the parser reported, and which configuration makes it panic.
\<close>

section \<open>Records and splitting\<close>

definition makeRecord :: "bytes \<Rightarrow> bytes \<Rightarrow> bytes" where
  "makeRecord header payload =
     go_copy (replicate 3 0) header @ put_uint16 (int (length payload)) @ payload"

definition addRecord :: "bytes option \<Rightarrow> bytes \<Rightarrow> bytes" where
  "addRecord header part = (case header of None \<Rightarrow> part | Some h \<Rightarrow> makeRecord h part)"

definition splitAndAppend :: "bytes \<Rightarrow> bytes option \<Rightarrow> int \<Rightarrow> bytes list \<Rightarrow> bytes list option" where
  "splitAndAppend data header n result =
     (if n \<le> 0 then Some result
      else if n = 1 \<or> int (length data) < n then Some (result @ [addRecord header data])
      else do {
        let base = int (length data) div n;
        parts \<leftarrow> those (map (\<lambda>i.
          if i = n - 1 then go_slice data (i * base) (int (length data))
          else go_slice data (i * base) ((i + 1) * base)) [0..n - 1]);
        Some (result @ map (addRecord header) parts)
      })"

section \<open>Sending\<close>

text \<open>\<^verbatim>\<open>make([]T, 0, n)\<close> panics on a negative capacity.\<close>

definition go_make_cap :: "int \<Rightarrow> unit option" where
  "go_make_cap n = (if n < 0 then None else Some ())"

text \<open>
  The \<open>oobex\<close> preamble: the first 35 bytes as two urgent sends. The urgent byte of the
  first is byte 15 of the data itself, that of the second is a zero added to it.
\<close>

definition sendOOBEx :: "sock_env \<Rightarrow> bool \<Rightarrow> int \<Rightarrow> bytes \<Rightarrow> (sock, bytes) io" where
  "sendOOBEx env ackEnabled interval data =
     io_bind (io_option (do {
         a \<leftarrow> go_slice data 0 15; b \<leftarrow> go_index data 15;
         c \<leftarrow> go_slice data 16 35; d \<leftarrow> go_slice data 35 (int (length data)); Some (a, b, c, d) }))
       (\<lambda>(a, b, c, d).
     io_bind (io_wrap ''oob 1'' (sendWithOOB env a b)) (\<lambda>_.
     io_bind (io_wrap ''oob 2'' (sendWithOOB env c 0)) (\<lambda>_.
     io_bind (waitForAck env ackEnabled interval) (\<lambda>_.
     io_return d))))"

definition sendPacket :: "sock_env \<Rightarrow> bool \<Rightarrow> bool \<Rightarrow> int \<Rightarrow> nat \<Rightarrow> bytes \<Rightarrow> (sock, unit) io" where
  "sendPacket env oob ackEnabled interval i packet =
     io_bind (if i = 0 \<and> oob then io_wrap ''oob'' (sendWithOOB env packet 0)
              else io_wrap (''write packet '' @ Itoa (int i + 1)) (conn_write env packet)) (\<lambda>_.
     waitForAck env ackEnabled interval)"

text \<open>
  One record, \<open>records == 1\<close>. The quotient \<open>segments / 2\<close> is only used when the allocation
  did not panic, that is for a non-negative \<open>segments\<close>.
\<close>

definition sendRemaining ::
  "sock_env \<Rightarrow> int \<Rightarrow> int \<Rightarrow> bool \<Rightarrow> bool \<Rightarrow> int \<Rightarrow> bytes \<Rightarrow> int \<Rightarrow> (sock, unit) io" where
  "sendRemaining env len segments oob ackEnabled interval clientHello offset =
     (if segments = 1 then io_wrap ''send remaining data'' (conn_write env clientHello)
      else io_bind (io_option (go_make_cap segments)) (\<lambda>_.
        let leftSegments = segments div 2; rightSegments = segments - leftSegments in
        io_bind (io_option (do {
            cut \<leftarrow> findLastDotOrMidPos clientHello offset len;
            l \<leftarrow> go_slice clientHello 0 cut;
            r \<leftarrow> go_slice clientHello cut (int (length clientHello));
            packets \<leftarrow> splitAndAppend l None leftSegments [];
            splitAndAppend r None rightSegments packets })) (\<lambda>packets.
        io_each_indexed (sendPacket env oob ackEnabled interval) packets)))"

definition sendSingleRecord ::
  "sock_env \<Rightarrow> bytes \<Rightarrow> int \<Rightarrow> int \<Rightarrow> int \<Rightarrow> bool \<Rightarrow> bool \<Rightarrow> bool \<Rightarrow> int \<Rightarrow> (sock, unit) io" where
  "sendSingleRecord env clientHello offset len segments oob oobex ackEnabled interval =
     (if oobex \<and> 35 \<le> length clientHello
      then io_bind (sendOOBEx env ackEnabled interval clientHello) (\<lambda>rest.
           sendRemaining env len segments oob ackEnabled interval rest (offset - 35))
      else sendRemaining env len segments oob ackEnabled interval clientHello offset)"

text \<open>One TCP segment per record, \<open>segments == -1\<close>.\<close>

definition sendChunk :: "sock_env \<Rightarrow> bool \<Rightarrow> bool \<Rightarrow> bool \<Rightarrow> int \<Rightarrow> nat \<Rightarrow> bytes \<Rightarrow> (sock, unit) io" where
  "sendChunk env oob oobex ackEnabled interval i chunk =
     io_bind
       (if i = 0 then
          (if oob then io_wrap ''oob'' (sendWithOOB env chunk 0)
           else if oobex \<and> 0 < length chunk then
             io_bind (io_option (do {
                 a \<leftarrow> go_slice chunk 0 (int (length chunk) - 1);
                 b \<leftarrow> go_index chunk (int (length chunk) - 1); Some (a, b) })) (\<lambda>(a, b).
             io_wrap ''oob 1'' (sendWithOOB env a b))
           else io_wrap ''write record 1'' (conn_write env chunk))
        else if i = 1 \<and> oobex then io_wrap ''oob 2'' (sendWithOOB env chunk 0)
        else io_wrap (''write record '' @ Itoa (int i + 1)) (conn_write env chunk)) (\<lambda>_.
     waitForAck env ackEnabled interval)"

definition sendSegment ::
  "sock_env \<Rightarrow> bytes \<Rightarrow> int \<Rightarrow> bool \<Rightarrow> bool \<Rightarrow> int \<Rightarrow> int \<Rightarrow> (sock, unit) io" where
  "sendSegment env merged segments oob ackEnabled interval i =
     (let base = int (length merged) div segments;
          start = i * base;
          stop = (if i = segments - 1 then int (length merged) else start + base) in
      io_bind (io_option (go_slice merged start stop)) (\<lambda>part.
      io_bind (if i = 0 \<and> oob then io_wrap ''oob'' (sendWithOOB env part 0)
               else io_wrap (''write segment '' @ Itoa (i + 1)) (conn_write env part)) (\<lambda>_.
      waitForAck env ackEnabled interval)))"

definition sendMerged ::
  "sock_env \<Rightarrow> bytes \<Rightarrow> int \<Rightarrow> bool \<Rightarrow> bool \<Rightarrow> bool \<Rightarrow> int \<Rightarrow> (sock, unit) io" where
  "sendMerged env merged segments oob oobex ackEnabled interval =
     io_bind (if oobex \<and> 35 \<le> length merged then sendOOBEx env ackEnabled interval merged
              else io_return merged) (\<lambda>merged.
     if segments = 1 \<or> int (length merged) \<le> segments then conn_write env merged
     else io_each (sendSegment env merged segments oob ackEnabled interval) [0..segments - 1])"

definition makeChunks :: "bytes \<Rightarrow> int \<Rightarrow> int \<Rightarrow> int \<Rightarrow> bytes list option" where
  "makeChunks clientHello offset len records = do {
     go_make_cap records;
     let leftChunks = records div 2;
     let rightChunks = records - leftChunks;
     cut \<leftarrow> findLastDotOrMidPos clientHello offset len;
     header \<leftarrow> go_slice clientHello 0 3;
     l \<leftarrow> go_slice clientHello tlsRecordHeaderLen cut;
     chunks \<leftarrow> splitAndAppend l (Some header) leftChunks [];
     r \<leftarrow> go_slice clientHello cut (int (length clientHello));
     splitAndAppend r (Some header) rightChunks chunks
   }"

definition sendRecords ::
  "sock_env \<Rightarrow> bytes \<Rightarrow> int \<Rightarrow> int \<Rightarrow> int \<Rightarrow> int \<Rightarrow> bool \<Rightarrow> bool \<Rightarrow> bool \<Rightarrow> bool \<Rightarrow> int \<Rightarrow>
   (sock, unit) io" where
  "sendRecords env clientHello offset len records segments oob oobex modMinorVer waitForAckEnabled interval =
     (let records = (if records = 0 then 1 else records);
          segments = (if segments = 0 then 1 else segments) in
      io_bind (io_option
        (if modMinorVer then map_option (\<lambda>_. clientHello[2 := 4]) (go_index clientHello 2)
         else Some clientHello)) (\<lambda>clientHello.
      if records = 1 then
        sendSingleRecord env clientHello offset len segments oob oobex waitForAckEnabled interval
      else io_bind (io_option (makeChunks clientHello offset len records)) (\<lambda>chunks.
        if segments = -1 then io_each_indexed (sendChunk env oob oobex waitForAckEnabled interval) chunks
        else sendMerged env (concat chunks) segments oob oobex waitForAckEnabled interval)))"

section \<open>Splitting loses nothing\<close>

text \<open>\<open>m\<close> pieces of equal length, the last one longer.\<close>

definition pieces :: "bytes \<Rightarrow> nat \<Rightarrow> bytes list" where
  "pieces data m =
     (let b = length data div m
      in map (\<lambda>i. take b (drop (i * b) data)) [0..<m - 1] @ [drop ((m - 1) * b) data])"

lemma pieces_base_le: "k < m \<Longrightarrow> (k + 1) * (length data div m) \<le> length data"
proof -
  assume "k < m"
  then have "(k + 1) * (length data div m) \<le> m * (length data div m)" by (intro mult_right_mono) auto
  also have "\<dots> \<le> length data" by simp
  finally show ?thesis .
qed

lemma length_pieces [simp]: "0 < m \<Longrightarrow> length (pieces data m) = m"
  by (simp add: pieces_def Let_def)

lemma concat_pieces:
  assumes "0 < m"
  shows "concat (pieces data m) = data"
proof -
  have "(m - 1) * (length data div m) \<le> length data"
    by (rule order_trans [OF mult_right_mono times_div_less_eq_dividend [of m]]) simp_all
  then show ?thesis
    using concat_take_drop_chunks [of "m - 1" "length data div m" data]
    by (simp add: pieces_def Let_def)
qed

lemma nth_pieces:
  "i < m \<Longrightarrow> pieces data m ! i =
     (if i = m - 1 then drop (i * (length data div m)) data
      else take (length data div m) (drop (i * (length data div m)) data))"
  by (auto simp: pieces_def Let_def nth_append)

lemma piece_slice:
  assumes "0 \<le> i" and "i < n"
  shows "go_slice data (i * (int (length data) div n))
      (if i = n - 1 then int (length data) else i * (int (length data) div n) + int (length data) div n) =
    Some (pieces data (nat n) ! nat i)"
proof -
  let ?b = "length data div nat n"
  obtain j m where i: "i = int j" and n: "n = int m" and jm: "j < m"
    using assms by (metis nat_less_iff zero_le_imp_eq_int order.trans less_imp_le of_nat_less_iff)
  have le: "(j + 1) * ?b \<le> length data" using pieces_base_le [OF jm, of data] n by simp
  then have le': "int j * int ?b + int ?b \<le> int (length data)"
    by (metis (no_types) distrib_right mult_1 of_nat_1 of_nat_add of_nat_le_iff of_nat_mult)
  show ?thesis
  proof (cases "j = m - 1")
    case True
    with jm have "i = n - 1" by (simp add: i n)
    with True jm le' show ?thesis
      by (simp add: i n nth_pieces go_slice_def zdiv_int [symmetric] nat_mult_distrib nat_diff_distrib
          flip: of_nat_mult)
  next
    case False
    with jm have "i \<noteq> n - 1" by (simp add: i n)
    with False jm le' show ?thesis
      by (simp add: i n nth_pieces go_slice_def zdiv_int [symmetric] flip: of_nat_mult)
  qed
qed

lemma map_nth_upto: "length xs = nat n \<Longrightarrow> map (\<lambda>i. xs ! nat i) [0..n - 1] = xs"
  by (rule nth_equalityI) (auto simp: nth_upto)

lemma splitAndAppend_parts:
  assumes "1 \<le> n"
  obtains parts where "splitAndAppend data header n result = Some (result @ map (addRecord header) parts)"
    and "concat parts = data" and "parts \<noteq> []" and "int (length parts) \<le> n"
    and "n \<le> int (length data) \<Longrightarrow> int (length parts) = n"
proof (cases "n = 1 \<or> int (length data) < n")
  case True
  with assms show thesis by (intro that [of "[data]"]) (auto simp: splitAndAppend_def)
next
  case False
  let ?b = "int (length data) div n"
  have "those (map (\<lambda>i. if i = n - 1 then go_slice data (i * ?b) (int (length data))
        else go_slice data (i * ?b) ((i + 1) * ?b)) [0..n - 1]) =
      Some (map (\<lambda>i. pieces data (nat n) ! nat i) [0..n - 1])"
  proof (rule those_map_cong)
    fix i assume "i \<in> set [0..n - 1]"
    then show "(if i = n - 1 then go_slice data (i * ?b) (int (length data))
        else go_slice data (i * ?b) ((i + 1) * ?b)) = Some (pieces data (nat n) ! nat i)"
      using piece_slice [of i n data] by (auto simp: distrib_right split: if_splits)
  qed
  also have "map (\<lambda>i. pieces data (nat n) ! nat i) [0..n - 1] = pieces data (nat n)"
    using False assms by (intro map_nth_upto) simp
  finally show thesis
    using False assms
    by (intro that [of "pieces data (nat n)"])
      (auto simp: splitAndAppend_def Let_def concat_pieces simp flip: length_0_conv)
qed

section \<open>The record layer\<close>

text \<open>What the peer's record layer does: a 3-byte header, a length, the payload.\<close>

definition decRecord :: "bytes \<Rightarrow> ((bytes \<times> bytes) \<times> bytes) option" where
  "decRecord bs = do {
     h \<leftarrow> go_slice bs 0 3;
     n \<leftarrow> be16_at bs 3;
     p \<leftarrow> go_slice bs 5 (5 + n);
     Some ((h, p), drop (5 + nat n) bs)
   }"

definition wf_record :: "bytes \<times> bytes \<Rightarrow> bool" where
  "wf_record r \<longleftrightarrow> length (fst r) = 3 \<and> length (snd r) < 65536"

lemma decRecord_makeRecord:
  assumes "wf_record r"
  shows "decRecord (makeRecord (fst r) (snd r) @ rest) = Some (r, rest)"
proof -
  obtain h p where r: "r = (h, p)" by (cases r)
  from assms r have h: "length h = 3" and p: "length p < 65536" by (auto simp: wf_record_def)
  let ?d = "h @ put_uint16 (int (length p)) @ p @ rest"
  have "go_slice ?d 0 3 = Some h" using h by (simp add: go_slice_def)
  moreover have "be16_at ?d 3 = Some (int (length p))"
    using be16_at_append [of h 3 "int (length p)" "p @ rest"] h p by simp
  moreover have "go_slice ?d 5 (5 + int (length p)) = Some p"
    using go_slice_append_middle [of "h @ put_uint16 (int (length p))" p rest] h by simp
  ultimately show ?thesis using h by (simp add: r makeRecord_def decRecord_def)
qed

interpretation tls_records: framing wf_record "\<lambda>r. makeRecord (fst r) (snd r)" decRecord
proof
  show "makeRecord (fst r) (snd r) \<noteq> []" for r by (simp add: makeRecord_def put_uint16_def)
qed (rule decRecord_makeRecord)

section \<open>What the peer receives\<close>

definition puts :: "bytes \<Rightarrow> bool \<Rightarrow> sock_op list \<Rightarrow> bool" where
  "puts b urgent ops \<longleftrightarrow> received ops = b \<and> (has_oob ops \<longleftrightarrow> urgent)"

lemma puts_quiet: "quiet ops \<Longrightarrow> puts [] False ops"
  by (simp add: puts_def quiet_received quiet_no_oob)

lemma puts_append: "puts a u ops \<Longrightarrow> puts b False ops' \<Longrightarrow> puts (a @ b) u (ops @ ops')"
  by (simp add: puts_def)

lemma adds_puts_seq:
  "adds m (\<lambda>_. puts a u) \<Longrightarrow> adds n (\<lambda>_. puts b False) \<Longrightarrow> adds (io_bind m (\<lambda>_. n)) (\<lambda>_. puts (a @ b) u)"
  by (erule adds_seq) (auto elim!: adds_weaken intro: puts_append)

lemma adds_puts_write: "adds (conn_write env b) (\<lambda>_. puts b False)"
  by (rule adds_weaken [OF adds_conn_write]) (simp add: puts_def)

lemma adds_puts_oob: "adds (sendWithOOB env b x) (\<lambda>_. puts b True)"
  by (rule adds_weaken [OF adds_sendWithOOB]) (simp add: puts_def)

lemma adds_puts_ack: "adds (waitForAck env enabled delay) (\<lambda>_. puts [] False)"
  by (rule adds_weaken [OF adds_waitForAck]) (rule puts_quiet)

lemma adds_puts_then_ack:
  "adds m (\<lambda>_. puts b u) \<Longrightarrow> adds (io_bind m (\<lambda>_. waitForAck env enabled delay)) (\<lambda>_. puts b u)"
  using adds_puts_seq [OF _ adds_puts_ack] by fastforce

lemma io_each_indexed_simps [simp]:
  "io_each_indexed f [] = io_return ()"
  "io_each_indexed f (x # xs) = io_bind (f 0 x) (\<lambda>_. io_each_indexed (\<lambda>i. f (Suc i)) xs)"
proof -
  have "enumerate (Suc 0) xs = map (\<lambda>(i, x). (Suc i, x)) (enumerate 0 xs)"
    by (simp add: enumerate_eq_zip zip_map1 map_Suc_upt [symmetric] case_prod_unfold
        del: upt_Suc map_Suc_upt)
  then show "io_each_indexed f (x # xs) = io_bind (f 0 x) (\<lambda>_. io_each_indexed (\<lambda>i. f (Suc i)) xs)"
    by (simp add: io_each_indexed_def io_each_map case_prod_unfold)
qed (simp add: io_each_indexed_def)

lemma adds_puts_each:
  "(\<And>x. x \<in> set xs \<Longrightarrow> adds (f x) (\<lambda>_. puts (g x) False)) \<Longrightarrow>
   adds (io_each f xs) (\<lambda>_. puts (concat (map g xs)) False)"
  by (induction xs) (auto intro!: adds_puts_seq adds_return simp: puts_def)

lemma adds_puts_each_indexed:
  "(\<And>i x. adds (f i x) (\<lambda>_. puts x False)) \<Longrightarrow>
   adds (io_each_indexed f xs) (\<lambda>_. puts (concat xs) False)"
  by (induction xs arbitrary: f) (auto intro!: adds_puts_seq adds_return simp: puts_def)

lemma adds_sendPacket: "adds (sendPacket env oob ack interval i p) (\<lambda>_. puts p (i = 0 \<and> oob))"
  unfolding sendPacket_def
  by (rule adds_puts_then_ack) (auto intro!: adds_wrap adds_puts_oob adds_puts_write)

lemma adds_packets:
  "adds (io_each_indexed (sendPacket env oob ack interval) packets)
     (\<lambda>_. puts (concat packets) (oob \<and> packets \<noteq> []))"
proof (cases packets)
  case Nil
  then show ?thesis by (simp add: puts_def adds_return)
next
  case (Cons p ps)
  have "adds (io_each_indexed (\<lambda>i. sendPacket env oob ack interval (Suc i)) ps) (\<lambda>_. puts (concat ps) False)"
    using adds_sendPacket [of env oob ack interval "Suc _"] by (intro adds_puts_each_indexed) simp
  then show ?thesis
    using adds_puts_seq [OF adds_sendPacket [of env oob ack interval 0 p]] Cons by simp
qed

lemma sendOOBEx_eq:
  assumes "35 \<le> length data"
  shows "sendOOBEx env ack interval data =
    io_bind (io_wrap ''oob 1'' (sendWithOOB env (take 15 data) (data ! 15))) (\<lambda>_.
    io_bind (io_wrap ''oob 2'' (sendWithOOB env (take 19 (drop 16 data)) 0)) (\<lambda>_.
    io_bind (waitForAck env ack interval) (\<lambda>_. io_return (drop 35 data))))"
proof -
  from assms have "go_slice data 0 15 = Some (take 15 data)" "go_index data 15 = Some (data ! 15)"
    "go_slice data 16 35 = Some (take 19 (drop 16 data))"
    "go_slice data 35 (int (length data)) = Some (drop 35 data)"
    by (simp_all add: go_slice_def go_index_def nat_diff_distrib)
  then show ?thesis by (simp add: sendOOBEx_def)
qed

lemma adds_sendOOBEx:
  "adds (sendOOBEx env ack interval data)
     (\<lambda>rest ops. rest = drop 35 data \<and> puts (take 35 data) True ops)"
proof (cases "35 \<le> length data")
  case True
  have "take 35 data = take 15 data @ data ! 15 # take 19 (drop 16 data)"
  proof -
    have "take 35 data = take 15 data @ take 20 (drop 15 data)"
      using take_add [of 15 20 data] by simp
    moreover have "drop 15 data = data ! 15 # drop 16 data"
      using True Cons_nth_drop_Suc [of 15 data] by simp
    ultimately show ?thesis by simp
  qed
  then show ?thesis
    unfolding sendOOBEx_eq [OF True]
    by (intro adds_fixed [OF adds_wrap [OF adds_sendWithOOB]] adds_seq [OF adds_waitForAck] adds_return)
      (simp add: puts_def quiet_received quiet_no_oob)
next
  case False
  then have "go_slice data 16 35 = None" by (simp add: go_slice_def)
  then show ?thesis
    by (auto simp: sendOOBEx_def adds_def split: Option.bind_splits)
qed

lemma splitAndAppend_raw:
  assumes "splitAndAppend data None n result = Some packets" and "1 \<le> n"
  shows "concat packets = concat result @ data"
proof -
  obtain parts where "splitAndAppend data None n result = Some (result @ map (addRecord None) parts)"
    and "concat parts = data"
    using splitAndAppend_parts [OF assms(2), where data = data and header = None and result = result] .
  moreover have "map (addRecord None) parts = parts"
    by (simp add: addRecord_def map_idI)
  ultimately show ?thesis using assms(1) by auto
qed

lemma split_at_cut: "go_slice d 0 c = Some l \<Longrightarrow> go_slice d c (int (length d)) = Some r \<Longrightarrow> l @ r = d"
  by (auto dest!: go_slice_SomeD)

text \<open>The segments of one record are the record, whatever their number.\<close>

lemma packets_concat:
  assumes "do { c \<leftarrow> findLastDotOrMidPos d off len; l \<leftarrow> go_slice d 0 c; r \<leftarrow> go_slice d c (int (length d));
      packets \<leftarrow> splitAndAppend l None (n div 2) []; splitAndAppend r None (n - n div 2) packets } = Some packets"
    and "2 \<le> n"
  shows "concat packets = d"
proof -
  have "1 \<le> n div 2" "1 \<le> n - n div 2" using assms(2) by linarith+
  then show ?thesis using assms(1) by (auto split: bind_splits dest!: splitAndAppend_raw split_at_cut)
qed

lemma adds_sendRemaining:
  assumes "segments \<noteq> 0"
  shows "adds (sendRemaining env len segments oob ack interval d off)
    (\<lambda>_ ops. \<exists>u. puts d u ops \<and> (u \<longrightarrow> oob))"
proof (cases "segments = 1")
  case True
  then have "sendRemaining env len segments oob ack interval d off =
      io_wrap ''send remaining data'' (conn_write env d)" by (simp add: sendRemaining_def)
  then show ?thesis by (simp only:) (rule adds_weaken [OF adds_wrap [OF adds_puts_write]], blast)
next
  case False
  show ?thesis
  proof (cases "segments < 0")
    case True
    with False show ?thesis by (simp add: sendRemaining_def go_make_cap_def adds_def)
  next
    case nn: False
    with False assms have two: "2 \<le> segments" by simp
    show ?thesis unfolding sendRemaining_def Let_def go_make_cap_def using False nn
      by (simp only: if_False io_option_simps io_bind_return)
        (rule adds_option_bind, drule packets_concat [OF _ two], rule adds_weaken [OF adds_packets], blast)
  qed
qed

lemma adds_sendSingleRecord:
  assumes "\<not> (oob \<and> oobex)" and "segments \<noteq> 0"
  shows "adds (sendSingleRecord env ch off len segments oob oobex ack interval)
    (\<lambda>_ ops. received ops = ch)"
proof (cases "oobex \<and> 35 \<le> length ch")
  case True
  then have "sendSingleRecord env ch off len segments oob oobex ack interval =
      io_bind (sendOOBEx env ack interval ch) (\<lambda>rest.
        sendRemaining env len segments oob ack interval rest (off - 35))"
    by (simp add: sendSingleRecord_def)
  moreover have "adds (io_bind (sendOOBEx env ack interval ch) (\<lambda>rest.
        sendRemaining env len segments oob ack interval rest (off - 35))) (\<lambda>_ ops. received ops = ch)"
    by (rule adds_bind [OF adds_sendOOBEx], rule adds_weaken [OF adds_sendRemaining [OF assms(2)]])
      (use assms True in \<open>auto simp: puts_def\<close>)
  ultimately show ?thesis by simp
next
  case False
  then have "sendSingleRecord env ch off len segments oob oobex ack interval =
      sendRemaining env len segments oob ack interval ch off"
    by (auto simp: sendSingleRecord_def)
  then show ?thesis by (simp only:) (rule adds_weaken [OF adds_sendRemaining [OF assms(2)]],
      auto simp: puts_def)
qed

section \<open>Several records\<close>

text \<open>The payloads, left and right of the cut.\<close>

lemma makeChunks_split:
  assumes "makeChunks ch off len records = Some chunks" and "2 \<le> records"
  obtains c ps qs where "findLastDotOrMidPos ch off len = Some c" and "5 \<le> c" and "c \<le> int (length ch)"
    and "chunks = map (makeRecord (take 3 ch)) (ps @ qs)" and "concat ps = take (nat c - 5) (drop 5 ch)" and "concat qs = drop (nat c) ch"
    and "ps \<noteq> []" and "qs \<noteq> []" and "int (length (ps @ qs)) \<le> records"
proof -
  let ?h = "take 3 ch"
  let ?n = "records div 2" and ?m = "records - records div 2"
  from assms(1) obtain c l r cs h where cut: "findLastDotOrMidPos ch off len = Some c" and sl: "go_slice ch 5 c = Some l"
    "go_slice ch c (int (length ch)) = Some r" "go_slice ch 0 3 = Some h"
    "splitAndAppend l (Some h) ?n [] = Some cs" "splitAndAppend r (Some h) ?m cs = Some chunks"
    unfolding makeChunks_def tls_consts Let_def by (auto simp: bind_eq_Some_conv)
  moreover from sl(3) have "h = ?h" by (auto dest!: go_slice_SomeD)
  ultimately have c: "go_slice ch 5 c = Some l" "go_slice ch c (int (length ch)) = Some r"
    "splitAndAppend l (Some ?h) ?n [] = Some cs" "splitAndAppend r (Some ?h) ?m cs = Some chunks"
    by simp_all
  have n: "1 \<le> ?n" "1 \<le> ?m" using assms(2) by linarith+
  have add: "addRecord (Some ?h) = makeRecord ?h" by (simp add: addRecord_def fun_eq_iff)
  obtain ps where ps: "cs = map (makeRecord ?h) ps" "concat ps = l" "ps \<noteq> []" "int (length ps) \<le> ?n"
    by (rule splitAndAppend_parts [OF n(1), of l "Some ?h" "[]"]) (use c(3) add in auto)
  obtain qs where qs: "chunks = cs @ map (makeRecord ?h) qs" "concat qs = r" "qs \<noteq> []"
    "int (length qs) \<le> ?m"
    by (rule splitAndAppend_parts [OF n(2), of r "Some ?h" cs]) (use c(4) add in auto)
  from go_slice_SomeD [OF c(1)] go_slice_SomeD [OF c(2)]
  have "l = take (nat c - 5) (drop 5 ch)" "r = drop (nat c) ch" "5 \<le> c" "c \<le> int (length ch)"
    by (auto simp: nat_diff_distrib)
  with cut ps qs show thesis using that [of c ps qs] by simp
qed

lemma makeChunks_parts:
  assumes "makeChunks ch off len records = Some chunks" and "2 \<le> records"
  obtains parts where "chunks = map (makeRecord (take 3 ch)) parts" and "concat parts = drop 5 ch"
    and "2 \<le> length parts" and "int (length parts) \<le> records" and "5 \<le> length ch"
proof -
  from makeChunks_split [OF assms] obtain c ps qs where c: "5 \<le> c" "c \<le> int (length ch)"
    and ps: "chunks = map (makeRecord (take 3 ch)) (ps @ qs)" "concat ps = take (nat c - 5) (drop 5 ch)"
      "concat qs = drop (nat c) ch" "ps \<noteq> []" "qs \<noteq> []" "int (length (ps @ qs)) \<le> records"
    by metis
  have "drop (nat c) ch = drop (nat c - 5) (drop 5 ch)" using c by simp
  with ps have "concat (ps @ qs) = drop 5 ch" by (simp only: concat_append append_take_drop_id)
  moreover have "2 \<le> length (ps @ qs)" using ps(4,5) by (cases ps; cases qs) auto
  ultimately show thesis using c by (intro that [OF ps(1) _ _ ps(6)]) simp_all
qed

lemma makeRecord_nonempty [simp]: "makeRecord h p \<noteq> []" "0 < length (makeRecord h p)"
  by (simp_all add: makeRecord_def put_uint16_def)

lemma adds_sendChunk:
  assumes "\<not> oobex \<or> 2 \<le> i"
  shows "adds (sendChunk env oob oobex ack interval i c) (\<lambda>_. puts c (i = 0 \<and> oob))"
  unfolding sendChunk_def using assms
  by (intro adds_puts_then_ack) (auto intro!: adds_wrap adds_puts_write adds_puts_oob)

text \<open>The two urgent sends of \<open>oobex\<close> on the first two chunks.\<close>

lemma adds_sendChunk_oobex:
  assumes "c0 \<noteq> []"
  shows "adds (io_bind (sendChunk env False True ack interval 0 c0) (\<lambda>_.
      sendChunk env False True ack interval 1 c1)) (\<lambda>_. puts (c0 @ c1) True)"
proof -
  let ?l = "int (length c0)"
  have "go_slice c0 0 (?l - 1) = Some (butlast c0)" and "go_index c0 (?l - 1) = Some (last c0)"
    using assms by (cases c0 rule: rev_cases; simp add: go_slice_def go_index_def nth_append nat_diff_distrib)+
  then have "sendChunk env False True ack interval 0 c0 =
      io_bind (io_wrap ''oob 1'' (sendWithOOB env (butlast c0) (last c0))) (\<lambda>_. waitForAck env ack interval)"
    using assms by (simp add: sendChunk_def)
  moreover have "sendChunk env False True ack interval 1 c1 =
      io_bind (io_wrap ''oob 2'' (sendWithOOB env c1 0)) (\<lambda>_. waitForAck env ack interval)"
    by (simp add: sendChunk_def)
  ultimately show ?thesis using assms
    by simp (intro adds_fixed [OF adds_wrap [OF adds_sendWithOOB]] adds_seq [OF adds_waitForAck]
        adds_weaken [OF adds_waitForAck],
        simp add: puts_def received_quiet_middle [where xs = "[_, _, _]", simplified] quiet_received quiet_no_oob)
qed

lemma adds_chunks:
  assumes "\<not> (oob \<and> oobex)" and "2 \<le> length chunks" and "\<And>c. c \<in> set chunks \<Longrightarrow> c \<noteq> []"
  shows "adds (io_each_indexed (sendChunk env oob oobex ack interval) chunks) (\<lambda>_ ops. received ops = concat chunks)"
proof -
  obtain c0 c1 cs where chunks: "chunks = c0 # c1 # cs"
    using assms(2) by (cases chunks; cases "tl chunks") auto
  have rest: "adds (io_each_indexed (\<lambda>i. sendChunk env oob oobex ack interval (Suc (Suc i))) cs)
      (\<lambda>_. puts (concat cs) False)"
    using adds_sendChunk [of oobex "Suc (Suc _)" env oob ack interval] by (intro adds_puts_each_indexed) simp
  have front: "adds (io_bind (sendChunk env oob oobex ack interval 0 c0) (\<lambda>_.
      sendChunk env oob oobex ack interval 1 c1)) (\<lambda>_. puts (c0 @ c1) (oob \<or> oobex))"
  proof (cases oobex)
    case True
    with assms chunks adds_sendChunk_oobex [of c0 env ack interval c1] show ?thesis by simp
  next
    case False
    then show ?thesis
      using adds_puts_seq [OF adds_sendChunk [of oobex 0 env oob ack interval c0]
          adds_sendChunk [of oobex 1 env oob ack interval c1, simplified]] by simp
  qed
  have "adds (io_bind (io_bind (sendChunk env oob oobex ack interval 0 c0) (\<lambda>_.
      sendChunk env oob oobex ack interval 1 c1)) (\<lambda>_.
      io_each_indexed (\<lambda>i. sendChunk env oob oobex ack interval (Suc (Suc i))) cs))
      (\<lambda>_. puts ((c0 @ c1) @ concat cs) (oob \<or> oobex))"
    by (rule adds_puts_seq [OF front rest])
  then have "adds (io_each_indexed (sendChunk env oob oobex ack interval) chunks)
      (\<lambda>_. puts (concat chunks) (oob \<or> oobex))" by (simp add: chunks)
  then show ?thesis by (rule adds_weaken) (simp add: puts_def)
qed

lemma adds_sendSegment:
  assumes "0 \<le> i" and "i < segments"
  shows "adds (sendSegment env merged segments oob ack interval i)
    (\<lambda>_. puts (pieces merged (nat segments) ! nat i) (i = 0 \<and> oob))"
  unfolding sendSegment_def Let_def piece_slice [OF assms] io_option_simps io_bind_return
  by (rule adds_puts_then_ack) (auto intro!: adds_wrap adds_puts_oob adds_puts_write)

lemma adds_segments:
  assumes "1 \<le> segments"
  shows "adds (io_each (sendSegment env merged segments oob ack interval) [0..segments - 1])
    (\<lambda>_. puts merged oob)"
proof -
  let ?p = "pieces merged (nat segments)"
  have up: "[0..segments - 1] = 0 # [1..segments - 1]" using assms by (simp add: upto_rec1)
  have split: "?p ! 0 @ concat (map (\<lambda>i. ?p ! nat i) [1..segments - 1]) = merged"
  proof -
    have "concat (map (\<lambda>i. ?p ! nat i) [0..segments - 1]) = merged"
      using assms map_nth_upto [of ?p segments] concat_pieces [of "nat segments" merged] by simp
    then show ?thesis unfolding up by simp
  qed
  have "adds (io_each (sendSegment env merged segments oob ack interval) [1..segments - 1])
      (\<lambda>_. puts (concat (map (\<lambda>i. ?p ! nat i) [1..segments - 1])) False)"
  proof (rule adds_puts_each)
    fix i assume "i \<in> set [1..segments - 1]"
    then show "adds (sendSegment env merged segments oob ack interval i) (\<lambda>_. puts (?p ! nat i) False)"
      using adds_sendSegment [of i segments env merged oob ack interval] by simp
  qed
  from adds_puts_seq [OF adds_sendSegment [of 0 segments env merged oob ack interval] this] assms split
  show ?thesis unfolding up by simp
qed

lemma adds_sendMerged:
  assumes "\<not> (oob \<and> oobex)" and "1 \<le> segments"
  shows "adds (sendMerged env merged segments oob oobex ack interval) (\<lambda>_ ops. received ops = merged)"
proof -
  have send: "adds (if segments = 1 \<or> int (length m) \<le> segments then conn_write env m
      else io_each (sendSegment env m segments oob ack interval) [0..segments - 1])
    (\<lambda>_ ops. \<exists>u. puts m u ops \<and> (u \<longrightarrow> oob))" for m
    using assms(2) by (auto intro: adds_weaken [OF adds_puts_write] adds_weaken [OF adds_segments])
  show ?thesis
  proof (cases "oobex \<and> 35 \<le> length merged")
    case True
    show ?thesis unfolding sendMerged_def using True
      by (simp only: simp_thms if_True)
        (rule adds_bind [OF adds_sendOOBEx], rule adds_weaken [OF send],
          use assms True in \<open>auto simp: puts_def\<close>)
  next
    case False
    then show ?thesis unfolding sendMerged_def
      by (simp only: if_False io_bind_return) (rule adds_weaken [OF send], auto simp: puts_def)
  qed
qed

section \<open>The properties of the fragmentation\<close>

text \<open>The ClientHello as it is sent: with \<open>modMinorVer\<close> the minor version byte is overwritten.\<close>

definition sent_hello :: "bool \<Rightarrow> bytes \<Rightarrow> bytes" where
  "sent_hello modMinorVer ch = (if modMinorVer then ch[2 := 4] else ch)"

lemma sendRecords_run:
  assumes "sendRecords env ch offset len records segments oob oobex modv ack interval w = (Ok (), w')"
  shows "(if records = 0 \<or> records = 1 then sendSingleRecord env (sent_hello modv ch) offset len (if segments = 0 then 1 else segments) oob oobex ack interval
      else io_bind (io_option (makeChunks (sent_hello modv ch) offset len records)) (\<lambda>chunks.
        if segments = -1 then io_each_indexed (sendChunk env oob oobex ack interval) chunks
        else sendMerged env (concat chunks) (if segments = 0 then 1 else segments) oob oobex ack interval)) w = (Ok (), w')"
  using assms by (auto simp: sendRecords_def Let_def sent_hello_def split: if_splits)

text \<open>With several records, what is received is the records one after the other.\<close>

lemma sendRecords_several:
  assumes "sendRecords env ch offset len records segments oob oobex modv ack interval w = (Ok (), w')"
    and "2 \<le> records" and "-1 \<le> segments" and "\<not> (oob \<and> oobex)"
  obtains chunks ops where "makeChunks (sent_hello modv ch) offset len records = Some chunks"
    and "calls w' = calls w @ map (\<lambda>op. (op, None)) ops" and "received ops = concat chunks"
proof -
  from sendRecords_run [OF assms(1)] assms(2) obtain chunks where chunks: "makeChunks (sent_hello modv ch) offset len records = Some chunks"
    and send: "(if segments = -1 then io_each_indexed (sendChunk env oob oobex ack interval) chunks
      else sendMerged env (concat chunks) (if segments = 0 then 1 else segments) oob oobex ack interval) w = (Ok (), w')"
    by (auto split: if_splits)
  have "\<exists>ops. calls w' = calls w @ map (\<lambda>op. (op, None)) ops \<and> received ops = concat chunks"
  proof (cases "segments = -1")
    case True
    obtain parts where "chunks = map (makeRecord (take 3 (sent_hello modv ch))) parts" "2 \<le> length parts"
      using makeChunks_parts [OF chunks assms(2)] by blast
    then have "adds (io_each_indexed (sendChunk env oob oobex ack interval) chunks) (\<lambda>_ ops. received ops = concat chunks)"
      by (intro adds_chunks [OF assms(4)]) auto
    with True send show ?thesis by (auto dest: addsD)
  next
    case False
    with send have "sendMerged env (concat chunks) (if segments = 0 then 1 else segments) oob oobex ack interval w = (Ok (), w')" by simp
    moreover have "1 \<le> (if segments = 0 then 1 else segments)" using False assms(3) by simp
    ultimately show ?thesis using addsD [OF adds_sendMerged [OF assms(4)]] by blast
  qed
  with chunks that show thesis by blast
qed

text \<open>The peer's record layer reads the records back, if each is short enough for its length field.\<close>

lemma records_decoded:
  assumes "received ops = concat (map (makeRecord h) parts)" and "length h = 3" and "length (concat parts) < 65536"
  shows "decode_frames decRecord (length (received ops)) (received ops) = Some (map (Pair h) parts)"
proof -
  have "wf_record r" if "r \<in> set (map (Pair h) parts)" for r
    using that assms(2,3) by (auto simp: wf_record_def dest!: length_le_concat)
  moreover have "received ops = concat (map (\<lambda>r. makeRecord (fst r) (snd r)) (map (Pair h) parts))"
    using assms(1) by (simp add: comp_def)
  ultimately show ?thesis using tls_records.decode_frames_enc [of "map (Pair h) parts"] by simp
qed

lemma length_sent_hello [simp]: "length (sent_hello modv ch) = length ch"
  by (simp add: sent_hello_def)

lemma sendRecords_received:
  assumes "sendRecords env ch offset len records segments oob oobex modv ack interval w = (Ok (), w')"
    and "0 \<le> records" and "-1 \<le> segments" and "\<not> (oob \<and> oobex)" and "length ch \<le> 65540"
  shows "\<exists>ops. calls w' = calls w @ map (\<lambda>op. (op, None)) ops \<and>
    (if records \<le> 1 then received ops = sent_hello modv ch
     else \<exists>parts. int (length parts) \<le> records \<and> concat parts = drop 5 (sent_hello modv ch) \<and>
       decode_frames decRecord (length (received ops)) (received ops) =
         Some (map (Pair (take 3 (sent_hello modv ch))) parts))"
proof (cases "records \<le> 1")
  case True
  with assms(2) sendRecords_run [OF assms(1)] have
    "sendSingleRecord env (sent_hello modv ch) offset len (if segments = 0 then 1 else segments) oob oobex ack interval w = (Ok (), w')"
    by (cases "records = 0") auto
  from addsD [OF adds_sendSingleRecord [OF assms(4)] this] True show ?thesis by simp
next
  case False
  then have two: "2 \<le> records" by simp
  obtain chunks ops where chunks: "makeChunks (sent_hello modv ch) offset len records = Some chunks"
    and ops: "calls w' = calls w @ map (\<lambda>op. (op, None)) ops" "received ops = concat chunks"
    using sendRecords_several [OF assms(1) two assms(3,4)] by blast
  obtain parts where parts: "chunks = map (makeRecord (take 3 (sent_hello modv ch))) parts" "concat parts = drop 5 (sent_hello modv ch)"
    "int (length parts) \<le> records" "5 \<le> length (sent_hello modv ch)"
    using makeChunks_parts [OF chunks two] by blast
  have "decode_frames decRecord (length (received ops)) (received ops) = Some (map (Pair (take 3 (sent_hello modv ch))) parts)"
    by (rule records_decoded) (use ops parts assms(5) in \<open>simp_all add: min_def\<close>)
  with ops(1) parts(2,3) False show ?thesis by (intro exI [of _ ops]) auto
qed


section \<open>No panic, and success\<close>

lemma returns_sendOOBEx [returns_intros]:
  assumes "env_ok ok env" and "ok \<Longrightarrow> \<not> ack" and "35 \<le> length data"
  shows "returns (sock_ok ok) ok (sendOOBEx env ack interval data)"
  unfolding sendOOBEx_eq [OF assms(3)] using assms(1,2) by (auto intro!: returns_intros)

lemma returns_sendPacket [returns_intros]:
  "env_ok ok env \<Longrightarrow> (ok \<Longrightarrow> \<not> ack) \<Longrightarrow> returns (sock_ok ok) ok (sendPacket env oob ack interval i p)"
  unfolding sendPacket_def by (intro returns_intros) auto

lemma returns_sendChunk [returns_intros]:
  "env_ok ok env \<Longrightarrow> (ok \<Longrightarrow> \<not> ack) \<Longrightarrow> returns (sock_ok ok) ok (sendChunk env oob oobex ack interval i c)"
  unfolding sendChunk_def by (auto intro!: returns_intros simp: go_slice_def go_index_def)

lemma returns_sendMerged [returns_intros]:
  assumes "env_ok ok env" and "ok \<Longrightarrow> \<not> ack"
  shows "returns (sock_ok ok) ok (sendMerged env merged segments oob oobex ack interval)"
  unfolding sendMerged_def
proof (intro returns_intros assms)
  fix m i assume "i \<in> set [0..segments - 1]"
  then have "0 \<le> i" "i < segments" by simp_all
  then show "returns (sock_ok ok) ok (sendSegment env m segments oob ack interval i)"
    unfolding sendSegment_def Let_def piece_slice [OF \<open>0 \<le> i\<close> \<open>i < segments\<close>]
    using assms by (auto intro!: returns_intros)
qed auto

text \<open>Splitting at a cut inside the slice always gives packets.\<close>

lemma splitAndAppend_Some: "\<exists>ps. splitAndAppend data header n result = Some ps"
proof (cases "1 \<le> n")
  case True
  then show ?thesis by (rule splitAndAppend_parts [of n data header result]) blast
qed (simp add: splitAndAppend_def)

lemma packets_Some:
  assumes "go_slice d off (off + len) = Some name"
  shows "\<exists>ps. do { c \<leftarrow> findLastDotOrMidPos d off len; l \<leftarrow> go_slice d 0 c; r \<leftarrow> go_slice d c (int (length d));
    packets \<leftarrow> splitAndAppend l None n []; splitAndAppend r None m packets } = Some ps"
proof -
  obtain c where c: "findLastDotOrMidPos d off len = Some c" "off \<le> c" "c \<le> off + len"
    using findLastDotOrMidPos_cut [OF assms] by metis
  with go_slice_SomeD [OF assms] have "go_slice d 0 c = Some (take (nat c) d)"
    "go_slice d c (int (length d)) = Some (drop (nat c) d)" by (auto simp: go_slice_def nat_diff_distrib)
  moreover obtain ps where "splitAndAppend (take (nat c) d) None n [] = Some ps"
    using splitAndAppend_Some by blast
  moreover obtain qs where "splitAndAppend (drop (nat c) d) None m ps = Some qs"
    using splitAndAppend_Some by blast
  ultimately show ?thesis using c by simp
qed

lemma makeChunks_Some:
  assumes "go_slice ch off (off + len) = Some name" and "5 \<le> off" and "0 \<le> records"
  shows "\<exists>cs. makeChunks ch off len records = Some cs"
proof -
  let ?h = "Some (take 3 ch)"
  obtain c where c: "findLastDotOrMidPos ch off len = Some c" "off \<le> c" "c \<le> off + len"
    using findLastDotOrMidPos_cut [OF assms(1)] by metis
  with go_slice_SomeD [OF assms(1)] assms(2)
  have "go_slice ch 5 c = Some (take (nat (c - 5)) (drop 5 ch))"
    "go_slice ch c (int (length ch)) = Some (drop (nat c) ch)" "go_slice ch 0 3 = Some (take 3 ch)"
    by (auto simp: go_slice_def nat_diff_distrib)
  moreover obtain ps where "splitAndAppend (take (nat (c - 5)) (drop 5 ch)) ?h (records div 2) [] = Some ps"
    using splitAndAppend_Some by blast
  moreover obtain qs where "splitAndAppend (drop (nat c) ch) ?h (records - records div 2) ps = Some qs"
    using splitAndAppend_Some by blast
  ultimately show ?thesis using c(1) assms(3)
    by (simp add: makeChunks_def go_make_cap_def tls_consts)
qed

lemma go_slice_drop:
  "go_slice ch off (off + len) = Some name \<Longrightarrow> 35 \<le> off \<Longrightarrow>
   go_slice (drop 35 ch) (off - 35) (off - 35 + len) = Some name"
  by (auto simp: go_slice_def nat_diff_distrib split: if_splits)

lemma returns_sendRemaining:
  assumes "env_ok ok env" and "ok \<Longrightarrow> \<not> ack" and "go_slice d off (off + len) = Some name" and "0 \<le> segments"
  shows "returns (sock_ok ok) ok (sendRemaining env len segments oob ack interval d off)"
proof -
  obtain ps where "do { c \<leftarrow> findLastDotOrMidPos d off len; l \<leftarrow> go_slice d 0 c;
      r \<leftarrow> go_slice d c (int (length d)); packets \<leftarrow> splitAndAppend l None (segments div 2) [];
      splitAndAppend r None (segments - segments div 2) packets } = Some ps"
    using packets_Some [OF assms(3)] by blast
  then show ?thesis using assms(1,2,4)
    by (auto simp: sendRemaining_def Let_def go_make_cap_def intro!: returns_intros)
qed

lemma returns_sendSingleRecord:
  assumes "env_ok ok env" and "ok \<Longrightarrow> \<not> ack" and "go_slice ch off (off + len) = Some name"
    and "35 \<le> off" and "0 \<le> segments"
  shows "returns (sock_ok ok) ok (sendSingleRecord env ch off len segments oob oobex ack interval)"
proof (cases "oobex \<and> 35 \<le> length ch")
  case True
  then have "sendSingleRecord env ch off len segments oob oobex ack interval =
      io_bind (io_wrap ''oob 1'' (sendWithOOB env (take 15 ch) (ch ! 15))) (\<lambda>_.
      io_bind (io_wrap ''oob 2'' (sendWithOOB env (take 19 (drop 16 ch)) 0)) (\<lambda>_.
      io_bind (waitForAck env ack interval) (\<lambda>_.
        sendRemaining env len segments oob ack interval (drop 35 ch) (off - 35))))"
    by (simp add: sendSingleRecord_def sendOOBEx_eq)
  moreover have "returns (sock_ok ok) ok (sendRemaining env len segments oob ack interval (drop 35 ch) (off - 35))"
    by (rule returns_sendRemaining [OF assms(1,2) go_slice_drop [OF assms(3,4)] assms(5)])
  ultimately show ?thesis using assms(1,2) by (auto intro!: returns_intros)
next
  case False
  then show ?thesis using returns_sendRemaining [OF assms(1,2,3,5)] by (auto simp: sendSingleRecord_def)
qed

lemma go_slice_sent_hello: "2 < off \<Longrightarrow> go_slice (sent_hello modv ch) off hi = go_slice ch off hi"
  by (simp add: go_slice_def sent_hello_def drop_update_cancel nat_less_iff)

lemma returns_sendRecords:
  assumes "env_ok ok env" and "ok \<Longrightarrow> \<not> ack" and "go_slice ch off (off + len) = Some name" and "35 \<le> off"
    and "0 \<le> records" and "segments = -1 \<longrightarrow> 2 \<le> records" and "-1 \<le> segments"
  shows "returns (sock_ok ok) ok (sendRecords env ch off len records segments oob oobex modv ack interval)"
proof -
  let ?ch = "sent_hello modv ch" and ?seg = "if segments = 0 then 1 else segments"
  have name: "go_slice ?ch off (off + len) = Some name" using go_slice_sent_hello assms(3,4) by simp
  have ix: "(if modv then map_option (\<lambda>_. ch[2 := 4]) (go_index ch 2) else Some ch) = Some ?ch"
    using go_slice_SomeD [OF assms(3)] assms(4) by (simp add: sent_hello_def go_index_def)
  have single: "returns (sock_ok ok) ok (sendSingleRecord env ?ch off len ?seg oob oobex ack interval)"
    if "records \<le> 1"
    using that assms by (intro returns_sendSingleRecord [OF _ _ name]) auto
  obtain cs where "makeChunks ?ch off len records = Some cs"
    using makeChunks_Some [OF name] assms(4,5) by fastforce
  with single assms show ?thesis
    by (auto simp: sendRecords_def ix Let_def intro!: returns_intros)
qed


text \<open>
  One segment per record (\<open>num_segs = -1\<close>) with a single record panics: the single-record
  branch allocates its packet list with \<open>segments\<close> as the capacity. The policy parser accepts
  this configuration. Nothing has been sent at that point.
\<close>

theorem sendRecords_single_record_minus_one_panics:
  "records \<in> {0, 1} \<Longrightarrow> sendRecords env ch offset len records (-1) oob False False ack interval w = (Panic, w)"
  by (auto simp: sendRecords_def sendSingleRecord_def sendRemaining_def go_make_cap_def io_bind_def)

section \<open>Concrete runs\<close>



theorem sendRecords_single_record_minus_one_panics_witness:
  "sendRecords quiet_env record_example 58 3 1 (-1) False False False False 0 sock_example = (Panic, sock_example)"
  by (rule sendRecords_single_record_minus_one_panics) simp

end
