(* ===== verification/DesyncSend.thy ===== *)
theory DesyncSend
  imports ClientHello GoIO
begin

text \<open>
  Sending with a decoy, \<^verbatim>\<open>desyncSend\<close> and \<^verbatim>\<open>sendWithNoise\<close> of \<^verbatim>\<open>internal/desync_linux.go\<close>. The
  front of the ClientHello up to the cut is handed to the kernel by reference: the memory
  page holds the decoy while a packet with a small TTL goes out, and is then overwritten
  with the real bytes, which the kernel retransmits. The page content, the TTL in force and
  the splice are calls of the log, so what travels with which TTL can be read off it. The
  splice runs in a goroutine: its place in the sequence is an argument (\<open>slot\<close>), and what
  the peer finally receives is shown not to depend on it.
\<close>

section \<open>The routines\<close>

definition minInterval :: int where "minInterval = 100000000"

text \<open>A store to the mapped page: \<^verbatim>\<open>copy(data, bytes)\<close>.\<close>

definition page_store :: "bytes \<Rightarrow> (sock, unit) io" where
  "page_store b w = (Ok (), w\<lparr>calls := calls w @ [(PageStore b, None)]\<rparr>)"

text \<open>The goroutine: all of the pipe goes to the socket, or an error is kept for later.\<close>

definition noise_writer :: "sock_env \<Rightarrow> nat \<Rightarrow> (sock, unit) io" where
  "noise_writer env n =
     io_bind (io_wrap ''raw write (splice)'' (sys env RawWrite)) (\<lambda>_.
     io_bind (io_wrap ''splice'' (sys env (Splice n))) (\<lambda>_. io_return ()))"

definition run_slot ::
  "sock_env \<Rightarrow> nat \<Rightarrow> bool \<Rightarrow> (go_error + unit) option \<Rightarrow> (sock, (go_error + unit) option) io" where
  "run_slot env n due r =
     (if due \<and> r = None then io_bind (io_try (noise_writer env n)) (\<lambda>x. io_return (Some x))
      else io_return r)"

definition sendWithNoise ::
  "sock_env \<Rightarrow> nat \<Rightarrow> nat \<Rightarrow> bytes \<Rightarrow> bytes \<Rightarrow> int \<Rightarrow> int \<Rightarrow> bool \<Rightarrow> int \<Rightarrow> (sock, unit) io" where
  "sendWithNoise env pageSize slot fakeData realData fakeTTL defaultTTL ipv6 fakeSleep =
     (let mmapLen = ((length fakeData + pageSize - 1) div pageSize) * pageSize; n = length fakeData in
      io_bind (io_wrap ''create pipe'' (sys env Pipe)) (\<lambda>_.
      io_bind (io_wrap ''mmap'' (sys env Mmap)) (\<lambda>_.
      io_bind (page_store fakeData) (\<lambda>_.
      io_bind (io_wrap ''set fake TTL'' (sys env (SetTTL ipv6 fakeTTL))) (\<lambda>_.
      if mmapLen = 0 then io_fail (ErrorNew ''mmap returned empty buffer'') else
      io_bind (io_wrap ''vmsplice'' (sys env (Vmsplice n))) (\<lambda>_.
      io_bind (run_slot env n (slot = 0) None) (\<lambda>r.
      io_bind (sleep env fakeSleep) (\<lambda>_.
      io_bind (run_slot env n (slot = 1) r) (\<lambda>r.
      io_bind (page_store realData) (\<lambda>_.
      io_bind (run_slot env n (slot = 2) r) (\<lambda>r.
      io_bind (io_wrap ''set default TTL'' (sys env (SetTTL ipv6 defaultTTL))) (\<lambda>_.
      io_bind (run_slot env n True r) (\<lambda>r.
      case r of Some (Inl err) \<Rightarrow> io_fail err | _ \<Rightarrow> io_return ())))))))))))))"

definition desyncSend ::
  "sock_env \<Rightarrow> nat \<Rightarrow> nat \<Rightarrow> bool \<Rightarrow> bytes \<Rightarrow> int \<Rightarrow> int \<Rightarrow> int \<Rightarrow> int \<Rightarrow> (sock, unit) io" where
  "desyncSend env pageSize slot ipv6 rec sni_start sni_len fakeTTL fakeSleep =
     io_bind (getTCPRawConn env) (\<lambda>_.
     io_bind (io_wrap ''raw control'' (sys env RawControl)) (\<lambda>_.
     io_bind (io_wrap ''get default TTL'' (sys env (GetTTL ipv6))) (\<lambda>defaultTTL.
     let fakeSleep = (if fakeSleep < minInterval then minInterval else fakeSleep) in
     io_bind (io_option (do {
         cut \<leftarrow> findLastDotOrMidPos rec sni_start sni_len;
         front \<leftarrow> go_slice rec 0 sni_start;
         real \<leftarrow> go_slice rec 0 cut;
         rest \<leftarrow> go_slice rec cut (int (length rec));
         Some (go_copy (replicate (nat cut) 0) front, real, rest) })) (\<lambda>(fakeData, real, rest).
     io_bind (io_wrap ''send data with noise''
       (sendWithNoise env pageSize slot fakeData real fakeTTL defaultTTL ipv6 fakeSleep)) (\<lambda>_.
     io_bind (io_wrap ''send remaining data'' (conn_write env rest)) (\<lambda>_. io_return ()))))))"

section \<open>What travels\<close>

text \<open>The packets of a log, each with the TTL in force: \<open>pg\<close> is the page, \<open>ttl\<close> the TTL.\<close>

fun flights :: "bytes \<Rightarrow> int \<Rightarrow> sock_op list \<Rightarrow> (int \<times> bytes) list" where
  "flights pg ttl [] = []"
| "flights pg ttl (PageStore b # ops) = flights (go_copy pg b) ttl ops"
| "flights pg ttl (SetTTL v t # ops) = flights pg t ops"
| "flights pg ttl (Splice n # ops) = (ttl, take n pg) # flights pg ttl ops"
| "flights pg ttl (ConnWrite b # ops) = (ttl, b) # flights pg ttl ops"
| "flights pg ttl (_ # ops) = flights pg ttl ops"

fun final_page :: "bytes \<Rightarrow> sock_op list \<Rightarrow> bytes" where
  "final_page pg [] = pg"
| "final_page pg (PageStore b # ops) = final_page (go_copy pg b) ops"
| "final_page pg (_ # ops) = final_page pg ops"

text \<open>What the peer ends up with: spliced bytes are retransmitted from the page's final content.\<close>

fun delivered :: "bytes \<Rightarrow> sock_op list \<Rightarrow> bytes" where
  "delivered pg [] = []"
| "delivered pg (Splice n # ops) = take n pg @ delivered pg ops"
| "delivered pg (ConnWrite b # ops) = b @ delivered pg ops"
| "delivered pg (_ # ops) = delivered pg ops"

text \<open>
  \<open>logs m P\<close>: like \<open>adds\<close>, for code that keeps an error and goes on: the calls may include
  a failed one.
\<close>

definition logs :: "(sock, 'a) io \<Rightarrow> ('a \<Rightarrow> (sock_op \<times> go_error option) list \<Rightarrow> bool) \<Rightarrow> bool" where
  "logs m P \<longleftrightarrow> (\<forall>w x w'. m w = (Ok x, w') \<longrightarrow> (\<exists>cs. calls w' = calls w @ cs \<and> P x cs))"

lemma logs_weaken: "logs m P \<Longrightarrow> (\<And>x cs. P x cs \<Longrightarrow> Q x cs) \<Longrightarrow> logs m Q"
  unfolding logs_def by blast

lemma logs_of_adds: "adds m (\<lambda>_ ops. ops = os) \<Longrightarrow> logs m (\<lambda>_ cs. cs = map (\<lambda>op. (op, None)) os)"
  unfolding adds_def logs_def by blast

lemma logs_return: "P x [] \<Longrightarrow> logs (io_return x) P"
  by (simp add: logs_def)

lemma logs_fail: "logs (io_fail e) P"
  by (simp add: logs_def)

lemma logs_wrap: "logs m P \<Longrightarrow> logs (io_wrap op m) P"
  by (simp add: logs_def)

lemma logs_bind:
  assumes "logs m P" and "\<And>x cs. P x cs \<Longrightarrow> logs (k x) (\<lambda>y cs'. Q y (cs @ cs'))"
  shows "logs (io_bind m k) Q"
  unfolding logs_def
proof (intro allI impI)
  fix w y w2 assume "io_bind m k w = (Ok y, w2)"
  then obtain x w1 where "m w = (Ok x, w1)" and k: "k x w1 = (Ok y, w2)" by auto
  with assms(1) obtain cs where "P x cs" "calls w1 = calls w @ cs" unfolding logs_def by blast
  moreover from assms(2) [OF this(1)] k obtain cs' where "Q y (cs @ cs')" "calls w2 = calls w1 @ cs'"
    unfolding logs_def by blast
  ultimately show "\<exists>cs. calls w2 = calls w @ cs \<and> Q y cs" by auto
qed

lemma logs_adds_bind:
  "adds m (\<lambda>_ ops. ops = os) \<Longrightarrow> (\<And>x. logs (k x) (\<lambda>y cs. Q y (map (\<lambda>op. (op, None)) os @ cs))) \<Longrightarrow>
   logs (io_bind m k) Q"
  by (rule logs_bind [OF logs_of_adds]) auto

lemma adds_page_store: "adds (page_store b) (\<lambda>_ ops. ops = [PageStore b])"
  by (auto simp: adds_def page_store_def Cons_eq_map_conv)

lemma adds_noise_writer: "adds (noise_writer env n) (\<lambda>_ ops. ops = [RawWrite, Splice n])"
  unfolding noise_writer_def by (intro adds_fixed [OF adds_wrap_sys] adds_return) simp

text \<open>The calls of the goroutine, if it ran in this slot and succeeded.\<close>

definition splice_calls :: "nat \<Rightarrow> (sock_op \<times> go_error option) list" where
  "splice_calls n = [(RawWrite, None), (Splice n, None)]"

lemma calls_extend: "sys env op w = (r, w') \<Longrightarrow> \<exists>cs. calls w' = calls w @ cs"
  by (auto simp: sys_def Let_def)

lemma logs_run_slot:
  "logs (run_slot env n due r) (\<lambda>r' cs.
     if due \<and> r = None then \<exists>x. r' = Some x \<and> (x = Inr () \<longrightarrow> cs = splice_calls n)
     else r' = r \<and> cs = [])"
proof (cases "due \<and> r = None")
  case False
  then show ?thesis by (auto simp: run_slot_def intro!: logs_return)
next
  case True
  have "\<exists>cs. calls w' = calls w @ cs \<and> (x = Inr () \<longrightarrow> cs = splice_calls n)"
    if "io_try (noise_writer env n) w = (Ok x, w')" for w x w'
  proof (cases x)
    case (Inr u)
    with that have "noise_writer env n w = (Ok (), w')"
      by (auto simp: io_try_def split: prod.splits outcome.splits)
    from addsD [OF adds_noise_writer this] Inr show ?thesis by (auto simp: splice_calls_def)
  next
    case (Inl e)
    with that have "noise_writer env n w = (Fail e, w')"
      by (auto simp: io_try_def split: prod.splits outcome.splits)
    then have "\<exists>cs. calls w' = calls w @ cs"
      by (auto simp: noise_writer_def io_bind_def io_wrap_def io_return_def split: prod.splits outcome.splits
          dest!: calls_extend)
    with Inl show ?thesis by auto
  qed
  then show ?thesis using True by (fastforce simp: run_slot_def logs_def)
qed

text \<open>The calls of a successful run, by the slot of the goroutine.\<close>

definition noise_calls :: "nat \<Rightarrow> bytes \<Rightarrow> bytes \<Rightarrow> int \<Rightarrow> int \<Rightarrow> bool \<Rightarrow> int \<Rightarrow> sock_op list" where
  "noise_calls slot fakeData realData fakeTTL defaultTTL ipv6 fakeSleep =
     (let n = length fakeData; at = (\<lambda>k. if slot = k then [RawWrite, Splice n] else []) in
      [Pipe, Mmap, PageStore fakeData, SetTTL ipv6 fakeTTL, Vmsplice n] @ at 0 @ [Sleep fakeSleep] @ at 1
      @ [PageStore realData] @ at 2 @ [SetTTL ipv6 defaultTTL] @ (if 3 \<le> slot then [RawWrite, Splice n] else []))"

lemma run_slot_skip [simp]:
  "run_slot env n False r = io_return r" "run_slot env n due (Some x) = io_return (Some x)"
  by (simp_all add: run_slot_def)

lemma adds_sleep_fixed: "adds (sleep env d) (\<lambda>_ ops. ops = [Sleep d])"
  by (rule adds_sleep) simp

lemma logs_slot_bind:
  assumes "\<And>x. x = Inr () \<Longrightarrow> logs (k (Some x)) (\<lambda>y cs. Q y (splice_calls n @ cs))"
    and "\<And>e cs. logs (k (Some (Inl e))) (\<lambda>y cs'. Q y (cs @ cs'))"
  shows "logs (io_bind (run_slot env n True None) k) Q"
proof (rule logs_bind [OF logs_run_slot])
  fix x :: "(go_error + unit) option" and cs
  assume "if True \<and> (None :: (go_error + unit) option) = None
    then \<exists>y. x = Some y \<and> (y = Inr () \<longrightarrow> cs = splice_calls n) else x = None \<and> cs = []"
  then obtain y where y: "x = Some y" "y = Inr () \<Longrightarrow> cs = splice_calls n" by auto
  show "logs (k x) (\<lambda>y cs'. Q y (cs @ cs'))"
  proof (cases y)
    case (Inl e)
    with assms(2) y show ?thesis by simp
  next
    case (Inr u)
    with assms(1) [of y] y show ?thesis by simp
  qed
qed

lemmas logs_steps = logs_adds_bind [OF adds_wrap_sys] logs_adds_bind [OF adds_page_store]
  logs_adds_bind [OF adds_sleep_fixed]

text \<open>A kept error makes the run fail at the end, so it never counts as a success.\<close>

lemma logs_steps_then_fail:
  "logs (io_bind m (\<lambda>_. io_fail e)) Q" "(\<And>x. logs (k x) (\<lambda>_ _. False)) \<Longrightarrow> logs (io_bind m k) Q"
  unfolding logs_def by (auto; blast)+

lemma logs_sendWithNoise:
  assumes "0 < pageSize" and "fakeData \<noteq> []"
  shows "logs (sendWithNoise env pageSize slot fakeData realData fakeTTL defaultTTL ipv6 fakeSleep)
    (\<lambda>_ cs. cs = map (\<lambda>op. (op, None)) (noise_calls slot fakeData realData fakeTTL defaultTTL ipv6 fakeSleep))"
proof -
  have "pageSize \<le> length fakeData + pageSize - 1" using assms(2) by (cases fakeData) auto
  then have page: "((length fakeData + pageSize - 1) div pageSize) * pageSize \<noteq> 0"
    using assms(1) by (simp add: div_eq_0_iff)
  consider "slot = 0" | "slot = 1" | "slot = 2" | "3 \<le> slot" by linarith
  then show ?thesis using page
    by cases (simp_all add: sendWithNoise_def Let_def noise_calls_def,
      (intro logs_steps logs_slot_bind; (simp add: splice_calls_def)?;
        intro logs_steps logs_return logs_steps_then_fail logs_fail; simp)+)
qed

lemma logs_option_bind: "(\<And>a. x = Some a \<Longrightarrow> logs (k a) Q) \<Longrightarrow> logs (io_bind (io_option x) k) Q"
  by (cases x) (auto simp: logs_def)

text \<open>All calls of a successful \<^verbatim>\<open>desyncSend\<close>.\<close>

definition desync_calls :: "nat \<Rightarrow> bool \<Rightarrow> bytes \<Rightarrow> int \<Rightarrow> int \<Rightarrow> int \<Rightarrow> int \<Rightarrow> int \<Rightarrow> sock_op list" where
  "desync_calls slot ipv6 rec sni_start c fakeTTL defaultTTL fakeSleep =
     [SyscallConn, RawControl, GetTTL ipv6]
     @ noise_calls slot (go_copy (replicate (nat c) 0) (take (nat sni_start) rec)) (take (nat c) rec)
         fakeTTL defaultTTL ipv6 (max minInterval fakeSleep)
     @ [ConnWrite (drop (nat c) rec)]"

lemma logs_desyncSend:
  assumes "0 < pageSize" and "0 < sni_start"
  shows "logs (desyncSend env pageSize slot ipv6 rec sni_start sni_len fakeTTL fakeSleep)
    (\<lambda>_ cs. \<exists>c d. findLastDotOrMidPos rec sni_start sni_len = Some c \<and> sni_start \<le> c \<and> c \<le> int (length rec) \<and>
       cs = map (\<lambda>op. (op, None)) (desync_calls slot ipv6 rec sni_start c fakeTTL d fakeSleep))"
  unfolding desyncSend_def Let_def
proof (intro logs_steps logs_adds_bind [OF adds_getTCPRawConn], rule logs_option_bind, goal_cases)
  case (1 _ _ d a)
  obtain fakeData real rest where a: "a = (fakeData, real, rest)" by (cases a)
  with 1 obtain c where c: "findLastDotOrMidPos rec sni_start sni_len = Some c"
    and f: "fakeData = go_copy (replicate (nat c) 0) (take (nat sni_start) rec)"
    and r: "real = take (nat c) rec" "rest = drop (nat c) rec" "c \<le> int (length rec)"
    by (auto simp: bind_eq_Some_conv nat_diff_distrib dest!: go_slice_SomeD)
  obtain name where "go_slice rec sni_start (sni_start + sni_len) = Some name"
    using c by (auto simp: findLastDotOrMidPos_def bind_eq_Some_conv)
  with c have le: "sni_start \<le> c" by (metis findLastDotOrMidPos_cut option.inject)
  with assms(2) f have ne: "fakeData \<noteq> []" by (auto simp flip: length_0_conv)
  let ?sl = "if fakeSleep < minInterval then minInterval else fakeSleep"
  have sl: "?sl = max minInterval fakeSleep" by simp
  show ?case unfolding a prod.case
    by (rule logs_bind [OF logs_wrap [OF logs_sendWithNoise [OF assms(1) ne]]],
        rule logs_adds_bind [OF adds_wrap [OF adds_conn_write]], rule logs_return)
      (use c le r f sl in \<open>auto simp: desync_calls_def\<close>)
qed

lemma decoy_eq:
  assumes "s \<le> k" and "k \<le> length rec"
  shows "go_copy (replicate k 0) (take s rec) = take s rec @ replicate (k - s) (0 :: byte)"
  using assms by (simp add: go_copy_def min_def)

lemma take_go_copy: "length b \<le> length pg \<Longrightarrow> take (length b) (go_copy pg b) = b"
  by (simp add: go_copy_def)

lemma flights_desync:
  assumes "slot \<le> 1" and "nat c \<le> length pg" and "sni_start \<le> c" and "c \<le> int (length rec)"
  shows "flights pg t (desync_calls slot ipv6 rec sni_start c fakeTTL d fs) =
    [(fakeTTL, take (nat sni_start) rec @ replicate (nat c - nat sni_start) 0), (d, drop (nat c) rec)]"
proof -
  have "nat sni_start \<le> nat c" "nat c \<le> length rec" using assms(3,4) by auto
  note decoy = decoy_eq [OF this]
  let ?f = "take (nat sni_start) rec @ replicate (nat c - nat sni_start) 0"
  have len: "length ?f = nat c" using assms(3,4) by auto
  then have pg: "take (nat c) (go_copy pg ?f) = ?f" using take_go_copy [of ?f pg] assms(2) by simp
  from assms(1) consider "slot = 0" | "slot = 1" by linarith
  then show ?thesis
    by cases (simp_all add: desync_calls_def noise_calls_def Let_def decoy len pg del: length_append)
qed

lemma delivered_desync:
  assumes "nat c \<le> length pg" and "sni_start \<le> c" and "c \<le> int (length rec)"
  shows "delivered (final_page pg (desync_calls slot ipv6 rec sni_start c fakeTTL d fs))
      (desync_calls slot ipv6 rec sni_start c fakeTTL d fs) = rec"
proof -
  have le: "nat sni_start \<le> nat c" "nat c \<le> length rec" using assms(2,3) by auto
  note decoy = decoy_eq [OF this]
  let ?f = "take (nat sni_start) rec @ replicate (nat c - nat sni_start) 0"
  have len: "length ?f = nat c" using le by auto
  have pg: "take (nat c) (go_copy (go_copy pg ?f) (take (nat c) rec)) = take (nat c) rec"
    using take_go_copy [of "take (nat c) rec" "go_copy pg ?f"] le assms(1) by simp
  consider "slot = 0" | "slot = 1" | "slot = 2" | "3 \<le> slot" by linarith
  then show ?thesis
    by cases (simp_all add: desync_calls_def noise_calls_def Let_def decoy len pg del: length_append)
qed


section \<open>No panic, and a concrete run\<close>

lemma returns_page_store: "returns (sock_ok ok) ok (page_store b)"
  by (simp add: returns_def page_store_def sock_ok_def)

lemma returns_run_slot: "returns (sock_ok False) False (run_slot env n due r)"
  unfolding run_slot_def noise_writer_def
  by (intro returns_intros returns_try) simp_all

lemma returns_sendWithNoise:
  "returns (sock_ok False) False
     (sendWithNoise env pageSize slot fakeData realData fakeTTL defaultTTL ipv6 fakeSleep)"
  unfolding sendWithNoise_def Let_def
  by (intro returns_intros returns_page_store returns_run_slot)
    (auto split: option.split sum.split intro: returns_intros)

lemma returns_desyncSend:
  assumes "go_slice rec sni_start (sni_start + sni_len) = Some name"
  shows "returns (sock_ok False) False
    (desyncSend env pageSize slot ipv6 rec sni_start sni_len fakeTTL fakeSleep)"
proof -
  obtain c where c: "findLastDotOrMidPos rec sni_start sni_len = Some c" "sni_start \<le> c" "c \<le> sni_start + sni_len"
    using findLastDotOrMidPos_cut [OF assms] by metis
  with go_slice_SomeD [OF assms]
  have "go_slice rec 0 sni_start = Some (take (nat sni_start) rec)" "go_slice rec 0 c = Some (take (nat c) rec)"
    "go_slice rec c (int (length rec)) = Some (drop (nat c) rec)"
    by (auto simp: go_slice_def nat_diff_distrib)
  with c show ?thesis unfolding desyncSend_def Let_def
    by (auto intro!: returns_intros returns_sendWithNoise)
qed

lemma desyncSend_example:
  "\<exists>w'. desyncSend quiet_env 4096 0 False record_example 58 3 11 0 sock_example = (Ok (), w')"
  by (simp add: desyncSend_def sendWithNoise_def run_slot_def noise_writer_def page_store_def
      findLastDotOrMidPos_def record_example_def LastIndexByte_def go_slice_def Let_def
      getTCPRawConn_def sys_def sleep_def conn_write_def quiet_env_def sock_example_def io_try_def
      io_bind_def io_wrap_def io_return_def)


end
