(* ===== verification/Json.thy ===== *)
theory Json
  imports Prelude
begin

text \<open>
  JSON values as \<^verbatim>\<open>encoding/json\<close> hands them to the decoders of the configuration: the text
  has been parsed, what is modelled here is how a value goes into a Go variable of a given
  type. A \<^verbatim>\<open>null\<close> leaves a variable unchanged and sets a pointer to nil; a value of the
  wrong shape is an error (whose message is abbreviated). An object's keys are matched
  without regard to case and a later key overrides an earlier one.
\<close>

datatype json =
    JNull
  | JBool bool
  | JInt int
  | JFloat string
  | JString string
  | JArray "json list"
  | JObject "(string \<times> json) list"

definition json_type_error :: "string \<Rightarrow> go_error" where
  "json_type_error t = ErrorNew (''json: cannot unmarshal value into Go value of type '' @ t)"

text \<open>\<^verbatim>\<open>json.Unmarshal(data, &s)\<close> for a string, an int, a bool, and the pointers to them.\<close>

fun json_into_string :: "json \<Rightarrow> string \<Rightarrow> go_error + string" where
  "json_into_string (JString s) old = Inr s"
| "json_into_string JNull old = Inr old"
| "json_into_string _ old = Inl (json_type_error ''string'')"

fun json_into_int :: "json \<Rightarrow> int \<Rightarrow> go_error + int" where
  "json_into_int (JInt i) old =
     (if - (2 ^ 63) \<le> i \<and> i < 2 ^ 63 then Inr i else Inl (json_type_error ''int''))"
| "json_into_int JNull old = Inr old"
| "json_into_int _ old = Inl (json_type_error ''int'')"

fun json_into_bool :: "json \<Rightarrow> bool \<Rightarrow> go_error + bool" where
  "json_into_bool (JBool b) old = Inr b"
| "json_into_bool JNull old = Inr old"
| "json_into_bool _ old = Inl (json_type_error ''bool'')"

definition json_into_ptr :: "(json \<Rightarrow> 'a \<Rightarrow> go_error + 'a) \<Rightarrow> 'a \<Rightarrow> json \<Rightarrow> go_error + 'a option" where
  "json_into_ptr into zero v =
     (if v = JNull then Inr None
      else case into v zero of Inl e \<Rightarrow> Inl e | Inr x \<Rightarrow> Inr (Some x))"

text \<open>The raw text of a value, as an \<^verbatim>\<open>UnmarshalJSON\<close> method receives it.\<close>

fun json_text :: "json \<Rightarrow> string" where
  "json_text JNull = ''null''"
| "json_text (JBool b) = (if b then ''true'' else ''false'')"
| "json_text (JInt i) = Itoa i"
| "json_text (JFloat s) = s"
| "json_text (JString s) = CHR 0x22 # s @ [CHR 0x22]"
| "json_text (JArray xs) = ''['' @ concat (map json_text xs) @ '']''"
| "json_text (JObject kvs) = ''{'' @ concat (map (\<lambda>kv. fst kv @ json_text (snd kv)) kvs) @ ''}''"

text \<open>An ASCII lower-case letter for an upper-case one (\<^verbatim>\<open>strings.ToLower\<close> on ASCII).\<close>

definition lower_char :: "char \<Rightarrow> char" where
  "lower_char c = (if 65 \<le> (of_char c :: nat) \<and> (of_char c :: nat) \<le> 90
     then char_of ((of_char c :: nat) + 32) else c)"

definition ToLower :: "string \<Rightarrow> string" where
  "ToLower s = map lower_char s"

text \<open>Decoding an object into a struct: the fields are set in the order of the text.\<close>

fun json_fields :: "(string \<Rightarrow> json \<Rightarrow> 's \<Rightarrow> go_error + 's) \<Rightarrow> (string \<times> json) list \<Rightarrow> 's \<Rightarrow> go_error + 's" where
  "json_fields set_field [] s = Inr s"
| "json_fields set_field ((k, v) # kvs) s =
     (case set_field (ToLower k) v s of Inl e \<Rightarrow> Inl e | Inr s' \<Rightarrow> json_fields set_field kvs s')"

definition json_into_struct :: "(string \<Rightarrow> json \<Rightarrow> 's \<Rightarrow> go_error + 's) \<Rightarrow> json \<Rightarrow> 's \<Rightarrow> go_error + 's" where
  "json_into_struct set_field v s =
     (case v of JNull \<Rightarrow> Inr s | JObject kvs \<Rightarrow> json_fields set_field kvs s
      | _ \<Rightarrow> Inl (json_type_error ''struct''))"

text \<open>\<open>x, err := m; if err != nil { return err }\<close> for results as sums.\<close>

definition sum_bind :: "'e + 'a \<Rightarrow> ('a \<Rightarrow> 'e + 'b) \<Rightarrow> 'e + 'b" where
  "sum_bind m k = (case m of Inl e \<Rightarrow> Inl e | Inr x \<Rightarrow> k x)"

lemma sum_bind_simps [simp]: "sum_bind (Inl e) k = Inl e" "sum_bind (Inr x) k = k x"
  by (simp_all add: sum_bind_def)

lemma sum_bind_Inr_iff: "sum_bind m k = Inr y \<longleftrightarrow> (\<exists>x. m = Inr x \<and> k x = Inr y)"
  by (cases m) simp_all

definition sum_map :: "('a \<Rightarrow> 'b) \<Rightarrow> 'e + 'a \<Rightarrow> 'e + 'b" where
  "sum_map f m = sum_bind m (\<lambda>x. Inr (f x))"

lemma sum_map_simps [simp]: "sum_map f (Inl e) = Inl e" "sum_map f (Inr x) = Inr (f x)"
  by (simp_all add: sum_map_def)

lemma sum_map_Inr_iff: "sum_map f m = Inr y \<longleftrightarrow> (\<exists>x. m = Inr x \<and> y = f x)"
  by (cases m) auto

text \<open>An invariant every field setter keeps holds of the decoded struct.\<close>

lemma json_fields_invariant:
  assumes "\<And>k v s s'. I s \<Longrightarrow> set_field k v s = Inr s' \<Longrightarrow> I s'"
  shows "I s \<Longrightarrow> json_fields set_field kvs s = Inr s' \<Longrightarrow> I s'"
proof (induction kvs arbitrary: s)
  case (Cons kv kvs)
  then obtain s1 where "set_field (ToLower (fst kv)) (snd kv) s = Inr s1" "json_fields set_field kvs s1 = Inr s'"
    by (cases kv) (auto split: sum.splits)
  with Cons.IH assms Cons.prems(1) show ?case by blast
qed simp

lemma json_into_struct_invariant:
  assumes "\<And>k v s s'. I s \<Longrightarrow> set_field k v s = Inr s' \<Longrightarrow> I s'" and "I s"
    and "json_into_struct set_field v s = Inr s'"
  shows "I s'"
proof -
  have fields: "json_fields set_field kvs s = Inr s' \<Longrightarrow> I s'" for kvs
    using assms(1,2) by (rule json_fields_invariant)
  show ?thesis using assms(2,3) fields by (cases v) (auto simp: json_into_struct_def)
qed

end
