(* ===== verification/Policy.thy ===== *)
theory Policy
  imports Json
begin

text \<open>
  Connection policies, \<^verbatim>\<open>internal/policy.go\<close> and the DNS modes of \<^verbatim>\<open>internal/dns.go\<close>: the
  types, their JSON decoders with every range check, the textual form, the defaults and the
  merge of several policies into one. Shown here: a decoded policy is in range, merging
  takes each field from the first policy that sets it, and a merged policy is complete.
\<close>

section \<open>Modes\<close>

definition unsetInt :: int where "unsetInt = -1"
definition unsetString :: string where "unsetString = ''-''"
definition defaultConnectTimeout :: int where "defaultConnectTimeout = 10000000000"
definition defaultTTLDAttempts :: int where "defaultTTLDAttempts = 2"
definition defaultTTLDMaxTTL :: int where "defaultTTLDMaxTTL = 64"
definition defaultTTLDFakeSleep :: int where "defaultTTLDFakeSleep = 200000000"
definition defaultTTLDSingleTimeout :: int where "defaultTTLDSingleTimeout = 500000000"

lemmas policy_consts = unsetInt_def unsetString_def defaultConnectTimeout_def defaultTTLDAttempts_def
  defaultTTLDMaxTTL_def defaultTTLDFakeSleep_def defaultTTLDSingleTimeout_def

datatype SniffOverrideMode =
  SniffOverrideUnset | SniffOverrideOff | SniffOverrideAlways | SniffOverridePolicyExists

definition SniffOverrideMode_UnmarshalJSON :: "json \<Rightarrow> go_error + SniffOverrideMode" where
  "SniffOverrideMode_UnmarshalJSON data = sum_bind (json_into_string data []) (\<lambda>s.
     if s = ''off'' then Inr SniffOverrideOff
     else if s = ''always'' then Inr SniffOverrideAlways
     else if s = ''policy_exists'' then Inr SniffOverridePolicyExists
     else Inl (ErrorNew (''invalid sniff_override: '' @ s)))"

datatype Mode = ModeUnknown | ModeRaw | ModeDirect | ModeTLSRF | ModeTTLD | ModeBlock | ModeTLSAlert

definition ModeDefault :: Mode where "ModeDefault = ModeTLSRF"

definition Mode_UnmarshalJSON :: "json \<Rightarrow> go_error + Mode" where
  "Mode_UnmarshalJSON data = sum_bind (json_into_string data []) (\<lambda>s.
     if s = ''raw'' then Inr ModeRaw
     else if s = ''direct'' then Inr ModeDirect
     else if s = ''tls-rf'' then Inr ModeTLSRF
     else if s = ''ttl-d'' then Inr ModeTTLD
     else if s = ''block'' then Inr ModeBlock
     else if s = ''tls-alert'' then Inr ModeTLSAlert
     else Inl (ErrorNew (''invalid mode: '' @ s)))"

fun Mode_String :: "Mode \<Rightarrow> string" where
  "Mode_String ModeRaw = ''raw''"
| "Mode_String ModeDirect = ''direct''"
| "Mode_String ModeTLSRF = ''tls-rf''"
| "Mode_String ModeTTLD = ''ttl-d''"
| "Mode_String ModeBlock = ''block''"
| "Mode_String ModeTLSAlert = ''tls-alert''"
| "Mode_String ModeUnknown = ''unknown''"

datatype TriBool = BoolUnset | BoolFalse | BoolTrue

definition IsTrue :: "TriBool \<Rightarrow> bool" where "IsTrue b \<longleftrightarrow> b = BoolTrue"
definition IsUnset :: "TriBool \<Rightarrow> bool" where "IsUnset b \<longleftrightarrow> b = BoolUnset"

definition TriBool_UnmarshalJSON :: "json \<Rightarrow> go_error + TriBool" where
  "TriBool_UnmarshalJSON data =
     (let s = json_text data in
      if s = ''null'' then Inr BoolUnset
      else if s = ''false'' then Inr BoolFalse
      else if s = ''true'' then Inr BoolTrue
      else Inl (ErrorNew (''invalid bool: '' @ s)))"

datatype DNSMode = DNSModeUnknown | DNSModePreferIPv4 | DNSModePreferIPv6 | DNSModeIPv4Only | DNSModeIPv6Only

definition DNSModeDefault :: DNSMode where "DNSModeDefault = DNSModePreferIPv4"

fun DNSMode_String :: "DNSMode \<Rightarrow> string" where
  "DNSMode_String DNSModePreferIPv4 = ''prefer_ipv4''"
| "DNSMode_String DNSModePreferIPv6 = ''prefer_ipv6''"
| "DNSMode_String DNSModeIPv4Only = ''ipv4_only''"
| "DNSMode_String DNSModeIPv6Only = ''ipv6_only''"
| "DNSMode_String DNSModeUnknown = ''unknown''"

definition DNSMode_UnmarshalJSON :: "json \<Rightarrow> go_error + DNSMode" where
  "DNSMode_UnmarshalJSON data = sum_bind (json_into_string data []) (\<lambda>s.
     if s = ''prefer_ipv4'' then Inr DNSModePreferIPv4
     else if s = ''prefer_ipv6'' then Inr DNSModePreferIPv6
     else if s = ''ipv4_only'' then Inr DNSModeIPv4Only
     else if s = ''ipv6_only'' then Inr DNSModeIPv6Only
     else Inl (ErrorNew (''invalid dns_mode: '' @ s)))"

section \<open>The policy record\<close>

text \<open>Durations are in nanoseconds.\<close>

record Policy =
  ReplyFirst :: TriBool
  SniffOverride :: SniffOverrideMode
  DNSMode_of :: DNSMode
  ConnectTimeout :: int
  Host :: string
  MapTo :: string
  Port :: int
  HttpStatus :: int
  TLS13Only :: TriBool
  Mode_of :: Mode
  NumRecords :: int
  NumSegments :: int
  WaitForAck :: TriBool
  OOB :: TriBool
  OOBEx :: TriBool
  ModMinorVer :: TriBool
  SendInterval :: int
  FakeTTL :: int
  FakeSleep :: int
  MaxTTL :: int
  Attempts :: int
  SingleTimeout :: int

text \<open>Go's zero value \<^verbatim>\<open>Policy{}\<close>.\<close>

definition zero_policy :: Policy where
  "zero_policy = \<lparr>ReplyFirst = BoolUnset, SniffOverride = SniffOverrideUnset, DNSMode_of = DNSModeUnknown,
     ConnectTimeout = 0, Host = [], MapTo = [], Port = 0, HttpStatus = 0, TLS13Only = BoolUnset,
     Mode_of = ModeUnknown, NumRecords = 0, NumSegments = 0, WaitForAck = BoolUnset, OOB = BoolUnset,
     OOBEx = BoolUnset, ModMinorVer = BoolUnset, SendInterval = 0, FakeTTL = 0, FakeSleep = 0,
     MaxTTL = 0, Attempts = 0, SingleTimeout = 0\<rparr>"

text \<open>
  One guarded assignment per field; the four desync defaults look at the mode after its own
  default has been filled in.
\<close>

definition normalizePolicyDefaults :: "Policy \<Rightarrow> Policy" where
  "normalizePolicyDefaults p =
     (let mode = (if Mode_of p = ModeUnknown then ModeDefault else Mode_of p) in
      p\<lparr>Host := if Host p = [] then unsetString else Host p,
        MapTo := if MapTo p = [] then unsetString else MapTo p,
        Mode_of := mode,
        DNSMode_of := if DNSMode_of p = DNSModeUnknown then DNSModeDefault else DNSMode_of p,
        ConnectTimeout := if ConnectTimeout p \<le> 0 then defaultConnectTimeout else ConnectTimeout p,
        Attempts := if mode = ModeTTLD \<and> Attempts p \<le> 0 then defaultTTLDAttempts else Attempts p,
        MaxTTL := if mode = ModeTTLD \<and> MaxTTL p \<le> 1 then defaultTTLDMaxTTL else MaxTTL p,
        FakeSleep := if mode = ModeTTLD \<and> FakeSleep p \<le> 0 then defaultTTLDFakeSleep else FakeSleep p,
        SingleTimeout := if mode = ModeTTLD \<and> SingleTimeout p \<le> 0 then defaultTTLDSingleTimeout
          else SingleTimeout p\<rparr>)"

section \<open>Decoding a policy\<close>

text \<open>The \<^verbatim>\<open>tmp\<close> struct of \<^verbatim>\<open>Policy.UnmarshalJSON\<close>; pointers are options.\<close>

record policy_tmp =
  tSniffOverride :: SniffOverrideMode
  tReplyFirst :: TriBool
  tConnectTimeout :: "string option"
  tHost :: "string option"
  tMapTo :: "string option"
  tPort :: "int option"
  tDNSMode :: DNSMode
  tHttpStatus :: "int option"
  tTLS13Only :: TriBool
  tMode :: Mode
  tNumRecords :: "int option"
  tNumSegments :: "int option"
  tWaitForAck :: TriBool
  tOOB :: TriBool
  tOOBEx :: TriBool
  tModMinorVer :: TriBool
  tSendInterval :: "string option"
  tFakeTTL :: "int option"
  tFakeSleep :: "string option"
  tMaxTTL :: "int option"
  tAttempts :: "int option"
  tSingleTimeout :: "string option"

definition policy_tmp_zero :: policy_tmp where
  "policy_tmp_zero = \<lparr>tSniffOverride = SniffOverrideUnset, tReplyFirst = BoolUnset, tConnectTimeout = None,
     tHost = None, tMapTo = None, tPort = None, tDNSMode = DNSModeUnknown, tHttpStatus = None,
     tTLS13Only = BoolUnset, tMode = ModeUnknown, tNumRecords = None, tNumSegments = None,
     tWaitForAck = BoolUnset, tOOB = BoolUnset, tOOBEx = BoolUnset, tModMinorVer = BoolUnset,
     tSendInterval = None, tFakeTTL = None, tFakeSleep = None, tMaxTTL = None, tAttempts = None,
     tSingleTimeout = None\<rparr>"

definition policy_tmp_set :: "string \<Rightarrow> json \<Rightarrow> policy_tmp \<Rightarrow> go_error + policy_tmp" where
  "policy_tmp_set k v t =
     (let str = json_into_ptr json_into_string [] v; num = json_into_ptr json_into_int 0 v;
          tri = TriBool_UnmarshalJSON v in
      if k = ''sniff_override'' then sum_map (\<lambda>x. t\<lparr>tSniffOverride := x\<rparr>) (SniffOverrideMode_UnmarshalJSON v)
      else if k = ''reply_first'' then sum_map (\<lambda>x. t\<lparr>tReplyFirst := x\<rparr>) tri
      else if k = ''connect_timeout'' then sum_map (\<lambda>x. t\<lparr>tConnectTimeout := x\<rparr>) str
      else if k = ''host'' then sum_map (\<lambda>x. t\<lparr>tHost := x\<rparr>) str
      else if k = ''map_to'' then sum_map (\<lambda>x. t\<lparr>tMapTo := x\<rparr>) str
      else if k = ''port'' then sum_map (\<lambda>x. t\<lparr>tPort := x\<rparr>) num
      else if k = ''dns_mode'' then sum_map (\<lambda>x. t\<lparr>tDNSMode := x\<rparr>) (DNSMode_UnmarshalJSON v)
      else if k = ''http_status'' then sum_map (\<lambda>x. t\<lparr>tHttpStatus := x\<rparr>) num
      else if k = ''tls13_only'' then sum_map (\<lambda>x. t\<lparr>tTLS13Only := x\<rparr>) tri
      else if k = ''mode'' then sum_map (\<lambda>x. t\<lparr>tMode := x\<rparr>) (Mode_UnmarshalJSON v)
      else if k = ''num_records'' then sum_map (\<lambda>x. t\<lparr>tNumRecords := x\<rparr>) num
      else if k = ''num_segs'' then sum_map (\<lambda>x. t\<lparr>tNumSegments := x\<rparr>) num
      else if k = ''wait_for_ack'' then sum_map (\<lambda>x. t\<lparr>tWaitForAck := x\<rparr>) tri
      else if k = ''oob'' then sum_map (\<lambda>x. t\<lparr>tOOB := x\<rparr>) tri
      else if k = ''oob_ex'' then sum_map (\<lambda>x. t\<lparr>tOOBEx := x\<rparr>) tri
      else if k = ''mod_minor_ver'' then sum_map (\<lambda>x. t\<lparr>tModMinorVer := x\<rparr>) tri
      else if k = ''send_interval'' then sum_map (\<lambda>x. t\<lparr>tSendInterval := x\<rparr>) str
      else if k = ''fake_ttl'' then sum_map (\<lambda>x. t\<lparr>tFakeTTL := x\<rparr>) num
      else if k = ''fake_sleep'' then sum_map (\<lambda>x. t\<lparr>tFakeSleep := x\<rparr>) str
      else if k = ''max_ttl'' then sum_map (\<lambda>x. t\<lparr>tMaxTTL := x\<rparr>) num
      else if k = ''attempts'' then sum_map (\<lambda>x. t\<lparr>tAttempts := x\<rparr>) num
      else if k = ''single_timeout'' then sum_map (\<lambda>x. t\<lparr>tSingleTimeout := x\<rparr>) str
      else Inr t)"

text \<open>Lines 240 to 280: the copied fields, the two host strings, the port and the status.\<close>

definition policy_copy :: "policy_tmp \<Rightarrow> Policy \<Rightarrow> Policy" where
  "policy_copy t p = p\<lparr>SniffOverride := tSniffOverride t, ReplyFirst := tReplyFirst t,
     TLS13Only := tTLS13Only t, Mode_of := tMode t, DNSMode_of := tDNSMode t, OOB := tOOB t,
     OOBEx := tOOBEx t, ModMinorVer := tModMinorVer t, WaitForAck := tWaitForAck t\<rparr>"

definition policy_hosts :: "policy_tmp \<Rightarrow> Policy \<Rightarrow> go_error + Policy" where
  "policy_hosts t p =
     sum_bind (case tHost t of
         None \<Rightarrow> Inr (p\<lparr>Host := unsetString\<rparr>)
       | Some h \<Rightarrow> if h = unsetString then Inl (ErrorNew ''host cannot be `-`'') else Inr (p\<lparr>Host := h\<rparr>)) (\<lambda>p.
     case tMapTo t of
         None \<Rightarrow> Inr (p\<lparr>MapTo := unsetString\<rparr>)
       | Some m \<Rightarrow> if m = unsetString then Inl (ErrorNew ''map_to cannot be `-`'') else Inr (p\<lparr>MapTo := m\<rparr>))"

definition policy_port_status :: "policy_tmp \<Rightarrow> Policy \<Rightarrow> go_error + Policy" where
  "policy_port_status t p =
     sum_bind (case tPort t of
         None \<Rightarrow> Inr (p\<lparr>Port := unsetInt\<rparr>)
       | Some n \<Rightarrow> if n < 0 \<or> n > 65535 then Inl (ErrorNew (''port '' @ Itoa n @ '': outside the valid range''))
                  else Inr (p\<lparr>Port := n\<rparr>)) (\<lambda>p.
     case tHttpStatus t of
         None \<Rightarrow> Inr (p\<lparr>HttpStatus := unsetInt\<rparr>)
       | Some n \<Rightarrow> if n < 0 then Inl (ErrorNew (''http_status '' @ Itoa n @ '': outside the valid range''))
                  else Inr (p\<lparr>HttpStatus := n\<rparr>))"

text \<open>Lines 282 to 320: the fragmentation counts and the desync numbers.\<close>

definition policy_counts :: "policy_tmp \<Rightarrow> Policy \<Rightarrow> go_error + Policy" where
  "policy_counts t p =
     sum_bind (case tNumRecords t of
         None \<Rightarrow> Inr p
       | Some n \<Rightarrow> if n \<le> 0 then Inl (ErrorNew (''num_records '' @ Itoa n @ '': must be greater than 0''))
                  else Inr (p\<lparr>NumRecords := n\<rparr>)) (\<lambda>p.
     case tNumSegments t of
         None \<Rightarrow> Inr p
       | Some n \<Rightarrow> if n = 0 \<or> n < -1 then Inl (ErrorNew (''num_segs '' @ Itoa n @ '': outside the valid range''))
                  else Inr (p\<lparr>NumSegments := n\<rparr>))"

definition policy_fakeTTL :: "policy_tmp \<Rightarrow> Policy \<Rightarrow> go_error + Policy" where
  "policy_fakeTTL t p = (case tFakeTTL t of
       None \<Rightarrow> Inr (p\<lparr>FakeTTL := unsetInt\<rparr>)
     | Some n \<Rightarrow> if n < 0 \<or> n > 255 then Inl (ErrorNew (''fake_ttl '' @ Itoa n @ '': outside the valid range''))
                else Inr (p\<lparr>FakeTTL := n\<rparr>))"

definition policy_attempts :: "policy_tmp \<Rightarrow> Policy \<Rightarrow> go_error + Policy" where
  "policy_attempts t p = (case tAttempts t of
       None \<Rightarrow> Inr p
     | Some n \<Rightarrow> if n < 1 then Inl (ErrorNew (''attempts '' @ Itoa n @ '': must be greater than 1''))
                else Inr (p\<lparr>Attempts := n\<rparr>))"

definition policy_maxTTL :: "policy_tmp \<Rightarrow> Policy \<Rightarrow> go_error + Policy" where
  "policy_maxTTL t p = (case tMaxTTL t of
       None \<Rightarrow> Inr p
     | Some n \<Rightarrow> if n \<le> 1 \<or> n > 255 then Inl (ErrorNew (''max_ttl '' @ Itoa n @ '': outside the valid range''))
                else Inr (p\<lparr>MaxTTL := n\<rparr>))"

text \<open>Lines 322 to 367: the durations; \<open>time.ParseDuration\<close> is an argument.\<close>

type_synonym duration_parser = "string \<Rightarrow> go_error + int"

definition parse_positive :: "duration_parser \<Rightarrow> string \<Rightarrow> string \<Rightarrow> go_error + int" where
  "parse_positive ParseDuration name s =
     (case ParseDuration s of
        Inl err \<Rightarrow> Inl (opError (''parse '' @ name @ '' '' @ s) err)
      | Inr d \<Rightarrow> if d \<le> 0 then Inl (ErrorNew (name @ '' '' @ s @ '': must be greater than 0'')) else Inr d)"

definition policy_connectTimeout :: "duration_parser \<Rightarrow> policy_tmp \<Rightarrow> Policy \<Rightarrow> go_error + Policy" where
  "policy_connectTimeout ParseDuration t p = (case tConnectTimeout t of
       None \<Rightarrow> Inr (p\<lparr>ConnectTimeout := unsetInt\<rparr>)
     | Some s \<Rightarrow> sum_map (\<lambda>d. p\<lparr>ConnectTimeout := d\<rparr>) (parse_positive ParseDuration ''connect_timeout'' s))"

definition policy_sendInterval :: "duration_parser \<Rightarrow> policy_tmp \<Rightarrow> Policy \<Rightarrow> go_error + Policy" where
  "policy_sendInterval ParseDuration t p = (case tSendInterval t of
       None \<Rightarrow> Inr (p\<lparr>SendInterval := unsetInt\<rparr>)
     | Some s \<Rightarrow> (case ParseDuration s of
           Inl err \<Rightarrow> Inl (opError (''parse send_interval '' @ s) err)
         | Inr d \<Rightarrow> if d < 0 then Inl (ErrorNew (''send_interval '' @ s @ '': outside the valid range''))
                   else Inr (p\<lparr>SendInterval := d\<rparr>)))"

definition policy_fakeSleep :: "duration_parser \<Rightarrow> policy_tmp \<Rightarrow> Policy \<Rightarrow> go_error + Policy" where
  "policy_fakeSleep ParseDuration t p = (case tFakeSleep t of
       None \<Rightarrow> Inr p
     | Some s \<Rightarrow> sum_map (\<lambda>d. p\<lparr>FakeSleep := d\<rparr>) (parse_positive ParseDuration ''fake_sleep'' s))"

definition policy_singleTimeout :: "duration_parser \<Rightarrow> policy_tmp \<Rightarrow> Policy \<Rightarrow> go_error + Policy" where
  "policy_singleTimeout ParseDuration t p = (case tSingleTimeout t of
       None \<Rightarrow> Inr (p\<lparr>SingleTimeout := unsetInt\<rparr>)
     | Some s \<Rightarrow> sum_map (\<lambda>d. p\<lparr>SingleTimeout := d\<rparr>) (parse_positive ParseDuration ''single_timeout'' s))"

text \<open>The steps run in the order of the source; the first error ends the decoding.\<close>

fun sum_steps :: "('s \<Rightarrow> 'e + 's) list \<Rightarrow> 's \<Rightarrow> 'e + 's" where
  "sum_steps [] s = Inr s"
| "sum_steps (f # fs) s = sum_bind (f s) (sum_steps fs)"

definition Policy_UnmarshalJSON :: "duration_parser \<Rightarrow> json \<Rightarrow> Policy \<Rightarrow> go_error + Policy" where
  "Policy_UnmarshalJSON ParseDuration data p =
     sum_bind (json_into_struct policy_tmp_set data policy_tmp_zero) (\<lambda>t.
     sum_steps [policy_hosts t, policy_port_status t, policy_counts t, policy_fakeTTL t, policy_attempts t,
       policy_maxTTL t, policy_connectTimeout ParseDuration t, policy_sendInterval ParseDuration t,
       policy_fakeSleep ParseDuration t, policy_singleTimeout ParseDuration t] (policy_copy t p))"

section \<open>The textual form\<close>

definition guarded :: "bool \<Rightarrow> 'a \<Rightarrow> 'a list" where
  "guarded b x = (if b then [x] else [])"

fun string_join :: "string \<Rightarrow> string list \<Rightarrow> string" where
  "string_join sep [] = []"
| "string_join sep [x] = x"
| "string_join sep (x # xs) = x @ sep @ string_join sep xs"

definition Policy_String :: "(int \<Rightarrow> string) \<Rightarrow> Policy \<Rightarrow> string" where
  "Policy_String Duration_String p = string_join '', ''
     (guarded (ConnectTimeout p \<noteq> 0) (''timeout='' @ Duration_String (ConnectTimeout p))
      @ guarded (Port p \<noteq> unsetInt \<and> Port p \<noteq> 0) ('':'' @ Itoa (Port p))
      @ guarded (DNSMode_of p \<noteq> DNSModeUnknown \<and> (Host p = [] \<or> Host p = unsetString)) (DNSMode_String (DNSMode_of p))
      @ guarded (HttpStatus p > 0) (''http_status='' @ Itoa (HttpStatus p))
      @ guarded (IsTrue (TLS13Only p)) ''tls13_only''
      @ [Mode_String (Mode_of p)]
      @ (if Mode_of p = ModeTLSRF then
           guarded (IsTrue (ModMinorVer p)) ''mod_minor_ver''
           @ guarded (NumRecords p \<noteq> unsetInt \<and> NumRecords p \<noteq> 1) (Itoa (NumRecords p) @ '' records'')
           @ guarded (NumSegments p \<noteq> unsetInt \<and> NumSegments p \<noteq> 1) (Itoa (NumSegments p) @ '' segments'')
           @ guarded (SendInterval p > 0) (''send_interval='' @ Duration_String (SendInterval p))
           @ guarded (IsTrue (OOB p)) ''oob''
           @ guarded (IsTrue (OOBEx p)) ''oob_ex''
         else if Mode_of p = ModeTTLD then
           (if FakeTTL p = 0 \<or> FakeTTL p = unsetInt then
              [''auto_fake_ttl'']
              @ guarded (Attempts p \<noteq> 0) (''attempts='' @ Itoa (Attempts p))
              @ guarded (MaxTTL p \<noteq> 0) (''max_ttl='' @ Itoa (MaxTTL p))
              @ guarded (SingleTimeout p \<noteq> 0) (''single_timeout='' @ Duration_String (SingleTimeout p))
            else [''fake_ttl='' @ Itoa (FakeTTL p)])
           @ [''fake_sleep='' @ Duration_String (FakeSleep p)]
         else []))"

section \<open>Merging\<close>

text \<open>\<open>if merged.f == unset && p.f != unset { merged.f = p.f }\<close>.\<close>

definition pick :: "'a \<Rightarrow> 'a \<Rightarrow> 'a \<Rightarrow> 'a" where
  "pick unset cur new = (if cur = unset \<and> new \<noteq> unset then new else cur)"

definition merge_start :: Policy where
  "merge_start = zero_policy\<lparr>Host := unsetString, MapTo := unsetString, Port := unsetInt,
     HttpStatus := unsetInt, SendInterval := unsetInt, FakeTTL := unsetInt, ConnectTimeout := unsetInt,
     SingleTimeout := unsetInt\<rparr>"

definition merge_step :: "Policy \<Rightarrow> Policy \<Rightarrow> Policy" where
  "merge_step m p = m\<lparr>
     SniffOverride := pick SniffOverrideUnset (SniffOverride m) (SniffOverride p),
     ReplyFirst := pick BoolUnset (ReplyFirst m) (ReplyFirst p),
     ConnectTimeout := pick unsetInt (ConnectTimeout m) (ConnectTimeout p),
     Host := pick unsetString (Host m) (Host p),
     MapTo := pick unsetString (MapTo m) (MapTo p),
     Port := pick unsetInt (Port m) (Port p),
     HttpStatus := pick unsetInt (HttpStatus m) (HttpStatus p),
     TLS13Only := pick BoolUnset (TLS13Only m) (TLS13Only p),
     Mode_of := pick ModeUnknown (Mode_of m) (Mode_of p),
     DNSMode_of := pick DNSModeUnknown (DNSMode_of m) (DNSMode_of p),
     NumRecords := pick 0 (NumRecords m) (NumRecords p),
     NumSegments := pick 0 (NumSegments m) (NumSegments p),
     WaitForAck := pick BoolUnset (WaitForAck m) (WaitForAck p),
     OOB := pick BoolUnset (OOB m) (OOB p),
     OOBEx := pick BoolUnset (OOBEx m) (OOBEx p),
     ModMinorVer := pick BoolUnset (ModMinorVer m) (ModMinorVer p),
     SendInterval := pick unsetInt (SendInterval m) (SendInterval p),
     FakeSleep := pick 0 (FakeSleep m) (FakeSleep p),
     FakeTTL := pick unsetInt (FakeTTL m) (FakeTTL p),
     MaxTTL := pick 0 (MaxTTL m) (MaxTTL p),
     Attempts := pick 0 (Attempts m) (Attempts p),
     SingleTimeout := pick unsetInt (SingleTimeout m) (SingleTimeout p)\<rparr>"

definition mergePolicies :: "Policy list \<Rightarrow> Policy" where
  "mergePolicies policies =
     (let merged = foldl merge_step merge_start policies;
          merged = (if Mode_of merged = ModeUnknown then merged\<lparr>Mode_of := ModeDefault\<rparr> else merged);
          merged = (if DNSMode_of merged = DNSModeUnknown then merged\<lparr>DNSMode_of := DNSModeDefault\<rparr> else merged)
      in normalizePolicyDefaults merged)"

section \<open>Decoded policies are in range\<close>

text \<open>The range every policy obtained from a configuration satisfies.\<close>

definition wf_policy :: "Policy \<Rightarrow> bool" where
  "wf_policy p \<longleftrightarrow> -1 \<le> Port p \<and> Port p \<le> 65535 \<and> -1 \<le> HttpStatus p \<and>
     0 \<le> NumRecords p \<and> -1 \<le> NumSegments p \<and> -1 \<le> FakeTTL p \<and> FakeTTL p \<le> 255 \<and>
     0 \<le> Attempts p \<and> (MaxTTL p = 0 \<or> 2 \<le> MaxTTL p \<and> MaxTTL p \<le> 255) \<and>
     -1 \<le> ConnectTimeout p \<and> -1 \<le> SendInterval p \<and> 0 \<le> FakeSleep p \<and> -1 \<le> SingleTimeout p"

lemma wf_zero_policy: "wf_policy zero_policy"
  by (simp add: wf_policy_def zero_policy_def)

lemma parse_positive_pos: "parse_positive pd name s = Inr d \<Longrightarrow> 0 < d"
  by (auto simp: parse_positive_def split: sum.splits if_splits)

lemma wf_policy_updates:
  "wf_policy p \<Longrightarrow> wf_policy (p\<lparr>Host := h\<rparr>)"
  "wf_policy p \<Longrightarrow> wf_policy (p\<lparr>MapTo := h\<rparr>)"
  "wf_policy p \<Longrightarrow> -1 \<le> n \<Longrightarrow> n \<le> 65535 \<Longrightarrow> wf_policy (p\<lparr>Port := n\<rparr>)"
  "wf_policy p \<Longrightarrow> -1 \<le> n \<Longrightarrow> wf_policy (p\<lparr>HttpStatus := n\<rparr>)"
  "wf_policy p \<Longrightarrow> 0 \<le> n \<Longrightarrow> wf_policy (p\<lparr>NumRecords := n\<rparr>)"
  "wf_policy p \<Longrightarrow> -1 \<le> n \<Longrightarrow> wf_policy (p\<lparr>NumSegments := n\<rparr>)"
  "wf_policy p \<Longrightarrow> -1 \<le> n \<Longrightarrow> n \<le> 255 \<Longrightarrow> wf_policy (p\<lparr>FakeTTL := n\<rparr>)"
  "wf_policy p \<Longrightarrow> 0 \<le> n \<Longrightarrow> wf_policy (p\<lparr>Attempts := n\<rparr>)"
  "wf_policy p \<Longrightarrow> 2 \<le> n \<Longrightarrow> n \<le> 255 \<Longrightarrow> wf_policy (p\<lparr>MaxTTL := n\<rparr>)"
  "wf_policy p \<Longrightarrow> -1 \<le> n \<Longrightarrow> wf_policy (p\<lparr>ConnectTimeout := n\<rparr>)"
  "wf_policy p \<Longrightarrow> -1 \<le> n \<Longrightarrow> wf_policy (p\<lparr>SendInterval := n\<rparr>)"
  "wf_policy p \<Longrightarrow> 0 \<le> n \<Longrightarrow> wf_policy (p\<lparr>FakeSleep := n\<rparr>)"
  "wf_policy p \<Longrightarrow> -1 \<le> n \<Longrightarrow> wf_policy (p\<lparr>SingleTimeout := n\<rparr>)"
  by (simp_all add: wf_policy_def)

lemma wf_policy_hosts: "policy_hosts t p = Inr q \<Longrightarrow> wf_policy p \<Longrightarrow> wf_policy q"
  by (auto simp: policy_hosts_def sum_bind_Inr_iff split: option.splits if_splits intro: wf_policy_updates)

lemma wf_policy_port_status: "policy_port_status t p = Inr q \<Longrightarrow> wf_policy p \<Longrightarrow> wf_policy q"
  by (auto simp: policy_port_status_def sum_bind_Inr_iff unsetInt_def split: option.splits if_splits
      intro!: wf_policy_updates)

lemma wf_policy_counts: "policy_counts t p = Inr q \<Longrightarrow> wf_policy p \<Longrightarrow> wf_policy q"
  by (auto simp: policy_counts_def sum_bind_Inr_iff split: option.splits if_splits intro!: wf_policy_updates)

lemma wf_policy_numbers:
  "policy_fakeTTL t p = Inr q \<Longrightarrow> wf_policy p \<Longrightarrow> wf_policy q"
  "policy_attempts t p = Inr q \<Longrightarrow> wf_policy p \<Longrightarrow> wf_policy q"
  "policy_maxTTL t p = Inr q \<Longrightarrow> wf_policy p \<Longrightarrow> wf_policy q"
  by (auto simp: policy_fakeTTL_def policy_attempts_def policy_maxTTL_def unsetInt_def
      split: option.splits if_splits intro!: wf_policy_updates)

lemma wf_policy_durations:
  "policy_connectTimeout pd t p = Inr q \<Longrightarrow> wf_policy p \<Longrightarrow> wf_policy q"
  "policy_fakeSleep pd t p = Inr q \<Longrightarrow> wf_policy p \<Longrightarrow> wf_policy q"
  "policy_singleTimeout pd t p = Inr q \<Longrightarrow> wf_policy p \<Longrightarrow> wf_policy q"
  "policy_sendInterval pd t p = Inr q \<Longrightarrow> wf_policy p \<Longrightarrow> wf_policy q"
  by (auto simp: policy_connectTimeout_def policy_fakeSleep_def policy_singleTimeout_def policy_sendInterval_def
      sum_map_Inr_iff unsetInt_def dest!: parse_positive_pos split: option.splits sum.splits if_splits
      intro!: wf_policy_updates)

lemma sum_steps_invariant:
  assumes "\<And>f s s'. f \<in> set fs \<Longrightarrow> f s = Inr s' \<Longrightarrow> I s \<Longrightarrow> I s'" and "I s" and "sum_steps fs s = Inr s'"
  shows "I s'"
  using assms
proof (induction fs arbitrary: s)
  case (Cons f fs)
  then obtain s1 where "f s = Inr s1" "sum_steps fs s1 = Inr s'" by (auto simp: sum_bind_Inr_iff)
  with Cons show ?case by (metis list.set_intros)
qed simp

text \<open>
  C11: every policy the decoder accepts is in range, whatever the JSON value and whatever
  duration parser is used: ports, record and segment counts, TTLs, attempts and durations
  satisfy the bounds the rest of the program relies on.
\<close>

theorem Policy_UnmarshalJSON_wf:
  assumes "Policy_UnmarshalJSON ParseDuration data zero_policy = Inr p"
  shows "wf_policy p"
proof -
  obtain t where t: "sum_steps [policy_hosts t, policy_port_status t, policy_counts t, policy_fakeTTL t,
      policy_attempts t, policy_maxTTL t, policy_connectTimeout ParseDuration t,
      policy_sendInterval ParseDuration t, policy_fakeSleep ParseDuration t,
      policy_singleTimeout ParseDuration t] (policy_copy t zero_policy) = Inr p"
    using assms by (auto simp: Policy_UnmarshalJSON_def sum_bind_Inr_iff simp del: sum_steps.simps)
  have wf: "wf_policy (policy_copy t zero_policy)"
    by (simp add: policy_copy_def wf_policy_def zero_policy_def)
  show ?thesis
    by (rule sum_steps_invariant [where I = wf_policy, OF _ wf t])
      (auto intro: wf_policy_hosts wf_policy_port_status wf_policy_counts wf_policy_numbers wf_policy_durations)
qed

section \<open>Merging takes the first setting of each field\<close>

definition first_set :: "'a \<Rightarrow> 'a list \<Rightarrow> 'a" where
  "first_set unset xs = (case find (\<lambda>x. x \<noteq> unset) xs of None \<Rightarrow> unset | Some x \<Rightarrow> x)"

lemma first_set_simps [simp]:
  "first_set u [] = u" "first_set u (x # xs) = (if x = u then first_set u xs else x)"
  by (simp_all add: first_set_def)

lemma foldl_pick: "foldl (pick u) a xs = (if a = u then first_set u xs else a)"
  by (induction xs arbitrary: a) (auto simp: pick_def)

lemma first_set_invariant: "P u \<Longrightarrow> (\<And>x. x \<in> set xs \<Longrightarrow> P x) \<Longrightarrow> P (first_set u xs)"
  by (induction xs) auto

lemma merge_fields:
  "SniffOverride (foldl merge_step m ps) = foldl (pick SniffOverrideUnset) (SniffOverride m) (map SniffOverride ps)"
  "ReplyFirst (foldl merge_step m ps) = foldl (pick BoolUnset) (ReplyFirst m) (map ReplyFirst ps)"
  "ConnectTimeout (foldl merge_step m ps) = foldl (pick unsetInt) (ConnectTimeout m) (map ConnectTimeout ps)"
  "Host (foldl merge_step m ps) = foldl (pick unsetString) (Host m) (map Host ps)"
  "MapTo (foldl merge_step m ps) = foldl (pick unsetString) (MapTo m) (map MapTo ps)"
  "Port (foldl merge_step m ps) = foldl (pick unsetInt) (Port m) (map Port ps)"
  "HttpStatus (foldl merge_step m ps) = foldl (pick unsetInt) (HttpStatus m) (map HttpStatus ps)"
  "TLS13Only (foldl merge_step m ps) = foldl (pick BoolUnset) (TLS13Only m) (map TLS13Only ps)"
  "Mode_of (foldl merge_step m ps) = foldl (pick ModeUnknown) (Mode_of m) (map Mode_of ps)"
  "DNSMode_of (foldl merge_step m ps) = foldl (pick DNSModeUnknown) (DNSMode_of m) (map DNSMode_of ps)"
  "NumRecords (foldl merge_step m ps) = foldl (pick 0) (NumRecords m) (map NumRecords ps)"
  "NumSegments (foldl merge_step m ps) = foldl (pick 0) (NumSegments m) (map NumSegments ps)"
  "WaitForAck (foldl merge_step m ps) = foldl (pick BoolUnset) (WaitForAck m) (map WaitForAck ps)"
  "OOB (foldl merge_step m ps) = foldl (pick BoolUnset) (OOB m) (map OOB ps)"
  "OOBEx (foldl merge_step m ps) = foldl (pick BoolUnset) (OOBEx m) (map OOBEx ps)"
  "ModMinorVer (foldl merge_step m ps) = foldl (pick BoolUnset) (ModMinorVer m) (map ModMinorVer ps)"
  "SendInterval (foldl merge_step m ps) = foldl (pick unsetInt) (SendInterval m) (map SendInterval ps)"
  "FakeSleep (foldl merge_step m ps) = foldl (pick 0) (FakeSleep m) (map FakeSleep ps)"
  "FakeTTL (foldl merge_step m ps) = foldl (pick unsetInt) (FakeTTL m) (map FakeTTL ps)"
  "MaxTTL (foldl merge_step m ps) = foldl (pick 0) (MaxTTL m) (map MaxTTL ps)"
  "Attempts (foldl merge_step m ps) = foldl (pick 0) (Attempts m) (map Attempts ps)"
  "SingleTimeout (foldl merge_step m ps) = foldl (pick unsetInt) (SingleTimeout m) (map SingleTimeout ps)"
  by (induction ps arbitrary: m; simp add: merge_step_def)+

lemma merge_start_fields [simp]:
  "SniffOverride merge_start = SniffOverrideUnset" "ReplyFirst merge_start = BoolUnset"
  "ConnectTimeout merge_start = unsetInt" "Host merge_start = unsetString" "MapTo merge_start = unsetString"
  "Port merge_start = unsetInt" "HttpStatus merge_start = unsetInt" "TLS13Only merge_start = BoolUnset"
  "Mode_of merge_start = ModeUnknown" "DNSMode_of merge_start = DNSModeUnknown" "NumRecords merge_start = 0"
  "NumSegments merge_start = 0" "WaitForAck merge_start = BoolUnset" "OOB merge_start = BoolUnset"
  "OOBEx merge_start = BoolUnset" "ModMinorVer merge_start = BoolUnset" "SendInterval merge_start = unsetInt"
  "FakeSleep merge_start = 0" "FakeTTL merge_start = unsetInt" "MaxTTL merge_start = 0"
  "Attempts merge_start = 0" "SingleTimeout merge_start = unsetInt"
  by (simp_all add: merge_start_def zero_policy_def)

text \<open>The defaults that normalisation fills in, field by field.\<close>

lemma normalize_fields [simp]:
  "SniffOverride (normalizePolicyDefaults p) = SniffOverride p" "ReplyFirst (normalizePolicyDefaults p) = ReplyFirst p"
  "Port (normalizePolicyDefaults p) = Port p" "HttpStatus (normalizePolicyDefaults p) = HttpStatus p"
  "TLS13Only (normalizePolicyDefaults p) = TLS13Only p" "NumRecords (normalizePolicyDefaults p) = NumRecords p"
  "NumSegments (normalizePolicyDefaults p) = NumSegments p" "WaitForAck (normalizePolicyDefaults p) = WaitForAck p"
  "OOB (normalizePolicyDefaults p) = OOB p" "OOBEx (normalizePolicyDefaults p) = OOBEx p"
  "ModMinorVer (normalizePolicyDefaults p) = ModMinorVer p" "SendInterval (normalizePolicyDefaults p) = SendInterval p"
  "FakeTTL (normalizePolicyDefaults p) = FakeTTL p"
  by (simp_all add: normalizePolicyDefaults_def Let_def)

lemma normalize_defaults [simp]:
  "Host (normalizePolicyDefaults p) = (if Host p = [] then unsetString else Host p)"
  "MapTo (normalizePolicyDefaults p) = (if MapTo p = [] then unsetString else MapTo p)"
  "Mode_of (normalizePolicyDefaults p) = (if Mode_of p = ModeUnknown then ModeDefault else Mode_of p)"
  "DNSMode_of (normalizePolicyDefaults p) = (if DNSMode_of p = DNSModeUnknown then DNSModeDefault else DNSMode_of p)"
  "ConnectTimeout (normalizePolicyDefaults p) = (if ConnectTimeout p \<le> 0 then defaultConnectTimeout else ConnectTimeout p)"
  by (simp_all add: normalizePolicyDefaults_def Let_def ModeDefault_def)

lemma normalize_ttld [simp]:
  "Attempts (normalizePolicyDefaults p) = (if Mode_of p = ModeTTLD \<and> Attempts p \<le> 0 then defaultTTLDAttempts else Attempts p)"
  "MaxTTL (normalizePolicyDefaults p) = (if Mode_of p = ModeTTLD \<and> MaxTTL p \<le> 1 then defaultTTLDMaxTTL else MaxTTL p)"
  "FakeSleep (normalizePolicyDefaults p) = (if Mode_of p = ModeTTLD \<and> FakeSleep p \<le> 0 then defaultTTLDFakeSleep else FakeSleep p)"
  "SingleTimeout (normalizePolicyDefaults p) = (if Mode_of p = ModeTTLD \<and> SingleTimeout p \<le> 0 then defaultTTLDSingleTimeout else SingleTimeout p)"
  by (simp_all add: normalizePolicyDefaults_def Let_def ModeDefault_def)

lemma merged_fields [simp]:
  "SniffOverride (mergePolicies ps) = first_set SniffOverrideUnset (map SniffOverride ps)"
  "ReplyFirst (mergePolicies ps) = first_set BoolUnset (map ReplyFirst ps)"
  "Port (mergePolicies ps) = first_set unsetInt (map Port ps)"
  "HttpStatus (mergePolicies ps) = first_set unsetInt (map HttpStatus ps)"
  "TLS13Only (mergePolicies ps) = first_set BoolUnset (map TLS13Only ps)"
  "NumRecords (mergePolicies ps) = first_set 0 (map NumRecords ps)"
  "NumSegments (mergePolicies ps) = first_set 0 (map NumSegments ps)"
  "WaitForAck (mergePolicies ps) = first_set BoolUnset (map WaitForAck ps)"
  "OOB (mergePolicies ps) = first_set BoolUnset (map OOB ps)"
  "OOBEx (mergePolicies ps) = first_set BoolUnset (map OOBEx ps)"
  "ModMinorVer (mergePolicies ps) = first_set BoolUnset (map ModMinorVer ps)"
  "SendInterval (mergePolicies ps) = first_set unsetInt (map SendInterval ps)"
  "FakeTTL (mergePolicies ps) = first_set unsetInt (map FakeTTL ps)"
  by (simp_all add: mergePolicies_def Let_def merge_fields foldl_pick)

lemma merged_defaults [simp]:
  "Mode_of (mergePolicies ps) =
     (let m = first_set ModeUnknown (map Mode_of ps) in if m = ModeUnknown then ModeDefault else m)"
  "DNSMode_of (mergePolicies ps) =
     (let m = first_set DNSModeUnknown (map DNSMode_of ps) in if m = DNSModeUnknown then DNSModeDefault else m)"
  "Host (mergePolicies ps) = (let h = first_set unsetString (map Host ps) in if h = [] then unsetString else h)"
  "MapTo (mergePolicies ps) = (let h = first_set unsetString (map MapTo ps) in if h = [] then unsetString else h)"
  "ConnectTimeout (mergePolicies ps) =
     (let t = first_set unsetInt (map ConnectTimeout ps) in if t \<le> 0 then defaultConnectTimeout else t)"
  by (simp_all add: mergePolicies_def Let_def merge_fields foldl_pick ModeDefault_def DNSModeDefault_def)

lemma merged_ttld [simp]:
  "Attempts (mergePolicies ps) = (let n = first_set 0 (map Attempts ps) in
     if Mode_of (mergePolicies ps) = ModeTTLD \<and> n \<le> 0 then defaultTTLDAttempts else n)"
  "MaxTTL (mergePolicies ps) = (let n = first_set 0 (map MaxTTL ps) in
     if Mode_of (mergePolicies ps) = ModeTTLD \<and> n \<le> 1 then defaultTTLDMaxTTL else n)"
  "FakeSleep (mergePolicies ps) = (let n = first_set 0 (map FakeSleep ps) in
     if Mode_of (mergePolicies ps) = ModeTTLD \<and> n \<le> 0 then defaultTTLDFakeSleep else n)"
  "SingleTimeout (mergePolicies ps) = (let n = first_set unsetInt (map SingleTimeout ps) in
     if Mode_of (mergePolicies ps) = ModeTTLD \<and> n \<le> 0 then defaultTTLDSingleTimeout else n)"
  by (auto simp: mergePolicies_def Let_def merge_fields foldl_pick ModeDefault_def)


lemma first_set_bounds:
  "P (u :: int) \<Longrightarrow> (\<And>p. p \<in> set ps \<Longrightarrow> P (f p)) \<Longrightarrow> P (first_set u (map f ps))"
  by (rule first_set_invariant) auto

lemma wf_mergePolicies:
  assumes "\<And>p. p \<in> set ps \<Longrightarrow> wf_policy p"
  shows "wf_policy (mergePolicies ps)"
proof -
  have wf: "-1 \<le> Port p" "Port p \<le> 65535" "-1 \<le> HttpStatus p" "0 \<le> NumRecords p" "-1 \<le> NumSegments p"
    "-1 \<le> FakeTTL p" "FakeTTL p \<le> 255" "0 \<le> Attempts p" "MaxTTL p = 0 \<or> 2 \<le> MaxTTL p \<and> MaxTTL p \<le> 255"
    "-1 \<le> ConnectTimeout p" "-1 \<le> SendInterval p" "0 \<le> FakeSleep p" "-1 \<le> SingleTimeout p"
    if "p \<in> set ps" for p
    using assms [OF that] by (simp_all add: wf_policy_def)
  have "-1 \<le> first_set unsetInt (map Port ps)" "first_set unsetInt (map Port ps) \<le> 65535"
    "-1 \<le> first_set unsetInt (map HttpStatus ps)" "0 \<le> first_set 0 (map NumRecords ps)"
    "-1 \<le> first_set 0 (map NumSegments ps)" "-1 \<le> first_set unsetInt (map FakeTTL ps)"
    "first_set unsetInt (map FakeTTL ps) \<le> 255" "0 \<le> first_set 0 (map Attempts ps)"
    "-1 \<le> first_set unsetInt (map ConnectTimeout ps)" "-1 \<le> first_set unsetInt (map SendInterval ps)"
    "0 \<le> first_set 0 (map FakeSleep ps)" "-1 \<le> first_set unsetInt (map SingleTimeout ps)"
    by (rule first_set_bounds; simp add: unsetInt_def wf)+
  moreover have "first_set 0 (map MaxTTL ps) = 0 \<or> 2 \<le> first_set 0 (map MaxTTL ps) \<and> first_set 0 (map MaxTTL ps) \<le> 255"
    by (rule first_set_bounds [where P = "\<lambda>n. n = 0 \<or> 2 \<le> n \<and> n \<le> 255"]) (use wf in auto)
  ultimately show ?thesis
    unfolding wf_policy_def merged_fields merged_ttld merged_defaults(5) Let_def
    by (auto simp: policy_consts simp del: merged_defaults)
qed

text \<open>
  C10: a merged policy is complete and in range: from policies in range, merging gives a policy in
  range whose mode and DNS mode are known, whose connect timeout is positive, whose host
  strings are not empty, and, in ttl-d mode, whose probe parameters are usable.
\<close>

theorem mergePolicies_complete:
  assumes "\<forall>p \<in> set ps. wf_policy p"
  shows "wf_policy (mergePolicies ps) \<and> Mode_of (mergePolicies ps) \<noteq> ModeUnknown \<and>
    DNSMode_of (mergePolicies ps) \<noteq> DNSModeUnknown \<and> 0 < ConnectTimeout (mergePolicies ps) \<and>
    Host (mergePolicies ps) \<noteq> [] \<and> MapTo (mergePolicies ps) \<noteq> [] \<and>
    (Mode_of (mergePolicies ps) = ModeTTLD \<longrightarrow>
       1 \<le> Attempts (mergePolicies ps) \<and> 2 \<le> MaxTTL (mergePolicies ps) \<and>
       0 < FakeSleep (mergePolicies ps) \<and> 0 < SingleTimeout (mergePolicies ps))"
proof -
  have "wf_policy (mergePolicies ps)" using assms by (intro wf_mergePolicies) blast
  moreover have "Mode_of (mergePolicies ps) \<noteq> ModeUnknown \<and> DNSMode_of (mergePolicies ps) \<noteq> DNSModeUnknown"
    by (simp add: Let_def ModeDefault_def DNSModeDefault_def)
  moreover have "0 < ConnectTimeout (mergePolicies ps) \<and> Host (mergePolicies ps) \<noteq> [] \<and> MapTo (mergePolicies ps) \<noteq> []"
    by (simp add: Let_def policy_consts)
  moreover have "1 \<le> Attempts (mergePolicies ps) \<and> 2 \<le> MaxTTL (mergePolicies ps) \<and>
       0 < FakeSleep (mergePolicies ps) \<and> 0 < SingleTimeout (mergePolicies ps)"
    if "Mode_of (mergePolicies ps) = ModeTTLD"
    unfolding merged_ttld Let_def using that by (simp add: policy_consts del: merged_defaults)
  ultimately show ?thesis by blast
qed

text \<open>Printing a mode and decoding the text gives the mode back.\<close>

lemma Mode_roundtrip: "m \<noteq> ModeUnknown \<Longrightarrow> Mode_UnmarshalJSON (JString (Mode_String m)) = Inr m"
  by (cases m) (simp_all add: Mode_UnmarshalJSON_def)

lemma DNSMode_roundtrip: "m \<noteq> DNSModeUnknown \<Longrightarrow> DNSMode_UnmarshalJSON (JString (DNSMode_String m)) = Inr m"
  by (cases m) (simp_all add: DNSMode_UnmarshalJSON_def)

lemma DNSMode_String_inject [simp]: "DNSMode_String a = DNSMode_String b \<longleftrightarrow> a = b"
  by (cases a; cases b) simp_all

text \<open>The decoder keeps a mode it was given only for a JSON string it knows; \<^verbatim>\<open>null\<close> is an error.\<close>

lemma Mode_UnmarshalJSON_known: "Mode_UnmarshalJSON v = Inr m \<Longrightarrow> m \<noteq> ModeUnknown \<and> v = JString (Mode_String m)"
  by (cases v) (auto simp: Mode_UnmarshalJSON_def split: if_splits)

section \<open>Concrete policies\<close>

definition ttld_policy :: Policy where
  "ttld_policy = zero_policy\<lparr>Mode_of := ModeTTLD\<rparr>"

theorem mergePolicies_complete_witness:
  "Mode_of (mergePolicies [ttld_policy, zero_policy]) = ModeTTLD \<and>
   1 \<le> Attempts (mergePolicies [ttld_policy, zero_policy]) \<and> 2 \<le> MaxTTL (mergePolicies [ttld_policy, zero_policy])"
proof -
  have m: "Mode_of (mergePolicies [ttld_policy, zero_policy]) = ModeTTLD"
    by (simp add: ttld_policy_def zero_policy_def)
  have "\<forall>p \<in> set [ttld_policy, zero_policy]. wf_policy p"
    by (simp add: ttld_policy_def wf_policy_def zero_policy_def)
  from mergePolicies_complete [OF this] m show ?thesis by blast
qed

text \<open>\<^verbatim>\<open>{"num_segs": -1, "mode": "tls-rf"}\<close>.\<close>

definition segs_json :: json where
  "segs_json = JObject [(''num_segs'', JInt (-1)), (''mode'', JString ''tls-rf'')]"

lemma ToLower_segs: "ToLower ''num_segs'' = ''num_segs''" "ToLower ''mode'' = ''mode''"
  by (simp_all add: ToLower_def lower_char_def)

lemma Policy_of_segs_json:
  "\<exists>p. Policy_UnmarshalJSON pd segs_json zero_policy = Inr p \<and> NumRecords p = 0 \<and> NumSegments p = -1 \<and>
     Mode_of p = ModeTLSRF \<and> OOBEx p = BoolUnset \<and> ModMinorVer p = BoolUnset"
  by (simp add: Policy_UnmarshalJSON_def segs_json_def json_into_struct_def ToLower_segs policy_tmp_set_def
      json_into_ptr_def Mode_UnmarshalJSON_def policy_tmp_zero_def policy_copy_def policy_hosts_def
      policy_port_status_def policy_counts_def policy_fakeTTL_def policy_attempts_def policy_maxTTL_def
      policy_connectTimeout_def policy_sendInterval_def policy_fakeSleep_def policy_singleTimeout_def
      zero_policy_def)

theorem Policy_UnmarshalJSON_wf_witness:
  "\<exists>p. Policy_UnmarshalJSON (\<lambda>_. Inr 1) segs_json zero_policy = Inr p \<and> NumSegments p = -1 \<and> wf_policy p"
proof -
  obtain p where "Policy_UnmarshalJSON (\<lambda>_. Inr 1) segs_json zero_policy = Inr p" "NumSegments p = -1"
    using Policy_of_segs_json [of "\<lambda>_. Inr 1"] by blast
  with Policy_UnmarshalJSON_wf [of "\<lambda>_. Inr 1" segs_json p] show ?thesis by blast
qed

end
