(* ===== verification/TTLRules.thy ===== *)
theory TTLRules
  imports Json "HOL-Library.Multiset"
begin

text \<open>
  Fake-TTL rules, \<^verbatim>\<open>internal/desync_rules.go\<close> and \<^verbatim>\<open>loadTTLRules\<close> of \<^verbatim>\<open>internal/desync.go\<close>: a
  text such as \<^verbatim>\<open>18-3;6=2\<close> becomes a list of rules ordered by falling threshold, and the
  first rule whose threshold the detected TTL reaches gives the fake TTL. The ordering is
  Go's \<^verbatim>\<open>sort.Slice\<close>, which promises an ordered permutation and nothing about equal
  elements: it is a contract here (\<open>slice_sort\<close>), and what is shown holds for every sort
  that keeps it.
\<close>

section \<open>Parsing\<close>

record rule =
  threshold :: int
  ruleTyp :: char
  ruleVal :: int

text \<open>Digits are folded into a 64-bit integer, which wraps around.\<close>

definition digits_int :: "string \<Rightarrow> int" where
  "digits_int s = foldl (\<lambda>a c. wrap64 (a * 10 + digit_val c)) 0 s"

lemma length_dropWhile_Cons: "dropWhile P b = x # xs \<Longrightarrow> length xs < length b"
  using length_dropWhile_le [of P b] by simp

text \<open>
  The loop of \<^verbatim>\<open>parseTTLRules\<close> over the rest of the text. \<open>Inr None\<close> is the nil list with a
  nil error: the text is one plain number.
\<close>

function parse_rules :: "string \<Rightarrow> rule list \<Rightarrow> go_error + rule list option" where
  "parse_rules b rules =
     (if b = [] then Inr (Some rules)
      else let left = takeWhile is_digit b; b1 = dropWhile is_digit b in
        if left = [] then Inl (ErrorNew ''invalid rule: missing left number'')
        else case b1 of
          [] \<Rightarrow> if rules = [] then Inr None else Inl (ErrorNew ''invalid rule: missing operator'')
        | op # b2 \<Rightarrow>
            if op \<noteq> CHR ''-'' \<and> op \<noteq> CHR ''='' then Inl (ErrorNew ''invalid operator'')
            else let right = takeWhile is_digit b2; b3 = dropWhile is_digit b2 in
              if right = [] then Inl (ErrorNew ''invalid rule: missing right number'')
              else parse_rules (case b3 of c # b4 \<Rightarrow> if c = CHR '';'' then b4 else b3 | [] \<Rightarrow> [])
                (rules @ [\<lparr>threshold = digits_int left, ruleTyp = op, ruleVal = digits_int right\<rparr>]))"
  by pat_completeness auto

termination
proof (relation "measure (\<lambda>(b, rules). length b)", goal_cases)
  case (2 b rules left b1 op b2 right b3)
  have "length (case b3 of c # b4 \<Rightarrow> if c = CHR '';'' then b4 else b3 | [] \<Rightarrow> []) \<le> length b2"
    using length_dropWhile_le [of is_digit b2] 2 by (auto split: list.split)
  also have "\<dots> < length b" using 2 length_dropWhile_Cons by metis
  finally show ?case by simp
qed simp

declare parse_rules.simps [simp del]

definition parseTTLRules :: "(rule list \<Rightarrow> rule list) \<Rightarrow> string \<Rightarrow> go_error + rule list option" where
  "parseTTLRules sortSlice conf =
     (if conf = [] then Inl (ErrorNew ''empty config'')
      else sum_map (map_option sortSlice) (parse_rules conf []))"

definition validateTTLRules :: "(rule list \<Rightarrow> rule list) \<Rightarrow> string \<Rightarrow> go_error option" where
  "validateTTLRules sortSlice conf = (case parseTTLRules sortSlice conf of Inl e \<Rightarrow> Some e | Inr _ \<Rightarrow> None)"

section \<open>Applying the rules\<close>

text \<open>The closure \<^verbatim>\<open>calcTTL\<close>: a plain number, or rules.\<close>

datatype calc = CalcConst string | CalcRules "rule list"

definition loadTTLRules :: "(rule list \<Rightarrow> rule list) \<Rightarrow> string \<Rightarrow> go_error + calc" where
  "loadTTLRules sortSlice conf =
     sum_map (\<lambda>rules. case rules of None \<Rightarrow> CalcConst conf | Some rs \<Rightarrow> CalcRules rs) (parseTTLRules sortSlice conf)"

fun calc_const :: "int \<Rightarrow> string \<Rightarrow> go_error + int" where
  "calc_const v [] = Inr v"
| "calc_const v (c # cs) =
     (if \<not> is_digit c then Inl (ErrorNew ''invalid integer config'')
      else calc_const (wrap64 (v * 10 + digit_val c)) cs)"

fun calc_rules :: "rule list \<Rightarrow> int \<Rightarrow> go_error + int" where
  "calc_rules [] ttl = Inl (ErrorNew ''no matching TTL rule'')"
| "calc_rules (r # rs) ttl =
     (if ttl \<ge> threshold r then
        (if ruleTyp r = CHR ''-'' then Inr (wrap64 (ttl - ruleVal r)) else Inr (ruleVal r))
      else calc_rules rs ttl)"

fun calcTTL :: "calc \<Rightarrow> int \<Rightarrow> go_error + int" where
  "calcTTL (CalcConst conf) ttl = calc_const 0 conf"
| "calcTTL (CalcRules rules) ttl = calc_rules rules ttl"

section \<open>The sort contract\<close>

locale slice_sort =
  fixes sortSlice :: "rule list \<Rightarrow> rule list"
  assumes permutes: "mset (sortSlice rs) = mset rs"
    and falling: "sorted_wrt (\<lambda>r r'. threshold r \<ge> threshold r') (sortSlice rs)"
begin

lemma set_sortSlice [simp]: "set (sortSlice rs) = set rs"
  by (metis permutes set_mset_mset)

text \<open>The rule applied: of the rules the TTL reaches, one with the highest threshold.\<close>

lemma first_match_highest:
  assumes "sorted_wrt (\<lambda>r r'. threshold r \<ge> threshold r') rs" and "r \<in> set rs" and "threshold r \<le> ttl"
  obtains r' where "r' \<in> set rs" and "threshold r' \<le> ttl"
    and "\<And>r''. r'' \<in> set rs \<Longrightarrow> threshold r'' \<le> ttl \<Longrightarrow> threshold r'' \<le> threshold r'"
    and "calc_rules rs ttl = (if ruleTyp r' = CHR ''-'' then Inr (wrap64 (ttl - ruleVal r')) else Inr (ruleVal r'))"
  using assms
proof (induction rs arbitrary: thesis)
  case (Cons q rs)
  show ?case
  proof (cases "threshold q \<le> ttl")
    case True
    with Cons.prems(2) show ?thesis by (intro Cons.prems(1) [of q]) auto
  next
    case False
    with Cons.prems have "r \<in> set rs" and "sorted_wrt (\<lambda>r r'. threshold r \<ge> threshold r') rs" by auto
    with Cons.prems(4) obtain r' where "r' \<in> set rs" "threshold r' \<le> ttl"
      "\<And>r''. r'' \<in> set rs \<Longrightarrow> threshold r'' \<le> ttl \<Longrightarrow> threshold r'' \<le> threshold r'"
      "calc_rules rs ttl = (if ruleTyp r' = CHR ''-'' then Inr (wrap64 (ttl - ruleVal r')) else Inr (ruleVal r'))"
      using Cons.IH by blast
    with False show ?thesis by (intro Cons.prems(1) [of r']) auto
  qed
qed simp

lemma highest_rule_applies:
  assumes "r \<in> set rs" and "threshold r \<le> ttl"
  shows "\<exists>r' \<in> set rs. threshold r' \<le> ttl \<and>
    (\<forall>r'' \<in> set rs. threshold r'' \<le> ttl \<longrightarrow> threshold r'' \<le> threshold r') \<and>
    calc_rules (sortSlice rs) ttl = (if ruleTyp r' = CHR ''-'' then Inr (wrap64 (ttl - ruleVal r')) else Inr (ruleVal r'))"
proof -
  have "r \<in> set (sortSlice rs)" using assms(1) by simp
  from first_match_highest [OF falling this assms(2)] obtain r' where "r' \<in> set rs" "threshold r' \<le> ttl"
    "\<And>r''. r'' \<in> set rs \<Longrightarrow> threshold r'' \<le> ttl \<Longrightarrow> threshold r'' \<le> threshold r'"
    "calc_rules (sortSlice rs) ttl = (if ruleTyp r' = CHR ''-'' then Inr (wrap64 (ttl - ruleVal r')) else Inr (ruleVal r'))"
    by auto
  then show ?thesis by blast
qed

lemma no_rule_applies:
  assumes "\<And>r. r \<in> set rs \<Longrightarrow> ttl < threshold r"
  shows "calc_rules (sortSlice rs) ttl = Inl (ErrorNew ''no matching TTL rule'')"
proof -
  have "calc_rules qs ttl = Inl (ErrorNew ''no matching TTL rule'')"
    if "\<And>r. r \<in> set qs \<Longrightarrow> ttl < threshold r" for qs
    using that by (induction qs) (auto simp: not_le)
  from this [of "sortSlice rs"] assms show ?thesis by simp
qed

end

text \<open>A sort that keeps the contract: insertion by falling threshold.\<close>

definition sort_rules :: "rule list \<Rightarrow> rule list" where
  "sort_rules rs = sort_key (\<lambda>r. - threshold r) rs"

interpretation sort_rules: slice_sort sort_rules
proof
  show "mset (sort_rules rs) = mset rs" for rs by (simp add: sort_rules_def)
  have "sorted (map (\<lambda>r. - threshold r) (sort_rules rs))" for rs by (simp add: sort_rules_def)
  then show "sorted_wrt (\<lambda>r r'. threshold r \<ge> threshold r') (sort_rules rs)" for rs
    by (simp add: sorted_wrt_map)
qed

section \<open>Printing and parsing\<close>

definition show_rule :: "rule \<Rightarrow> string" where
  "show_rule r = nat_digits (nat (threshold r)) @ ruleTyp r # nat_digits (nat (ruleVal r))"

fun show_rules :: "rule list \<Rightarrow> string" where
  "show_rules [] = []"
| "show_rules [r] = show_rule r"
| "show_rules (r # rs) = show_rule r @ CHR '';'' # show_rules rs"

definition wf_rule :: "rule \<Rightarrow> bool" where
  "wf_rule r \<longleftrightarrow> 0 \<le> threshold r \<and> threshold r < 2 ^ 63 \<and> 0 \<le> ruleVal r \<and> ruleVal r < 2 ^ 63 \<and>
     (ruleTyp r = CHR ''-'' \<or> ruleTyp r = CHR ''='')"

lemma foldl_wrap_digits:
  assumes "\<And>c. c \<in> set s \<Longrightarrow> is_digit c" and "0 \<le> a" and "foldl (\<lambda>a c. a * 10 + digit_val c) a s < 2 ^ 63"
  shows "foldl (\<lambda>a c. wrap64 (a * 10 + digit_val c)) a s = foldl (\<lambda>a c. a * 10 + digit_val c) a s"
  using assms
proof (induction s arbitrary: a)
  case (Cons c s)
  let ?b = "a * 10 + digit_val c"
  have "0 \<le> digit_val c" using Cons.prems(1) [of c] by (simp add: is_digit_def digit_val_def)
  with Cons.prems(2) have nn: "0 \<le> ?b" by simp
  have "?b \<le> foldl (\<lambda>a c. a * 10 + digit_val c) ?b s"
    by (rule foldl_digits_mono) (use Cons.prems nn in auto)
  with Cons.prems(3) nn have "wrap64 ?b = ?b" by (intro wrap64_id) auto
  with Cons.IH [of ?b] Cons.prems nn show ?case by simp
qed simp

lemma digits_int_nat_digits: "int n < 2 ^ 63 \<Longrightarrow> digits_int (nat_digits n) = int n"
  using foldl_wrap_digits [of "nat_digits n" 0] digits_val_nat_digits [of n]
  by (simp add: digits_int_def digits_val_def nat_digits_are_digits)

lemma digits_int_value: "0 \<le> i \<Longrightarrow> i < 2 ^ 63 \<Longrightarrow> digits_int (nat_digits (nat i)) = i"
  using digits_int_nat_digits [of "nat i"] by simp

lemma span_digits:
  "(case rest of [] \<Rightarrow> True | c # _ \<Rightarrow> \<not> is_digit c) \<Longrightarrow>
   takeWhile is_digit (nat_digits n @ rest) = nat_digits n \<and> dropWhile is_digit (nat_digits n @ rest) = rest"
proof -
  assume r: "case rest of [] \<Rightarrow> True | c # _ \<Rightarrow> \<not> is_digit c"
  have d: "\<And>c. c \<in> set (nat_digits n) \<Longrightarrow> is_digit c" by (rule nat_digits_are_digits)
  show ?thesis using r by (cases rest) (simp_all add: takeWhile_append2 dropWhile_append2 d)
qed

lemma is_digit_punct [simp]: "\<not> is_digit CHR ''-''" "\<not> is_digit CHR ''=''" "\<not> is_digit CHR '';''"
  by (simp_all add: is_digit_def)

text \<open>One rule at the front of the text.\<close>

lemma parse_rules_step:
  assumes "wf_rule r" and "rest = [] \<or> (\<exists>t. rest = CHR '';'' # t)"
  shows "parse_rules (show_rule r @ rest) acc =
    parse_rules (case rest of [] \<Rightarrow> [] | _ # t \<Rightarrow> t) (acc @ [r])"
proof -
  let ?v = "nat_digits (nat (ruleVal r)) @ rest"
  have nd: "\<not> is_digit (ruleTyp r)" and op: "ruleTyp r = CHR ''-'' \<or> ruleTyp r = CHR ''=''"
    using assms(1) by (auto simp: wf_rule_def)
  have 1: "takeWhile is_digit (show_rule r @ rest) = nat_digits (nat (threshold r))"
    "dropWhile is_digit (show_rule r @ rest) = ruleTyp r # ?v"
    using span_digits [of "ruleTyp r # ?v" "nat (threshold r)"] nd by (simp_all add: show_rule_def)
  have 2: "takeWhile is_digit ?v = nat_digits (nat (ruleVal r))" "dropWhile is_digit ?v = rest"
    using span_digits [of rest "nat (ruleVal r)"] assms(2) by auto
  have ne: "show_rule r @ rest \<noteq> []" by (simp add: show_rule_def)
  have r: "\<lparr>threshold = digits_int (nat_digits (nat (threshold r))), ruleTyp = ruleTyp r,
      ruleVal = digits_int (nat_digits (nat (ruleVal r)))\<rparr> = r"
    using assms(1) by (simp add: wf_rule_def digits_int_value)
  have tail: "(case rest of c # b4 \<Rightarrow> if c = CHR '';'' then b4 else rest | [] \<Rightarrow> []) = (case rest of [] \<Rightarrow> [] | _ # t \<Rightarrow> t)"
    using assms(2) by auto
  show ?thesis
    using op ne by (subst parse_rules.simps) (auto simp: 1 2 r tail Let_def)
qed

lemma parse_rules_print:
  "(\<And>r. r \<in> set rs \<Longrightarrow> wf_rule r) \<Longrightarrow> parse_rules (show_rules rs) acc = Inr (Some (acc @ rs))"
proof (induction rs arbitrary: acc rule: show_rules.induct)
  case 1
  then show ?case by (simp add: parse_rules.simps)
next
  case (2 r)
  with parse_rules_step [of r "[]" acc] show ?case by (simp add: parse_rules.simps)
next
  case (3 r r' rs)
  with parse_rules_step [of r "CHR '';'' # show_rules (r' # rs)" acc] show ?case by simp
qed

lemma loadTTLRules_print:
  assumes "rs \<noteq> []" and "\<And>r. r \<in> set rs \<Longrightarrow> wf_rule r"
  shows "loadTTLRules sortSlice (show_rules rs) = Inr (CalcRules (sortSlice rs))"
proof -
  have "show_rules rs \<noteq> []" using assms(1) by (cases rs rule: show_rules.cases) (auto simp: show_rule_def)
  then show ?thesis using assms(2) by (simp add: loadTTLRules_def parseTTLRules_def parse_rules_print)
qed

lemma calc_const_digits: "(\<And>c. c \<in> set s \<Longrightarrow> is_digit c) \<Longrightarrow>
   calc_const v s = Inr (foldl (\<lambda>a c. wrap64 (a * 10 + digit_val c)) v s)"
  by (induction s arbitrary: v) auto

lemma parse_plain_number:
  assumes "\<And>c. c \<in> set s \<Longrightarrow> is_digit c" and "s \<noteq> []"
  shows "parse_rules s [] = Inr None"
  using assms by (subst parse_rules.simps) (auto simp: takeWhile_eq_all_conv [THEN iffD2] dropWhile_eq_Nil_conv [THEN iffD2])

text \<open>
  C12: the fake-TTL rules mean what they say. The text of a non-empty list of rules is accepted, and
  for a detected TTL that some rule's threshold is at most, the rule applied is one with the
  highest such threshold. This holds for every sort that keeps the contract of
  \<^verbatim>\<open>sort.Slice\<close>.
\<close>

theorem loadTTLRules_applies_highest:
  assumes "slice_sort sortSlice" and "\<forall>r \<in> set rs. wf_rule r" and "r \<in> set rs" and "threshold r \<le> ttl"
  shows "\<exists>c. loadTTLRules sortSlice (show_rules rs) = Inr c \<and>
    (\<exists>r' \<in> set rs. threshold r' \<le> ttl \<and>
      (\<forall>r'' \<in> set rs. threshold r'' \<le> ttl \<longrightarrow> threshold r'' \<le> threshold r') \<and>
      calcTTL c ttl = Inr (if ruleTyp r' = CHR ''-'' then wrap64 (ttl - ruleVal r') else ruleVal r'))"
proof -
  have "loadTTLRules sortSlice (show_rules rs) = Inr (CalcRules (sortSlice rs))"
    by (rule loadTTLRules_print) (use assms in auto)
  moreover obtain r' where "r' \<in> set rs" "threshold r' \<le> ttl"
    "\<forall>r'' \<in> set rs. threshold r'' \<le> ttl \<longrightarrow> threshold r'' \<le> threshold r'"
    "calc_rules (sortSlice rs) ttl = (if ruleTyp r' = CHR ''-'' then Inr (wrap64 (ttl - ruleVal r')) else Inr (ruleVal r'))"
    using slice_sort.highest_rule_applies [OF assms(1,3,4)] by blast
  ultimately show ?thesis by auto
qed

definition rules_example :: "rule list" where
  "rules_example = [\<lparr>threshold = 6, ruleTyp = CHR ''='', ruleVal = 2\<rparr>, \<lparr>threshold = 18, ruleTyp = CHR ''-'', ruleVal = 3\<rparr>]"

theorem loadTTLRules_applies_highest_witness:
  "\<exists>c. loadTTLRules sort_rules (show_rules rules_example) = Inr c \<and> calcTTL c 20 = Inr 17"
proof -
  have "\<forall>r \<in> set rules_example. wf_rule r" by (simp add: rules_example_def wf_rule_def)
  then show ?thesis
    using loadTTLRules_applies_highest [OF sort_rules.slice_sort_axioms, of rules_example "hd rules_example" 20]
    by (auto simp: rules_example_def)
qed

lemma loadTTLRules_number:
  assumes "int n < 2 ^ 63"
  shows "\<exists>c. loadTTLRules sortSlice (nat_digits n) = Inr c \<and> calcTTL c ttl = Inr (int n)"
  using parse_plain_number [of "nat_digits n"] calc_const_digits [of "nat_digits n" 0] digits_int_nat_digits [OF assms]
  by (simp add: loadTTLRules_def parseTTLRules_def nat_digits_are_digits digits_int_def)

end
