(* ===== verification/TTLDetect.thy ===== *)
theory TTLDetect
  imports Policy TTLRules
begin

text \<open>
  The fake TTL of the desync mode, \<^verbatim>\<open>internal/desync.go\<close> and \<^verbatim>\<open>detectMinimalReachableTTL\<close> of
  \<^verbatim>\<open>internal/desync_linux.go\<close>: a binary search over the TTL with TCP dials as probes, a cache
  of the results, and the rules that turn the distance into the fake TTL. The network, the
  cache and the rules are arguments; the dials made and the results cached are part of the
  result. Single-flight sharing of concurrent detections does not change what one caller
  gets and is not modelled.
\<close>

section \<open>Detection\<close>

datatype dial_result = DialOk | DialTimeout go_error | DialFail go_error

record ttl_env =
  dialTTL :: "nat \<Rightarrow> string \<Rightarrow> int \<Rightarrow> dial_result"  \<comment> \<open>the n-th dial, to an address, with a TTL\<close>
  ttlCache :: "(string \<Rightarrow> int option) option"          \<comment> \<open>\<^const>\<open>None\<close>: no cache configured\<close>
  calcTTL_fun :: "calc option"                        \<comment> \<open>\<^const>\<open>None\<close>: no rules configured\<close>

record ttl_world =
  dials :: nat
  cacheAdds :: "(string \<times> int) list"

fun try_dials :: "ttl_env \<Rightarrow> string \<Rightarrow> int \<Rightarrow> nat \<Rightarrow> ttl_world \<Rightarrow> (go_error + bool) \<times> ttl_world" where
  "try_dials env addr mid 0 w = (Inr False, w)"
| "try_dials env addr mid (Suc k) w =
     (let w' = w\<lparr>dials := dials w + 1\<rparr> in
      case dialTTL env (dials w) addr mid of
        DialOk \<Rightarrow> (Inr True, w')
      | DialTimeout err \<Rightarrow> try_dials env addr mid k w'
      | DialFail err \<Rightarrow> (Inl (WithStr (''dial '' @ Itoa mid) err), w'))"

function search_ttl ::
  "ttl_env \<Rightarrow> string \<Rightarrow> nat \<Rightarrow> int \<Rightarrow> int \<Rightarrow> int \<Rightarrow> ttl_world \<Rightarrow> (go_error + int) \<times> ttl_world" where
  "search_ttl env addr attempts low high found w =
     (if low \<le> high then
        let mid = (low + high) div 2 in
        case try_dials env addr mid attempts w of
          (Inl err, w') \<Rightarrow> (Inl err, w')
        | (Inr ok, w') \<Rightarrow>
            if ok then search_ttl env addr attempts low (mid - 1) mid w'
            else search_ttl env addr attempts (mid + 1) high found w'
      else (Inr found, w))"
  by pat_completeness auto
termination
  by (relation "measure (\<lambda>(env, addr, attempts, low, high, found, w). nat (high - low + 1))") auto

declare search_ttl.simps [simp del]

definition detectMinimalReachableTTL ::
  "ttl_env \<Rightarrow> string \<Rightarrow> int \<Rightarrow> int \<Rightarrow> ttl_world \<Rightarrow> (go_error + int) \<times> ttl_world" where
  "detectMinimalReachableTTL env addr maxTTL attempts w =
     (case search_ttl env addr (nat attempts) 1 maxTTL unsetInt w of
        (Inl err, w') \<Rightarrow> (Inl err, w')
      | (Inr found, w') \<Rightarrow>
          (Inr found,
           if ttlCache env \<noteq> None \<and> found \<noteq> unsetInt
           then w'\<lparr>cacheAdds := cacheAdds w' @ [(addr, found)]\<rparr> else w'))"

text \<open>The TTL and whether it came from the cache.\<close>

definition getMinimalReachableTTL ::
  "ttl_env \<Rightarrow> string \<Rightarrow> int \<Rightarrow> int \<Rightarrow> ttl_world \<Rightarrow> (go_error + int \<times> bool) \<times> ttl_world" where
  "getMinimalReachableTTL env addr maxTTL attempts w =
     (case Option.bind (ttlCache env) (\<lambda>get. get addr) of
        Some ttl \<Rightarrow> (Inr (ttl, True), w)
      | None \<Rightarrow> (case detectMinimalReachableTTL env addr maxTTL attempts w of
            (r, w') \<Rightarrow> (sum_map (\<lambda>found. (found, False)) r, w')))"

definition getFakeTTL :: "ttl_env \<Rightarrow> Policy \<Rightarrow> string \<Rightarrow> ttl_world \<Rightarrow> (go_error + int) \<times> ttl_world" where
  "getFakeTTL env p addr w =
     (if FakeTTL p = 0 \<or> FakeTTL p = unsetInt then
        (case getMinimalReachableTTL env addr (MaxTTL p) (Attempts p) w of
           (Inl err, w') \<Rightarrow> (Inl (WithStr ''detect minimum reachable TTL'' err), w')
         | (Inr (ttl, cached), w') \<Rightarrow>
             if ttl = unsetInt then (Inl (ErrorNew ''reachable TTL not found''), w')
             else case calcTTL_fun env of
               Some c \<Rightarrow> (case calcTTL c ttl of
                   Inl err \<Rightarrow> (Inl (WithStr ''calculate fake TTL'' err), w')
                 | Inr fake \<Rightarrow> (Inr fake, w'))
             | None \<Rightarrow> (Inr (ttl - 1), w'))
      else (Inr (FakeTTL p), w))"

section \<open>The search finds the distance\<close>

text \<open>
  A stable path of length \<open>d\<close>: a dial connects exactly when its TTL reaches the server, and
  a dial that does not is lost on the way and times out.
\<close>

definition stable_path :: "ttl_env \<Rightarrow> string \<Rightarrow> int \<Rightarrow> bool" where
  "stable_path env addr d \<longleftrightarrow>
     (\<forall>n ttl. if d \<le> ttl then dialTTL env n addr ttl = DialOk
              else \<exists>err. dialTTL env n addr ttl = DialTimeout err)"

lemma try_dials_reach:
  "stable_path env addr d \<Longrightarrow> d \<le> mid \<Longrightarrow> 0 < k \<Longrightarrow>
   try_dials env addr mid k w = (Inr True, w\<lparr>dials := dials w + 1\<rparr>)"
  by (cases k) (auto simp: stable_path_def)

lemma try_dials_lost:
  assumes "stable_path env addr d" and "mid < d"
  shows "try_dials env addr mid k w = (Inr False, w\<lparr>dials := dials w + k\<rparr>)"
proof (induction k arbitrary: w)
  case (Suc k)
  obtain err where "dialTTL env (dials w) addr mid = DialTimeout err"
    using assms by (auto simp: stable_path_def not_le split: if_splits)
  with Suc [of "w\<lparr>dials := dials w + 1\<rparr>"] show ?case by (simp add: add.commute)
qed simp

lemma try_dials_dials:
  assumes "stable_path env addr d" and "0 < k"
  obtains w' where "try_dials env addr mid k w = (Inr (d \<le> mid), w')"
    and "dials w \<le> dials w'" and "dials w' \<le> dials w + k" and "cacheAdds w' = cacheAdds w"
proof (cases "d \<le> mid")
  case True
  with try_dials_reach [OF assms(1) True assms(2)] assms(2) show ?thesis
    by (intro that [of "w\<lparr>dials := dials w + 1\<rparr>"]) auto
next
  case False
  with try_dials_lost [OF assms(1), of mid k w] show ?thesis
    by (intro that [of "w\<lparr>dials := dials w + k\<rparr>"]) auto
qed

lemma search_ttl_stable:
  assumes "stable_path env addr d" and "0 < attempts" and "1 \<le> low" and "low \<le> high + 1"
    and "low \<le> d" and "nat (high - low + 1) < 2 ^ k"
  shows "\<exists>w'. search_ttl env addr attempts low high found w = (Inr (if d \<le> high then d else found), w') \<and>
    dials w' \<le> dials w + k * attempts \<and> cacheAdds w' = cacheAdds w"
  using assms(3-)
proof (induction k arbitrary: low high found w)
  case 0
  then have "high < low" by simp
  with 0 show ?case by (subst search_ttl.simps) auto
next
  case (Suc k)
  show ?case
  proof (cases "low \<le> high")
    case False
    with Suc.prems show ?thesis by (subst search_ttl.simps) auto
  next
    case True
    let ?mid = "(low + high) div 2"
    from Suc.prems(4) True have b: "high - low + 1 < 2 * (2 ^ k :: int)" by (simp add: nat_less_iff)
    obtain w1 where t: "try_dials env addr ?mid attempts w = (Inr (d \<le> ?mid), w1)"
      and n: "dials w1 \<le> dials w + attempts" "cacheAdds w1 = cacheAdds w"
      using try_dials_dials [OF assms(1,2)] by metis
    show ?thesis
    proof (cases "d \<le> ?mid")
      case reach: True
      have "?mid - low < 2 ^ k" using b by linarith
      then have "nat (?mid - 1 - low + 1) < 2 ^ k" by (simp add: nat_less_iff)
      moreover have "low \<le> ?mid - 1 + 1" using True by simp
      ultimately
      obtain w' where "search_ttl env addr attempts low (?mid - 1) ?mid w1 =
          (Inr (if d \<le> ?mid - 1 then d else ?mid), w')" "dials w' \<le> dials w1 + k * attempts" "cacheAdds w' = cacheAdds w1"
        using Suc.IH [OF Suc.prems(1) _ Suc.prems(3), of "?mid - 1" ?mid w1] by blast
      moreover have "(if d \<le> ?mid - 1 then d else ?mid) = (if d \<le> high then d else found)"
        using reach True by auto
      ultimately show ?thesis using True t n reach by (subst search_ttl.simps) (auto simp: Let_def)
    next
      case lost: False
      have "high - ?mid < 2 ^ k" using b by linarith
      then have "nat (high - (?mid + 1) + 1) < 2 ^ k" by (simp add: nat_less_iff)
      moreover have "1 \<le> ?mid + 1" "?mid + 1 \<le> high + 1" "?mid + 1 \<le> d" using Suc.prems True lost by auto
      ultimately obtain w' where "search_ttl env addr attempts (?mid + 1) high found w1 =
          (Inr (if d \<le> high then d else found), w')" "dials w' \<le> dials w1 + k * attempts" "cacheAdds w' = cacheAdds w1"
        using Suc.IH by metis
      then show ?thesis using True t n lost by (subst search_ttl.simps) (auto simp: Let_def)
    qed
  qed
qed

text \<open>
  C13: on a stable path the detection returns exactly the distance of the server when it is
  within \<open>maxTTL\<close> and "not found" otherwise, with at most \<open>8 * attempts\<close> dials (a TTL has
  8 bits), and caches exactly a found distance.
\<close>

theorem detectMinimalReachableTTL_correct:
  assumes "stable_path env addr d" and "1 \<le> d" and "1 \<le> attempts" and "0 \<le> maxTTL" and "maxTTL \<le> 255"
  shows "\<exists>w'. detectMinimalReachableTTL env addr maxTTL attempts w = (Inr (if d \<le> maxTTL then d else -1), w') \<and>
    dials w' \<le> dials w + 8 * nat attempts \<and>
    cacheAdds w' = cacheAdds w @ (if d \<le> maxTTL \<and> ttlCache env \<noteq> None then [(addr, d)] else [])"
proof -
  have "nat (maxTTL - 1 + 1) < 2 ^ 8" using assms(5) by simp
  from search_ttl_stable [OF assms(1) _ _ _ assms(2) this, of "nat attempts" unsetInt w] assms
  obtain w' where "search_ttl env addr (nat attempts) 1 maxTTL unsetInt w =
      (Inr (if d \<le> maxTTL then d else unsetInt), w')" "dials w' \<le> dials w + 8 * nat attempts"
    "cacheAdds w' = cacheAdds w"
    by auto
  with assms(2) show ?thesis by (auto simp: detectMinimalReachableTTL_def unsetInt_def)
qed

text \<open>
  With an automatic fake TTL, no cache and no rules, the fake packets get one hop less than
  the distance of the server, so on a stable path they do not reach it; an explicit
  fake TTL is used as it is.
\<close>

theorem getFakeTTL_stops_short:
  assumes "stable_path env addr d" and "1 \<le> d" and "d \<le> MaxTTL p" and "MaxTTL p \<le> 255" and "1 \<le> Attempts p"
    and "ttlCache env = None" and "calcTTL_fun env = None"
  shows "\<exists>w' ttl. getFakeTTL env p addr w = (Inr ttl, w') \<and>
    (if FakeTTL p \<in> {0, -1} then ttl = d - 1 \<and> (\<forall>n. \<exists>err. dialTTL env n addr ttl = DialTimeout err)
     else ttl = FakeTTL p)"
proof (cases "FakeTTL p \<in> {0, -1}")
  case True
  have "nat (MaxTTL p - 1 + 1) < 2 ^ 8" using assms(4) by simp
  from search_ttl_stable [OF assms(1) _ _ _ assms(2) this, of "nat (Attempts p)" unsetInt w] assms
  obtain w' where "search_ttl env addr (nat (Attempts p)) 1 (MaxTTL p) unsetInt w = (Inr d, w')" by auto
  then have "getFakeTTL env p addr w = (Inr (d - 1), w')"
    using True assms(2,6,7)
    by (auto simp: getFakeTTL_def getMinimalReachableTTL_def detectMinimalReachableTTL_def unsetInt_def)
  moreover have "\<exists>err. dialTTL env n addr (d - 1) = DialTimeout err" for n
    using assms(1) by (simp add: stable_path_def)
  ultimately show ?thesis using True by auto
next
  case False
  then show ?thesis by (auto simp: getFakeTTL_def unsetInt_def)
qed

section \<open>A concrete path\<close>

definition path12 :: ttl_env where
  "path12 = \<lparr>dialTTL = (\<lambda>n addr ttl. if 12 \<le> ttl then DialOk else DialTimeout TimeoutError),
     ttlCache = None, calcTTL_fun = None\<rparr>"

lemma stable_path12: "stable_path path12 addr 12"
  by (simp add: stable_path_def path12_def)

theorem detectMinimalReachableTTL_correct_witness:
  "\<exists>w'. detectMinimalReachableTTL path12 ''192.0.2.1:443'' 64 2 \<lparr>dials = 0, cacheAdds = []\<rparr> = (Inr 12, w') \<and> dials w' \<le> 16"
  using detectMinimalReachableTTL_correct [OF stable_path12, of 2 64 "''192.0.2.1:443''" "\<lparr>dials = 0, cacheAdds = []\<rparr>"]
  by auto

theorem getFakeTTL_stops_short_witness:
  "\<exists>w'. getFakeTTL path12 (mergePolicies [ttld_policy]) ''192.0.2.1:443'' \<lparr>dials = 0, cacheAdds = []\<rparr> = (Inr 11, w')"
proof -
  have "MaxTTL (mergePolicies [ttld_policy]) = 64" "Attempts (mergePolicies [ttld_policy]) = 2"
    "FakeTTL (mergePolicies [ttld_policy]) = 0"
    by (simp_all add: ttld_policy_def zero_policy_def policy_consts)
  with getFakeTTL_stops_short [OF stable_path12, of "mergePolicies [ttld_policy]" "''192.0.2.1:443''"
      "\<lparr>dials = 0, cacheAdds = []\<rparr>"]
  show ?thesis by (auto simp: path12_def)
qed

end
