(* ===== verification/Redirect.thy ===== *)
theory Redirect
  imports Policy GoIO
begin

unbundle bit_operations_syntax

text \<open>
  Address redirection, \<^verbatim>\<open>isIPv6\<close>, \<^verbatim>\<open>transformIP\<close> and \<^verbatim>\<open>ipRedirect\<close> of \<^verbatim>\<open>internal/utils.go\<close> and
  \<^verbatim>\<open>getIPPolicy\<close> of \<^verbatim>\<open>internal/policy.go\<close>. The address parser and printer of \<^verbatim>\<open>net/netip\<close> and
  the lookup tries of \<^verbatim>\<open>addrtrie\<close> are arguments (records \<open>netlib\<close> and \<open>matchers\<close>). Shown
  here: the byte-wise mask arithmetic of \<^verbatim>\<open>transformIP\<close> takes exactly the network's prefix
  bits and the address's host bits, and a redirection returns an address together with the
  policy of that address.
\<close>

section \<open>Libraries the code calls\<close>

datatype addr = Addr4 bytes | Addr6 bytes

fun Is4 :: "addr \<Rightarrow> bool" where
  "Is4 (Addr4 _) \<longleftrightarrow> True"
| "Is4 (Addr6 _) \<longleftrightarrow> False"

fun addr_bytes :: "addr \<Rightarrow> bytes" where
  "addr_bytes (Addr4 b) = b"
| "addr_bytes (Addr6 b) = b"

definition wf_addr :: "addr \<Rightarrow> bool" where
  "wf_addr a \<longleftrightarrow> length (addr_bytes a) = (if Is4 a then 4 else 16)"

record netlib =
  ParseAddr :: "string \<Rightarrow> addr option"
  ParsePrefix :: "string \<Rightarrow> go_error + addr \<times> int"
  AddrString :: "addr \<Rightarrow> string"

record matchers =
  findDomain :: "string \<Rightarrow> Policy option"
  findIPv4 :: "string \<Rightarrow> Policy option"
  findIPv6 :: "string \<Rightarrow> Policy option"
  findHosts :: "string \<Rightarrow> string option"

text \<open>What \<^verbatim>\<open>netip\<close> documents of a parsed prefix: its bits fit its address family.\<close>

definition prefix_bits_ok :: "netlib \<Rightarrow> bool" where
  "prefix_bits_ok lib \<longleftrightarrow> (\<forall>s a. ParseAddr lib s = Some a \<longrightarrow> wf_addr a) \<and>
     (\<forall>s n bits. ParsePrefix lib s = Inr (n, bits) \<longrightarrow>
        wf_addr n \<and> 0 \<le> bits \<and> bits \<le> 8 * int (length (addr_bytes n)))"

section \<open>The functions\<close>

definition isIPv6 :: "string \<Rightarrow> bool" where
  "isIPv6 ip \<longleftrightarrow> Contains_char ip CHR '':''"

text \<open>One byte of the new address: of the network, of the source address, or mixed by a mask.\<close>

definition mixByte :: "int \<Rightarrow> nat \<Rightarrow> byte \<Rightarrow> byte \<Rightarrow> byte" where
  "mixByte bits i n b =
     (let bitPos = 8 * int i in
      if bits \<ge> bitPos + 8 then n
      else if bits \<le> bitPos then b
      else let maskBits = nat (bits - bitPos); mask = push_bit (8 - maskBits) 0xFF :: byte
           in (n AND mask) OR (b AND NOT mask))"

definition mixBytes :: "int \<Rightarrow> bytes \<Rightarrow> bytes \<Rightarrow> bytes" where
  "mixBytes bits net ip = map (\<lambda>i. mixByte bits i (net ! i) (ip ! i)) [0..<length ip]"

text \<open>\<^verbatim>\<open>Prefix.Masked\<close>: the host bits cleared.\<close>

definition maskedBytes :: "int \<Rightarrow> bytes \<Rightarrow> bytes" where
  "maskedBytes bits bs = map (\<lambda>i. mixByte bits i (bs ! i) 0) [0..<length bs]"

definition transformIP :: "netlib \<Rightarrow> string \<Rightarrow> string \<Rightarrow> go_error + string" where
  "transformIP lib ipStr targetNetStr =
     (case ParseAddr lib ipStr of
        None \<Rightarrow> Inl (ErrorNew ''invalid IP'')
      | Some ip \<Rightarrow> (case ParsePrefix lib targetNetStr of
            Inl err \<Rightarrow> Inl (WithStr ''invalid target network'' err)
          | Inr (paddr, bits) \<Rightarrow>
              if Is4 ip \<noteq> Is4 paddr then
                Inl (ErrorNew ''IP version mismatch between source IP and target network'')
              else
                let networkAddr = maskedBytes bits (addr_bytes paddr);
                    newBytes = mixBytes bits networkAddr (addr_bytes ip)
                in Inr (AddrString lib (if Is4 ip then Addr4 newBytes else Addr6 newBytes))))"

definition getIPPolicy :: "matchers \<Rightarrow> string \<Rightarrow> Policy option" where
  "getIPPolicy m ip = (if isIPv6 ip then findIPv6 m ip else findIPv4 m ip)"

definition noRedirectPrefix :: string where "noRedirectPrefix = ''^''"
definition ipPoolTagPrefix :: string where "ipPoolTagPrefix = ''$''"
definition resolvePrefix :: string where "resolvePrefix = ''?''"

lemmas prefix_consts = noRedirectPrefix_def ipPoolTagPrefix_def resolvePrefix_def

text \<open>A result as a sum becomes a computation.\<close>

definition io_sum :: "go_error + 'a \<Rightarrow> ('w, 'a) io" where
  "io_sum r = (case r of Inl e \<Rightarrow> io_fail e | Inr x \<Rightarrow> io_return x)"

lemma io_sum_simps [simp]: "io_sum (Inl e) = io_fail e" "io_sum (Inr x) = io_return x"
  by (simp_all add: io_sum_def)

text \<open>The new address and its policy; \<open>pool\<close> is \<^verbatim>\<open>getFromIPPool\<close>, which advances a pool's counter.\<close>

definition ipRedirect ::
  "netlib \<Rightarrow> matchers \<Rightarrow> (string \<Rightarrow> ('w, string) io) \<Rightarrow> string \<Rightarrow> ('w, string \<times> Policy option) io" where
  "ipRedirect lib m pool ip =
     (case getIPPolicy m ip of
        None \<Rightarrow> io_return (ip, None)
      | Some policy \<Rightarrow>
          if MapTo policy = [] \<or> MapTo policy = unsetString then io_return (ip, Some policy)
          else io_bind
            (if HasPrefix (MapTo policy) ipPoolTagPrefix then pool (drop 1 (MapTo policy))
             else if LastIndexByte (MapTo policy) CHR ''/'' \<noteq> -1 then io_sum (transformIP lib ip (MapTo policy))
             else io_return (MapTo policy)) (\<lambda>mapTo.
          io_return (mapTo, if ip \<noteq> mapTo then getIPPolicy m mapTo else Some policy)))"

section \<open>The bits of a transformed address\<close>

text \<open>Bit \<open>j\<close> of an address, the most significant first.\<close>

definition addr_bit :: "bytes \<Rightarrow> nat \<Rightarrow> bool" where
  "addr_bit bs j = bit (bs ! (j div 8)) (7 - j mod 8)"

lemma bit_byte_ff: "k < 8 \<Longrightarrow> bit (0xFF :: byte) k"
proof -
  assume "k < 8"
  then have "k \<in> {0,1,2,3,4,5,6,7}" by auto
  then show ?thesis by auto
qed

lemma mixByte_bit:
  assumes "k < 8"
  shows "bit (mixByte bits i n b) (7 - k) = (if 8 * int i + int k < bits then bit n (7 - k) else bit b (7 - k))"
proof -
  let ?m = "nat (bits - 8 * int i)"
  consider "bits \<ge> 8 * int i + 8" | "bits \<le> 8 * int i" | "8 * int i < bits" "bits < 8 * int i + 8" by linarith
  then show ?thesis
  proof cases
    case 3
    then have "bit (push_bit (8 - ?m) 0xFF :: byte) (7 - k) \<longleftrightarrow> 8 - ?m \<le> 7 - k"
      using assms bit_byte_ff [of "7 - k - (8 - ?m)"] by (auto simp: bit_push_bit_iff)
    moreover have "8 - ?m \<le> 7 - k \<longleftrightarrow> 8 * int i + int k < bits" using 3 assms by auto
    ultimately show ?thesis using 3 assms
      by (auto simp: mixByte_def Let_def bit_or_iff bit_and_iff bit_not_iff)
  qed (use assms in \<open>auto simp: mixByte_def Let_def\<close>)
qed

lemma mixBytes_bit:
  assumes "j < 8 * length ip"
  shows "addr_bit (mixBytes bits net ip) j = (if int j < bits then addr_bit net j else addr_bit ip j)"
proof -
  have i: "j div 8 < length ip" using assms by auto
  have "8 * int (j div 8) + int (j mod 8) = int j" by (metis mult_div_mod_eq of_nat_add of_nat_mult of_nat_numeral)
  then show ?thesis
    using i mixByte_bit [of "j mod 8" bits "j div 8"] by (simp add: addr_bit_def mixBytes_def)
qed

lemma maskedBytes_bit:
  assumes "j < 8 * length bs"
  shows "addr_bit (maskedBytes bits bs) j = (int j < bits \<and> addr_bit bs j)"
proof -
  have i: "j div 8 < length bs" using assms by auto
  have "8 * int (j div 8) + int (j mod 8) = int j" by (metis mult_div_mod_eq of_nat_add of_nat_mult of_nat_numeral)
  then show ?thesis
    using i mixByte_bit [of "j mod 8" bits "j div 8"] by (simp add: addr_bit_def maskedBytes_def)
qed

lemma length_mixBytes [simp]: "length (mixBytes bits net ip) = length ip"
  by (simp add: mixBytes_def)

text \<open>
  C20: mapping an address into a network keeps the host part. For an address and a prefix of the same
  family, the result is an address of that family whose first \<open>bits\<close> bits are the network's
  and whose other bits are the address's own; families that differ are an error.
\<close>

theorem transformIP_bits:
  assumes "prefix_bits_ok lib" and "ParseAddr lib ipStr = Some ip" and "ParsePrefix lib target = Inr (net, bits)"
  shows "if Is4 ip = Is4 net
    then \<exists>r. transformIP lib ipStr target = Inr (AddrString lib r) \<and> wf_addr r \<and> Is4 r = Is4 ip \<and>
      (\<forall>j < 8 * length (addr_bytes ip).
         addr_bit (addr_bytes r) j = (if int j < bits then addr_bit (addr_bytes net) j else addr_bit (addr_bytes ip) j))
    else \<exists>err. transformIP lib ipStr target = Inl err"
proof (cases "Is4 ip = Is4 net")
  case True
  have wf: "wf_addr ip" "wf_addr net" using assms by (auto simp: prefix_bits_ok_def)
  with True have len: "length (addr_bytes net) = length (addr_bytes ip)" by (simp add: wf_addr_def)
  let ?b = "mixBytes bits (maskedBytes bits (addr_bytes net)) (addr_bytes ip)"
  let ?r = "if Is4 ip then Addr4 ?b else Addr6 ?b"
  have "transformIP lib ipStr target = Inr (AddrString lib ?r)"
    using True assms by (simp add: transformIP_def Let_def)
  moreover have "wf_addr ?r" "Is4 ?r = Is4 ip" "addr_bytes ?r = ?b" using wf by (auto simp: wf_addr_def)
  moreover have "addr_bit ?b j = (if int j < bits then addr_bit (addr_bytes net) j else addr_bit (addr_bytes ip) j)"
    if "j < 8 * length (addr_bytes ip)" for j
    using that len by (simp add: mixBytes_bit maskedBytes_bit)
  ultimately show ?thesis using True by (auto intro!: exI [of _ ?r])
next
  case False
  then show ?thesis using assms by (simp add: transformIP_def)
qed

lemma ipRedirect_result:
  "ipRedirect lib m pool ip w = (Ok (dst, p), w') \<Longrightarrow> p = getIPPolicy m dst"
  by (auto simp: ipRedirect_def split: option.splits if_splits)

text \<open>
  A redirection is consistent: the policy it returns is the policy of the address it returns, so
  a caller never applies the policy of the address before the mapping; without a policy, or with
  one that has no mapping, the address is unchanged.
\<close>

theorem ipRedirect_policy_of_result:
  assumes "ipRedirect lib m pool ip w = (Ok (dst, p), w')"
  shows "p = getIPPolicy m dst \<and>
    ((\<forall>q. getIPPolicy m ip = Some q \<longrightarrow> MapTo q = [] \<or> MapTo q = unsetString) \<longrightarrow> dst = ip)"
  using ipRedirect_result [OF assms] assms
  by (auto simp: ipRedirect_def split: option.splits if_splits)

section \<open>A concrete library\<close>

text \<open>Addresses written as decimal bytes with dots, a prefix with its bits after a slash.\<close>

definition lib_example :: netlib where
  "lib_example = \<lparr>
     ParseAddr = (\<lambda>s. if s = ''1.2.3.4'' then Some (Addr4 [1, 2, 3, 4]) else None),
     ParsePrefix = (\<lambda>s. if s = ''9.9.255.0/20'' then Inr (Addr4 [9, 9, 255, 0], 20) else Inl (ErrorNew ''bad prefix'')),
     AddrString = (\<lambda>a. concat (map (\<lambda>b. Itoa (uint b) @ ''.'') (addr_bytes a)))\<rparr>"

lemma lib_example_ok: "prefix_bits_ok lib_example"
  by (auto simp: prefix_bits_ok_def lib_example_def wf_addr_def split: if_splits)

theorem transformIP_bits_witness:
  "\<exists>r. transformIP lib_example ''1.2.3.4'' ''9.9.255.0/20'' = Inr (AddrString lib_example r) \<and>
     (\<forall>j < 32. addr_bit (addr_bytes r) j =
        (if j < 20 then addr_bit [9, 9, 255, 0] j else addr_bit [1, 2, 3, 4] j))"
  using transformIP_bits [OF lib_example_ok, of "''1.2.3.4''" "Addr4 [1, 2, 3, 4]" "''9.9.255.0/20''"
      "Addr4 [9, 9, 255, 0]" 20]
  by (auto simp: lib_example_def)

definition matchers_example :: matchers where
  "matchers_example = \<lparr>findDomain = Map.empty,
     findIPv4 = (\<lambda>ip. if ip = ''1.2.3.4'' then Some (zero_policy\<lparr>MapTo := ''5.6.7.8''\<rparr>)
                     else if ip = ''5.6.7.8'' then Some (zero_policy\<lparr>Mode_of := ModeDirect\<rparr>) else None),
     findIPv6 = Map.empty, findHosts = Map.empty\<rparr>"

theorem ipRedirect_policy_of_result_witness:
  "ipRedirect lib_example matchers_example (\<lambda>_. io_fail IoEOF) ''1.2.3.4'' () =
     (Ok (''5.6.7.8'', getIPPolicy matchers_example ''5.6.7.8''), ())"
proof -
  obtain p where run: "ipRedirect lib_example matchers_example (\<lambda>_. io_fail IoEOF) ''1.2.3.4'' () = (Ok (''5.6.7.8'', p), ())"
    by (simp add: ipRedirect_def getIPPolicy_def matchers_example_def isIPv6_def Contains_char_def
        zero_policy_def unsetString_def HasPrefix_def ipPoolTagPrefix_def)
  with ipRedirect_policy_of_result [OF run] show ?thesis by simp
qed

end
