(* ===== verification/IPPool.thy ===== *)
theory IPPool
  imports Complex_Main Pattern Redirect "HOL-Library.AList" "HOL-Library.Product_Lexorder" "HOL-Library.Multiset"
begin

text \<open>
  Address pools, \<^verbatim>\<open>internal/ippool.go\<close>: decoding with its limits, the expansion of address
  lists, the latency scan, the choice of the best addresses with their weights, and the
  weighted round robin of \<^verbatim>\<open>Get\<close>. Floating-point operations round: each one goes through a
  rounding function argument \<open>fl\<close>. The scan's goroutines deliver their results in any order,
  which is an argument too. Shown here: the pool's invariant and that every operation keeps it,
  that the best addresses are kept, and that the round robin is exactly proportional to the
  weights.
\<close>

section \<open>The pool\<close>

definition defaultTimeout :: int where "defaultTimeout = 1000000000"
definition defaultUpdateInterval :: int where "defaultUpdateInterval = 1800000000000"
definition defaultMaxConcurrency :: int where "defaultMaxConcurrency = 100"
definition defaultTopIPCount :: int where "defaultTopIPCount = 3"
definition defaultAttempts :: int where "defaultAttempts = 4"
definition maxIPPoolSize :: nat where "maxIPPoolSize = 1000"
definition weightScaleFactor :: rat where "weightScaleFactor = 10000"
definition minWeight :: rat where "minWeight = 1"
definition maxWeight :: rat where "maxWeight = 10000"

lemmas pool_consts = defaultTimeout_def defaultUpdateInterval_def defaultMaxConcurrency_def
  defaultTopIPCount_def defaultAttempts_def maxIPPoolSize_def weightScaleFactor_def minWeight_def maxWeight_def

record IPPool =
  ips :: "string list"
  poolPort :: int
  topIPCount :: nat
  poolAttempts :: nat
  poolTimeout :: int
  updateInterval :: int
  bestIndexes :: "nat list"
  bestWeights :: "int list"
  totalWeight :: int
  curValidIPs :: nat
  semCap :: int
  counter :: "32 word"
  monitoring :: bool

record ipResult =
  ipIndex :: nat
  latency :: int
  loss :: rat

section \<open>Address lists\<close>

text \<open>\<^verbatim>\<open>Addr.Next\<close> on the bytes, most significant first; \<^const>\<open>None\<close> after the last address.\<close>

fun next_rev :: "bytes \<Rightarrow> bytes option" where
  "next_rev [] = None"
| "next_rev (b # bs) = (if b = 0xFF then map_option (Cons 0) (next_rev bs) else Some ((b + 1) # bs))"

definition Next :: "addr \<Rightarrow> addr option" where
  "Next a = map_option (\<lambda>b. if Is4 a then Addr4 (rev b) else Addr6 (rev b)) (next_rev (rev (addr_bytes a)))"

definition Contains :: "addr \<times> int \<Rightarrow> addr \<Rightarrow> bool" where
  "Contains p a \<longleftrightarrow> Is4 (fst p) = Is4 a \<and>
     maskedBytes (snd p) (addr_bytes a) = maskedBytes (snd p) (addr_bytes (fst p))"

function add_cidr :: "netlib \<Rightarrow> string \<Rightarrow> addr \<times> int \<Rightarrow> addr \<Rightarrow> string list \<Rightarrow> go_error + string list" where
  "add_cidr lib s p a acc =
     (if \<not> Contains p a then Inr acc
      else if length acc \<ge> maxIPPoolSize then
        Inl (ErrorNew (''CIDR '' @ s @ '' exceeds max pool size ('' @ Itoa (int maxIPPoolSize) @ '')''))
      else let acc' = acc @ [AddrString lib a] in
        case Next a of
          None \<Rightarrow> Inr acc'
        | Some n \<Rightarrow> if \<not> Contains p n then Inr acc' else add_cidr lib s p n acc')"
  by pat_completeness auto
termination
  by (relation "measure (\<lambda>(lib, s, p, a, acc). maxIPPoolSize - length acc)") auto

declare add_cidr.simps [simp del]

text \<open>The addresses of a resolved name, each valid one printed.\<close>

fun add_resolved :: "netlib \<Rightarrow> string \<Rightarrow> addr option list \<Rightarrow> string list \<Rightarrow> go_error + string list" where
  "add_resolved lib s [] acc = Inr acc"
| "add_resolved lib s (None # as) acc = add_resolved lib s as acc"
| "add_resolved lib s (Some a # as) acc =
     (if length acc \<ge> maxIPPoolSize then
        Inl (ErrorNew (''DNS resolution for '' @ s @ '' exceeds max pool size''))
      else add_resolved lib s as (acc @ [AddrString lib a]))"

text \<open>One expanded entry; \<open>LookupIP\<close> is \<^verbatim>\<open>net.LookupIP\<close>.\<close>

definition add_entry ::
  "netlib \<Rightarrow> (string \<Rightarrow> go_error + addr option list) \<Rightarrow> string \<Rightarrow> string list \<Rightarrow> go_error + string list" where
  "add_entry lib LookupIP s acc =
     (if length acc \<ge> maxIPPoolSize then
        Inl (ErrorNew (''IP pool exceeds maximum size ('' @ Itoa (int maxIPPoolSize) @ '') during parsing''))
      else if ParseAddr lib s \<noteq> None then Inr (acc @ [s])
      else case ParsePrefix lib s of
        Inr p \<Rightarrow> add_cidr lib s p (fst p) acc
      | Inl _ \<Rightarrow> (case LookupIP s of
            Inl err \<Rightarrow> Inl (opError (''DNS lookup failed for '' @ s) err)
          | Inr addrs \<Rightarrow> add_resolved lib s addrs acc))"

fun add_entries ::
  "netlib \<Rightarrow> (string \<Rightarrow> go_error + addr option list) \<Rightarrow> string list \<Rightarrow> string list \<Rightarrow> go_error + string list" where
  "add_entries lib LookupIP [] acc = Inr acc"
| "add_entries lib LookupIP (s # ss) acc = sum_bind (add_entry lib LookupIP s acc) (add_entries lib LookupIP ss)"

definition parseIPList ::
  "netlib \<Rightarrow> (string \<Rightarrow> go_error + addr option list) \<Rightarrow> string list \<Rightarrow> go_error + string list" where
  "parseIPList lib LookupIP sources = add_entries lib LookupIP (concat (map expandPattern sources)) []"

section \<open>Decoding\<close>

record pool_tmp =
  tIPs :: "string list"
  tpPort :: int
  tTopIPCount :: int
  tMaxConcurrency :: int
  tTimeout :: string
  tUpdateInterval :: string
  tpAttempts :: int

fun json_into_strings :: "json list \<Rightarrow> go_error + string list" where
  "json_into_strings [] = Inr []"
| "json_into_strings (v # vs) =
     sum_bind (json_into_string v []) (\<lambda>s. sum_map (Cons s) (json_into_strings vs))"

definition pool_tmp_set :: "string \<Rightarrow> json \<Rightarrow> pool_tmp \<Rightarrow> go_error + pool_tmp" where
  "pool_tmp_set k v t =
     (if k = ''ips'' then (case v of JArray vs \<Rightarrow> sum_map (\<lambda>x. t\<lparr>tIPs := x\<rparr>) (json_into_strings vs)
        | JNull \<Rightarrow> Inr (t\<lparr>tIPs := []\<rparr>) | _ \<Rightarrow> Inl (json_type_error ''[]string''))
      else if k = ''port'' then sum_map (\<lambda>x. t\<lparr>tpPort := x\<rparr>) (json_into_int v (tpPort t))
      else if k = ''top_ip_count'' then sum_map (\<lambda>x. t\<lparr>tTopIPCount := x\<rparr>) (json_into_int v (tTopIPCount t))
      else if k = ''max_concurrency'' then sum_map (\<lambda>x. t\<lparr>tMaxConcurrency := x\<rparr>) (json_into_int v (tMaxConcurrency t))
      else if k = ''timeout'' then sum_map (\<lambda>x. t\<lparr>tTimeout := x\<rparr>) (json_into_string v (tTimeout t))
      else if k = ''update_interval'' then sum_map (\<lambda>x. t\<lparr>tUpdateInterval := x\<rparr>) (json_into_string v (tUpdateInterval t))
      else if k = ''attempts'' then sum_map (\<lambda>x. t\<lparr>tpAttempts := x\<rparr>) (json_into_int v (tpAttempts t))
      else Inr t)"

definition pool_duration :: "duration_parser \<Rightarrow> string \<Rightarrow> int \<Rightarrow> string \<Rightarrow> go_error + int" where
  "pool_duration ParseDuration name dflt s =
     (if s = [] then Inr dflt
      else case ParseDuration s of
        Inl _ \<Rightarrow> Inl (ErrorNew (''invalid '' @ name @ '': '' @ s))
      | Inr d \<Rightarrow> if d \<le> 0 then Inl (ErrorNew (''invalid '' @ name @ '': '' @ s)) else Inr d)"

definition pool_counts :: "pool_tmp \<Rightarrow> nat \<Rightarrow> go_error + int \<times> int \<times> int" where
  "pool_counts t n =
     sum_bind (if tMaxConcurrency t = 0 then Inr defaultMaxConcurrency
               else if tMaxConcurrency t < 1 then
                 Inl (ErrorNew (''invalid max_concurrency: '' @ Itoa (tMaxConcurrency t)))
               else Inr (tMaxConcurrency t)) (\<lambda>concurrency.
     sum_bind (if tTopIPCount t = 0 then Inr defaultTopIPCount
               else if tTopIPCount t \<le> 0 \<or> tTopIPCount t > 255 \<or> tTopIPCount t > int n then
                 Inl (ErrorNew (''invalid top_ip_count: '' @ Itoa (tTopIPCount t)))
               else Inr (tTopIPCount t)) (\<lambda>topCount.
     sum_bind (if tpAttempts t = 0 then Inr defaultAttempts
               else if tpAttempts t \<le> 0 \<or> tpAttempts t > 255 then
                 Inl (ErrorNew (''invalid attempts: '' @ Itoa (tpAttempts t)))
               else Inr (tpAttempts t)) (\<lambda>attempts.
     Inr (concurrency, topCount, attempts))))"

definition IPPool_UnmarshalJSON ::
  "netlib \<Rightarrow> (string \<Rightarrow> go_error + addr option list) \<Rightarrow> duration_parser \<Rightarrow> json \<Rightarrow> go_error + IPPool" where
  "IPPool_UnmarshalJSON lib LookupIP ParseDuration b =
     sum_bind (json_into_struct pool_tmp_set b
       \<lparr>tIPs = [], tpPort = 0, tTopIPCount = 0, tMaxConcurrency = 0, tTimeout = [], tUpdateInterval = [], tpAttempts = 0\<rparr>) (\<lambda>t.
     sum_bind (parseIPList lib LookupIP (tIPs t)) (\<lambda>as.
     if as = [] then Inl (ErrorNew ''no valid IPs after parsing'')
     else if length as > maxIPPoolSize then
       Inl (ErrorNew (''IP pool exceeds maximum size ('' @ Itoa (int maxIPPoolSize) @ ''): '' @ Itoa (int (length as))))
     else if int (length as) < tTopIPCount t then
       Inl (ErrorNew (''IP count ('' @ Itoa (int (length as)) @ '') less than top_ip_count ('' @ Itoa (tTopIPCount t) @ '')''))
     else if tpPort t \<le> 0 \<or> tpPort t > 65535 then Inl (ErrorNew (''invalid port: '' @ Itoa (tpPort t)))
     else
     sum_bind (pool_counts t (length as)) (\<lambda>(concurrency, topCount, attempts).
     sum_bind (pool_duration ParseDuration ''timeout'' defaultTimeout (tTimeout t)) (\<lambda>timeout.
     sum_bind (pool_duration ParseDuration ''update_interval'' defaultUpdateInterval (tUpdateInterval t)) (\<lambda>interval.
     Inr \<lparr>ips = as, poolPort = tpPort t, topIPCount = nat topCount, poolAttempts = nat attempts,
       poolTimeout = timeout, updateInterval = interval,
       bestIndexes = replicate (nat topCount) 0, bestWeights = replicate (nat topCount) 0,
       totalWeight = 0, curValidIPs = 0, semCap = concurrency, counter = 0, monitoring = False\<rparr>)))))"

section \<open>Scanning\<close>

text \<open>
  The result for one address: \<open>dials k\<close> is the outcome of the k-th attempt, its time in
  nanoseconds or \<^const>\<open>None\<close> for a failed dial.
\<close>

definition testIP :: "(rat \<Rightarrow> rat) \<Rightarrow> nat \<Rightarrow> (nat \<Rightarrow> int option) \<Rightarrow> nat \<Rightarrow> ipResult" where
  "testIP fl attempts dials i =
     (let times = List.map_filter dials [0..<attempts];
          successCount = int (length times);
          lossRate = fl (1 - fl (of_int successCount / of_nat attempts))
      in \<lparr>ipIndex = i,
          latency = (if successCount = 0 then 2 ^ 63 - 1 else sum_list times div successCount),
          loss = lossRate\<rparr>)"

definition weightOf :: "(rat \<Rightarrow> rat) \<Rightarrow> ipResult \<Rightarrow> int" where
  "weightOf fl res =
     (let latencyMs = fl (fl (of_int (latency res)) / 1000000);
          weightVal = fl (weightScaleFactor / fl (fl (latencyMs * fl (1 + loss res)) + fl (1 / 100000)));
          weightVal = (if weightVal < minWeight then minWeight
                       else if weightVal > maxWeight then maxWeight else weightVal)
      in \<lfloor>weightVal\<rfloor>)"

text \<open>\<^verbatim>\<open>sort.SliceStable\<close> by loss, then latency.\<close>

definition rank :: "ipResult \<Rightarrow> rat \<times> int" where
  "rank r = (loss r, latency r)"

definition updateBest :: "(rat \<Rightarrow> rat) \<Rightarrow> ipResult list \<Rightarrow> IPPool \<Rightarrow> IPPool" where
  "updateBest fl results p =
     (if results = [] then p
      else let sorted_results = sort_key rank results;
               best = take (topIPCount p) sorted_results;
               validCount = length best;
               weights = map (weightOf fl) best
           in p\<lparr>bestIndexes := map ipIndex best @ drop validCount (bestIndexes p),
                bestWeights := weights @ replicate (topIPCount p - validCount) 0,
                curValidIPs := validCount,
                totalWeight := sum_list weights\<rparr>)"

text \<open>One scan; \<open>arrival\<close> is the order in which the goroutines deliver their results.\<close>

definition scan ::
  "(rat \<Rightarrow> rat) \<Rightarrow> (nat \<Rightarrow> nat \<Rightarrow> int option) \<Rightarrow> (ipResult list \<Rightarrow> ipResult list) \<Rightarrow> IPPool \<Rightarrow> IPPool" where
  "scan fl dials arrival p =
     (let results = arrival (map (\<lambda>i. testIP fl (poolAttempts p) (dials i) i) [0..<length (ips p)])
      in updateBest fl (filter (\<lambda>r. loss r < 1) results) p)"

definition Init ::
  "(rat \<Rightarrow> rat) \<Rightarrow> (nat \<Rightarrow> nat \<Rightarrow> int option) \<Rightarrow> (ipResult list \<Rightarrow> ipResult list) \<Rightarrow> IPPool \<Rightarrow>
   go_error option \<times> IPPool" where
  "Init fl dials arrival p =
     (let p' = scan fl dials arrival p in
      if curValidIPs p' = 0 then (Some (ErrorNew ''no valid IP found after initial scan''), p')
      else (None, p'\<lparr>monitoring := True\<rparr>))"

definition Stop :: "IPPool \<Rightarrow> IPPool" where
  "Stop p = p\<lparr>monitoring := False\<rparr>"

text \<open>One tick of the monitor goroutine; a stopped monitor does nothing.\<close>

definition monitor_tick ::
  "(rat \<Rightarrow> rat) \<Rightarrow> (nat \<Rightarrow> nat \<Rightarrow> int option) \<Rightarrow> (ipResult list \<Rightarrow> ipResult list) \<Rightarrow> IPPool \<Rightarrow> IPPool" where
  "monitor_tick fl dials arrival p = (if monitoring p then scan fl dials arrival p else p)"

section \<open>Choosing an address\<close>

text \<open>The position whose running sum of weights first exceeds the target, else 0.\<close>

fun pick_pos :: "int \<Rightarrow> int \<Rightarrow> nat \<Rightarrow> int list \<Rightarrow> nat" where
  "pick_pos target acc i [] = 0"
| "pick_pos target acc i (w # ws) =
     (if acc + w > target then i else pick_pos target (acc + w) (i + 1) ws)"

text \<open>The address, and the pool with its counter advanced; \<^const>\<open>None\<close> is a run-time panic.\<close>

definition Get :: "IPPool \<Rightarrow> (string \<times> IPPool) option" where
  "Get p =
     (if curValidIPs p = 0 then Some ([], p)
      else do {
        indexes \<leftarrow> go_slice (bestIndexes p) 0 (int (curValidIPs p));
        weights \<leftarrow> go_slice (bestWeights p) 0 (int (curValidIPs p));
        let total = totalWeight p;
        let current = counter p;
        let p' = p\<lparr>counter := counter p + 1\<rparr>;
        if total mod 2 ^ 32 = 0 then None
        else do {
          let target = uint current mod (total mod 2 ^ 32);
          idx \<leftarrow> go_index indexes (int (pick_pos target 0 0 weights));
          ip \<leftarrow> go_index (ips p) (int idx);
          Some (ip, p')
        }
      })"

text \<open>The global map of pools by tag, as an association list.\<close>

type_synonym pools = "(string \<times> IPPool) list"

definition getFromIPPool :: "pools \<Rightarrow> string \<Rightarrow> ((go_error + string) \<times> pools) option" where
  "getFromIPPool ipPools tag =
     (if ipPools = [] then Some (Inl (ErrorNew ''no ip pools''), ipPools)
      else case map_of ipPools tag of
        None \<Rightarrow> Some (Inl (ErrorNew (''ip pool '' @ tag @ '' does not exist'')), ipPools)
      | Some p \<Rightarrow> do {
          (ip, p') \<leftarrow> Get p;
          Some (if ip = [] then Inl (ErrorNew (''cannot get ip from '' @ tag)) else Inr ip,
                AList.update tag p' ipPools)
        })"

definition StopIPPoolMonitors :: "pools \<Rightarrow> pools" where
  "StopIPPoolMonitors ipPools = map (\<lambda>(tag, p). (tag, Stop p)) ipPools"

section \<open>The pool invariant\<close>

text \<open>
  The best lists have the configured length, the first \<open>curValidIPs\<close> entries point into the
  address list and carry weights between 1 and 10000, the total is their sum, and the
  addresses are not empty.
\<close>

definition pool_ok :: "IPPool \<Rightarrow> bool" where
  "pool_ok p \<longleftrightarrow> topIPCount p \<le> 255 \<and> length (bestIndexes p) = topIPCount p \<and>
     length (bestWeights p) = topIPCount p \<and> curValidIPs p \<le> topIPCount p \<and>
     (\<forall>i < curValidIPs p. bestIndexes p ! i < length (ips p) \<and> 1 \<le> bestWeights p ! i \<and> bestWeights p ! i \<le> 10000) \<and>
     totalWeight p = sum_list (take (curValidIPs p) (bestWeights p)) \<and> (\<forall>s \<in> set (ips p). s \<noteq> [])"

lemma weightOf_bounds: "1 \<le> weightOf fl r \<and> weightOf fl r \<le> 10000"
  by (simp add: weightOf_def Let_def minWeight_def maxWeight_def le_floor_iff floor_le_iff)

lemma updateBest_ok:
  assumes "pool_ok p" and "\<And>r. r \<in> set results \<Longrightarrow> ipIndex r < length (ips p)"
  shows "pool_ok (updateBest fl results p)"
proof (cases "results = []")
  case True
  with assms show ?thesis by (simp add: updateBest_def)
next
  case False
  let ?best = "take (topIPCount p) (sort_key rank results)"
  have sub: "set ?best \<subseteq> set results" using set_take_subset [of "topIPCount p"] by fastforce
  have "ipIndex (?best ! i) < length (ips p)" if "i < length ?best" for i
    using nth_mem [OF that] sub assms(2) by blast
  with False assms(1) weightOf_bounds show ?thesis
    by (simp add: updateBest_def pool_ok_def Let_def nth_append)
qed

lemma ipIndex_testIP [simp]: "ipIndex (testIP fl n d i) = i"
  by (simp add: testIP_def Let_def)

lemma scan_ok:
  assumes "pool_ok p" and "\<And>rs. set (arrival rs) = set rs"
  shows "pool_ok (scan fl dials arrival p)"
  unfolding scan_def Let_def by (rule updateBest_ok [OF assms(1)]) (auto simp: assms(2))

subsection \<open>A decoded pool satisfies it\<close>

text \<open>What \<^verbatim>\<open>netip\<close> documents: the empty text is no address, and an address prints as non-empty text.\<close>

definition names_ok :: "netlib \<Rightarrow> bool" where
  "names_ok lib \<longleftrightarrow> ParseAddr lib [] = None \<and> (\<forall>a. AddrString lib a \<noteq> [])"

definition list_ok :: "string list \<Rightarrow> bool" where
  "list_ok xs \<longleftrightarrow> length xs \<le> maxIPPoolSize \<and> (\<forall>s \<in> set xs. s \<noteq> [])"

lemma add_cidr_ok: "names_ok lib \<Longrightarrow> list_ok acc \<Longrightarrow> add_cidr lib s p a acc = Inr xs \<Longrightarrow> list_ok xs"
proof (induction lib s p a acc rule: add_cidr.induct)
  case (1 lib s p a acc)
  let ?acc = "acc @ [AddrString lib a]"
  show ?case
  proof (cases "Contains p a \<and> length acc < maxIPPoolSize")
    case False
    with "1.prems"(3) have "xs = acc" by (subst (asm) add_cidr.simps) (auto split: if_splits)
    with "1.prems"(2) show ?thesis by simp
  next
    case True
    then have ok: "list_ok ?acc" using "1.prems"(1,2) by (auto simp: list_ok_def names_ok_def)
    show ?thesis
    proof (cases "\<exists>n. Next a = Some n \<and> Contains p n")
      case False
      with True "1.prems"(3) have "xs = ?acc"
        by (subst (asm) add_cidr.simps) (auto simp: Let_def split: option.splits if_splits)
      with ok show ?thesis by simp
    next
      case more: True
      then obtain n where n: "Next a = Some n" "Contains p n" by blast
      with True "1.prems"(3) have "add_cidr lib s p n ?acc = Inr xs"
        by (subst (asm) add_cidr.simps) (simp add: Let_def)
      with True n ok "1.prems"(1) "1.IH" [OF _ _ refl n(1)] show ?thesis by simp
    qed
  qed
qed

lemma add_resolved_ok: "names_ok lib \<Longrightarrow> list_ok acc \<Longrightarrow> add_resolved lib s as acc = Inr xs \<Longrightarrow> list_ok xs"
  by (induction lib s as acc rule: add_resolved.induct)
    (auto simp: list_ok_def names_ok_def split: if_splits)

lemma add_entry_ok:
  "names_ok lib \<Longrightarrow> list_ok acc \<Longrightarrow> add_entry lib LookupIP s acc = Inr xs \<Longrightarrow> list_ok xs"
  by (auto simp: add_entry_def split: if_splits sum.splits dest: add_cidr_ok add_resolved_ok)
    (auto simp: list_ok_def names_ok_def)

lemma add_entries_ok:
  "names_ok lib \<Longrightarrow> list_ok acc \<Longrightarrow> add_entries lib LookupIP ss acc = Inr xs \<Longrightarrow> list_ok xs"
  by (induction ss arbitrary: acc) (auto simp: sum_bind_Inr_iff dest: add_entry_ok)

lemma parseIPList_ok: "names_ok lib \<Longrightarrow> parseIPList lib LookupIP sources = Inr xs \<Longrightarrow> list_ok xs"
  unfolding parseIPList_def by (erule add_entries_ok) (auto simp: list_ok_def)

lemma pool_counts_bounds:
  "pool_counts t n = Inr (c, tc, a) \<Longrightarrow> 1 \<le> c \<and> 1 \<le> tc \<and> tc \<le> 255 \<and> 1 \<le> a \<and> a \<le> 255"
  by (auto simp: pool_counts_def sum_bind_Inr_iff pool_consts split: if_splits)

lemma IPPool_UnmarshalJSON_ok:
  assumes "names_ok lib" and "IPPool_UnmarshalJSON lib LookupIP pd b = Inr p"
  shows "pool_ok p \<and> ips p \<noteq> [] \<and> length (ips p) \<le> 1000 \<and> 1 \<le> poolPort p \<and> poolPort p \<le> 65535 \<and>
    1 \<le> topIPCount p \<and> 1 \<le> poolAttempts p \<and> poolAttempts p \<le> 255"
proof -
  obtain t as c tc a where "parseIPList lib LookupIP (tIPs t) = Inr as" and counts: "pool_counts t (length as) = Inr (c, tc, a)"
    and p: "ips p = as" "poolPort p = tpPort t" "topIPCount p = nat tc" "poolAttempts p = nat a"
      "bestIndexes p = replicate (nat tc) 0" "bestWeights p = replicate (nat tc) 0" "curValidIPs p = 0" "totalWeight p = 0"
      "as \<noteq> []" "0 < tpPort t" "tpPort t \<le> 65535"
    using assms(2) by (auto simp: IPPool_UnmarshalJSON_def sum_bind_Inr_iff split: if_splits)
  with parseIPList_ok [OF assms(1)] have "list_ok as" by blast
  with p pool_counts_bounds [OF counts] show ?thesis by (auto simp: pool_ok_def list_ok_def maxIPPoolSize_def)
qed

section \<open>The best addresses\<close>

text \<open>Every address kept ranks at least as well as every address left out.\<close>

lemma take_sort_best:
  assumes "x \<in> set (take n (sort_key f xs))" and "y \<in> set (drop n (sort_key f xs))"
  shows "f x \<le> f y"
proof -
  have "sorted (map f (take n (sort_key f xs)) @ map f (drop n (sort_key f xs)))"
    by (metis append_take_drop_id map_append sorted_sort_key)
  then show ?thesis using assms by (auto simp: sorted_append)
qed

section \<open>The weighted round robin\<close>

lemma pick_pos_cases:
  assumes "\<And>w. w \<in> set ws \<Longrightarrow> 0 < w" and "acc \<le> target" and "target < acc + sum_list ws"
  shows "i \<le> pick_pos target acc i ws \<and> pick_pos target acc i ws < i + length ws \<and>
    acc + sum_list (take (pick_pos target acc i ws - i) ws) \<le> target \<and>
    target < acc + sum_list (take (Suc (pick_pos target acc i ws - i)) ws)"
  using assms
proof (induction ws arbitrary: acc i)
  case (Cons w ws)
  show ?case
  proof (cases "acc + w > target")
    case True
    with Cons.prems show ?thesis by simp
  next
    case False
    let ?r = "pick_pos target (acc + w) (i + 1) ws"
    have "i + 1 \<le> ?r \<and> ?r < i + 1 + length ws \<and>
      acc + w + sum_list (take (?r - (i + 1)) ws) \<le> target \<and>
      target < acc + w + sum_list (take (Suc (?r - (i + 1))) ws)"
      by (rule Cons.IH) (use Cons.prems False in auto)
    moreover from this have "?r - i = Suc (?r - (i + 1))" by linarith
    ultimately show ?thesis using False by (simp add: algebra_simps)
  qed
qed simp

text \<open>The running sums of positive weights separate the positions.\<close>

lemma sum_take_mono:
  assumes "\<And>w. w \<in> set ws \<Longrightarrow> 0 < (w :: int)" and "i \<le> j"
  shows "sum_list (take i ws) \<le> sum_list (take j ws)"
proof -
  have "take j ws = take i ws @ take (j - i) (drop i ws)" using assms(2) by (metis le_add_diff_inverse take_add)
  moreover have "0 \<le> sum_list (take (j - i) (drop i ws))"
    by (rule sum_list_nonneg) (use assms(1) in \<open>auto dest!: in_set_takeD in_set_dropD intro: less_imp_le\<close>)
  ultimately show ?thesis by simp
qed

lemma pick_pos_iff:
  assumes "\<And>w. w \<in> set ws \<Longrightarrow> 0 < w" and "0 \<le> target" and "target < sum_list ws" and "i < length ws"
  shows "pick_pos target 0 0 ws = i \<longleftrightarrow> sum_list (take i ws) \<le> target \<and> target < sum_list (take (Suc i) ws)"
proof -
  let ?r = "pick_pos target 0 0 ws"
  have r: "sum_list (take ?r ws) \<le> target" "target < sum_list (take (Suc ?r) ws)"
    using pick_pos_cases [of ws 0 target 0] assms by auto
  show ?thesis
  proof
    assume "?r = i"
    with r show "sum_list (take i ws) \<le> target \<and> target < sum_list (take (Suc i) ws)" by simp
  next
    assume i: "sum_list (take i ws) \<le> target \<and> target < sum_list (take (Suc i) ws)"
    have "\<not> Suc ?r \<le> i" using sum_take_mono [of ws "Suc ?r" i] assms(1) r i by fastforce
    moreover have "\<not> Suc i \<le> ?r" using sum_take_mono [of ws "Suc i" ?r] assms(1) r i by fastforce
    ultimately show "?r = i" by simp
  qed
qed

lemma pick_pos_card:
  assumes "\<And>w. w \<in> set ws \<Longrightarrow> 0 < w" and "i < length ws"
  shows "int (card {t \<in> {0..<sum_list ws}. pick_pos t 0 0 ws = i}) = ws ! i"
proof -
  let ?a = "sum_list (take i ws)" and ?b = "sum_list (take (Suc i) ws)"
  have b: "?b = ?a + ws ! i" using assms(2) by (simp add: take_Suc_conv_app_nth)
  have "?b \<le> sum_list ws" using sum_take_mono [of ws "Suc i" "length ws"] assms by simp
  moreover have "0 \<le> ?a" using sum_take_mono [of ws 0 i] assms(1) by simp
  moreover have "0 \<le> t \<Longrightarrow> t < sum_list ws \<Longrightarrow> pick_pos t 0 0 ws = i \<longleftrightarrow> ?a \<le> t \<and> t < ?b" for t
    using pick_pos_iff [of ws t i] assms by simp
  ultimately have "{t \<in> {0..<sum_list ws}. pick_pos t 0 0 ws = i} = {?a..<?b}" by fastforce
  then show ?thesis using b assms by (simp add: less_imp_le)
qed

text \<open>A window of \<open>n\<close> consecutive counters hits every residue modulo \<open>n\<close> exactly once.\<close>

lemma card_window_mod:
  assumes "0 < (n :: int)"
  shows "card {c \<in> {c0..<c0 + n}. P (c mod n)} = card {t \<in> {0..<n}. P t}"
proof (rule bij_betw_same_card [where f = "\<lambda>c. c mod n"])
  have "inj_on (\<lambda>c. c mod n) {c0..<c0 + n}"
  proof (rule inj_onI)
    fix x y assume xy: "x \<in> {c0..<c0 + n}" "y \<in> {c0..<c0 + n}" "x mod n = y mod n"
    then have "n dvd x - y" by (simp add: mod_eq_dvd_iff)
    moreover have "\<bar>x - y\<bar> < n" using xy by auto
    ultimately show "x = y" by (metis dvd_imp_le_int abs_of_pos assms not_less right_minus_eq)
  qed
  then have "inj_on (\<lambda>c. c mod n) {c \<in> {c0..<c0 + n}. P (c mod n)}" by (rule inj_on_subset) auto
  moreover have "t \<in> (\<lambda>c. c mod n) ` {c \<in> {c0..<c0 + n}. P (c mod n)}" if "t \<in> {0..<n}" "P t" for t
  proof (rule image_eqI [of _ _ "c0 + (t - c0) mod n"])
    show "t = (c0 + (t - c0) mod n) mod n" using that assms by (simp add: mod_add_right_eq)
    with that assms show "c0 + (t - c0) mod n \<in> {c \<in> {c0..<c0 + n}. P (c mod n)}" by simp
  qed
  ultimately show "bij_betw (\<lambda>c. c mod n) {c \<in> {c0..<c0 + n}. P (c mod n)} {t \<in> {0..<n}. P t}"
    using assms by (auto simp: bij_betw_def)
qed

text \<open>What \<^verbatim>\<open>Get\<close> returns on a pool that has valid addresses.\<close>

lemma pool_ok_weights:
  assumes "pool_ok p" and "w \<in> set (take (curValidIPs p) (bestWeights p))"
  shows "0 < w" and "w \<le> 10000"
proof -
  from assms obtain i where "i < curValidIPs p" "i < length (bestWeights p)" "w = bestWeights p ! i"
    by (auto simp: in_set_conv_nth)
  with assms(1) show "0 < w" "w \<le> 10000" by (auto simp: pool_ok_def dest!: spec [of _ i])
qed

lemma pool_ok_total:
  assumes "pool_ok p" and "0 < curValidIPs p"
  shows "0 < totalWeight p" and "totalWeight p < 2 ^ 32"
proof -
  let ?ws = "take (curValidIPs p) (bestWeights p)"
  have len: "length ?ws = curValidIPs p" "curValidIPs p \<le> 255" using assms(1) by (auto simp: pool_ok_def)
  then have "?ws \<noteq> []" using assms(2) by auto
  then obtain w ws where ws: "?ws = w # ws" by (cases ?ws) auto
  have "0 \<le> sum_list ws" using pool_ok_weights(1) [OF assms(1)] ws by (intro sum_list_nonneg) (simp add: less_imp_le)
  with ws pool_ok_weights(1) [OF assms(1), of w] assms(1) show "0 < totalWeight p" by (simp add: pool_ok_def)
  have "sum_list ?ws \<le> int (length ?ws) * 10000"
    using pool_ok_weights(2) [OF assms(1)] sum_list_mono [of ?ws "\<lambda>w. w" "\<lambda>_. 10000"]
    by (simp add: sum_list_triv)
  with len assms(1) show "totalWeight p < 2 ^ 32" by (simp add: pool_ok_def)
qed

definition get_pos :: "IPPool \<Rightarrow> nat" where
  "get_pos p = pick_pos (uint (counter p) mod totalWeight p) 0 0 (take (curValidIPs p) (bestWeights p))"

lemma Get_valid:
  assumes "pool_ok p" and "0 < curValidIPs p"
  shows "get_pos p < curValidIPs p \<and>
    Get p = Some (ips p ! (bestIndexes p ! get_pos p), p\<lparr>counter := counter p + 1\<rparr>)"
proof -
  let ?ws = "take (curValidIPs p) (bestWeights p)"
  note total = pool_ok_total [OF assms]
  have len: "length ?ws = curValidIPs p" using assms(1) by (auto simp: pool_ok_def)
  have sum: "sum_list ?ws = totalWeight p" using assms(1) by (simp add: pool_ok_def)
  have "0 \<le> uint (counter p) mod totalWeight p" "uint (counter p) mod totalWeight p < sum_list ?ws"
    using total sum by simp_all
  then have pos: "get_pos p < curValidIPs p"
    using pick_pos_cases [of ?ws 0 "uint (counter p) mod totalWeight p" 0] pool_ok_weights(1) [OF assms(1)] len
    by (simp add: get_pos_def)
  moreover have "totalWeight p mod 2 ^ 32 = totalWeight p" using total by simp
  ultimately show ?thesis
    using assms total by (simp add: Get_def pool_ok_def go_index_def get_pos_def)
qed

text \<open>
  C18: the pool is safe to use. Every scan keeps the invariant (whatever the dials, the rounding and
  the order of the results), and on a pool that satisfies it \<^verbatim>\<open>Get\<close> never panics: it
  returns one of the current best addresses, or the empty string exactly when there is none.
\<close>

theorem pool_Get_safe:
  assumes "pool_ok p" and "\<forall>rs. set (arrival rs) = set rs"
  shows "pool_ok (scan fl dials arrival p) \<and>
    (\<exists>ip p'. Get p = Some (ip, p') \<and> pool_ok p' \<and> (ip = [] \<longleftrightarrow> curValidIPs p = 0) \<and>
      (0 < curValidIPs p \<longrightarrow> ip \<in> (\<lambda>i. ips p ! (bestIndexes p ! i)) ` {..<curValidIPs p}))"
proof
  show "pool_ok (scan fl dials arrival p)" using assms by (intro scan_ok) auto
  show "\<exists>ip p'. Get p = Some (ip, p') \<and> pool_ok p' \<and> (ip = [] \<longleftrightarrow> curValidIPs p = 0) \<and>
      (0 < curValidIPs p \<longrightarrow> ip \<in> (\<lambda>i. ips p ! (bestIndexes p ! i)) ` {..<curValidIPs p})"
  proof (cases "curValidIPs p = 0")
    case True
    with assms(1) show ?thesis by (simp add: Get_def)
  next
    case False
    with Get_valid [OF assms(1)] have g: "get_pos p < curValidIPs p"
      "Get p = Some (ips p ! (bestIndexes p ! get_pos p), p\<lparr>counter := counter p + 1\<rparr>)" by auto
    moreover from g assms(1) have "ips p ! (bestIndexes p ! get_pos p) \<noteq> []" by (auto simp: pool_ok_def)
    moreover have "pool_ok (p\<lparr>counter := counter p + 1\<rparr>)" using assms(1) by (simp add: pool_ok_def)
    ultimately show ?thesis using False by auto
  qed
qed

text \<open>
  C19: the round robin is exactly proportional. Over any window of \<open>totalWeight\<close> consecutive counter
  values, each of the current best addresses is returned exactly as many times as its weight.
\<close>

theorem pool_round_robin:
  assumes "pool_ok p" and "i < curValidIPs p" and "0 \<le> c0" and "c0 + totalWeight p \<le> 2 ^ 32"
    and "distinct (map (\<lambda>k. ips p ! k) (take (curValidIPs p) (bestIndexes p)))"
  shows "int (card {c \<in> {c0..<c0 + totalWeight p}.
      map_option fst (Get (p\<lparr>counter := word_of_int c\<rparr>)) = Some (ips p ! (bestIndexes p ! i))}) = bestWeights p ! i"
proof -
  let ?ws = "take (curValidIPs p) (bestWeights p)" and ?n = "totalWeight p"
  let ?xs = "map (\<lambda>k. ips p ! k) (take (curValidIPs p) (bestIndexes p))"
  have len: "length ?ws = curValidIPs p" "length ?xs = curValidIPs p" "sum_list ?ws = ?n"
    using assms(1) by (auto simp: pool_ok_def)
  have valid: "0 < curValidIPs p" using assms(2) by simp
  have "map_option fst (Get (p\<lparr>counter := word_of_int c\<rparr>)) = Some (ips p ! (bestIndexes p ! i)) \<longleftrightarrow>
      pick_pos (c mod ?n) 0 0 ?ws = i" if c: "c0 \<le> c" "c < c0 + ?n" for c
  proof -
    let ?p = "p\<lparr>counter := word_of_int c\<rparr>"
    have ok: "pool_ok ?p" using assms(1) by (simp add: pool_ok_def)
    have "uint (word_of_int c :: 32 word) = c" using c assms(3,4) by (simp add: uint_word_of_int)
    then have pos: "get_pos ?p = pick_pos (c mod ?n) 0 0 ?ws" by (simp add: get_pos_def)
    from Get_valid [OF ok] valid have g: "get_pos ?p < curValidIPs p"
      "Get ?p = Some (ips p ! (bestIndexes p ! get_pos ?p), ?p\<lparr>counter := counter ?p + 1\<rparr>)" by simp_all
    have "?xs ! get_pos ?p = ?xs ! i \<longleftrightarrow> get_pos ?p = i"
      using assms(2,5) g(1) len(2) by (intro nth_eq_iff_index_eq) auto
    moreover have "?xs ! k = ips p ! (bestIndexes p ! k)" if "k < curValidIPs p" for k
      using that assms(1) by (simp add: pool_ok_def)
    ultimately show ?thesis using g assms(2) pos by simp
  qed
  then have "{c \<in> {c0..<c0 + ?n}. map_option fst (Get (p\<lparr>counter := word_of_int c\<rparr>)) = Some (ips p ! (bestIndexes p ! i))} =
      {c \<in> {c0..<c0 + ?n}. pick_pos (c mod ?n) 0 0 ?ws = i}" by auto
  also have "card \<dots> = card {t \<in> {0..<?n}. pick_pos t 0 0 ?ws = i}"
    by (rule card_window_mod [OF pool_ok_total(1) [OF assms(1) valid]])
  finally show ?thesis
    using pick_pos_card [of ?ws i] pool_ok_weights(1) [OF assms(1)] len assms(2) by simp
qed

section \<open>A concrete pool\<close>

definition pool_example :: IPPool where
  "pool_example = \<lparr>ips = [''1.1.1.1'', ''2.2.2.2''], poolPort = 443, topIPCount = 2, poolAttempts = 4,
     poolTimeout = 1, updateInterval = 1, bestIndexes = [1, 0], bestWeights = [3, 2], totalWeight = 5,
     curValidIPs = 2, semCap = 1, counter = 0, monitoring = True\<rparr>"

lemma pool_example_ok: "pool_ok pool_example"
  by (auto simp: pool_ok_def pool_example_def less_2_cases_iff)

theorem pool_Get_safe_witness:
  "\<exists>ip p'. Get pool_example = Some (ip, p') \<and> ip \<noteq> [] \<and> pool_ok p'"
  using pool_Get_safe [OF pool_example_ok, of "\<lambda>rs. rs" "\<lambda>x. x" "\<lambda>_ _. None"]
  by (auto simp: pool_example_def)

theorem pool_round_robin_witness:
  "int (card {c \<in> {7..<12}. map_option fst (Get (pool_example\<lparr>counter := word_of_int c\<rparr>)) = Some ''2.2.2.2''}) = 3"
  using pool_round_robin [OF pool_example_ok, of 0 7] by (simp add: pool_example_def)

end
