(* ===== verification/Dns.thy ===== *)
theory Dns
  imports Policy GoIO
begin

text \<open>
  Name resolution, \<^verbatim>\<open>internal/dns.go\<close>: the exchange over plain DNS or DoH, the choice of the
  answer by the DNS mode with its fallback query, and the cache. The DNS message codec, the
  transports and the cache container are arguments (record \<open>dns_env\<close>); the queries made and
  the cache entries written are the state. Shown here: the cache key determines name and mode,
  what address each mode may return and after which queries, and that the cache answers for
  exactly the key it was filled for.
\<close>

section \<open>Messages and environment\<close>

datatype rr = RR_A bytes | RR_AAAA bytes | RR_Other

datatype qtype = TypeA | TypeAAAA

record dns_resp =
  Rcode :: int
  Answer :: "rr list"

text \<open>A question is a name and a type; \<^const>\<open>None\<close> is a message on which none was set.\<close>

type_synonym question = "(string \<times> qtype) option"

record dns_world =
  queries :: "question list"
  dnsAdds :: "(string \<times> string) list"

record dns_env =
  exchange :: "dns_world \<Rightarrow> question \<Rightarrow> go_error + dns_resp"
  cacheOn :: bool
  cacheGet :: "(string \<times> string) list \<Rightarrow> string \<Rightarrow> string option"
  IPString :: "bytes \<Rightarrow> string"
  RcodeString :: "int \<Rightarrow> string"

definition dnsExchange :: "dns_env \<Rightarrow> question \<Rightarrow> (dns_world, dns_resp) io" where
  "dnsExchange env q w =
     (let w' = w\<lparr>queries := queries w @ [q]\<rparr> in
      case exchange env w q of Inl e \<Rightarrow> (Fail e, w') | Inr r \<Rightarrow> (Ok r, w'))"

section \<open>DNS over HTTPS\<close>

text \<open>
  \<^verbatim>\<open>dohExchange\<close>: the packed query goes into the URL, the answer is the body of a 200 reply.
  The codec, \<^verbatim>\<open>base64\<close> and the HTTP client are arguments.
\<close>

record doh_env =
  packMsg :: "question \<Rightarrow> go_error + bytes"
  b64url :: "bytes \<Rightarrow> string"
  newRequest :: "string \<Rightarrow> go_error option"
  httpGet :: "string \<Rightarrow> go_error + int \<times> string \<times> (go_error + bytes)"
  unpackMsg :: "bytes \<Rightarrow> go_error + dns_resp"

definition dohExchange :: "doh_env \<Rightarrow> string \<Rightarrow> question \<Rightarrow> go_error + dns_resp" where
  "dohExchange env dnsAddr req =
     (case packMsg env req of
        Inl err \<Rightarrow> Inl (WithStr ''pack dns request'' err)
      | Inr wire \<Rightarrow>
          let u = dnsAddr @ ''?dns='' @ b64url env wire in
          case newRequest env u of
            Some err \<Rightarrow> Inl (WithStr ''build http request'' err)
          | None \<Rightarrow> (case httpGet env u of
              Inl err \<Rightarrow> Inl (WithStr ''http request'' err)
            | Inr (statusCode, status, body) \<Rightarrow>
                if statusCode \<noteq> 200 then Inl (ErrorNew (''bad http status: '' @ status))
                else case body of
                  Inl err \<Rightarrow> Inl (WithStr ''read http body'' err)
                | Inr respWire \<Rightarrow> (case unpackMsg env respWire of
                      Inl err \<Rightarrow> Inl (WithStr ''unpack dns response'' err)
                    | Inr resp \<Rightarrow> Inr resp)))"

section \<open>Resolving\<close>

text \<open>The first address of a kind; the empty list is the nil \<^verbatim>\<open>net.IP\<close>.\<close>

fun pickFirstARecord :: "rr list \<Rightarrow> bytes" where
  "pickFirstARecord [] = []"
| "pickFirstARecord (RR_A ip # _) = ip"
| "pickFirstARecord (_ # as) = pickFirstARecord as"

fun pickFirstAAAARecord :: "rr list \<Rightarrow> bytes" where
  "pickFirstAAAARecord [] = []"
| "pickFirstAAAARecord (RR_AAAA ip # _) = ip"
| "pickFirstAAAARecord (_ # as) = pickFirstAAAARecord as"

definition dnsCacheKey :: "string \<Rightarrow> DNSMode \<Rightarrow> string" where
  "dnsCacheKey domain dnsMode = DNSMode_String dnsMode @ CHR 0x00 # domain"

definition first_question :: "string \<Rightarrow> DNSMode \<Rightarrow> question" where
  "first_question domain dnsMode =
     (case dnsMode of
        DNSModePreferIPv4 \<Rightarrow> Some (domain @ ''.'', TypeA)
      | DNSModeIPv4Only \<Rightarrow> Some (domain @ ''.'', TypeA)
      | DNSModePreferIPv6 \<Rightarrow> Some (domain @ ''.'', TypeAAAA)
      | DNSModeIPv6Only \<Rightarrow> Some (domain @ ''.'', TypeAAAA)
      | DNSModeUnknown \<Rightarrow> None)"

text \<open>One exchange and the check of the response code.\<close>

definition ask :: "dns_env \<Rightarrow> question \<Rightarrow> (dns_world, rr list) io" where
  "ask env q =
     io_bind (io_wrap ''dns exchange'' (dnsExchange env q)) (\<lambda>resp.
     if Rcode resp \<noteq> 0 then io_fail (ErrorNew (''bad rcode: '' @ RcodeString env (Rcode resp)))
     else io_return (Answer resp))"

definition choose_answer :: "dns_env \<Rightarrow> string \<Rightarrow> DNSMode \<Rightarrow> rr list \<Rightarrow> (dns_world, bytes) io" where
  "choose_answer env domain dnsMode ans =
     (case dnsMode of
        DNSModeIPv4Only \<Rightarrow>
          let ip = pickFirstARecord ans in
          if ip = [] then io_fail (ErrorNew ''A record not found'') else io_return ip
      | DNSModeIPv6Only \<Rightarrow>
          let ip = pickFirstAAAARecord ans in
          if ip = [] then io_fail (ErrorNew ''AAAA record not found'') else io_return ip
      | DNSModePreferIPv4 \<Rightarrow>
          let ip = pickFirstARecord ans in
          if ip \<noteq> [] then io_return ip
          else io_bind (ask env (Some (domain @ ''.'', TypeAAAA))) (\<lambda>ans.
            let ip = pickFirstAAAARecord ans in
            if ip = [] then io_fail (ErrorNew ''record not found'') else io_return ip)
      | DNSModePreferIPv6 \<Rightarrow>
          let ip = pickFirstAAAARecord ans in
          if ip \<noteq> [] then io_return ip
          else io_bind (ask env (Some (domain @ ''.'', TypeA))) (\<lambda>ans.
            let ip = pickFirstARecord ans in
            if ip = [] then io_fail (ErrorNew ''record not found'') else io_return ip)
      | DNSModeUnknown \<Rightarrow> io_return [])"

definition cache_add :: "dns_env \<Rightarrow> string \<Rightarrow> string \<Rightarrow> (dns_world, unit) io" where
  "cache_add env k v w = (Ok (), if cacheOn env then w\<lparr>dnsAdds := dnsAdds w @ [(k, v)]\<rparr> else w)"

definition doDNSResolve :: "dns_env \<Rightarrow> string \<Rightarrow> DNSMode \<Rightarrow> (dns_world, string) io" where
  "doDNSResolve env domain dnsMode =
     io_bind (ask env (first_question domain dnsMode)) (\<lambda>ans.
     io_bind (choose_answer env domain dnsMode ans) (\<lambda>ip.
     let ipStr = IPString env ip in
     io_bind (cache_add env (dnsCacheKey domain dnsMode) ipStr) (\<lambda>_.
     io_return ipStr)))"

text \<open>The address and whether it came from the cache.\<close>

definition dnsResolve :: "dns_env \<Rightarrow> string \<Rightarrow> DNSMode \<Rightarrow> (dns_world, string \<times> bool) io" where
  "dnsResolve env domain dnsMode w =
     (let key = dnsCacheKey domain dnsMode in
      case (if cacheOn env then cacheGet env (dnsAdds w) key else None) of
        Some ip \<Rightarrow> (Ok (ip, True), w)
      | None \<Rightarrow> io_bind (doDNSResolve env domain dnsMode) (\<lambda>ip. io_return (ip, False)) w)"

section \<open>The cache key\<close>

lemma DNSMode_String_no_nul: "CHR 0x00 \<notin> set (DNSMode_String m)"
  by (cases m) simp_all

lemma append_Cons_eq_cancel:
  "c \<notin> set xs \<Longrightarrow> c \<notin> set ys \<Longrightarrow> xs @ c # as = ys @ c # bs \<longleftrightarrow> xs = ys \<and> as = bs"
proof (induction xs arbitrary: ys)
  case Nil
  then show ?case by (cases ys) auto
next
  case (Cons x xs)
  then show ?case by (cases ys) auto
qed

lemma dnsCacheKey_inject [simp]: "dnsCacheKey d m = dnsCacheKey d' m' \<longleftrightarrow> d = d' \<and> m = m'"
  unfolding dnsCacheKey_def
  by (subst append_Cons_eq_cancel [OF DNSMode_String_no_nul DNSMode_String_no_nul]) auto

section \<open>What a resolution returns\<close>

lemma pickFirstARecord_in [simp]: "pickFirstARecord ans \<noteq> [] \<Longrightarrow> RR_A (pickFirstARecord ans) \<in> set ans"
  by (induction ans rule: pickFirstARecord.induct) auto

lemma pickFirstAAAARecord_in [simp]: "pickFirstAAAARecord ans \<noteq> [] \<Longrightarrow> RR_AAAA (pickFirstAAAARecord ans) \<in> set ans"
  by (induction ans rule: pickFirstAAAARecord.induct) auto

text \<open>An answer set the exchange gave for a question asked in the log.\<close>

definition answered :: "dns_env \<Rightarrow> dns_world \<Rightarrow> question \<Rightarrow> rr list \<Rightarrow> bool" where
  "answered env w q ans \<longleftrightarrow> (\<exists>r. exchange env w q = Inr r \<and> Rcode r = 0 \<and> Answer r = ans)"

lemma ask_Ok:
  "ask env q w = (Ok ans, w') \<Longrightarrow> answered env w q ans \<and> w' = w\<lparr>queries := queries w @ [q]\<rparr>"
  by (auto simp: ask_def dnsExchange_def answered_def Let_def split: sum.splits if_splits)

lemma cache_add_Ok: "cache_add env k v w = (r, w') \<Longrightarrow>
  r = Ok () \<and> w' = (if cacheOn env then w\<lparr>dnsAdds := dnsAdds w @ [(k, v)]\<rparr> else w)"
  by (auto simp: cache_add_def)

text \<open>The kind of record a mode wants, and the kind it falls back to.\<close>

definition wanted :: "DNSMode \<Rightarrow> bytes \<Rightarrow> rr" where
  "wanted m = (if m = DNSModePreferIPv4 \<or> m = DNSModeIPv4Only then RR_A else RR_AAAA)"

definition fallback :: "DNSMode \<Rightarrow> (qtype \<times> (bytes \<Rightarrow> rr)) option" where
  "fallback m = (if m = DNSModePreferIPv4 then Some (TypeAAAA, RR_AAAA)
     else if m = DNSModePreferIPv6 then Some (TypeA, RR_A) else None)"

definition no_wanted :: "DNSMode \<Rightarrow> rr list \<Rightarrow> bool" where
  "no_wanted m ans \<longleftrightarrow> (if m = DNSModePreferIPv4 \<or> m = DNSModeIPv4Only then pickFirstARecord ans = []
     else pickFirstAAAARecord ans = [])"

text \<open>
  A resolution returns an address of the kind the mode asks for. It prints an address of the wanted
  kind found in the answer to the first query; only a \<^verbatim>\<open>prefer\<close> mode, and only when that answer
  has no such address, makes one more query and returns an address of the other kind from
  its answer.
\<close>

theorem doDNSResolve_mode:
  assumes "doDNSResolve env domain m w = (Ok s, w')" and "m \<noteq> DNSModeUnknown"
  shows "\<exists>ip ans. s = IPString env ip \<and> ip \<noteq> [] \<and> answered env w (first_question domain m) ans \<and>
    (wanted m ip \<in> set ans \<and> queries w' = queries w @ [first_question domain m] \<or>
     no_wanted m ans \<and> (\<exists>qt kind ans'. fallback m = Some (qt, kind) \<and> kind ip \<in> set ans' \<and>
       answered env (w\<lparr>queries := queries w @ [first_question domain m]\<rparr>) (Some (domain @ ''.'', qt)) ans' \<and>
       queries w' = queries w @ [first_question domain m, Some (domain @ ''.'', qt)]))"
proof -
  let ?q = "first_question domain m" and ?w1 = "w\<lparr>queries := queries w @ [first_question domain m]\<rparr>"
  from assms(1) obtain ans ip w2 where a: "answered env w ?q ans"
    and ip: "choose_answer env domain m ans ?w1 = (Ok ip, w2)"
    and s: "s = IPString env ip" "queries w' = queries w2"
    by (auto simp: doDNSResolve_def Let_def dest!: ask_Ok cache_add_Ok split: if_splits)
  have "wanted m ip \<in> set ans \<and> ip \<noteq> [] \<and> w2 = ?w1 \<or>
    no_wanted m ans \<and> ip \<noteq> [] \<and> (\<exists>ans' qt kind. answered env ?w1 (Some (domain @ ''.'', qt)) ans' \<and>
      fallback m = Some (qt, kind) \<and> kind ip \<in> set ans' \<and>
      w2 = ?w1\<lparr>queries := queries ?w1 @ [Some (domain @ ''.'', qt)]\<rparr>)"
    using ip assms(2)
    by (cases m)
      (auto simp: choose_answer_def wanted_def fallback_def no_wanted_def Let_def
        dest!: ask_Ok split: if_splits intro: pickFirstARecord_in pickFirstAAAARecord_in)
  then show ?thesis
  proof (elim disjE conjE exE)
    assume "wanted m ip \<in> set ans" "ip \<noteq> []" "w2 = ?w1"
    with a s show ?thesis by (intro exI [of _ ip] exI [of _ ans]) simp
  next
    fix ans' qt kind
    assume "no_wanted m ans" "ip \<noteq> []" "answered env ?w1 (Some (domain @ ''.'', qt)) ans'"
      "fallback m = Some (qt, kind)" "kind ip \<in> set ans'"
      "w2 = ?w1\<lparr>queries := queries ?w1 @ [Some (domain @ ''.'', qt)]\<rparr>"
    with a s show ?thesis by (intro exI [of _ ip] exI [of _ ans]) auto
  qed
qed

lemma doDNSResolve_adds:
  "doDNSResolve env domain m w = (Ok s, w') \<Longrightarrow>
   dnsAdds w' = dnsAdds w @ (if cacheOn env then [(dnsCacheKey domain m, s)] else [])"
  by (cases m) (auto simp: doDNSResolve_def choose_answer_def Let_def dest!: ask_Ok cache_add_Ok split: if_splits)

text \<open>
  The cache answers for exactly the name and mode it was filled for. With a cache that returns what
  was last added under a key (until it expires), resolving the same name in the same mode again
  returns the same address, marked as cached, without a query; the entries of every other name
  and mode are untouched.
\<close>

theorem dnsResolve_cached:
  assumes "dnsResolve env domain m w = (Ok (ip, False), w')" and "cacheOn env"
    and "\<forall>adds k v k'. cacheGet env (adds @ [(k, v)]) k' = (if k' = k then Some v else cacheGet env adds k')"
  shows "dnsResolve env domain m w' = (Ok (ip, True), w') \<and>
    (\<forall>domain' m'. (domain', m') \<noteq> (domain, m) \<longrightarrow>
       cacheGet env (dnsAdds w') (dnsCacheKey domain' m') = cacheGet env (dnsAdds w) (dnsCacheKey domain' m'))"
proof -
  have "doDNSResolve env domain m w = (Ok ip, w')"
    using assms(1) by (auto simp: dnsResolve_def Let_def split: option.splits if_splits)
  from doDNSResolve_adds [OF this] assms(2) have "dnsAdds w' = dnsAdds w @ [(dnsCacheKey domain m, ip)]" by simp
  then show ?thesis using assms(2,3) by (auto simp: dnsResolve_def)
qed

section \<open>A concrete resolver\<close>

definition dns_example :: dns_env where
  "dns_example = \<lparr>exchange = (\<lambda>w q. if q = Some (''a.io.'', TypeAAAA)
       then Inr \<lparr>Rcode = 0, Answer = [RR_Other, RR_AAAA [1]]\<rparr> else Inr \<lparr>Rcode = 0, Answer = []\<rparr>),
     cacheOn = True, cacheGet = (\<lambda>adds. map_of (rev adds)), IPString = (\<lambda>b. ''ip''), RcodeString = (\<lambda>_. [])\<rparr>"

definition dns_start :: dns_world where "dns_start = \<lparr>queries = [], dnsAdds = []\<rparr>"

lemma dns_example_resolves:
  "\<exists>w'. doDNSResolve dns_example ''a.io'' DNSModePreferIPv4 dns_start = (Ok ''ip'', w') \<and>
     dnsResolve dns_example ''a.io'' DNSModePreferIPv4 dns_start = (Ok (''ip'', False), w')"
  by (simp add: dnsResolve_def doDNSResolve_def ask_def dnsExchange_def choose_answer_def first_question_def
      dns_example_def dns_start_def cache_add_def io_bind_def io_wrap_def io_return_def Let_def)

theorem doDNSResolve_mode_witness:
  "\<exists>w' ans'. doDNSResolve dns_example ''a.io'' DNSModePreferIPv4 dns_start = (Ok ''ip'', w') \<and>
     (\<exists>ip. ip \<noteq> [] \<and> (RR_A ip \<in> set ans' \<or> RR_AAAA ip \<in> set ans'))"
proof -
  obtain w' where run: "doDNSResolve dns_example ''a.io'' DNSModePreferIPv4 dns_start = (Ok ''ip'', w')"
    using dns_example_resolves by blast
  from doDNSResolve_mode [OF run] obtain ip ans' where "ip \<noteq> []" "RR_A ip \<in> set ans' \<or> RR_AAAA ip \<in> set ans'"
    by (auto simp: wanted_def fallback_def)
  with run show ?thesis by blast
qed

theorem dnsResolve_cached_witness:
  "\<exists>w'. dnsResolve dns_example ''a.io'' DNSModePreferIPv4 dns_start = (Ok (''ip'', False), w') \<and>
     dnsResolve dns_example ''a.io'' DNSModePreferIPv4 w' = (Ok (''ip'', True), w')"
proof -
  obtain w' where run: "dnsResolve dns_example ''a.io'' DNSModePreferIPv4 dns_start = (Ok (''ip'', False), w')"
    using dns_example_resolves by blast
  have "cacheOn dns_example"
    "\<forall>adds k v k'. cacheGet dns_example (adds @ [(k, v)]) k' = (if k' = k then Some v else cacheGet dns_example adds k')"
    by (simp_all add: dns_example_def)
  from dnsResolve_cached [OF run this] run show ?thesis by blast
qed

end
