(* ===== verification/GenPolicy.thy ===== *)
theory GenPolicy
  imports IPPool Dns
begin

text \<open>
  The policy decision, \<^verbatim>\<open>genPolicy\<close>, \<^verbatim>\<open>resolveDoHPolicyHost\<close> and \<^verbatim>\<open>genDoHDialFunc\<close> of
  \<^verbatim>\<open>internal/policy.go\<close>: for a requested host, the address to dial and the policy to apply,
  through the domain rules, the hosts table, the resolver, the address pools and the address
  rules. The state is the resolver's and the pools' (and the DNS records of the mobile side).
  Shown here: which policies are merged in which order of precedence, when a request counts as
  blocked, and that no path panics while the pools satisfy their invariant.
\<close>

section \<open>World and environment\<close>

record world =
  wDns :: dns_world
  wPools :: pools
  wRecords :: "(string \<times> string \<times> int) list"
  wNow :: int

record penv =
  eLib :: netlib
  eParseIP :: "string \<Rightarrow> addr option"
  eMatch :: matchers
  eDns :: dns_env
  eDefault :: Policy

text \<open>A computation on the resolver's state, and \<^verbatim>\<open>getFromIPPool\<close> on the pools.\<close>

definition on_dns :: "(dns_world, 'a) io \<Rightarrow> (world, 'a) io" where
  "on_dns m w = (case m (wDns w) of (r, d) \<Rightarrow> (r, w\<lparr>wDns := d\<rparr>))"

definition resolve :: "penv \<Rightarrow> string \<Rightarrow> DNSMode \<Rightarrow> (world, string) io" where
  "resolve env domain m = io_bind (on_dns (dnsResolve (eDns env) domain m)) (\<lambda>(ip, cached). io_return ip)"

definition pool_get :: "string \<Rightarrow> (world, string) io" where
  "pool_get tag w = (case getFromIPPool (wPools w) tag of
       None \<Rightarrow> (Panic, w)
     | Some (Inl e, ps) \<Rightarrow> (Fail e, w\<lparr>wPools := ps\<rparr>)
     | Some (Inr ip, ps) \<Rightarrow> (Ok ip, w\<lparr>wPools := ps\<rparr>))"

definition redirect :: "penv \<Rightarrow> string \<Rightarrow> (world, string \<times> Policy option) io" where
  "redirect env ip = ipRedirect (eLib env) (eMatch env) pool_get ip"

section \<open>The decision\<close>

datatype gen = GenOk string Policy | GenFailed | GenBlocked | GenNotFound

text \<open>\<open>x, err := m; if err != nil { return failed }\<close>.\<close>

definition or_failed :: "(world, 'a) io \<Rightarrow> ('a \<Rightarrow> (world, gen) io) \<Rightarrow> (world, gen) io" where
  "or_failed m k = io_bind (io_try m) (\<lambda>r. case r of Inl _ \<Rightarrow> io_return GenFailed | Inr x \<Rightarrow> k x)"

definition with_default :: "penv \<Rightarrow> Policy option \<Rightarrow> Policy" where
  "with_default env q = (case q of None \<Rightarrow> eDefault env | Some p \<Rightarrow> mergePolicies [p, eDefault env])"

definition genIPPolicy :: "penv \<Rightarrow> string \<Rightarrow> (world, gen) io" where
  "genIPPolicy env originHost =
     or_failed (redirect env originHost) (\<lambda>(dstHost, ipPolicy).
       let p = with_default env ipPolicy in
       if Mode_of p = ModeBlock then io_return GenBlocked else io_return (GenOk dstHost p))"

text \<open>Lines 732 to 768: the host the rules select.\<close>

definition selectedTarget :: "penv \<Rightarrow> string \<Rightarrow> Policy \<Rightarrow> string \<Rightarrow> (world, string) io" where
  "selectedTarget env originHost p selectedHost =
     (if selectedHost = ''self'' then io_return originHost
      else if HasPrefix selectedHost ipPoolTagPrefix then pool_get (drop 1 selectedHost)
      else if HasPrefix selectedHost resolvePrefix then resolve env (drop 1 selectedHost) (DNSMode_of p)
      else io_return selectedHost)"

text \<open>Lines 770 to 790: the address rules.\<close>

definition applyRedirect ::
  "penv \<Rightarrow> Policy option \<Rightarrow> Policy \<Rightarrow> bool \<Rightarrow> string \<Rightarrow> (world, gen) io" where
  "applyRedirect env domainPolicy p noRedirect dstHost =
     (if noRedirect then io_return (GenOk dstHost p)
      else or_failed (redirect env dstHost) (\<lambda>(dstHost, ipPolicy).
        case ipPolicy of
          None \<Rightarrow> io_return (GenOk dstHost p)
        | Some q \<Rightarrow>
            let p = (case domainPolicy of
                Some d \<Rightarrow> mergePolicies [d, q, eDefault env]
              | None \<Rightarrow> mergePolicies [q, eDefault env]) in
            if Mode_of p = ModeBlock then io_return GenBlocked else io_return (GenOk dstHost p)))"

definition genDomainPolicy :: "penv \<Rightarrow> string \<Rightarrow> bool \<Rightarrow> (world, gen) io" where
  "genDomainPolicy env originHost returnWhenDomainNotFound =
     (let domainPolicy = findDomain (eMatch env) originHost in
      if (case domainPolicy of Some d \<Rightarrow> Mode_of d = ModeBlock | None \<Rightarrow> False) then io_return GenBlocked
      else
        let p = with_default env domainPolicy;
            noRedirect = HasPrefix (Host p) noRedirectPrefix;
            policyHost = (if noRedirect then drop 1 (Host p) else Host p);
            finish = (\<lambda>noRedirect selectedHost dstHost.
              or_failed (if dstHost = [] then selectedTarget env originHost p selectedHost else io_return dstHost)
                (applyRedirect env domainPolicy p noRedirect)) in
        if policyHost = [] \<or> policyHost = unsetString then
          let selectedHost = (case findHosts (eMatch env) originHost of None \<Rightarrow> [] | Some h \<Rightarrow> h) in
          if selectedHost = [] \<or> selectedHost = unsetString then
            (if returnWhenDomainNotFound then io_return GenNotFound
             else or_failed (resolve env originHost (DNSMode_of p)) (finish noRedirect selectedHost))
          else
            let noRedirect = HasPrefix selectedHost noRedirectPrefix;
                selectedHost = (if noRedirect then drop 1 selectedHost else selectedHost)
            in finish noRedirect selectedHost []
        else finish noRedirect policyHost [])"

definition genPolicy :: "penv \<Rightarrow> string \<Rightarrow> bool \<Rightarrow> bool \<Rightarrow> (world, gen) io" where
  "genPolicy env originHost isIP returnWhenDomainNotFound =
     (if isIP \<or> eParseIP env originHost \<noteq> None then genIPPolicy env originHost
      else genDomainPolicy env originHost returnWhenDomainNotFound)"

section \<open>The DoH server's own policy\<close>

definition resolveDoHPolicyHost :: "matchers \<Rightarrow> string \<Rightarrow> Policy \<Rightarrow> (world, string) io" where
  "resolveDoHPolicyHost m host policy =
     (let policyHost = (if HasPrefix (Host policy) noRedirectPrefix then drop 1 (Host policy) else Host policy);
          selectedHost =
            (if policyHost = [] \<or> policyHost = unsetString then
               (case findHosts m host of
                  None \<Rightarrow> []
                | Some h \<Rightarrow> if HasPrefix h noRedirectPrefix then drop 1 h else h)
             else policyHost)
      in if selectedHost = [] \<or> selectedHost = unsetString \<or> selectedHost = ''self'' then io_return host
         else if HasPrefix selectedHost ipPoolTagPrefix then pool_get (drop 1 selectedHost)
         else if HasPrefix selectedHost resolvePrefix then io_return host
         else io_return selectedHost)"

text \<open>
  \<^verbatim>\<open>genDoHDialFunc\<close>: the address the DoH connections are dialled to and their policy. The
  parsed URL's host and port and \<^verbatim>\<open>net.JoinHostPort\<close> are arguments.
\<close>

definition genDoHDialFunc ::
  "penv \<Rightarrow> (string \<Rightarrow> string \<Rightarrow> string) \<Rightarrow> (go_error + string \<times> string) \<Rightarrow> (world, string \<times> Policy) io" where
  "genDoHDialFunc env JoinHostPort parsedURL =
     io_bind (io_wrap ''invalid DoH URL'' (io_sum parsedURL)) (\<lambda>(host, port).
     io_bind
       (if eParseIP env host \<noteq> None then
          io_bind (io_wrap ''ip redirect'' (redirect env host)) (\<lambda>(h, q). io_return (h, with_default env q))
        else
          let p = with_default env (findDomain (eMatch env) host) in
          io_bind (resolveDoHPolicyHost (eMatch env) host p) (\<lambda>h. io_return (h, p))) (\<lambda>(host, p).
     if Mode_of p = ModeBlock \<or> Mode_of p = ModeTLSAlert then
       io_fail (ErrorNew ''the mode of the DoH cannot be `block`'')
     else
       let port = (if port = [] then ''443'' else port);
           port = (if Port p \<noteq> unsetInt then Itoa (Port p) else port)
       in io_return (JoinHostPort host port, p)))"

section \<open>No panic\<close>

definition pools_ok :: "pools \<Rightarrow> bool" where
  "pools_ok ps \<longleftrightarrow> (\<forall>tag p. map_of ps tag = Some p \<longrightarrow> pool_ok p)"

definition world_ok :: "world \<Rightarrow> bool" where
  "world_ok w \<longleftrightarrow> pools_ok (wPools w)"

lemma Get_ok: "pool_ok p \<Longrightarrow> \<exists>ip p'. Get p = Some (ip, p') \<and> pool_ok p' \<and> (ip = [] \<longleftrightarrow> curValidIPs p = 0)"
proof (cases "curValidIPs p = 0")
  case True
  then show "pool_ok p \<Longrightarrow> ?thesis" by (simp add: Get_def)
next
  case False
  assume ok: "pool_ok p"
  with Get_valid [OF ok] False have g: "get_pos p < curValidIPs p"
    "Get p = Some (ips p ! (bestIndexes p ! get_pos p), p\<lparr>counter := counter p + 1\<rparr>)" by auto
  moreover from g ok have "ips p ! (bestIndexes p ! get_pos p) \<noteq> []" by (auto simp: pool_ok_def)
  moreover have "pool_ok (p\<lparr>counter := counter p + 1\<rparr>)" using ok by (simp add: pool_ok_def)
  ultimately show ?thesis using False by auto
qed

lemma getFromIPPool_ok:
  assumes "pools_ok ps"
  obtains r ps' where "getFromIPPool ps tag = Some (r, ps')" and "pools_ok ps'" and "r \<noteq> Inr []"
proof (cases "map_of ps tag")
  case None
  with assms show ?thesis by (cases "ps = []") (auto simp: getFromIPPool_def intro: that)
next
  case (Some p)
  then have ne: "ps \<noteq> []" by auto
  from Some assms have "pool_ok p" by (auto simp: pools_ok_def)
  from Get_ok [OF this] obtain ip p' where g: "Get p = Some (ip, p')" "pool_ok p'" by blast
  have "pools_ok (AList.update tag p' ps)" using assms g(2) by (auto simp: pools_ok_def update_conv' split: if_splits)
  with ne g Some show ?thesis by (intro that) (auto simp: getFromIPPool_def split: if_splits)
qed

lemma returns_pool_get [returns_intros]: "returns world_ok False (pool_get tag)"
  unfolding returns_def world_ok_def
proof (intro allI impI)
  fix w :: world assume "pools_ok (wPools w)"
  then obtain r ps' where "getFromIPPool (wPools w) tag = Some (r, ps')" "pools_ok ps'"
    by (rule getFromIPPool_ok)
  then show "fst (pool_get tag w) \<noteq> Panic \<and> (False \<longrightarrow> (\<forall>e. fst (pool_get tag w) \<noteq> Fail e)) \<and>
      pools_ok (wPools (snd (pool_get tag w)))"
    by (cases r) (simp_all add: pool_get_def)
qed

lemma returns_sum [returns_intros]: "returns I False (io_sum r)"
  by (cases r) (auto intro: returns_intros)

lemma returns_redirect [returns_intros]: "returns world_ok False (redirect env ip)"
  unfolding redirect_def ipRedirect_def
  by (auto split: option.split intro!: returns_intros)

lemma returns_ask: "returns (\<lambda>_. True) False (ask env q)"
  by (auto simp: returns_def ask_def dnsExchange_def io_bind_def io_wrap_def io_fail_def io_return_def Let_def
      split: sum.splits)

lemma returns_choose: "returns (\<lambda>_. True) False (choose_answer env domain m ans)"
  unfolding choose_answer_def Let_def
  by (cases m) (auto intro!: returns_intros returns_ask)

lemma returns_doDNSResolve: "returns (\<lambda>_. True) False (doDNSResolve env domain m)"
  unfolding doDNSResolve_def Let_def
  by (intro returns_intros returns_ask returns_choose) (simp_all add: returns_def cache_add_def)

lemma returns_resolve [returns_intros]: "returns world_ok False (resolve env domain m)"
proof -
  have "returns (\<lambda>_. True) False (io_bind (doDNSResolve (eDns env) domain m) (\<lambda>ip. io_return (ip, False)))"
    by (intro returns_intros returns_doDNSResolve)
  then have "fst (dnsResolve (eDns env) domain m w) \<noteq> Panic" for w
    by (simp add: dnsResolve_def returns_def Let_def split: option.split)
  then have "returns world_ok False (on_dns (dnsResolve (eDns env) domain m))"
    by (auto simp: returns_def on_dns_def world_ok_def split: prod.split) (metis fst_conv)
  then show ?thesis unfolding resolve_def by (auto intro!: returns_intros split: prod.split)
qed

lemma returns_or_failed:
  "returns world_ok False m \<Longrightarrow> (\<And>x. returns world_ok False (k x)) \<Longrightarrow> returns world_ok False (or_failed m k)"
  unfolding or_failed_def by (intro returns_intros returns_try) (auto split: sum.split intro: returns_intros)

lemma returns_applyRedirect: "returns world_ok False (applyRedirect env d p nr dst)"
  unfolding applyRedirect_def Let_def
  by (intro returns_intros returns_or_failed) (auto split: prod.split option.split intro!: returns_intros)

lemma returns_genPolicy: "returns world_ok False (genPolicy env host isIP nf)"
  unfolding genPolicy_def genIPPolicy_def genDomainPolicy_def selectedTarget_def Let_def
  by (intro returns_intros returns_or_failed returns_applyRedirect)
    (auto split: prod.split intro!: returns_intros)

section \<open>Precedence\<close>

text \<open>The policies that apply, most specific first, merged over the default.\<close>

definition combine :: "Policy option \<Rightarrow> Policy option \<Rightarrow> Policy \<Rightarrow> Policy" where
  "combine domainPolicy ipPolicy dflt =
     (case (domainPolicy, ipPolicy) of
        (None, None) \<Rightarrow> dflt
      | (Some d, None) \<Rightarrow> mergePolicies [d, dflt]
      | (None, Some q) \<Rightarrow> mergePolicies [q, dflt]
      | (Some d, Some q) \<Rightarrow> mergePolicies [d, q, dflt])"

lemma or_failed_GenOk [simp]:
  "or_failed m k w = (Ok (GenOk d p), w') \<longleftrightarrow> (\<exists>x w1. m w = (Ok x, w1) \<and> k x w1 = (Ok (GenOk d p), w'))"
  by (auto simp: or_failed_def io_try_def split: outcome.splits prod.splits)

lemma redirect_result: "redirect env ip w = (Ok (dst, q), w') \<Longrightarrow> q = getIPPolicy (eMatch env) dst"
  unfolding redirect_def by (rule ipRedirect_result)

lemma applyRedirect_GenOk:
  assumes "applyRedirect env d (with_default env d) nr host w = (Ok (GenOk dst p), w')"
  shows "\<exists>q. (q = None \<or> q = getIPPolicy (eMatch env) dst) \<and> p = combine d q (eDefault env) \<and>
    (q \<noteq> None \<longrightarrow> Mode_of p \<noteq> ModeBlock)"
proof (cases nr)
  case True
  with assms show ?thesis
    by (auto simp: applyRedirect_def combine_def with_default_def intro!: exI [of _ None] split: option.splits)
next
  case False
  with assms obtain dst' q w1 where r: "redirect env host w = (Ok (dst', q), w1)"
    and k: "(case q of None \<Rightarrow> io_return (GenOk dst' (with_default env d))
        | Some q \<Rightarrow> let p = (case d of Some d \<Rightarrow> mergePolicies [d, q, eDefault env]
              | None \<Rightarrow> mergePolicies [q, eDefault env]) in
            if Mode_of p = ModeBlock then io_return GenBlocked else io_return (GenOk dst' p)) w1 = (Ok (GenOk dst p), w')"
    by (auto simp: applyRedirect_def)
  show ?thesis
  proof (cases q)
    case None
    with k show ?thesis by (auto simp: combine_def with_default_def intro!: exI [of _ None] split: option.splits)
  next
    case (Some q')
    with k have "dst = dst'" "p = combine d q (eDefault env)" "Mode_of p \<noteq> ModeBlock"
      by (auto simp: combine_def Let_def split: if_splits option.splits)
    with redirect_result [OF r] show ?thesis by blast
  qed
qed

lemma with_default_combine: "with_default env d = combine d None (eDefault env)"
  by (simp add: with_default_def combine_def split: option.split)


text \<open>
  C16: the decision never panics and keeps the pools' invariant, whatever the tables, the resolver and
  the request, for domains and addresses alike.
\<close>

theorem genPolicy_safe:
  assumes "world_ok w"
  shows "fst (genPolicy env host isIP notFound w) \<noteq> Panic \<and> world_ok (snd (genPolicy env host isIP notFound w))"
  using returns_genPolicy [of env host isIP notFound] assms by (simp add: returns_def)

text \<open>
  A default policy whose mode is \<^verbatim>\<open>block\<close> does not block a domain request. With no rule for the
  domain and no rule for the address, the request is let through with a policy whose mode is
  \<^verbatim>\<open>block\<close> (for a request by address the same configuration counts as blocked).
\<close>

theorem genPolicy_default_block_passes:
  assumes "Mode_of (eDefault env) = ModeBlock" and "Host (eDefault env) = unsetString"
    and "eParseIP env host = None" and "findDomain (eMatch env) host = None" and "findHosts (eMatch env) host = None"
    and "resolve env host (DNSMode_of (eDefault env)) w = (Ok ip, w')" and "ip \<noteq> []"
    and "getIPPolicy (eMatch env) ip = None"
  shows "genPolicy env host False False w = (Ok (GenOk ip (eDefault env)), w') \<and>
    genPolicy env ip True False w = (Ok GenBlocked, w)"
  using assms
  by (simp add: genPolicy_def genDomainPolicy_def genIPPolicy_def Let_def with_default_def HasPrefix_def
      prefix_consts unsetString_def or_failed_def io_try_def applyRedirect_def redirect_def ipRedirect_def
      io_bind_def io_return_def)

section \<open>A concrete environment\<close>

definition block_env :: penv where
  "block_env = \<lparr>eLib = lib_example, eParseIP = (\<lambda>_. None), eMatch = matchers_example, eDns = dns_example,
     eDefault = normalizePolicyDefaults (zero_policy\<lparr>Mode_of := ModeBlock\<rparr>)\<rparr>"

definition world_start :: world where
  "world_start = \<lparr>wDns = dns_start, wPools = [(''p'', pool_example)], wRecords = [], wNow = 0\<rparr>"

lemma block_env_resolves:
  "\<exists>w'. resolve block_env ''a.io'' (DNSMode_of (eDefault block_env)) world_start = (Ok ''ip'', w')"
proof -
  have m: "DNSMode_of (eDefault block_env) = DNSModePreferIPv4" "eDns block_env = dns_example"
    by (simp_all add: block_env_def zero_policy_def DNSModeDefault_def)
  obtain d where "dnsResolve dns_example ''a.io'' DNSModePreferIPv4 dns_start = (Ok (''ip'', False), d)"
    using dns_example_resolves by blast
  then show ?thesis unfolding m resolve_def by (simp add: on_dns_def world_start_def m)
qed

lemma block_env_facts:
  "Mode_of (eDefault block_env) = ModeBlock" "Host (eDefault block_env) = unsetString"
  "eParseIP block_env s = None" "findDomain (eMatch block_env) s = None" "findHosts (eMatch block_env) s = None"
  "getIPPolicy (eMatch block_env) ''ip'' = None"
  by (simp_all add: block_env_def zero_policy_def matchers_example_def getIPPolicy_def isIPv6_def Contains_char_def)

theorem genPolicy_default_block_passes_witness:
  "\<exists>w'. genPolicy block_env ''a.io'' False False world_start = (Ok (GenOk ''ip'' (eDefault block_env)), w')"
proof -
  obtain w' where r: "resolve block_env ''a.io'' (DNSMode_of (eDefault block_env)) world_start = (Ok ''ip'', w')"
    using block_env_resolves by blast
  show ?thesis
    using genPolicy_default_block_passes [OF block_env_facts(1-5) r _ block_env_facts(6)] by blast
qed

lemma genPolicy_block_env:
  "\<exists>w'. genPolicy block_env ''a.io'' False False world_start = (Ok (GenOk ''ip'' (eDefault block_env)), w')"
proof -
  obtain w' where "resolve block_env ''a.io'' (DNSMode_of (eDefault block_env)) world_start = (Ok ''ip'', w')"
    using block_env_resolves by blast
  then show ?thesis
    using block_env_facts
    by (simp add: genPolicy_def genDomainPolicy_def Let_def with_default_def HasPrefix_def
        prefix_consts unsetString_def or_failed_def io_try_def applyRedirect_def redirect_def ipRedirect_def
        io_bind_def io_return_def)
qed


theorem genPolicy_safe_witness:
  "fst (genPolicy block_env ''a.io'' False False world_start) \<noteq> Panic"
proof -
  have "world_ok world_start" using pool_example_ok by (auto simp: world_ok_def pools_ok_def world_start_def split: if_splits)
  from genPolicy_safe [OF this] show ?thesis by blast
qed

end
