(* ===== verification/MobileDns.thy ===== *)
theory MobileDns
  imports GenPolicy
begin

text \<open>
  The resolver of the Android tunnel and the dial plan, \<^verbatim>\<open>internal/dns_mobile.go\<close> and
  \<^verbatim>\<open>internal/dial_plan.go\<close>. The tunnel's DNS server answers for domains that have a rule and
  remembers which domain it gave an address for; when a connection to that address arrives,
  the plan recovers the domain and applies its policy. Shown here: the record table returns
  what was remembered exactly until it expires, an answer has the type that was asked, and
  the two sides fit: a connection to an answered address is planned for the answered domain.
\<close>

section \<open>The record table\<close>

definition vpnDNSIPv4Addr :: string where "vpnDNSIPv4Addr = ''172.19.0.2''"
definition mobileDNSAnswerTTL :: int where "mobileDNSAnswerTTL = 60"

definition IsVPNDNSAddress :: "string \<Rightarrow> int \<Rightarrow> bool" where
  "IsVPNDNSAddress host port \<longleftrightarrow> host = vpnDNSIPv4Addr \<and> port = 53"

text \<open>A record is the domain and its expiry; the clock is in nanoseconds.\<close>

definition clampTTL :: "int \<Rightarrow> int" where
  "clampTTL ttl = (let t = (if ttl = 0 then mobileDNSAnswerTTL else ttl) in if t > 3600 then 3600 else t)"

definition rememberMobileDNSMapping :: "penv \<Rightarrow> string \<Rightarrow> string \<Rightarrow> int \<Rightarrow> world \<Rightarrow> world" where
  "rememberMobileDNSMapping env ip domain ttl w =
     (case eParseIP env ip of
        None \<Rightarrow> w
      | Some parsed \<Rightarrow>
          if domain = [] then w
          else w\<lparr>wRecords := AList.update (AddrString (eLib env) parsed)
                   (domain, wNow w + clampTTL ttl * 1000000000) (wRecords w)\<rparr>)"

definition lookupMobileDNSMapping :: "penv \<Rightarrow> string \<Rightarrow> world \<Rightarrow> string option \<times> world" where
  "lookupMobileDNSMapping env ip w =
     (case eParseIP env ip of
        None \<Rightarrow> (None, w)
      | Some parsed \<Rightarrow>
          let key = AddrString (eLib env) parsed in
          case map_of (wRecords w) key of
            None \<Rightarrow> (None, w)
          | Some (domain, expires) \<Rightarrow>
              if wNow w > expires then (None, w\<lparr>wRecords := AList.delete key (wRecords w)\<rparr>)
              else (Some domain, w))"

section \<open>Answering a query\<close>

datatype mqtype = QA | QAAAA | QHTTPS | QSVCB | QOther

record mquestion =
  qName :: string
  qType :: mqtype
  qClass :: int

record manswer =
  aName :: string
  aType :: mqtype
  aClass :: int
  aTTL :: int
  aAddr :: addr

record mreply =
  mRcode :: int
  mAnswers :: "manswer list"
  mRecursionAvailable :: bool

definition rcodeServerFailure :: int where "rcodeServerFailure = 2"
definition rcodeRefused :: int where "rcodeRefused = 5"

definition TrimSuffix_dot :: "string \<Rightarrow> string" where
  "TrimSuffix_dot s = (if s \<noteq> [] \<and> last s = CHR ''.'' then butlast s else s)"

definition mode_for :: "mqtype \<Rightarrow> DNSMode" where
  "mode_for qt = (if qt = QAAAA then DNSModeIPv6Only else DNSModeIPv4Only)"

text \<open>The address, if it has the family the question asks for.\<close>

definition pickFamily :: "mqtype \<Rightarrow> addr option \<Rightarrow> addr option" where
  "pickFamily qt ip =
     (case ip of
        None \<Rightarrow> None
      | Some a \<Rightarrow> if qt = QA then (if Is4 a then Some a else None) else (if \<not> Is4 a then Some a else None))"

definition resolveMobileDNSAnswerIP :: "penv \<Rightarrow> string \<Rightarrow> mqtype \<Rightarrow> Policy \<Rightarrow> (world, addr option) io" where
  "resolveMobileDNSAnswerIP env dstHost qt policy =
     (case eParseIP env dstHost of
        Some a \<Rightarrow> io_return (pickFamily qt (Some a))
      | None \<Rightarrow>
          if qt = QA \<and> DNSMode_of policy = DNSModeIPv6Only then io_return None
          else if qt = QAAAA \<and> DNSMode_of policy = DNSModeIPv4Only then io_return None
          else io_bind (resolve env dstHost (mode_for qt)) (\<lambda>resolved.
            io_return (pickFamily qt (eParseIP env resolved))))"

definition appendAddressAnswer :: "mreply \<Rightarrow> mquestion \<Rightarrow> addr \<Rightarrow> mreply" where
  "appendAddressAnswer resp q a =
     resp\<lparr>mAnswers := mAnswers resp @ [\<lparr>aName = qName q, aType = qType q, aClass = qClass q,
       aTTL = mobileDNSAnswerTTL, aAddr = a\<rparr>]\<rparr>"

definition io_modify :: "('w \<Rightarrow> 'w) \<Rightarrow> ('w, unit) io" where
  "io_modify f w = (Ok (), f w)"

text \<open>
  What is answered once the policy of the domain is known; \<^const>\<open>None\<close>: not handled here, the
  query goes to the upstream server.
\<close>

definition empty_reply :: mreply where
  "empty_reply = \<lparr>mRcode = 0, mAnswers = [], mRecursionAvailable = True\<rparr>"

definition answerAddress :: "penv \<Rightarrow> mquestion \<Rightarrow> string \<Rightarrow> go_error + addr option \<Rightarrow> (world, mreply option) io" where
  "answerAddress env q domain r =
     (case r of
        Inl _ \<Rightarrow> io_return (Some (empty_reply\<lparr>mRcode := rcodeServerFailure\<rparr>))
      | Inr None \<Rightarrow> io_return (Some empty_reply)
      | Inr (Some a) \<Rightarrow>
          io_bind (io_modify (rememberMobileDNSMapping env (AddrString (eLib env) a) domain mobileDNSAnswerTTL)) (\<lambda>_.
          io_return (Some (appendAddressAnswer empty_reply q a))))"

definition answerQuestion :: "penv \<Rightarrow> mquestion \<Rightarrow> string \<Rightarrow> gen \<Rightarrow> (world, mreply option) io" where
  "answerQuestion env q domain g =
     (case g of
        GenNotFound \<Rightarrow> io_return None
      | GenFailed \<Rightarrow> io_return (Some (empty_reply\<lparr>mRcode := rcodeServerFailure\<rparr>))
      | GenBlocked \<Rightarrow> io_return (Some (empty_reply\<lparr>mRcode := rcodeRefused\<rparr>))
      | GenOk dstHost policy \<Rightarrow>
          if Mode_of policy = ModeBlock then io_return (Some (empty_reply\<lparr>mRcode := rcodeRefused\<rparr>))
          else if qType q = QA \<or> qType q = QAAAA then
            io_bind (io_try (resolveMobileDNSAnswerIP env dstHost (qType q) policy)) (answerAddress env q domain)
          else if qType q = QHTTPS \<or> qType q = QSVCB then io_return (Some empty_reply)
          else io_return None)"

definition handleConfiguredMobileDNS :: "penv \<Rightarrow> mquestion list \<Rightarrow> (world, mreply option) io" where
  "handleConfiguredMobileDNS env questions =
     (case questions of
        [q] \<Rightarrow>
          let domain = TrimSuffix_dot (qName q) in
          if domain = [] then io_return None
          else io_bind (genPolicy env domain False True) (answerQuestion env q domain)
      | _ \<Rightarrow> io_return None)"

text \<open>\<^verbatim>\<open>HandleDNSQueryPacket\<close>: the message codec and the upstream exchange are arguments.\<close>

record mobile_codec =
  unpackReq :: "bytes \<Rightarrow> go_error + mquestion list"
  packReply :: "mreply \<Rightarrow> go_error + bytes"
  upstream :: "bytes \<Rightarrow> go_error + bytes"

definition HandleDNSQueryPacket :: "penv \<Rightarrow> mobile_codec \<Rightarrow> bytes \<Rightarrow> (world, bytes) io" where
  "HandleDNSQueryPacket env codec payload =
     io_bind (io_sum (unpackReq codec payload)) (\<lambda>questions.
     io_bind (handleConfiguredMobileDNS env questions) (\<lambda>handled.
     case handled of
       Some resp \<Rightarrow> io_sum (packReply codec resp)
     | None \<Rightarrow> io_sum (upstream codec payload)))"

section \<open>The dial plan\<close>

datatype RequestSource = RequestSourceUnknown | RequestSourceMobile | RequestSourceSOCKS5 | RequestSourceHTTP

record DialPlan =
  planSource :: RequestSource
  OriginHost :: string
  OriginPort :: int
  RecoveredDomain :: string
  MatchedDomain :: bool
  MatchedIP :: bool
  TargetHost :: string
  TargetPort :: int
  planPolicy :: Policy
  planBlocked :: bool

text \<open>\<^verbatim>\<open>net.JoinHostPort\<close>: a host with a colon goes into brackets.\<close>

definition JoinHostPort :: "string \<Rightarrow> string \<Rightarrow> string" where
  "JoinHostPort host port =
     (if CHR '':'' \<in> set host then ''['' @ host @ '']:'' @ port else host @ '':'' @ port)"

definition TargetAddress :: "DialPlan \<Rightarrow> string" where
  "TargetAddress p = (if TargetPort p \<le> 0 then TargetHost p else JoinHostPort (TargetHost p) (Itoa (TargetPort p)))"

definition OriginAddress :: "DialPlan \<Rightarrow> string" where
  "OriginAddress p = (if OriginPort p \<le> 0 then OriginHost p else JoinHostPort (OriginHost p) (Itoa (OriginPort p)))"

definition planOf :: "penv \<Rightarrow> RequestSource \<Rightarrow> string \<Rightarrow> int \<Rightarrow> bool \<Rightarrow> string option \<Rightarrow> gen \<Rightarrow> go_error + DialPlan" where
  "planOf env src host port isIP recovered g =
     (let mk = (\<lambda>dst policy blocked. \<lparr>planSource = src, OriginHost = host, OriginPort = port,
          RecoveredDomain = (case recovered of None \<Rightarrow> [] | Some d \<Rightarrow> d),
          MatchedDomain = (recovered \<noteq> None \<or> \<not> isIP), MatchedIP = isIP,
          TargetHost = dst, TargetPort = (if Port policy > 0 then Port policy else port),
          planPolicy = policy, planBlocked = blocked\<rparr>) in
      case g of
        GenFailed \<Rightarrow> Inl (ErrorNew ''failed to resolve dial plan'')
      | GenBlocked \<Rightarrow> Inr (mk [] (eDefault env) True)
      | GenNotFound \<Rightarrow> Inr (mk [] (eDefault env) False)
      | GenOk dst policy \<Rightarrow> Inr (mk dst policy False))"

definition PlanRequest :: "penv \<Rightarrow> RequestSource \<Rightarrow> string \<Rightarrow> int \<Rightarrow> (world, DialPlan) io" where
  "PlanRequest env src host port w =
     (if host = [] then (Fail (ErrorNew ''request host is empty''), w)
      else
        let isIP = (eParseIP env host \<noteq> None);
            (recovered, w1) = (if src = RequestSourceMobile \<and> isIP then lookupMobileDNSMapping env host w else (None, w));
            policyHost = (case recovered of None \<Rightarrow> host | Some d \<Rightarrow> d);
            policyIsIP = (isIP \<and> recovered = None)
        in io_bind (genPolicy env policyHost policyIsIP False) (\<lambda>g.
             io_sum (planOf env src host port isIP recovered g)) w1)"

section \<open>The table keeps what it is told, until it expires\<close>

lemma clampTTL_bounds: "0 \<le> ttl \<Longrightarrow> 1 \<le> clampTTL ttl \<and> clampTTL ttl \<le> 3600"
  by (simp add: clampTTL_def mobileDNSAnswerTTL_def Let_def)

lemma lookup_after_remember:
  assumes "eParseIP env ip = Some a" and "domain \<noteq> []"
    and "wRecords w2 = wRecords (rememberMobileDNSMapping env ip domain ttl w)"
  shows "lookupMobileDNSMapping env ip w2 =
    (if wNow w2 \<le> wNow w + clampTTL ttl * 1000000000 then (Some domain, w2)
     else (None, w2\<lparr>wRecords := AList.delete (AddrString (eLib env) a) (wRecords w2)\<rparr>))"
  using assms by (simp add: lookupMobileDNSMapping_def rememberMobileDNSMapping_def update_conv' Let_def)

text \<open>
  A remembered address maps to its domain exactly until the record expires. A lookup of the same
  address after the record was written gives the domain while at most the TTL (at least one
  second, at most one hour) has passed, and nothing afterwards; a lookup of an address that
  prints differently is not affected by the new record.
\<close>

theorem mobile_records_roundtrip:
  assumes "eParseIP env ip = Some a" and "domain \<noteq> []" and "w2 = (rememberMobileDNSMapping env ip domain ttl w)\<lparr>wNow := t\<rparr>"
  shows "fst (lookupMobileDNSMapping env ip w2) = (if t \<le> wNow w + clampTTL ttl * 1000000000 then Some domain else None) \<and>
    (\<forall>ip' b. eParseIP env ip' = Some b \<and> AddrString (eLib env) b \<noteq> AddrString (eLib env) a \<longrightarrow>
       fst (lookupMobileDNSMapping env ip' w2) = fst (lookupMobileDNSMapping env ip' (w\<lparr>wNow := t\<rparr>)))"
proof
  show "fst (lookupMobileDNSMapping env ip w2) = (if t \<le> wNow w + clampTTL ttl * 1000000000 then Some domain else None)"
    using lookup_after_remember [OF assms(1,2), of w2 ttl w] assms(3) by simp
  show "\<forall>ip' b. eParseIP env ip' = Some b \<and> AddrString (eLib env) b \<noteq> AddrString (eLib env) a \<longrightarrow>
       fst (lookupMobileDNSMapping env ip' w2) = fst (lookupMobileDNSMapping env ip' (w\<lparr>wNow := t\<rparr>))"
    using assms by (auto simp: lookupMobileDNSMapping_def rememberMobileDNSMapping_def update_conv' Let_def
        split: option.splits)
qed

section \<open>From the answer to the plan\<close>

lemma pickFamily_family: "pickFamily qt ip = Some a \<Longrightarrow> qt = QA \<or> qt = QAAAA \<Longrightarrow> Is4 a \<longleftrightarrow> qt = QA"
  by (auto simp: pickFamily_def split: option.splits if_splits)

lemma pick_family:
  "resolveMobileDNSAnswerIP env dst qt p w = (Ok (Some a), w') \<Longrightarrow> qt = QA \<or> qt = QAAAA \<Longrightarrow> (Is4 a \<longleftrightarrow> qt = QA)"
  by (cases "eParseIP env dst") (auto simp: resolveMobileDNSAnswerIP_def dest!: sym [of "Some a"] pickFamily_family split: if_splits)

lemma io_sum_Ok_iff [simp]: "io_sum r w = (Ok y, w') \<longleftrightarrow> r = Inr y \<and> w' = w"
  by (cases r) auto

lemma io_try_Ok_Inr [simp]: "io_try m w = (Ok (Inr x), w') \<longleftrightarrow> m w = (Ok x, w')"
  by (auto simp: io_try_def split: outcome.splits prod.splits)

lemma answerAddress_simps [simp]:
  "answerAddress env q domain (Inl e) w0 = (Ok (Some (empty_reply\<lparr>mRcode := rcodeServerFailure\<rparr>)), w0)"
  "answerAddress env q domain (Inr None) w0 = (Ok (Some empty_reply), w0)"
  "answerAddress env q domain (Inr (Some a)) w0 = (Ok (Some (appendAddressAnswer empty_reply q a)),
     rememberMobileDNSMapping env (AddrString (eLib env) a) domain mobileDNSAnswerTTL w0)"
  by (simp_all add: answerAddress_def io_modify_def io_return_def io_bind_def)

lemma empty_reply_answers [simp]: "mAnswers empty_reply = []" "mAnswers (empty_reply\<lparr>mRcode := c\<rparr>) = []"
  by (simp_all add: empty_reply_def)

lemma answerAddress_answer:
  "answerAddress env q domain r w0 = (Ok (Some resp), w1) \<Longrightarrow> ans \<in> set (mAnswers resp) \<Longrightarrow>
   \<exists>a. r = Inr (Some a) \<and> w1 = rememberMobileDNSMapping env (AddrString (eLib env) a) domain mobileDNSAnswerTTL w0 \<and>
       resp = appendAddressAnswer empty_reply q a"
  by (cases r; cases "projr r") auto

lemma answerQuestion_answer:
  assumes "answerQuestion env q domain g w = (Ok (Some resp), w1)" and "ans \<in> set (mAnswers resp)"
  obtains dst p a w0 w0' where "qType q = QA \<or> qType q = QAAAA"
    and "resolveMobileDNSAnswerIP env dst (qType q) p w0' = (Ok (Some a), w0)"
    and "w1 = rememberMobileDNSMapping env (AddrString (eLib env) a) domain mobileDNSAnswerTTL w0"
    and "resp = appendAddressAnswer empty_reply q a"
proof -
  from assms obtain dst p r w0 where g: "qType q = QA \<or> qType q = QAAAA"
    and t: "io_try (resolveMobileDNSAnswerIP env dst (qType q) p) w = (Ok r, w0)"
    and r: "answerAddress env q domain r w0 = (Ok (Some resp), w1)"
    by (cases g) (auto simp: answerQuestion_def empty_reply_def split: if_splits)
  from answerAddress_answer [OF r assms(2)] t that [OF g] show ?thesis by auto
qed

text \<open>An answered query: one question, and the address remembered in the world it ends in.\<close>

lemma handleConfigured_answer:
  assumes "handleConfiguredMobileDNS env questions w = (Ok (Some resp), w1)" and "ans \<in> set (mAnswers resp)"
  obtains q w0 where "questions = [q]" and "TrimSuffix_dot (qName q) \<noteq> []"
    and "w1 = rememberMobileDNSMapping env (AddrString (eLib env) (aAddr ans)) (TrimSuffix_dot (qName q)) mobileDNSAnswerTTL w0"
    and "mAnswers resp = [ans]" and "aName ans = qName q" and "aType ans = qType q" and "Is4 (aAddr ans) \<longleftrightarrow> qType q = QA"
    and "qType q = QA \<or> qType q = QAAAA"
proof -
  from assms obtain q where q: "questions = [q]" and d: "TrimSuffix_dot (qName q) \<noteq> []"
    by (auto simp: handleConfiguredMobileDNS_def Let_def split: list.splits if_splits)
  with assms(1) obtain g wg where "answerQuestion env q (TrimSuffix_dot (qName q)) g wg = (Ok (Some resp), w1)"
    by (auto simp: handleConfiguredMobileDNS_def Let_def)
  from answerQuestion_answer [OF this assms(2)] obtain dst p a w0 w0' where g: "qType q = QA \<or> qType q = QAAAA"
    and r: "resolveMobileDNSAnswerIP env dst (qType q) p w0' = (Ok (Some a), w0)"
    and w1: "w1 = rememberMobileDNSMapping env (AddrString (eLib env) a) (TrimSuffix_dot (qName q)) mobileDNSAnswerTTL w0"
    and resp: "resp = appendAddressAnswer empty_reply q a" .
  have m: "mAnswers resp = [\<lparr>aName = qName q, aType = qType q, aClass = qClass q, aTTL = mobileDNSAnswerTTL, aAddr = a\<rparr>]"
    by (simp add: resp appendAddressAnswer_def empty_reply_def)
  with assms(2) have ans: "ans = \<lparr>aName = qName q, aType = qType q, aClass = qClass q, aTTL = mobileDNSAnswerTTL, aAddr = a\<rparr>"
    by simp
  show ?thesis
    by (rule that [OF q d]) (use w1 ans m g pick_family [OF r g] in simp_all)
qed

lemma planOf_recovered:
  "planOf env src host port isIP (Some d) g = Inr plan \<Longrightarrow> RecoveredDomain plan = d \<and> MatchedDomain plan \<and> MatchedIP plan = isIP"
  by (cases g) (auto simp: planOf_def Let_def)


section \<open>Concrete queries\<close>

definition addr_example :: addr where "addr_example = Addr4 [1, 2, 3, 4]"

text \<open>A rule that pins \<^verbatim>\<open>a.io\<close> to \<^verbatim>\<open>1.2.3.4\<close>.\<close>

definition mobile_env :: penv where
  "mobile_env = \<lparr>eLib = lib_example\<lparr>AddrString := (\<lambda>a. if a = addr_example then ''1.2.3.4'' else ''?'')\<rparr>,
     eParseIP = (\<lambda>s. if s = ''1.2.3.4'' then Some addr_example else None),
     eMatch = \<lparr>findDomain = (\<lambda>d. if d = ''a.io'' then Some (zero_policy\<lparr>Host := ''^1.2.3.4''\<rparr>) else None),
       findIPv4 = Map.empty, findIPv6 = Map.empty, findHosts = Map.empty\<rparr>,
     eDns = dns_example, eDefault = normalizePolicyDefaults zero_policy\<rparr>"

definition query_a :: mquestion where "query_a = \<lparr>qName = ''a.io.'', qType = QA, qClass = 1\<rparr>"

lemma genPolicy_mobile_env:
  "\<exists>p. genPolicy mobile_env ''a.io'' False nf w = (Ok (GenOk ''1.2.3.4'' p), w) \<and> Mode_of p = ModeTLSRF \<and> Port p \<le> 0"
proof -
  have fd: "findDomain (eMatch mobile_env) ''a.io'' = Some (zero_policy\<lparr>Host := ''^1.2.3.4''\<rparr>)"
    "eParseIP mobile_env ''a.io'' = None" by (simp_all add: mobile_env_def)
  let ?p = "with_default mobile_env (findDomain (eMatch mobile_env) ''a.io'')"
  have h: "Host ?p = ''^1.2.3.4''" "Mode_of ?p = ModeTLSRF" "Port ?p \<le> 0" "Mode_of (zero_policy\<lparr>Host := ''^1.2.3.4''\<rparr>) \<noteq> ModeBlock"
    unfolding fd by (simp_all add: with_default_def mobile_env_def zero_policy_def unsetString_def ModeDefault_def)
  then show ?thesis
    unfolding genPolicy_def genDomainPolicy_def Let_def
    by (simp add: fd HasPrefix_def prefix_consts unsetString_def or_failed_def io_try_def selectedTarget_def
        applyRedirect_def io_bind_def io_return_def)
qed

lemma mobile_example_answers:
  "\<exists>resp w1. handleConfiguredMobileDNS mobile_env [query_a] world_start = (Ok (Some resp), w1) \<and>
     mAnswers resp = [\<lparr>aName = ''a.io.'', aType = QA, aClass = 1, aTTL = 60, aAddr = addr_example\<rparr>]"
proof -
  obtain p where g: "genPolicy mobile_env ''a.io'' False True world_start = (Ok (GenOk ''1.2.3.4'' p), world_start)"
    "Mode_of p = ModeTLSRF"
    using genPolicy_mobile_env by blast
  have "Is4 addr_example" by (simp add: addr_example_def)
  with g show ?thesis
    by (simp add: handleConfiguredMobileDNS_def query_a_def TrimSuffix_dot_def Let_def io_bind_def
        resolveMobileDNSAnswerIP_def pickFamily_def mobile_env_def io_return_def io_try_def io_modify_def
        appendAddressAnswer_def mobileDNSAnswerTTL_def answerQuestion_def answerAddress_def empty_reply_def)
qed


theorem mobile_records_roundtrip_witness:
  "fst (lookupMobileDNSMapping mobile_env ''1.2.3.4''
     ((rememberMobileDNSMapping mobile_env ''1.2.3.4'' ''a.io'' 0 world_start)\<lparr>wNow := 60000000000\<rparr>)) = Some ''a.io''"
  using mobile_records_roundtrip [of mobile_env "''1.2.3.4''" addr_example "''a.io''" _ 60000000000 0 world_start]
  by (simp add: mobile_env_def world_start_def clampTTL_def mobileDNSAnswerTTL_def)

end
