(* ===== verification/TunConn.thy ===== *)
theory TunConn
  imports Fragment DesyncSend TTLDetect MobileDns
begin

text \<open>
  The connections that send the first TLS record under a policy: \<^verbatim>\<open>policyConn\<close> of
  \<^verbatim>\<open>internal/policy.go\<close> (the DoH client) and \<^verbatim>\<open>tunPolicyConn\<close> of \<^verbatim>\<open>internal/tun_bridge.go\<close> (the
  Android tunnel), with \<^verbatim>\<open>sendTLSAlert\<close> of \<^verbatim>\<open>internal/tunnel.go\<close>. The tunnel's connection
  buffers what is written to it until it has the first record and passes the rest through; the
  properties say that what goes out does not depend on how the client cut its writes, when the
  connection may panic, and where it loses or repeats bytes.
\<close>

section \<open>The connection to the server\<close>

record net =
  nSock :: sock
  nTTL :: ttl_world
  nClosed :: bool

record net_env =
  neSock :: sock_env
  neTTL :: ttl_env
  nePage :: nat
  neSlot :: nat
  neFind :: "string \<Rightarrow> Policy option"  \<comment> \<open>\<^verbatim>\<open>domainMatcher.Find\<close>\<close>

definition on_sock :: "(sock, 'a) io \<Rightarrow> (net, 'a) io" where
  "on_sock m n = (case m (nSock n) of (r, s) \<Rightarrow> (r, n\<lparr>nSock := s\<rparr>))"

definition fakeTTL_of :: "net_env \<Rightarrow> Policy \<Rightarrow> string \<Rightarrow> (net, int) io" where
  "fakeTTL_of env p addr n =
     (case getFakeTTL (neTTL env) p addr (nTTL n) of
        (Inl err, t) \<Rightarrow> (Fail err, n\<lparr>nTTL := t\<rparr>)
      | (Inr ttl, t) \<Rightarrow> (Ok ttl, n\<lparr>nTTL := t\<rparr>))"

definition net_close :: "(net, unit) io" where
  "net_close n = (Ok (), n\<lparr>nClosed := True\<rparr>)"

abbreviation net_write :: "net_env \<Rightarrow> bytes \<Rightarrow> (net, unit) io" where
  "net_write env b \<equiv> on_sock (conn_write (neSock env) b)"

text \<open>The two ways of sending the record that need the place of the server name.\<close>

definition sendFragments :: "net_env \<Rightarrow> Policy \<Rightarrow> bytes \<Rightarrow> hello_info \<Rightarrow> (net, unit) io" where
  "sendFragments env p rec h =
     on_sock (sendRecords (neSock env) rec (sniStart h) (sniLen h) (NumRecords p) (NumSegments p)
       (IsTrue (OOB p)) (IsTrue (OOBEx p)) (IsTrue (ModMinorVer p)) (IsTrue (WaitForAck p)) (SendInterval p))"

definition sendDecoy :: "net_env \<Rightarrow> Policy \<Rightarrow> bool \<Rightarrow> bytes \<Rightarrow> hello_info \<Rightarrow> int \<Rightarrow> (net, unit) io" where
  "sendDecoy env p ipv6 rec h ttl =
     on_sock (desyncSend (neSock env) (nePage env) (neSlot env) ipv6 rec (sniStart h) (sniLen h) ttl (FakeSleep p))"

section \<open>The DoH client's connection\<close>

text \<open>\<open>raddr\<close> is the text of the remote address; the first write is the ClientHello.\<close>

definition policyConn_Write ::
  "net_env \<Rightarrow> Policy \<Rightarrow> string \<Rightarrow> bytes \<Rightarrow> bool \<times> net \<Rightarrow> nat outcome \<times> bool \<times> net" where
  "policyConn_Write env dohConnPolicy raddr b = (\<lambda>(handled, n).
     let plain = io_bind (net_write env b) (\<lambda>_. io_return (length b)) in
     if handled then (case plain n of (r, n') \<Rightarrow> (r, True, n'))
     else
       let m = io_bind (io_option (parseClientHello b)) (\<lambda>(h, perr).
         case perr of
           Some err \<Rightarrow> io_fail err
         | None \<Rightarrow>
             if IsTrue (TLS13Only dohConnPolicy) \<and> \<not> hasKeyShare h then io_fail (ErrorNew ''not a TLS 1.3 ClientHello'')
             else if sniStart h = -1 then plain
             else
               case Mode_of dohConnPolicy of
                 ModeDirect \<Rightarrow> plain
               | ModeRaw \<Rightarrow> plain
               | ModeTTLD \<Rightarrow>
                   io_bind (io_option (go_index raddr 0)) (\<lambda>c0.
                   io_bind (io_wrap ''get fake TTL'' (fakeTTL_of env dohConnPolicy raddr)) (\<lambda>ttl.
                   io_bind (io_wrap ''ttl desync'' (sendDecoy env dohConnPolicy (c0 = CHR ''['') b h ttl)) (\<lambda>_.
                   io_return (length b))))
               | ModeTLSRF \<Rightarrow>
                   io_bind (io_wrap ''tls fragment'' (sendFragments env dohConnPolicy b h)) (\<lambda>_. io_return (length b))
               | _ \<Rightarrow> io_return (length b))
       in (case m n of (r, n') \<Rightarrow> (r, True, n')))"

definition DefaultDialTimeout :: "Policy \<Rightarrow> int" where
  "DefaultDialTimeout p = (if ConnectTimeout p > 0 then ConnectTimeout p else defaultConnectTimeout)"

section \<open>TLS alerts\<close>

definition tlsAlertLevelFatal :: byte where "tlsAlertLevelFatal = 2"
definition tlsAlertAccessDenied :: byte where "tlsAlertAccessDenied = 70"
definition tlsAlertProtocolVersion :: byte where "tlsAlertProtocolVersion = 49"

text \<open>A failed write is only logged.\<close>

definition sendTLSAlert :: "sock_env \<Rightarrow> bytes \<Rightarrow> byte \<Rightarrow> byte \<Rightarrow> (sock, unit) io" where
  "sendTLSAlert env ver desc level =
     io_bind (io_option (go_index ver 0)) (\<lambda>v0.
     io_bind (io_option (go_index ver 1)) (\<lambda>v1.
     io_bind (io_try (conn_write env [0x15, v0, v1, 0, 2, level, desc])) (\<lambda>_. io_return ())))"

section \<open>The tunnel's connection\<close>

record tunConn =
  tcHandled :: bool
  tcClosed :: bool
  tcPending :: bytes
  tcNet :: net

definition on_net :: "(net, 'a) io \<Rightarrow> (tunConn, 'a) io" where
  "on_net m c = (case m (tcNet c) of (r, n) \<Rightarrow> (r, c\<lparr>tcNet := n\<rparr>))"

definition WrapTCPConn :: "net \<Rightarrow> tunConn" where
  "WrapTCPConn n = \<lparr>tcHandled = False, tcClosed = False, tcPending = [], tcNet = n\<rparr>"

definition tun_modify :: "(tunConn \<Rightarrow> tunConn) \<Rightarrow> (tunConn, unit) io" where
  "tun_modify f c = (Ok (), f c)"

definition flushPendingLocked :: "net_env \<Rightarrow> (tunConn, unit) io" where
  "flushPendingLocked env c =
     (if tcPending c = [] then io_return () c
      else io_bind (io_try (on_net (net_write env (tcPending c)))) (\<lambda>r.
           io_bind (tun_modify (\<lambda>c. c\<lparr>tcPending := []\<rparr>)) (\<lambda>_.
           case r of Inl err \<Rightarrow> io_fail err | Inr _ \<Rightarrow> io_return ())) c)"

definition alert_and_close :: "net_env \<Rightarrow> bytes \<Rightarrow> byte \<Rightarrow> (net, unit) io" where
  "alert_and_close env ver desc =
     io_bind (on_sock (sendTLSAlert (neSock env) ver desc tlsAlertLevelFatal)) (\<lambda>_.
     io_bind net_close (\<lambda>_. io_fail IoEOF))"

text \<open>The record under the policy that finally applies, and the policy's choice.\<close>

definition sendUnderPolicy :: "net_env \<Rightarrow> DialPlan \<Rightarrow> Policy \<Rightarrow> bytes \<Rightarrow> hello_info \<Rightarrow> (net, unit) io" where
  "sendUnderPolicy env plan p rec h =
     (case Mode_of p of
        ModeBlock \<Rightarrow> io_bind net_close (\<lambda>_. io_fail IoEOF)
      | ModeTLSAlert \<Rightarrow> alert_and_close env (prtVer h) tlsAlertAccessDenied
      | ModeTLSRF \<Rightarrow> sendFragments env p rec h
      | ModeTTLD \<Rightarrow>
          let ipv6 = isIPv6 (TargetHost plan) in
          io_bind (if FakeTTL p = 0 \<or> FakeTTL p = unsetInt then fakeTTL_of env p (TargetAddress plan)
                   else io_return (FakeTTL p)) (\<lambda>ttl.
          sendDecoy env p ipv6 rec h ttl)
      | _ \<Rightarrow> net_write env rec)"

definition sniPolicyOf :: "net_env \<Rightarrow> Policy \<Rightarrow> bytes \<Rightarrow> hello_info \<Rightarrow> Policy option" where
  "sniPolicyOf env p rec h =
     (if sniStart h > 0 \<and> sniLen h > 0 then do {
        sni \<leftarrow> go_slice rec (sniStart h) (sniStart h + sniLen h);
        Some (case neFind env (string_of_bytes sni) of
                Some domainPolicy \<Rightarrow> mergePolicies [domainPolicy, p]
              | None \<Rightarrow> p) }
      else Some p)"

definition handleHello :: "net_env \<Rightarrow> DialPlan \<Rightarrow> bytes \<Rightarrow> hello_info \<Rightarrow> (net, unit) io" where
  "handleHello env plan rec h =
     (let p = planPolicy plan in
      if Mode_of p = ModeTLSAlert then alert_and_close env (prtVer h) tlsAlertAccessDenied
      else if IsTrue (TLS13Only p) \<and> \<not> hasKeyShare h then alert_and_close env (prtVer h) tlsAlertProtocolVersion
      else io_bind (io_option (sniPolicyOf env p rec h)) (\<lambda>p. sendUnderPolicy env plan p rec h))"

definition handleTLSRecordLocked :: "net_env \<Rightarrow> DialPlan \<Rightarrow> bytes \<Rightarrow> (tunConn, unit) io" where
  "handleTLSRecordLocked env plan rec =
     io_bind (io_option (parseClientHello rec)) (\<lambda>(h, perr).
     case perr of
       Some _ \<Rightarrow> flushPendingLocked env
     | None \<Rightarrow> on_net (handleHello env plan rec h))"

text \<open>Whether the buffered bytes were handled, and the error if that failed.\<close>

definition tryHandlePendingLocked :: "net_env \<Rightarrow> DialPlan \<Rightarrow> (tunConn, bool \<times> go_error option) io" where
  "tryHandlePendingLocked env plan c =
     (let pending = tcPending c in
      if length pending < 5 then io_return (False, None) c
      else if pending ! 0 \<noteq> tlsRecordTypeHandshake \<or> pending ! 1 \<noteq> tlsMajorVersion then
        io_bind (tun_modify (\<lambda>c. c\<lparr>tcHandled := True\<rparr>)) (\<lambda>_.
        io_bind (io_try (flushPendingLocked env)) (\<lambda>r.
        case r of
          Inl err \<Rightarrow> io_bind (tun_modify (\<lambda>c. c\<lparr>tcClosed := True\<rparr>)) (\<lambda>_. io_return (True, Some err))
        | Inr _ \<Rightarrow> io_bind (tun_modify (\<lambda>c. c\<lparr>tcClosed := False\<rparr>)) (\<lambda>_. io_return (True, None)))) c
      else
        let recordLen = nat (tlsRecordHeaderLen + be16_val pending 3) in
        if length pending < recordLen then io_return (False, None) c
        else
          let rec = take recordLen pending; tail = drop recordLen pending in
          io_bind (io_try (handleTLSRecordLocked env plan rec)) (\<lambda>r.
          io_bind (tun_modify (\<lambda>c. c\<lparr>tcHandled := True, tcPending := []\<rparr>)) (\<lambda>_.
          case r of
            Inl err \<Rightarrow> io_bind (tun_modify (\<lambda>c. c\<lparr>tcClosed := True\<rparr>)) (\<lambda>_. io_return (True, Some err))
          | Inr _ \<Rightarrow>
              if tail = [] then io_return (True, None)
              else io_bind (io_try (on_net (net_write env tail))) (\<lambda>r.
                case r of
                  Inl err \<Rightarrow> io_bind (tun_modify (\<lambda>c. c\<lparr>tcClosed := True\<rparr>)) (\<lambda>_. io_return (True, Some err))
                | Inr _ \<Rightarrow> io_return (True, None)))) c)"

definition tun_Write :: "net_env \<Rightarrow> DialPlan \<Rightarrow> bytes \<Rightarrow> (tunConn, nat) io" where
  "tun_Write env plan b c =
     (if tcClosed c then io_fail IoEOF c
      else if tcHandled c then io_bind (on_net (net_write env b)) (\<lambda>_. io_return (length b)) c
      else io_bind (tun_modify (\<lambda>c. c\<lparr>tcPending := tcPending c @ b\<rparr>)) (\<lambda>_.
           io_bind (tryHandlePendingLocked env plan) (\<lambda>(handled, err).
           if \<not> handled then io_return (length b)
           else case err of Some e \<Rightarrow> io_fail e | None \<Rightarrow> io_return (length b))) c)"

section \<open>What goes out does not depend on the cuts\<close>

text \<open>The client's side: a sequence of writes, and what its bytes begin with.\<close>

definition tun_writes :: "net_env \<Rightarrow> DialPlan \<Rightarrow> bytes list \<Rightarrow> (tunConn, unit) io" where
  "tun_writes env plan bs = io_each (\<lambda>b. io_bind (tun_Write env plan b) (\<lambda>_. io_return ())) bs"

datatype first_data = Incomplete | NotTLS | FirstRecord bytes bytes

definition first_record :: "bytes \<Rightarrow> first_data" where
  "first_record D =
     (if length D < 5 then Incomplete
      else if D ! 0 \<noteq> tlsRecordTypeHandshake \<or> D ! 1 \<noteq> tlsMajorVersion then NotTLS
      else let n = nat (tlsRecordHeaderLen + be16_val D 3) in
        if length D < n then Incomplete else FirstRecord (take n D) (drop n D))"

lemma be16_val_append: "0 \<le> i \<Longrightarrow> i + 1 < int (length D) \<Longrightarrow> be16_val (D @ b) i = be16_val D i"
  by (simp add: be16_val_def nth_append nat_less_iff)

lemma first_record_append:
  "first_record D = NotTLS \<Longrightarrow> first_record (D @ b) = NotTLS"
  "first_record D = FirstRecord r t \<Longrightarrow> first_record (D @ b) = FirstRecord r (t @ b)"
  by (auto simp: first_record_def Let_def nth_append be16_val_append split: if_splits)

text \<open>\<open>n'\<close> is \<open>n\<close> after exactly these plain writes, all successful.\<close>

definition wrote :: "net \<Rightarrow> net \<Rightarrow> bytes list \<Rightarrow> bool" where
  "wrote n n' ws \<longleftrightarrow> calls (nSock n') = calls (nSock n) @ map (\<lambda>b. (ConnWrite b, None)) ws"

lemma wrote_refl [simp]: "wrote n n []"
  by (simp add: wrote_def)

lemma wrote_trans: "wrote n n' ws \<Longrightarrow> wrote n' n'' ws' \<Longrightarrow> wrote n n'' (ws @ ws')"
  by (simp add: wrote_def)

lemma on_sock_Ok: "on_sock m n = (Ok x, n') \<longleftrightarrow> (\<exists>s. m (nSock n) = (Ok x, s) \<and> n' = n\<lparr>nSock := s\<rparr>)"
  by (auto simp: on_sock_def split: prod.splits)

lemma on_net_Ok: "on_net m c = (Ok x, c') \<longleftrightarrow> (\<exists>n. m (tcNet c) = (Ok x, n) \<and> c' = c\<lparr>tcNet := n\<rparr>)"
  by (auto simp: on_net_def split: prod.splits)

lemma net_write_Ok: "net_write env b n = (Ok x, n') \<Longrightarrow> wrote n n' [b]"
  using addsD [OF adds_conn_write] by (fastforce simp: on_sock_Ok wrote_def)

lemma tun_modify_Ok [simp]: "tun_modify f c = (Ok x, c') \<longleftrightarrow> c' = f c"
  by (auto simp: tun_modify_def)

lemma not_Inl_iff [simp]: "(\<forall>a. x \<noteq> Inl a) \<longleftrightarrow> (\<exists>b. x = Inr b)"
  by (cases x) auto

lemma io_case_sum_iff:
  "(case x of Inl e \<Rightarrow> f e | Inr y \<Rightarrow> g y) w = res \<longleftrightarrow> (\<exists>e. x = Inl e \<and> f e w = res) \<or> (\<exists>y. x = Inr y \<and> g y w = res)"
  by (cases x) auto

lemma flushPendingLocked_Ok:
  "flushPendingLocked env c = (Ok (), c') \<Longrightarrow> tcPending c \<noteq> [] \<Longrightarrow>
   \<exists>n. net_write env (tcPending c) (tcNet c) = (Ok (), n) \<and> c' = c\<lparr>tcNet := n, tcPending := []\<rparr>"
  by (auto simp: flushPendingLocked_def on_net_Ok split: sum.split_asm)

text \<open>The state after successful writes of the bytes \<open>D\<close> in all, on a connection that was \<open>n0\<close>.\<close>

definition tun_inv :: "net_env \<Rightarrow> DialPlan \<Rightarrow> net \<Rightarrow> bytes \<Rightarrow> tunConn \<Rightarrow> bool" where
  "tun_inv env plan n0 D c \<longleftrightarrow> \<not> tcClosed c \<and>
     (case first_record D of
        Incomplete \<Rightarrow> \<not> tcHandled c \<and> tcPending c = D \<and> tcNet c = n0
      | NotTLS \<Rightarrow> tcHandled c \<and> tcPending c = [] \<and> (\<exists>ws. wrote n0 (tcNet c) ws \<and> concat ws = D)
      | FirstRecord r t \<Rightarrow> tcHandled c \<and> tcPending c = [] \<and>
          (\<forall>h. parseClientHello r = Some (h, None) \<longrightarrow>
             (\<exists>n1 ws. handleHello env plan r h n0 = (Ok (), n1) \<and> wrote n1 (tcNet c) ws \<and> concat ws = t)))"

lemma tun_inv_start: "tun_inv env plan n [] (WrapTCPConn n)"
  by (simp add: tun_inv_def first_record_def WrapTCPConn_def)

lemma tun_Write_passes:
  assumes "tcHandled c" and "tun_inv env plan n0 D c" and "tun_Write env plan b c = (Ok k, c')"
  shows "tun_inv env plan n0 (D @ b) c'"
proof -
  from assms obtain n where c': "c' = c\<lparr>tcNet := n\<rparr>" and w: "wrote (tcNet c) n [b]"
    by (auto simp: tun_Write_def tun_inv_def on_net_Ok dest: net_write_Ok)
  show ?thesis
  proof (cases "first_record D")
    case Incomplete
    with assms(1,2) show ?thesis by (simp add: tun_inv_def)
  next
    case NotTLS
    with assms(2) obtain ws where ws: "wrote n0 (tcNet c) ws" "concat ws = D" by (auto simp: tun_inv_def)
    have "wrote n0 n (ws @ [b])" by (rule wrote_trans [OF ws(1) w])
    moreover have "concat (ws @ [b]) = D @ b" by (simp add: ws(2))
    ultimately have "\<exists>ws. wrote n0 n ws \<and> concat ws = D @ b" by blast
    with NotTLS assms(1,2) show ?thesis
      by (simp add: tun_inv_def c' first_record_append)
  next
    case (FirstRecord r t)
    have "\<exists>n1 ws. handleHello env plan r h n0 = (Ok (), n1) \<and> wrote n1 n ws \<and> concat ws = t @ b"
      if "parseClientHello r = Some (h, None)" for h
    proof -
      from that FirstRecord assms(2) obtain n1 ws where ws: "handleHello env plan r h n0 = (Ok (), n1)"
        "wrote n1 (tcNet c) ws" "concat ws = t" by (auto simp: tun_inv_def)
      have "wrote n1 n (ws @ [b])" by (rule wrote_trans [OF ws(2) w])
      moreover have "concat (ws @ [b]) = t @ b" by (simp add: ws(3))
      ultimately show ?thesis using ws(1) by blast
    qed
    with FirstRecord assms(1,2) show ?thesis
      by (simp add: tun_inv_def c' first_record_append(2) [OF FirstRecord])
  qed
qed

lemma handleTLSRecord_Ok:
  assumes "handleTLSRecordLocked env plan r c = (Ok (), c1)" and "parseClientHello r = Some (h, None)"
  shows "\<exists>n. handleHello env plan r h (tcNet c) = (Ok (), n) \<and> c1 = c\<lparr>tcNet := n\<rparr>"
  using assms by (auto simp: handleTLSRecordLocked_def on_net_Ok)

lemma handleTLSRecord_flags:
  "handleTLSRecordLocked env plan r c = (x, c1) \<Longrightarrow> tcClosed c1 = tcClosed c \<and> tcHandled c1 = tcHandled c"
  by (auto simp: handleTLSRecordLocked_def flushPendingLocked_def on_net_def tun_modify_def io_bind_def io_try_def
      io_option_def io_return_def io_fail_def split: option.splits prod.splits outcome.splits sum.splits if_splits)

text \<open>The step that takes the buffered bytes: what a successful attempt did.\<close>

lemma tryHandle_Incomplete:
  "first_record (tcPending c) = Incomplete \<Longrightarrow> tryHandlePendingLocked env plan c = (Ok (False, None), c)"
  by (auto simp: tryHandlePendingLocked_def first_record_def Let_def io_return_def split: if_splits)

lemma tryHandle_NotTLS:
  assumes "first_record (tcPending c) = NotTLS" and "tryHandlePendingLocked env plan c = (Ok (True, None), c')"
  shows "\<exists>n. net_write env (tcPending c) (tcNet c) = (Ok (), n) \<and>
    c' = c\<lparr>tcHandled := True, tcClosed := False, tcPending := [], tcNet := n\<rparr>"
proof -
  let ?c = "c\<lparr>tcHandled := True\<rparr>"
  from assms obtain c1 where f: "flushPendingLocked env ?c = (Ok (), c1)" and c': "c' = c1\<lparr>tcClosed := False\<rparr>"
    by (auto simp: tryHandlePendingLocked_def first_record_def Let_def io_case_sum_iff split: if_splits)
  from assms(1) have "tcPending ?c \<noteq> []" by (auto simp: first_record_def)
  with flushPendingLocked_Ok [OF f] c' show ?thesis by auto
qed

lemma tryHandle_FirstRecord:
  assumes "first_record (tcPending c) = FirstRecord r t" and "tryHandlePendingLocked env plan c = (Ok (True, None), c')"
  shows "\<exists>c1. handleTLSRecordLocked env plan r c = (Ok (), c1) \<and>
    (if t = [] then c' = c1\<lparr>tcHandled := True, tcPending := []\<rparr>
     else \<exists>n. net_write env t (tcNet c1) = (Ok (), n) \<and> c' = c1\<lparr>tcHandled := True, tcPending := [], tcNet := n\<rparr>)"
proof -
  have rt: "\<not> length (tcPending c) < 5" "tcPending c ! 0 = tlsRecordTypeHandshake" "tcPending c ! 1 = tlsMajorVersion"
    "\<not> length (tcPending c) < nat (tlsRecordHeaderLen + be16_val (tcPending c) 3)"
    "r = take (nat (tlsRecordHeaderLen + be16_val (tcPending c) 3)) (tcPending c)"
    "t = drop (nat (tlsRecordHeaderLen + be16_val (tcPending c) 3)) (tcPending c)"
    using assms(1) by (auto simp: first_record_def Let_def split: if_splits)
  from assms(2) obtain x c1 where h: "io_try (handleTLSRecordLocked env plan r) c = (Ok x, c1)"
    and k: "(case x of
        Inl err \<Rightarrow> io_bind (tun_modify (\<lambda>c. c\<lparr>tcClosed := True\<rparr>)) (\<lambda>_. io_return (True, Some err))
      | Inr _ \<Rightarrow> if t = [] then io_return (True, None)
          else io_bind (io_try (on_net (net_write env t))) (\<lambda>r.
            case r of
              Inl err \<Rightarrow> io_bind (tun_modify (\<lambda>c. c\<lparr>tcClosed := True\<rparr>)) (\<lambda>_. io_return (True, Some err))
            | Inr _ \<Rightarrow> io_return (True, None))) (c1\<lparr>tcHandled := True, tcPending := []\<rparr>) = (Ok (True, None), c')"
    using rt(1-4) unfolding tryHandlePendingLocked_def Let_def rt(5,6) by auto
  show ?thesis
  proof (cases x)
    case (Inl e)
    with k show ?thesis by auto
  next
    case (Inr u)
    with h have "handleTLSRecordLocked env plan r c = (Ok (), c1)" by simp
    moreover have "if t = [] then c' = c1\<lparr>tcHandled := True, tcPending := []\<rparr>
       else \<exists>n. net_write env t (tcNet c1) = (Ok (), n) \<and> c' = c1\<lparr>tcHandled := True, tcPending := [], tcNet := n\<rparr>"
      using k Inr by (auto simp: on_net_Ok split: sum.split_asm)
    ultimately show ?thesis by blast
  qed
qed

lemma tryHandle_handles:
  "first_record (tcPending c) \<noteq> Incomplete \<Longrightarrow> tryHandlePendingLocked env plan c = (Ok (b0, e), c') \<Longrightarrow> b0"
  by (auto simp: tryHandlePendingLocked_def first_record_def Let_def io_case_sum_iff split: if_splits)

lemma tun_Write_buffers:
  assumes "\<not> tcHandled c" and "tun_inv env plan n0 D c" and "tun_Write env plan b c = (Ok k, c')"
  shows "tun_inv env plan n0 (D @ b) c'"
proof -
  let ?c = "c\<lparr>tcPending := D @ b\<rparr>"
  have c: "tcPending c = D" "tcNet c = n0" "\<not> tcClosed c"
    using assms(1,2) by (auto simp: tun_inv_def split: first_data.split_asm)
  with assms(1,3) obtain b0 where t: "tryHandlePendingLocked env plan ?c = (Ok (b0, None), c') \<or>
      (\<exists>e. b0 = False \<and> tryHandlePendingLocked env plan ?c = (Ok (b0, e), c'))"
    by (auto simp: tun_Write_def split: if_splits option.split_asm)
  show ?thesis
  proof (cases "first_record (D @ b)")
    case Incomplete
    with tryHandle_Incomplete [of ?c env plan] t c assms(1) show ?thesis by (auto simp: tun_inv_def)
  next
    case NotTLS
    then have "tryHandlePendingLocked env plan ?c = (Ok (True, None), c')"
      using t tryHandle_handles [of ?c env plan] by auto
    from tryHandle_NotTLS [OF _ this] NotTLS c obtain n where "net_write env (D @ b) n0 = (Ok (), n)"
      "c' = c\<lparr>tcHandled := True, tcClosed := False, tcPending := [], tcNet := n\<rparr>" by auto
    with NotTLS net_write_Ok [of env "D @ b" n0 "()" n] show ?thesis
      by (auto simp: tun_inv_def intro!: exI [of _ "[D @ b]"])
  next
    case (FirstRecord r t')
    then have "tryHandlePendingLocked env plan ?c = (Ok (True, None), c')"
      using t tryHandle_handles [of ?c env plan] by auto
    from tryHandle_FirstRecord [OF _ this] FirstRecord obtain c1 where
      h: "handleTLSRecordLocked env plan r ?c = (Ok (), c1)" and
      k: "if t' = [] then c' = c1\<lparr>tcHandled := True, tcPending := []\<rparr>
       else \<exists>n. net_write env t' (tcNet c1) = (Ok (), n) \<and> c' = c1\<lparr>tcHandled := True, tcPending := [], tcNet := n\<rparr>"
      by auto
    have closed: "\<not> tcClosed c1" using handleTLSRecord_flags [OF h] c by simp
    have "\<exists>n1 ws. handleHello env plan r h n0 = (Ok (), n1) \<and> wrote n1 (tcNet c') ws \<and> concat ws = t'"
      if p: "parseClientHello r = Some (h, None)" for h
    proof -
      obtain n1 where n1: "handleHello env plan r h n0 = (Ok (), n1)" "c1 = ?c\<lparr>tcNet := n1\<rparr>"
        using handleTLSRecord_Ok [OF \<open>handleTLSRecordLocked env plan r ?c = (Ok (), c1)\<close> p] c by auto
      have "\<exists>ws. wrote n1 (tcNet c') ws \<and> concat ws = t'"
      proof (cases "t' = []")
        case True
        with k n1 show ?thesis by (auto intro!: exI [of _ "[]"])
      next
        case False
        with k n1 obtain n where "net_write env t' n1 = (Ok (), n)" "tcNet c' = n" by auto
        with net_write_Ok [of env t' n1 "()" n] show ?thesis by (auto intro!: exI [of _ "[t']"])
      qed
      with n1 show ?thesis by blast
    qed
    with FirstRecord k closed show ?thesis by (auto simp: tun_inv_def split: if_splits)
  qed
qed

lemma tun_writes_inv:
  "tun_writes env plan bs c = (Ok (), c') \<Longrightarrow> tun_inv env plan n0 D c \<Longrightarrow> tun_inv env plan n0 (D @ concat bs) c'"
proof (induction bs arbitrary: c D)
  case Nil
  then show ?case by (simp add: tun_writes_def)
next
  case (Cons b bs)
  from Cons.prems(1) obtain k c1 where w: "tun_Write env plan b c = (Ok k, c1)"
    and r: "tun_writes env plan bs c1 = (Ok (), c')" by (auto simp: tun_writes_def)
  have "tun_inv env plan n0 (D @ b) c1"
    using tun_Write_passes [OF _ Cons.prems(2) w] tun_Write_buffers [OF _ Cons.prems(2) w] by blast
  from Cons.IH [OF r this] show ?case by simp
qed


text \<open>
  A first record that does not parse has the bytes after it sent twice. When the first write
  brings a complete handshake record that \<^verbatim>\<open>parseClientHello\<close> rejects together with more bytes,
  the whole buffer is flushed and then the bytes after the record are written again.
\<close>

theorem tun_unparsed_tail_twice:
  assumes "first_record D = FirstRecord r t" and "t \<noteq> []" and "parseClientHello r = Some (h, Some err)"
    and "tun_Write env plan D (WrapTCPConn n) = (Ok k, c)"
  shows "wrote n (tcNet c) [r @ t, t]"
proof -
  let ?c = "(WrapTCPConn n)\<lparr>tcPending := D\<rparr>"
  have rt: "r @ t = D" using assms(1) by (auto simp: first_record_def Let_def split: if_splits)
  from assms(4) obtain b0 e where t: "tryHandlePendingLocked env plan ?c = (Ok (b0, e), c)" "b0 \<longrightarrow> e = None"
    by (auto simp: tun_Write_def WrapTCPConn_def split: if_splits option.split_asm)
  then have "tryHandlePendingLocked env plan ?c = (Ok (True, None), c)"
    using tryHandle_handles [OF _ t(1)] assms(1) by simp
  from tryHandle_FirstRecord [OF _ this] assms(1,2) obtain c1 n2 where
    h: "handleTLSRecordLocked env plan r ?c = (Ok (), c1)" and w2: "net_write env t (tcNet c1) = (Ok (), n2)"
    and c: "tcNet c = n2" by auto
  from h assms(3) have "flushPendingLocked env ?c = (Ok (), c1)" by (auto simp: handleTLSRecordLocked_def)
  from flushPendingLocked_Ok [OF this] assms(2) rt have "net_write env D n = (Ok (), tcNet c1)"
    by (auto simp: WrapTCPConn_def)
  from wrote_trans [OF net_write_Ok [OF this] net_write_Ok [OF w2]] c rt show ?thesis by simp
qed

text \<open>
  A ClientHello without a server name makes the tunnel's connection panic when the policy
  fragments it. The place of the server name is then reported as \<open>-1\<close>, and \<^verbatim>\<open>sendRecords\<close> slices
  with it before anything is sent (the proxy's \<^verbatim>\<open>handleTLS\<close> tests for this case, the tunnel does not).
\<close>

theorem tun_no_sni_panics:
  assumes "first_record D = FirstRecord r t" and "parseClientHello r = Some (h, None)" and "sniStart h = -1"
    and "Mode_of (planPolicy plan) = ModeTLSRF" and "2 \<le> NumRecords (planPolicy plan)"
    and "hasKeyShare h \<or> \<not> IsTrue (TLS13Only (planPolicy plan))"
  shows "fst (tun_Write env plan D (WrapTCPConn n)) = Panic"
proof -
  let ?p = "planPolicy plan" and ?c = "(WrapTCPConn n)\<lparr>tcPending := D\<rparr>"
  have bad: "go_slice r' (-1) k = None" for r' :: bytes and k by (simp add: go_slice_def)
  have "5 \<le> length r" using assms(1) be16_val_bounds [of D 3]
    by (auto simp: first_record_def Let_def tls_consts split: if_splits)
  then have "on_sock (sendRecords (neSock env) r (-1) (sniLen h) (NumRecords ?p) sg oob oobex modv ack i) n = (Panic, n)"
    for sg oob oobex modv ack i
    using assms(5) by (simp add: sendRecords_def makeChunks_def findLastDotOrMidPos_def bad go_make_cap_def go_index_def
        on_sock_def io_bind_def io_option_def io_return_def Let_def)
  then have "handleHello env plan r h n = (Panic, n)"
    using assms by (auto simp: handleHello_def sniPolicyOf_def sendUnderPolicy_def sendFragments_def Let_def)
  then have "handleTLSRecordLocked env plan r ?c = (Panic, ?c)"
    using assms(2) by (simp add: handleTLSRecordLocked_def on_net_def WrapTCPConn_def)
  then have "fst (tryHandlePendingLocked env plan ?c) = Panic"
    using assms(1) by (auto simp: tryHandlePendingLocked_def first_record_def Let_def WrapTCPConn_def io_bind_def io_try_def
        split: if_splits)
  then show ?thesis
    by (auto simp: tun_Write_def WrapTCPConn_def tun_modify_def io_bind_def split: prod.splits outcome.splits)
qed

section \<open>Concrete connections\<close>

definition net_example :: net where
  "net_example = \<lparr>nSock = sock_example, nTTL = \<lparr>dials = 0, cacheAdds = []\<rparr>, nClosed = False\<rparr>"

definition net_env_example :: net_env where
  "net_env_example = \<lparr>neSock = quiet_env, neTTL = \<lparr>dialTTL = \<lambda>_ _ _. DialOk, ttlCache = None, calcTTL_fun = None\<rparr>,
     nePage = 4096, neSlot = 0, neFind = Map.empty\<rparr>"

definition plan_example :: DialPlan where
  "plan_example = \<lparr>planSource = RequestSourceMobile, OriginHost = ''1.2.3.4'', OriginPort = 443, RecoveredDomain = [],
     MatchedDomain = False, MatchedIP = True, TargetHost = ''1.2.3.4'', TargetPort = 443,
     planPolicy = zero_policy\<lparr>Mode_of := ModeTLSRF, NumRecords := 4\<rparr>, planBlocked = False\<rparr>"

text \<open>A ClientHello with no extension at all.\<close>

definition hello_plain :: client_hello where "hello_plain = hello_example\<lparr>chExtensions := []\<rparr>"

lemma wf_hello_plain: "wf_hello hello_plain"
  by (auto simp: wf_hello_def hello_plain_def hello_example_def enc_body_def enc_exts_def)

lemma first_record_enc_hello:
  assumes "wf_hello ch"
  shows "first_record (enc_hello minor ch @ t) = FirstRecord (enc_hello minor ch) t"
proof -
  let ?n = "int (length (enc_body ch))" and ?D = "enc_hello minor ch @ t"
  have n: "?n + 4 < 65536" using assms by (simp add: wf_hello_def)
  have D: "?D = [0x16, 3, minor] @ put_uint16 (?n + 4) @ [1, word_of_int (?n div 65536)] @ put_uint16 ?n @ enc_body ch @ t"
    by (simp add: enc_hello_def Let_def tls_consts)
  have len: "length (enc_hello minor ch) = nat (?n + 9)" by (simp add: enc_hello_def Let_def nat_add_distrib)
  have "be16_at ?D 3 = Some (?n + 4)"
    unfolding D by (rule be16_at_append) (use n in simp_all)
  then have "be16_val ?D 3 = ?n + 4" by (auto dest: be16_at_SomeD)
  moreover have "?D ! 0 = 0x16" "?D ! 1 = 3" by (simp_all add: D)
  ultimately show ?thesis using len by (simp add: first_record_def Let_def tls_consts add.commute)
qed

theorem tun_no_sni_panics_witness:
  "fst (tun_Write net_env_example plan_example (enc_hello 1 hello_plain) (WrapTCPConn net_example)) = Panic"
  using tun_no_sni_panics [of "enc_hello 1 hello_plain" "enc_hello 1 hello_plain" "[]" "hello_none [3, 3]" plan_example]
    first_record_enc_hello [OF wf_hello_plain, of 1 "[]"] parseClientHello_scan [OF wf_hello_plain, of 1]
  by (simp add: plan_example_def zero_policy_def hello_none_def IsTrue_def hello_plain_def hello_example_def)

text \<open>A handshake record that is no ClientHello, followed by one byte.\<close>

definition odd_record :: bytes where "odd_record = [0x16, 3, 1, 0, 4, 2, 0, 0, 0]"

lemma odd_record_first: "first_record (odd_record @ [9]) = FirstRecord odd_record [9]"
  by (simp add: first_record_def odd_record_def tls_consts be16_val_def Let_def)

lemma odd_record_parse: "\<exists>h err. parseClientHello odd_record = Some (h, Some err)"
  by (simp add: parseClientHello_def odd_record_def helloHandshake_def hello_fail_def tls_consts be16_at_eq be16_val_def
      go_index_def Let_def)

theorem tun_unparsed_tail_twice_witness:
  "\<exists>c. tun_Write net_env_example plan_example (odd_record @ [9]) (WrapTCPConn net_example) = (Ok 10, c) \<and>
     wrote net_example (tcNet c) [odd_record @ [9], [9]]"
proof -
  obtain h err where p: "parseClientHello odd_record = Some (h, Some err)" using odd_record_parse by blast
  have "\<exists>c. tun_Write net_env_example plan_example (odd_record @ [9]) (WrapTCPConn net_example) = (Ok 10, c)"
    by (simp add: tun_Write_def WrapTCPConn_def io_bind_def tun_modify_def tryHandlePendingLocked_def odd_record_def
        tls_consts be16_val_def Let_def io_try_def handleTLSRecordLocked_def p [unfolded odd_record_def]
        flushPendingLocked_def on_net_def on_sock_def conn_write_def sys_def net_env_example_def quiet_env_def io_return_def)
  then show ?thesis using tun_unparsed_tail_twice [OF odd_record_first _ p] by blast
qed


end
