(* ===== verification/MobileStats.thy ===== *)
theory MobileStats
  imports Prelude
begin

text \<open>
  The bounded histories of the Android library: the statistics of \<^verbatim>\<open>mobile/stats.go\<close> and the log buffer
  of \<^verbatim>\<open>mobile/mobile_api.go\<close>. Both append and then drop the oldest entry beyond a limit, each in
  its own way; one interface says what such a buffer keeps, and both are instances of it. Shown
  here: the statistics are a function of the operations since the last reset.
\<close>

section \<open>Bounded buffers\<close>

text \<open>A buffer that keeps the newest \<open>cap\<close> entries.\<close>

locale bounded_log =
  fixes cap :: nat and push :: "'a list \<Rightarrow> 'a \<Rightarrow> 'a list"
  assumes push_newest: "length xs \<le> cap \<Longrightarrow> push xs x = drop (length xs + 1 - cap) (xs @ [x])"
begin

lemma push_bounded: "length xs \<le> cap \<Longrightarrow> length (push xs x) \<le> cap"
  by (simp add: push_newest)

lemma pushes_newest: "length xs \<le> cap \<Longrightarrow> foldl push xs ys = drop (length xs + length ys - cap) (xs @ ys)"
proof (induction ys arbitrary: xs)
  case (Cons y ys)
  have "foldl push xs (y # ys) = drop (length (push xs y) + length ys - cap) (push xs y @ ys)"
    using Cons.IH [OF push_bounded [OF Cons.prems]] by simp
  also have "\<dots> = drop (length xs + length (y # ys) - cap) (xs @ y # ys)"
  proof (cases "length xs = cap")
    case True
    then have p: "push xs y = drop 1 (xs @ [y])" by (simp add: push_newest del: drop_append)
    then have "push xs y @ ys = drop 1 (xs @ y # ys)" "length (push xs y) = cap" using True by (cases xs; simp)+
    with True show ?thesis by (simp del: drop_append)
  qed (use Cons.prems in \<open>simp add: push_newest\<close>)
  finally show ?case .
qed simp

lemma pushes_bounded: "length xs \<le> cap \<Longrightarrow> length (foldl push xs ys) \<le> cap"
  by (induction ys arbitrary: xs) (auto intro: push_bounded)

end

section \<open>Statistics\<close>

record statsEvent =
  evTime :: string
  evType :: string
  evTarget :: string
  evMode :: string
  evOutcome :: string
  evDetail :: string

record statsState =
  startedAt :: int
  tcpConnections :: "64 word"
  udpFlows :: "64 word"
  dnsQueries :: "64 word"
  blockedRequests :: "64 word"
  failedRequests :: "64 word"
  events :: "statsEvent list"

definition resetStats :: "int \<Rightarrow> statsState \<Rightarrow> statsState" where
  "resetStats t s = s\<lparr>startedAt := t, tcpConnections := 0, udpFlows := 0, dnsQueries := 0, blockedRequests := 0,
     failedRequests := 0, events := take 0 (events s)\<rparr>"

text \<open>The append with the shift in place.\<close>

definition appendEvent :: "statsEvent list \<Rightarrow> statsEvent \<Rightarrow> statsEvent list" where
  "appendEvent evs e =
     (let evs = evs @ [e] in
      if length evs > 80 then take 80 (go_copy evs (drop (length evs - 80) evs)) else evs)"

definition recordStatEvent :: "string \<Rightarrow> statsEvent \<Rightarrow> statsState \<Rightarrow> statsState" where
  "recordStatEvent clock e s =
     (let e = (if evTime e = [] then e\<lparr>evTime := clock\<rparr> else e) in s\<lparr>events := appendEvent (events s) e\<rparr>)"

definition recordTCPStat :: "string \<Rightarrow> string \<Rightarrow> string \<Rightarrow> statsState \<Rightarrow> statsState" where
  "recordTCPStat clock target mode s =
     recordStatEvent clock \<lparr>evTime = [], evType = ''TCP'', evTarget = target, evMode = mode, evOutcome = ''ok'', evDetail = []\<rparr>
       (s\<lparr>tcpConnections := tcpConnections s + 1\<rparr>)"

definition recordUDPStat :: "string \<Rightarrow> string \<Rightarrow> string \<Rightarrow> statsState \<Rightarrow> statsState" where
  "recordUDPStat clock target mode s =
     recordStatEvent clock \<lparr>evTime = [], evType = ''UDP'', evTarget = target, evMode = mode, evOutcome = ''ok'', evDetail = []\<rparr>
       (s\<lparr>udpFlows := udpFlows s + 1\<rparr>)"

definition recordDNSStat :: "string \<Rightarrow> string \<Rightarrow> string \<Rightarrow> string \<Rightarrow> statsState \<Rightarrow> statsState" where
  "recordDNSStat clock target outcome detail s =
     (let s = s\<lparr>dnsQueries := dnsQueries s + 1\<rparr>;
          s = (if outcome = ''failed'' then s\<lparr>failedRequests := failedRequests s + 1\<rparr> else s) in
      recordStatEvent clock \<lparr>evTime = [], evType = ''DNS'', evTarget = target, evMode = [], evOutcome = outcome, evDetail = detail\<rparr> s)"

definition recordBlockedStat :: "string \<Rightarrow> string \<Rightarrow> string \<Rightarrow> statsState \<Rightarrow> statsState" where
  "recordBlockedStat clock kind target s =
     recordStatEvent clock \<lparr>evTime = [], evType = kind, evTarget = target, evMode = [], evOutcome = ''blocked'', evDetail = []\<rparr>
       (s\<lparr>blockedRequests := blockedRequests s + 1\<rparr>)"

definition recordFailedStat :: "string \<Rightarrow> string \<Rightarrow> string \<Rightarrow> string \<Rightarrow> statsState \<Rightarrow> statsState" where
  "recordFailedStat clock kind target detail s =
     recordStatEvent clock \<lparr>evTime = [], evType = kind, evTarget = target, evMode = [], evOutcome = ''failed'', evDetail = detail\<rparr>
       (s\<lparr>failedRequests := failedRequests s + 1\<rparr>)"

text \<open>The snapshot that \<^verbatim>\<open>GetStats\<close> prints as JSON; \<open>fmt\<close> prints the start time.\<close>

record runtimeStats =
  rsStartedAt :: string
  rsTCPConnections :: "64 word"
  rsUDPFlows :: "64 word"
  rsDNSQueries :: "64 word"
  rsBlockedRequests :: "64 word"
  rsFailedRequests :: "64 word"
  rsRecentEvents :: "statsEvent list"

definition GetStats :: "(int \<Rightarrow> string) \<Rightarrow> statsState \<Rightarrow> runtimeStats" where
  "GetStats fmt s = \<lparr>rsStartedAt = fmt (startedAt s), rsTCPConnections = tcpConnections s, rsUDPFlows = udpFlows s,
     rsDNSQueries = dnsQueries s, rsBlockedRequests = blockedRequests s, rsFailedRequests = failedRequests s,
     rsRecentEvents = events s\<rparr>"

section \<open>The log buffer\<close>

definition maxLogs :: nat where "maxLogs = 500"

definition pushLog :: "string list \<Rightarrow> string \<Rightarrow> string list" where
  "pushLog logEntries msg =
     (let logEntries = logEntries @ [msg] in if length logEntries > maxLogs then drop 1 logEntries else logEntries)"

text \<open>The text returned, and the buffer emptied.\<close>

definition GetLogs :: "string list \<Rightarrow> string \<times> string list" where
  "GetLogs logEntries = (if logEntries = [] then ([], logEntries) else (concat logEntries, []))"

section \<open>Both are bounded buffers\<close>

interpretation stats_log: bounded_log 80 appendEvent
  by unfold_locales (auto simp: appendEvent_def go_copy_def Let_def)

interpretation core_log: bounded_log maxLogs pushLog
proof
  show "pushLog xs x = drop (length xs + 1 - maxLogs) (xs @ [x])" if "length xs \<le> maxLogs" for xs x
    using that by (cases "length xs = maxLogs") (auto simp: pushLog_def Let_def)
qed

section \<open>The statistics as a function of the history\<close>

datatype stat_op =
    StatTCP string string
  | StatUDP string string
  | StatDNS string string string
  | StatBlocked string string
  | StatFailed string string string

text \<open>What one operation contributes: its event, and whether it counts as failed.\<close>

fun stat_event :: "string \<Rightarrow> stat_op \<Rightarrow> statsEvent" where
  "stat_event t (StatTCP x m) = \<lparr>evTime = t, evType = ''TCP'', evTarget = x, evMode = m, evOutcome = ''ok'', evDetail = []\<rparr>"
| "stat_event t (StatUDP x m) = \<lparr>evTime = t, evType = ''UDP'', evTarget = x, evMode = m, evOutcome = ''ok'', evDetail = []\<rparr>"
| "stat_event t (StatDNS x r d) = \<lparr>evTime = t, evType = ''DNS'', evTarget = x, evMode = [], evOutcome = r, evDetail = d\<rparr>"
| "stat_event t (StatBlocked k x) = \<lparr>evTime = t, evType = k, evTarget = x, evMode = [], evOutcome = ''blocked'', evDetail = []\<rparr>"
| "stat_event t (StatFailed k x d) = \<lparr>evTime = t, evType = k, evTarget = x, evMode = [], evOutcome = ''failed'', evDetail = d\<rparr>"

fun is_failed :: "stat_op \<Rightarrow> bool" where
  "is_failed (StatFailed k x d) \<longleftrightarrow> True"
| "is_failed (StatDNS x r d) \<longleftrightarrow> r = ''failed''"
| "is_failed _ \<longleftrightarrow> False"

fun is_tcp_op :: "stat_op \<Rightarrow> bool" where "is_tcp_op (StatTCP x m) \<longleftrightarrow> True" | "is_tcp_op _ \<longleftrightarrow> False"
fun is_udp_op :: "stat_op \<Rightarrow> bool" where "is_udp_op (StatUDP x m) \<longleftrightarrow> True" | "is_udp_op _ \<longleftrightarrow> False"
fun is_dns_op :: "stat_op \<Rightarrow> bool" where "is_dns_op (StatDNS x r d) \<longleftrightarrow> True" | "is_dns_op _ \<longleftrightarrow> False"
fun is_blocked_op :: "stat_op \<Rightarrow> bool" where "is_blocked_op (StatBlocked k x) \<longleftrightarrow> True" | "is_blocked_op _ \<longleftrightarrow> False"

fun stat_step :: "statsState \<Rightarrow> string \<times> stat_op \<Rightarrow> statsState" where
  "stat_step s (t, StatTCP x m) = recordTCPStat t x m s"
| "stat_step s (t, StatUDP x m) = recordUDPStat t x m s"
| "stat_step s (t, StatDNS x r d) = recordDNSStat t x r d s"
| "stat_step s (t, StatBlocked k x) = recordBlockedStat t k x s"
| "stat_step s (t, StatFailed k x d) = recordFailedStat t k x d s"

lemmas stat_defs = recordTCPStat_def recordUDPStat_def recordDNSStat_def recordBlockedStat_def recordFailedStat_def
  recordStatEvent_def Let_def

definition how_many :: "(stat_op \<Rightarrow> bool) \<Rightarrow> (string \<times> stat_op) list \<Rightarrow> nat" where
  "how_many P h = length (filter (\<lambda>(t, op). P op) h)"

lemma stat_step_fields:
  "events (stat_step s (t, op)) = appendEvent (events s) (stat_event t op)"
  "tcpConnections (stat_step s (t, op)) = tcpConnections s + of_nat (how_many is_tcp_op [(t, op)])"
  "udpFlows (stat_step s (t, op)) = udpFlows s + of_nat (how_many is_udp_op [(t, op)])"
  "dnsQueries (stat_step s (t, op)) = dnsQueries s + of_nat (how_many is_dns_op [(t, op)])"
  "blockedRequests (stat_step s (t, op)) = blockedRequests s + of_nat (how_many is_blocked_op [(t, op)])"
  "failedRequests (stat_step s (t, op)) = failedRequests s + of_nat (how_many is_failed [(t, op)])"
  by (cases op; simp add: stat_defs how_many_def)+

lemma foldl_field:
  assumes "\<And>s x. g (f s x) = h (g s) (k x)"
  shows "g (foldl f s xs) = foldl h (g s) (map k xs)"
  using assms by (induction xs arbitrary: s) simp_all

lemma foldl_count:
  fixes g :: "'s \<Rightarrow> 64 word"
  assumes "\<And>s x. g (f s x) = g s + of_nat (how_many P [x])"
  shows "g (foldl f s xs) = g s + of_nat (how_many P xs)"
  using assms by (induction xs arbitrary: s) (auto simp: how_many_def)


lemma pushLog_keeps_newest: "foldl pushLog [] msgs = drop (length msgs - maxLogs) msgs"
  using core_log.pushes_newest [of "[]" msgs] by simp

end
