(* ===== verification/Steps.thy ===== *)
theory Steps
  imports Prelude
begin

text \<open>
  Concurrent parts of the program are step relations. Two interfaces collect what is proved of
  them once: a system with an inductive invariant, and one whose runs also end.
\<close>

locale invariant_system =
  fixes init :: "'s \<Rightarrow> bool" and step :: "'s \<Rightarrow> 's \<Rightarrow> bool" and inv :: "'s \<Rightarrow> bool"
  assumes init_inv: "init s \<Longrightarrow> inv s"
    and step_inv: "inv s \<Longrightarrow> step s s' \<Longrightarrow> inv s'"
begin

lemma steps_inv: "step\<^sup>*\<^sup>* s s' \<Longrightarrow> inv s \<Longrightarrow> inv s'"
  by (induction rule: rtranclp_induct) (auto intro: step_inv)

lemma reachable_inv: "init s \<Longrightarrow> step\<^sup>*\<^sup>* s s' \<Longrightarrow> inv s'"
  by (blast intro: steps_inv init_inv)

end

locale terminating_system = invariant_system +
  fixes mu :: "'a \<Rightarrow> nat" and final :: "'a \<Rightarrow> bool"
  assumes step_mu: "inv s \<Longrightarrow> step s s' \<Longrightarrow> mu s' < mu s"
    and progress: "inv s \<Longrightarrow> \<not> final s \<Longrightarrow> \<exists>s'. step s s'"
begin

lemma run_bounded: "(step ^^ n) s s' \<Longrightarrow> inv s \<Longrightarrow> inv s' \<and> mu s' + n \<le> mu s"
proof (induction n arbitrary: s')
  case (Suc n)
  then obtain t where t: "(step ^^ n) s t" "step t s'" by auto
  with Suc have "inv t" "mu t + n \<le> mu s" by auto
  with t(2) step_mu [of t s'] step_inv [of t s'] show ?case by auto
qed simp

lemma stuck_final: "init s \<Longrightarrow> step\<^sup>*\<^sup>* s s' \<Longrightarrow> \<nexists>s''. step s' s'' \<Longrightarrow> final s'"
  using reachable_inv progress by blast

lemma reaches_final: "inv s \<Longrightarrow> \<exists>s'. step\<^sup>*\<^sup>* s s' \<and> final s'"
proof (induction "mu s" arbitrary: s rule: less_induct)
  case less
  show ?case
  proof (cases "final s")
    case False
    then obtain t where t: "step s t" using less.prems progress by blast
    then obtain s' where "step\<^sup>*\<^sup>* t s'" "final s'"
      using less step_mu step_inv by blast
    with t show ?thesis by (meson converse_rtranclp_into_rtranclp)
  qed blast
qed

end

end
