(* ===== verification/PacketQueue.thy ===== *)
theory PacketQueue
  imports Steps
begin

text \<open>
  The packet connection of the Android tunnel, \<^verbatim>\<open>mobile/queued_packet_conn.go\<close>: packets read from the
  network by a goroutine and answers the resolver puts in itself go through one channel of 32
  places to the reader. Each operation is a step of a relation, with the choice Go's \<^verbatim>\<open>select\<close>
  makes between ready cases left open. Shown here: under every interleaving the reader gets the
  accepted packets in order, none twice and none lost, and the channel's bound holds.
\<close>

section \<open>State and steps\<close>

record queuedPacket =
  qpPayload :: bytes
  qpAddr :: string

record queuedPacketConn =
  qPackets :: "queuedPacket list"
  qClosed :: bool
  qDeadline :: "int option"    \<comment> \<open>\<^const>\<open>None\<close>: the zero time\<close>
  qPumping :: bool             \<comment> \<open>the goroutine of \<^verbatim>\<open>pumpBaseReads\<close> is running\<close>

definition queueCap :: nat where "queueCap = 32"

definition newQueuedPacketConn :: queuedPacketConn where
  "newQueuedPacketConn = \<lparr>qPackets = [], qClosed = False, qDeadline = None, qPumping = True\<rparr>"

definition SetReadDeadline :: "int option \<Rightarrow> queuedPacketConn \<Rightarrow> queuedPacketConn" where
  "SetReadDeadline t q = q\<lparr>qDeadline := t\<rparr>"

definition getReadDeadline :: "queuedPacketConn \<Rightarrow> int option" where "getReadDeadline q = qDeadline q"

text \<open>
  The operations that go to the underlying connection, which answers with \<open>base\<close>. Closing marks the queue closed once, whatever
  the underlying connection says; a deadline is set for the queue's reads and for the connection's writes.
\<close>

definition q_WriteTo :: "(bytes \<Rightarrow> string \<Rightarrow> go_error + nat) \<Rightarrow> bytes \<Rightarrow> string \<Rightarrow> go_error + nat" where
  "q_WriteTo base p addr = base p addr"

definition q_Close :: "go_error option \<Rightarrow> queuedPacketConn \<Rightarrow> go_error option \<times> queuedPacketConn" where
  "q_Close base q = (base, q\<lparr>qClosed := True\<rparr>)"

definition q_SetWriteDeadline :: "(int option \<Rightarrow> go_error option) \<Rightarrow> int option \<Rightarrow> queuedPacketConn \<Rightarrow> go_error option \<times> queuedPacketConn" where
  "q_SetWriteDeadline base t q = (base t, q)"

definition q_SetDeadline :: "(int option \<Rightarrow> go_error option) \<Rightarrow> int option \<Rightarrow> queuedPacketConn \<Rightarrow> go_error option \<times> queuedPacketConn" where
  "q_SetDeadline base t q = q_SetWriteDeadline base t (SetReadDeadline t q)"

text \<open>What a step shows: a packet accepted, a packet delivered into a buffer, or an error.\<close>

datatype q_event =
    Accepted queuedPacket
  | Delivered nat queuedPacket
  | Refused
  | ReadTimeout
  | ReadClosed
  | Silent

text \<open>
  \<open>full\<close>: a send on the channel waits. A read with a deadline that has passed returns without
  looking at the channel; one that waits may still time out.
\<close>

definition full :: "queuedPacketConn \<Rightarrow> bool" where
  "full q \<longleftrightarrow> queueCap \<le> length (qPackets q)"

inductive q_step :: "queuedPacketConn \<Rightarrow> q_event \<Rightarrow> queuedPacketConn \<Rightarrow> bool" where
  pump: "qPumping q \<Longrightarrow> \<not> full q \<Longrightarrow> q_step q (Accepted p) (q\<lparr>qPackets := qPackets q @ [p]\<rparr>)"
| pump_closed: "qPumping q \<Longrightarrow> qClosed q \<Longrightarrow> q_step q Silent (q\<lparr>qPumping := False\<rparr>)"
| pump_error: "qPumping q \<Longrightarrow> q_step q Silent (q\<lparr>qPumping := False\<rparr>)"
| enqueue: "\<not> full q \<Longrightarrow> q_step q (Accepted p) (q\<lparr>qPackets := qPackets q @ [p]\<rparr>)"
| enqueue_closed: "qClosed q \<Longrightarrow> q_step q Refused q"
| read: "qPackets q = p # ps \<Longrightarrow> q_step q (Delivered n p) (q\<lparr>qPackets := ps\<rparr>)"
| read_timeout: "qDeadline q \<noteq> None \<Longrightarrow> q_step q ReadTimeout q"
| read_closed: "qClosed q \<Longrightarrow> q_step q ReadClosed q"
| close: "q_step q Silent (q\<lparr>qClosed := True\<rparr>)"
| deadline: "q_step q Silent (SetReadDeadline t q)"

inductive_simps q_step_simps: "q_step q ev q'"

text \<open>\<^verbatim>\<open>ReadFrom\<close> on a given instant, for the cases that do not wait: the bytes copied and the address.\<close>

definition ReadFrom :: "int \<Rightarrow> nat \<Rightarrow> queuedPacketConn \<Rightarrow> (go_error + bytes \<times> string) option \<times> queuedPacketConn" where
  "ReadFrom clock n q =
     (if (case getReadDeadline q of Some t \<Rightarrow> t \<le> clock | None \<Rightarrow> False) then (Some (Inl TimeoutError), q)
      else case qPackets q of
        p # ps \<Rightarrow> (Some (Inr (take n (qpPayload p), qpAddr p)), q\<lparr>qPackets := ps\<rparr>)
      | [] \<Rightarrow> (if qClosed q then Some (Inl NetErrClosed) else None, q))"

text \<open>\<^verbatim>\<open>EnqueuePacket\<close>, for the cases that do not wait; \<^const>\<open>None\<close>: the caller waits.\<close>

definition EnqueuePacket :: "bytes \<Rightarrow> string \<Rightarrow> queuedPacketConn \<Rightarrow> go_error option option \<times> queuedPacketConn" where
  "EnqueuePacket payload addr q =
     (if \<not> full q then (Some None, q\<lparr>qPackets := qPackets q @ [\<lparr>qpPayload = payload, qpAddr = addr\<rparr>]\<rparr>)
      else if qClosed q then (Some (Some NetErrClosed), q) else (None, q))"

text \<open>The operations are steps.\<close>

lemma EnqueuePacket_step:
  "EnqueuePacket payload addr q = (Some r, q') \<Longrightarrow>
   q_step q (if r = None then Accepted \<lparr>qpPayload = payload, qpAddr = addr\<rparr> else Refused) q'"
  by (auto simp: EnqueuePacket_def intro: q_step.intros split: if_splits)

lemma ReadFrom_step:
  assumes "ReadFrom clock n q = (Some r, q')"
  shows "\<exists>ev. q_step q ev q' \<and> (\<forall>b a. r = Inr (b, a) \<longrightarrow> (\<exists>p. ev = Delivered n p \<and> b = take n (qpPayload p) \<and> a = qpAddr p))"
  using assms
  by (auto simp: ReadFrom_def getReadDeadline_def split: if_splits option.splits list.splits intro: q_step.intros)

lemma q_Close_step: "q_step q Silent (snd (q_Close base q))" "q_step q Silent (snd (q_SetDeadline wbase t q))"
  by (auto simp: q_Close_def q_SetDeadline_def q_SetWriteDeadline_def intro: q_step.intros)

text \<open>After a close, packets still queued can be read, and a reader that finds none gets an error instead of waiting.\<close>

lemma read_after_close:
  "ReadFrom clock n (snd (q_Close base q)) = (r, q') \<Longrightarrow> r \<noteq> None \<and> (getReadDeadline q = None \<and> qPackets q = [] \<longrightarrow> r = Some (Inl NetErrClosed))"
  by (auto simp: ReadFrom_def q_Close_def getReadDeadline_def split: if_splits list.splits option.splits)

section \<open>First in, first out\<close>

fun accepted :: "q_event \<Rightarrow> queuedPacket list" where "accepted (Accepted p) = [p]" | "accepted _ = []"
fun delivered_to :: "q_event \<Rightarrow> queuedPacket list" where "delivered_to (Delivered n p) = [p]" | "delivered_to _ = []"

text \<open>A run together with what was accepted and what was delivered in it.\<close>

type_synonym q_history = "queuedPacketConn \<times> queuedPacket list \<times> queuedPacket list"

definition h_step :: "q_history \<Rightarrow> q_history \<Rightarrow> bool" where
  "h_step = (\<lambda>(q, i, d) (q', i', d'). \<exists>ev. q_step q ev q' \<and> i' = i @ accepted ev \<and> d' = d @ delivered_to ev)"

definition h_inv :: "q_history \<Rightarrow> bool" where
  "h_inv = (\<lambda>(q, i, d). i = d @ qPackets q \<and> length (qPackets q) \<le> queueCap)"

interpretation pq: invariant_system "\<lambda>h. h = (newQueuedPacketConn, [], [])" h_step h_inv
proof
  show "h = (newQueuedPacketConn, [], []) \<Longrightarrow> h_inv h" for h
    by (simp add: h_inv_def newQueuedPacketConn_def)
  show "h_inv h \<Longrightarrow> h_step h h' \<Longrightarrow> h_inv h'" for h h'
    by (cases h; cases h')
      (auto simp: h_inv_def h_step_def q_step_simps full_def SetReadDeadline_def)
qed



end
