(* ===== verification/MobileProxy.thy ===== *)
theory MobileProxy
  imports TunConn MobileStats PacketQueue Framing
begin

text \<open>
  The Android dialler, \<^verbatim>\<open>mobile/lumine_proxy.go\<close> and \<^verbatim>\<open>mobile/dns_tcp_conn.go\<close>: what the tunnel's
  stack calls for every TCP connection and UDP datagram, and the resolver served over TCP.
  Shown here: DNS over TCP answers every query of a stream in order, and a datagram leaves the
  device only towards the target of its plan.
\<close>

section \<open>World\<close>

record mobile_world =
  mwPol :: world
  mwStats :: statsState
  mwQueue :: queuedPacketConn
  mwSent :: "(bytes \<times> string) list"     \<comment> \<open>datagrams sent to the network\<close>
  mwDials :: "string list"

definition on_policy :: "(world, 'a) io \<Rightarrow> (mobile_world, 'a) io" where
  "on_policy m w = (case m (mwPol w) of (r, x) \<Rightarrow> (r, w\<lparr>mwPol := x\<rparr>))"

definition stat :: "(statsState \<Rightarrow> statsState) \<Rightarrow> (mobile_world, unit) io" where
  "stat f w = (Ok (), w\<lparr>mwStats := f (mwStats w)\<rparr>)"

record udp_addr =
  uaIP :: "string option"
  uaPort :: int

text \<open>A DNS message, as far as the log lines read it; the library unpacks it.\<close>

datatype dnsRR = RR_A string | RR_AAAA string | RR_CNAME string | RR_HTTPS | RR_SVCB | RR_Other int

record dnsMsg =
  msgId :: int
  msgQuestion :: "(string \<times> int) list"
  msgAnswer :: "dnsRR list"
  msgRcode :: int

datatype net_addr = UDPAddr udp_addr | OtherAddr string

record metadata =
  mdIP :: "string option"      \<comment> \<open>\<^const>\<open>None\<close>: not a valid address\<close>
  mdPort :: int

record mobile_env =
  mePol :: penv
  meCodec :: mobile_codec
  meDial :: "string \<Rightarrow> int \<Rightarrow> go_error + net"           \<comment> \<open>the target and the timeout\<close>
  meClock :: string
  meUnpack :: "bytes \<Rightarrow> go_error + dnsMsg"
  meTypeName :: "int \<Rightarrow> string"                         \<comment> \<open>\<^verbatim>\<open>dns.TypeToString\<close>; empty: no entry\<close>
  meRcodeName :: "int \<Rightarrow> string"
  meResolveUDP :: "string \<Rightarrow> go_error + udp_addr"
  meParseAddrPort :: "string \<Rightarrow> string option"
  meAddrString :: "udp_addr \<Rightarrow> string"
  meSendUDP :: "bytes \<Rightarrow> udp_addr \<Rightarrow> go_error option"
  meBlockQuic :: bool
  meFormatMeta :: "metadata option \<Rightarrow> string"
  meAddrFormat :: "net_addr \<Rightarrow> string"

text \<open>The number of the next connection; the counter restarts at 0.\<close>

definition nextID :: "int \<Rightarrow> int \<times> int" where
  "nextID c = (let v = (c + 1) mod 2 ^ 32 in if v > 0xFFFFF then (0, 0) else (v, v))"

section \<open>Log lines\<close>

definition joinPlanLogMessage :: "string \<Rightarrow> DialPlan \<Rightarrow> string \<Rightarrow> string" where
  "joinPlanLogMessage network plan target =
     (let origin = (if RecoveredDomain plan \<noteq> [] then
            (if OriginPort plan > 0 then JoinHostPort (RecoveredDomain plan) (Itoa (OriginPort plan)) else RecoveredDomain plan)
          else OriginAddress plan) in
      network @ '' '' @ origin @ '' -> '' @ target @ '' mode='' @ Mode_String (Mode_of (planPolicy plan)))"

fun joinMore :: "string \<Rightarrow> string list \<Rightarrow> string" where
  "joinMore r [] = r"
| "joinMore r (p # ps) = joinMore (r @ '', '' @ p) ps"

definition joinAnswerParts :: "string list \<Rightarrow> string" where
  "joinAnswerParts parts = (case parts of [] \<Rightarrow> [] | p # ps \<Rightarrow> joinMore p ps)"

text \<open>The line about a plan and its level; \<^const>\<open>None\<close>: no rule took part and nothing is logged.\<close>

datatype logLevel = LevelDebug | LevelInfo

definition logDialPlan :: "string \<Rightarrow> DialPlan \<Rightarrow> string \<Rightarrow> (logLevel \<times> string) option" where
  "logDialPlan network plan target =
     (if \<not> MatchedDomain plan \<and> \<not> MatchedIP plan \<and> \<not> planBlocked plan then None
      else Some (if Mode_of (planPolicy plan) \<in> {ModeDirect, ModeRaw} then LevelDebug else LevelInfo,
                 joinPlanLogMessage network plan target))"

definition typeText :: "mobile_env \<Rightarrow> int \<Rightarrow> string" where
  "typeText env t = (if meTypeName env t = [] then ''TYPE'' @ Itoa t else meTypeName env t)"

fun answerPart :: "mobile_env \<Rightarrow> dnsRR \<Rightarrow> string" where
  "answerPart env (RR_A a) = ''A='' @ a"
| "answerPart env (RR_AAAA a) = ''AAAA='' @ a"
| "answerPart env (RR_CNAME t) = ''CNAME='' @ t"
| "answerPart env RR_HTTPS = ''HTTPS''"
| "answerPart env RR_SVCB = ''SVCB''"
| "answerPart env (RR_Other t) = typeText env t"

definition summarizeDNSAnswers :: "mobile_env \<Rightarrow> dnsRR list \<Rightarrow> string" where
  "summarizeDNSAnswers env answers =
     (if answers = [] then []
      else '' ['' @ joinAnswerParts (map (answerPart env) (take 3 answers)) @ '']'' @
        (if length answers > 3 then '' +'' @ Itoa (int (length answers) - 3) else []))"

definition summarizeDNSPacket :: "mobile_env \<Rightarrow> bytes \<Rightarrow> string" where
  "summarizeDNSPacket env payload =
     (case meUnpack env payload of
        Inl err \<Rightarrow> ''unpack_failed bytes='' @ Itoa (int (length payload)) @ '' err='' @ Error err
      | Inr msg \<Rightarrow>
          ''id='' @ Itoa (msgId msg) @
          (case msgQuestion msg of
             [] \<Rightarrow> '' questions=0''
           | (name, qtype) # _ \<Rightarrow> '' q='' @ name @ '' type='' @ typeText env qtype) @
          '' answers='' @ Itoa (int (length (msgAnswer msg))) @
          '' rcode='' @ meRcodeName env (msgRcode msg) @ summarizeDNSAnswers env (msgAnswer msg))"

section \<open>TCP\<close>

datatype mobile_conn = LocalDNSConn | PolicyConn DialPlan tunConn

text \<open>Dialling once the plan is known.\<close>

definition dialPlanned :: "mobile_env \<Rightarrow> string \<Rightarrow> DialPlan \<Rightarrow> (mobile_world, mobile_conn) io" where
  "dialPlanned env originHost plan =
     (if planBlocked plan then
        io_bind (stat (recordBlockedStat (meClock env) ''TCP'' originHost)) (\<lambda>_.
        io_fail (ErrorNew (''blocked by policy: '' @ originHost)))
      else
        let target = TargetAddress plan in
        io_bind (io_modify (mwDials_update (\<lambda>ds. ds @ [target]))) (\<lambda>_.
        case meDial env target (DefaultDialTimeout (planPolicy plan)) of
          Inl err \<Rightarrow> io_bind (stat (recordFailedStat (meClock env) ''TCP'' target (Error err))) (\<lambda>_. io_fail err)
        | Inr n \<Rightarrow>
            io_bind (stat (recordTCPStat (meClock env) target (Mode_String (Mode_of (planPolicy plan))))) (\<lambda>_.
            io_return (PolicyConn plan (WrapTCPConn n)))))"

definition DialContext :: "mobile_env \<Rightarrow> metadata option \<Rightarrow> (mobile_world, mobile_conn) io" where
  "DialContext env m =
     (case (case m of None \<Rightarrow> None | Some md \<Rightarrow> map_option (\<lambda>ip. (ip, mdPort md)) (mdIP md)) of
        None \<Rightarrow> io_fail (ErrorNew (''invalid tcp metadata: '' @ meFormatMeta env m))
      | Some (originHost, port) \<Rightarrow>
          if IsVPNDNSAddress originHost port then io_return LocalDNSConn
          else
            io_bind (io_try (on_policy (PlanRequest (mePol env) RequestSourceMobile originHost port))) (\<lambda>r.
            case r of
              Inl err \<Rightarrow> io_bind (stat (recordFailedStat (meClock env) ''TCP'' originHost (Error err))) (\<lambda>_. io_fail err)
            | Inr plan \<Rightarrow> dialPlanned env originHost plan))"

section \<open>UDP\<close>

definition addrText :: "mobile_env \<Rightarrow> net_addr \<Rightarrow> string" where
  "addrText env a = (case a of UDPAddr u \<Rightarrow> meAddrString env u | OtherAddr s \<Rightarrow> s)"

text \<open>\<^verbatim>\<open>DialUDP\<close>; \<open>open_err\<close> is the outcome of opening the socket.\<close>

definition DialUDP :: "mobile_env \<Rightarrow> go_error option \<Rightarrow> metadata option \<Rightarrow> go_error + queuedPacketConn" where
  "DialUDP env open_err m =
     (if (case m of None \<Rightarrow> True | Some md \<Rightarrow> mdIP md = None) then
        Inl (ErrorNew (''invalid udp metadata: '' @ meFormatMeta env m))
      else case open_err of Some err \<Rightarrow> Inl err | None \<Rightarrow> Inr newQueuedPacketConn)"

text \<open>
  The answer goes to the reader's queue, from the address that was asked. The result \<^const>\<open>None\<close>:
  the queue is full, and the call waits in \<^verbatim>\<open>EnqueuePacket\<close> until the reader takes a packet.
\<close>

definition handleDNSQuery :: "mobile_env \<Rightarrow> bytes \<Rightarrow> udp_addr \<Rightarrow> (mobile_world, int option) io" where
  "handleDNSQuery env payload addr =
     io_bind (io_try (on_policy (HandleDNSQueryPacket (mePol env) (meCodec env) payload))) (\<lambda>r.
     case r of
       Inl err \<Rightarrow> io_bind (stat (recordDNSStat (meClock env) (meAddrString env addr) ''failed'' (Error err))) (\<lambda>_. io_fail err)
     | Inr resp \<Rightarrow> (\<lambda>w.
         case EnqueuePacket resp (meAddrString env addr) (mwQueue w) of
           (Some (Some err), q) \<Rightarrow> (Fail err, w\<lparr>mwQueue := q\<rparr>)
         | (Some None, q) \<Rightarrow>
             io_bind (stat (recordDNSStat (meClock env) (summarizeDNSPacket env payload) ''ok'' (summarizeDNSPacket env resp))) (\<lambda>_.
             io_return (Some (int (length payload)))) (w\<lparr>mwQueue := q\<rparr>)
         | (None, q) \<Rightarrow> (Ok None, w\<lparr>mwQueue := q\<rparr>)))"

definition sendPlanned :: "mobile_env \<Rightarrow> bytes \<Rightarrow> string \<Rightarrow> DialPlan \<Rightarrow> (mobile_world, int option) io" where
  "sendPlanned env b originHost plan =
     (if planBlocked plan then
        io_bind (stat (recordBlockedStat (meClock env) ''UDP'' originHost)) (\<lambda>_.
        io_fail (ErrorNew (''blocked by policy: '' @ originHost)))
      else case meResolveUDP env (TargetAddress plan) of
        Inl err \<Rightarrow> io_bind (stat (recordFailedStat (meClock env) ''UDP'' (TargetAddress plan) (Error err))) (\<lambda>_. io_fail err)
      | Inr dst \<Rightarrow>
          io_bind (stat (recordUDPStat (meClock env) (meAddrString env dst) (Mode_String (Mode_of (planPolicy plan))))) (\<lambda>_ w.
          case meSendUDP env b dst of
            Some err \<Rightarrow> (Fail err, w)
          | None \<Rightarrow> (Ok (Some (int (length b))), w\<lparr>mwSent := mwSent w @ [(b, meAddrString env dst)]\<rparr>)))"

text \<open>The destination: the address as it prints, or the one of the UDP address.\<close>

definition dstIP :: "mobile_env \<Rightarrow> net_addr \<Rightarrow> udp_addr \<Rightarrow> string option" where
  "dstIP env addr udpAddr = (case meParseAddrPort env (addrText env addr) of Some ip \<Rightarrow> Some ip | None \<Rightarrow> uaIP udpAddr)"

definition WriteTo :: "mobile_env \<Rightarrow> bytes \<Rightarrow> net_addr \<Rightarrow> (mobile_world, int option) io" where
  "WriteTo env b addr =
     (case (case addr of UDPAddr u \<Rightarrow> Inr u | OtherAddr s \<Rightarrow> meResolveUDP env s) of
        Inl err \<Rightarrow> io_fail err
      | Inr udpAddr \<Rightarrow>
          case dstIP env addr udpAddr of
            None \<Rightarrow> io_fail (ErrorNew (''invalid udp destination: '' @ meAddrFormat env addr))
          | Some originHost \<Rightarrow>
              if IsVPNDNSAddress originHost (uaPort udpAddr) then handleDNSQuery env b udpAddr
              else if meBlockQuic env \<and> uaPort udpAddr = 443 then
                io_bind (stat (recordBlockedStat (meClock env) ''UDP'' (meAddrString env udpAddr))) (\<lambda>_. io_return (Some (int (length b))))
              else
                io_bind (io_try (on_policy (PlanRequest (mePol env) RequestSourceMobile originHost (uaPort udpAddr)))) (\<lambda>r.
                case r of
                  Inl err \<Rightarrow> io_bind (stat (recordFailedStat (meClock env) ''UDP'' originHost (Error err))) (\<lambda>_. io_fail err)
                | Inr plan \<Rightarrow> sendPlanned env b originHost plan))"

section \<open>DNS over TCP\<close>

definition frameDNS :: "bytes \<Rightarrow> bytes" where
  "frameDNS resp = put_uint16 (int (length resp)) @ resp"

text \<open>
  The serving loop on the bytes the client sends: the frames written and the state at the end.
  \<open>wr\<close> says whether the write after so many frames succeeds. Each round takes at least two bytes
  off the input.
\<close>

function serveLocalDNSTCP ::
  "mobile_env \<Rightarrow> (nat \<Rightarrow> bool) \<Rightarrow> bytes \<Rightarrow> bytes list \<Rightarrow> mobile_world \<Rightarrow> bytes list outcome \<times> mobile_world" where
  "serveLocalDNSTCP env wr inp out w =
     (if length inp < 2 then (Ok out, w)
      else
        let msgLen = nat (be16_val inp 0) in
        if msgLen = 0 then (Ok out, w)
        else if length (drop 2 inp) < msgLen then (Ok out, w)
        else
          let payload = take msgLen (drop 2 inp) in
          case on_policy (HandleDNSQueryPacket (mePol env) (meCodec env) payload) w of
            (Panic, w') \<Rightarrow> (Panic, w')
          | (Fail err, w') \<Rightarrow> (Ok out, snd (stat (recordDNSStat (meClock env) (summarizeDNSPacket env payload) ''failed'' (Error err)) w'))
          | (Ok resp, w') \<Rightarrow>
              if \<not> wr (length out) then (Ok out, w')
              else serveLocalDNSTCP env wr (drop (2 + msgLen) inp) (out @ [frameDNS resp])
                     (snd (stat (recordDNSStat (meClock env) (summarizeDNSPacket env payload) ''ok'' (summarizeDNSPacket env resp)) w')))"
  by pat_completeness auto
termination
  by (relation "measure (\<lambda>(env, wr, inp, out, w). length inp)") auto

declare serveLocalDNSTCP.simps [simp del]

section \<open>Every query is answered in order\<close>

text \<open>The frames as the client of the stream reads them.\<close>

definition unframeDNS :: "bytes \<Rightarrow> (bytes \<times> bytes) option" where
  "unframeDNS bs =
     (if length bs < 2 \<or> length bs - 2 < nat (be16_val bs 0) then None
      else Some (take (nat (be16_val bs 0)) (drop 2 bs), drop (2 + nat (be16_val bs 0)) bs))"

lemma be16_val_frameDNS:
  "length m < 65536 \<Longrightarrow> be16_val (frameDNS m @ rest) 0 = int (length m)"
  using be16_at_SomeD [OF be16_at_put [of "[]" "int (length m)" "m @ rest"]] by (simp add: frameDNS_def)

lemma length_frameDNS [simp]: "length (frameDNS m) = 2 + length m"
  by (simp add: frameDNS_def)

lemma drop_frameDNS [simp]:
  "drop 2 (frameDNS m @ rest) = m @ rest" "drop (2 + length m) (frameDNS m @ rest) = rest"
  "drop (Suc (Suc (length m))) (frameDNS m @ rest) = rest" "drop 2 (frameDNS m) = m"
  by (simp_all add: frameDNS_def put_uint16_def)

interpretation dns_tcp: framing "\<lambda>m. length m < 65536" frameDNS unframeDNS
proof
  show "length m < 65536 \<Longrightarrow> unframeDNS (frameDNS m @ rest) = Some (m, rest)" for m rest
    by (simp add: unframeDNS_def be16_val_frameDNS)
  show "length m < 65536 \<Longrightarrow> frameDNS m \<noteq> []" for m
    by (simp add: frameDNS_def put_uint16_def)
qed

text \<open>What the answers should be: each query put to the resolver in turn.\<close>

fun answerAll :: "mobile_env \<Rightarrow> bytes list \<Rightarrow> world \<Rightarrow> (bytes list \<times> world) option" where
  "answerAll env [] w = Some ([], w)"
| "answerAll env (q # qs) w =
     (case HandleDNSQueryPacket (mePol env) (meCodec env) q w of
        (Ok r, w') \<Rightarrow> map_option (\<lambda>(rs, w2). (r # rs, w2)) (answerAll env qs w')
      | _ \<Rightarrow> None)"

lemma mwPol_stat [simp]: "mwPol (snd (stat f w)) = mwPol w"
  by (simp add: stat_def)

lemma serve_all:
  assumes "\<forall>q \<in> set qs. q \<noteq> [] \<and> length q < 65536" and "\<And>k. wr k"
    and "answerAll env qs (mwPol w) = Some (rs, p)"
  shows "\<exists>w'. serveLocalDNSTCP env wr (concat (map frameDNS qs)) out w = (Ok (out @ map frameDNS rs), w') \<and> mwPol w' = p"
  using assms(1,3)
proof (induction qs arbitrary: out w rs)
  case Nil
  then show ?case by (simp add: serveLocalDNSTCP.simps)
next
  case (Cons q qs)
  from Cons.prems(2) obtain r p1 rs1 where h: "HandleDNSQueryPacket (mePol env) (meCodec env) q (mwPol w) = (Ok r, p1)"
    and rest: "answerAll env qs p1 = Some (rs1, p)" and rs: "rs = r # rs1"
    by (auto split: prod.splits outcome.splits)
  let ?w = "snd (stat (recordDNSStat (meClock env) (summarizeDNSPacket env q) ''ok'' (summarizeDNSPacket env r)) (w\<lparr>mwPol := p1\<rparr>))"
  have step: "serveLocalDNSTCP env wr (concat (map frameDNS (q # qs))) out w =
      serveLocalDNSTCP env wr (concat (map frameDNS qs)) (out @ [frameDNS r]) ?w"
    using Cons.prems(1) assms(2) h
    by (subst serveLocalDNSTCP.simps) (simp add: be16_val_frameDNS on_policy_def Let_def)
  show ?case
    unfolding step using Cons.IH [of ?w rs1 "out @ [frameDNS r]"] Cons.prems(1) rest rs by auto
qed

text \<open>
  C27: a stream of queries framed as DNS over TCP frames them, put to the hijacked resolver, gets
  exactly the resolver's answers, one for each query and in the queries' order, with the state
  left by resolving them in turn; and the client that reads the answers' stream gets them back
  frame by frame.
\<close>

theorem dns_tcp_in_order:
  assumes "\<forall>q \<in> set qs. q \<noteq> [] \<and> length q < 65536" and "\<And>k. wr k"
    and "answerAll env qs (mwPol w) = Some (rs, p)" and "\<forall>r \<in> set rs. length r < 65536"
  shows "\<exists>fs w'. serveLocalDNSTCP env wr (concat (map frameDNS qs)) [] w = (Ok fs, w') \<and> mwPol w' = p \<and>
      decode_frames unframeDNS (length (concat fs)) (concat fs) = Some rs"
proof -
  obtain w' where "serveLocalDNSTCP env wr (concat (map frameDNS qs)) [] w = (Ok (map frameDNS rs), w')" "mwPol w' = p"
    using serve_all [OF assms(1) _ assms(3), of wr "[]"] assms(2) by auto
  moreover have "decode_frames unframeDNS (length (concat (map frameDNS rs))) (concat (map frameDNS rs)) = Some rs"
    using dns_tcp.decode_frames_enc [of rs] assms(4) by auto
  ultimately show ?thesis by blast
qed

section \<open>Where datagrams go\<close>

lemma handleDNSQuery_sends_nothing: "handleDNSQuery env b u w = (r, w') \<Longrightarrow> mwSent w' = mwSent w"
  by (auto simp: handleDNSQuery_def io_bind_def io_try_def on_policy_def stat_def io_fail_def io_return_def
      split: prod.splits outcome.splits option.splits sum.splits)

lemma sendPlanned_sends:
  "sendPlanned env b host plan w = (r, w') \<Longrightarrow>
   mwSent w' = mwSent w \<or>
   \<not> planBlocked plan \<and> (\<exists>dst. meResolveUDP env (TargetAddress plan) = Inr dst \<and> meSendUDP env b dst = None \<and>
     r = Ok (Some (int (length b))) \<and> mwSent w' = mwSent w @ [(b, meAddrString env dst)])"
  by (auto simp: sendPlanned_def io_bind_def stat_def io_fail_def split: if_splits option.splits sum.splits)

text \<open>
  C26: a datagram handed to the tunnel leaves the device at most once, and only towards the
  resolved target of the plan made for its destination, unchanged, when that plan does not
  block; one for the resolver's own address, or for UDP port 443 while QUIC is blocked, never
  leaves it.
\<close>

theorem udp_only_to_plan:
  assumes "WriteTo env b addr w = (r, w')" and "mwSent w' \<noteq> mwSent w"
  shows "\<exists>u host plan p dst. (case addr of UDPAddr a \<Rightarrow> Inr a | OtherAddr s \<Rightarrow> meResolveUDP env s) = Inr u \<and> dstIP env addr u = Some host \<and>
     \<not> IsVPNDNSAddress host (uaPort u) \<and> \<not> (meBlockQuic env \<and> uaPort u = 443) \<and>
     PlanRequest (mePol env) RequestSourceMobile host (uaPort u) (mwPol w) = (Ok plan, p) \<and>
     \<not> planBlocked plan \<and> meResolveUDP env (TargetAddress plan) = Inr dst \<and>
     r = Ok (Some (int (length b))) \<and> mwSent w' = mwSent w @ [(b, meAddrString env dst)]"
proof -
  from assms obtain u host where u: "(case addr of UDPAddr a \<Rightarrow> Inr a | OtherAddr s \<Rightarrow> meResolveUDP env s) = Inr u"
    and v: "dstIP env addr u = Some host" "\<not> IsVPNDNSAddress host (uaPort u)" "\<not> (meBlockQuic env \<and> uaPort u = 443)"
    and k: "io_bind (io_try (on_policy (PlanRequest (mePol env) RequestSourceMobile host (uaPort u)))) (\<lambda>x.
        case x of
          Inl err \<Rightarrow> io_bind (stat (recordFailedStat (meClock env) ''UDP'' host (Error err))) (\<lambda>_. io_fail err)
        | Inr plan \<Rightarrow> sendPlanned env b host plan) w = (r, w')"
    by (auto simp: WriteTo_def io_fail_def io_bind_def stat_def io_return_def
        dest: handleDNSQuery_sends_nothing split: sum.splits option.splits if_splits)
  then obtain plan p where p: "PlanRequest (mePol env) RequestSourceMobile host (uaPort u) (mwPol w) = (Ok plan, p)"
    and s: "sendPlanned env b host plan (w\<lparr>mwPol := p\<rparr>) = (r, w')"
    using assms(2)
    by (auto simp: io_bind_def io_try_def on_policy_def stat_def io_fail_def split: prod.splits outcome.splits)
  from sendPlanned_sends [OF s] assms(2) u v p show ?thesis by auto
qed

section \<open>Concrete runs\<close>

definition upstream_codec :: mobile_codec where
  "upstream_codec = \<lparr>unpackReq = (\<lambda>_. Inr []), packReply = (\<lambda>_. Inr []), upstream = (\<lambda>b. Inr (b @ [0]))\<rparr>"

definition mobile_env_example :: mobile_env where
  "mobile_env_example = \<lparr>mePol = mobile_env, meCodec = upstream_codec, meDial = (\<lambda>_ _. Inl (ErrorNew ''refused'')), meClock = ''12:00:00'',
     meUnpack = (\<lambda>_. Inl (ErrorNew ''refused'')), meTypeName = (\<lambda>_. []), meRcodeName = (\<lambda>_. []),
     meResolveUDP = (\<lambda>s. if s = ''1.2.3.4:8080'' then Inr \<lparr>uaIP = Some ''1.2.3.4'', uaPort = 8080\<rparr> else Inl (ErrorNew ''refused'')),
     meParseAddrPort = (\<lambda>_. None), meAddrString = (\<lambda>u. case uaIP u of None \<Rightarrow> [] | Some ip \<Rightarrow> JoinHostPort ip (Itoa (uaPort u))),
     meSendUDP = (\<lambda>_ _. None), meBlockQuic = True, meFormatMeta = (\<lambda>_. []), meAddrFormat = (\<lambda>_. [])\<rparr>"

definition stats_start :: statsState where
  "stats_start = \<lparr>startedAt = 0, tcpConnections = 0, udpFlows = 0, dnsQueries = 0, blockedRequests = 0, failedRequests = 0, events = []\<rparr>"

definition mobile_start :: mobile_world where
  "mobile_start = \<lparr>mwPol = rememberMobileDNSMapping mobile_env ''1.2.3.4'' ''a.io'' mobileDNSAnswerTTL world_start,
     mwStats = stats_start, mwQueue = newQueuedPacketConn, mwSent = [], mwDials = []\<rparr>"

lemma answerAll_example:
  "answerAll mobile_env_example [[1, 2], [3]] w = Some ([[1, 2, 0], [3, 0]], w)"
  by (simp add: mobile_env_example_def upstream_codec_def HandleDNSQueryPacket_def handleConfiguredMobileDNS_def
      io_sum_def io_bind_def io_return_def)

theorem dns_tcp_in_order_witness:
  "\<exists>fs w'. serveLocalDNSTCP mobile_env_example (\<lambda>_. True) (concat (map frameDNS [[1, 2], [3]])) [] mobile_start = (Ok fs, w') \<and>
     decode_frames unframeDNS (length (concat fs)) (concat fs) = Some [[1, 2, 0], [3, 0]]"
  using dns_tcp_in_order [OF _ _ answerAll_example, of "\<lambda>_. True" mobile_start] by auto

lemma hostport_example: "JoinHostPort ''1.2.3.4'' (Itoa 8080) = ''1.2.3.4:8080''"
  by (simp add: JoinHostPort_def Itoa_def nat_digits.simps char_of_def bit_0)

lemma plan_example:
  "\<exists>plan. PlanRequest mobile_env RequestSourceMobile ''1.2.3.4'' 8080 (mwPol mobile_start) = (Ok plan, mwPol mobile_start) \<and>
     \<not> planBlocked plan \<and> TargetAddress plan = ''1.2.3.4:8080''"
proof -
  have e: "eParseIP mobile_env ''1.2.3.4'' = Some addr_example" by (simp add: mobile_env_def)
  have w: "mwPol mobile_start = rememberMobileDNSMapping mobile_env ''1.2.3.4'' ''a.io'' mobileDNSAnswerTTL world_start"
    by (simp add: mobile_start_def)
  then have t: "wNow (mwPol mobile_start) = wNow world_start"
    by (simp add: rememberMobileDNSMapping_def split: option.split)
  then have "lookupMobileDNSMapping mobile_env ''1.2.3.4'' (mwPol mobile_start) = (Some ''a.io'', mwPol mobile_start)"
    using lookup_after_remember [OF e, of "''a.io''" "mwPol mobile_start" mobileDNSAnswerTTL world_start] w
    by (simp add: clampTTL_def mobileDNSAnswerTTL_def)
  moreover obtain p where "genPolicy mobile_env ''a.io'' False False (mwPol mobile_start) = (Ok (GenOk ''1.2.3.4'' p), mwPol mobile_start)"
    "Port p \<le> 0"
    using genPolicy_mobile_env by blast
  ultimately show ?thesis
    by (simp add: PlanRequest_def e planOf_def io_bind_def Let_def io_return_def TargetAddress_def hostport_example)
qed

theorem udp_only_to_plan_witness:
  "\<exists>r w'. WriteTo mobile_env_example [7] (UDPAddr \<lparr>uaIP = Some ''1.2.3.4'', uaPort = 8080\<rparr>) mobile_start = (r, w') \<and>
     r = Ok (Some 1) \<and> mwSent w' = [([7], ''1.2.3.4:8080'')]"
proof -
  let ?a = "UDPAddr \<lparr>uaIP = Some ''1.2.3.4'', uaPort = 8080\<rparr>"
  obtain r w' where w: "WriteTo mobile_env_example [7] ?a mobile_start = (r, w')" by fastforce
  have sent: "mwSent w' \<noteq> mwSent mobile_start"
  proof -
    obtain plan where p: "PlanRequest mobile_env RequestSourceMobile ''1.2.3.4'' 8080 (mwPol mobile_start) = (Ok plan, mwPol mobile_start)"
      "\<not> planBlocked plan" "TargetAddress plan = ''1.2.3.4:8080''"
      using plan_example by blast
    with w show ?thesis
      by (auto simp: WriteTo_def mobile_env_example_def IsVPNDNSAddress_def vpnDNSIPv4Addr_def io_bind_def io_try_def
          on_policy_def sendPlanned_def stat_def dstIP_def)
  qed
  from udp_only_to_plan [OF w sent] show ?thesis
    using w by (auto simp: mobile_env_example_def mobile_start_def hostport_example split: if_splits)
qed

end
