(* ===== verification/Engine.thy ===== *)
theory Engine
  imports GoIO Json
begin

text \<open>
  The packet engine's lifecycle, \<^verbatim>\<open>tun2socks/engine/engine.go\<close>, \<^verbatim>\<open>engine/parse.go\<close>,
  \<^verbatim>\<open>engine/key.go\<close> and \<^verbatim>\<open>core/device/fdbased/fd_unix.go\<close>: from a key of settings to a proxy, a
  device and a network stack, and back. URLs, devices, the stack and the system are arguments.
\<close>

section \<open>Text\<close>

definition Contains :: "string \<Rightarrow> string \<Rightarrow> bool" where
  "Contains s p \<longleftrightarrow> list_ex (\<lambda>i. HasPrefix (drop i s) p) [0..<Suc (length s)]"

text \<open>\<^verbatim>\<open>strings.Split\<close> at one character; \<^verbatim>\<open>strings.SplitN(s, c, 2)\<close>: the text before and after the first.\<close>

fun split_on :: "char \<Rightarrow> string \<Rightarrow> string list" where
  "split_on c [] = [[]]"
| "split_on c (x # xs) =
     (case split_on c xs of
        [] \<Rightarrow> [[x]]
      | y # ys \<Rightarrow> if x = c then [] # y # ys else (x # y) # ys)"

definition split_two :: "char \<Rightarrow> string \<Rightarrow> (string \<times> string) option" where
  "split_two c s = (if c \<in> set s then Some (takeWhile (\<lambda>x. x \<noteq> c) s, tl (dropWhile (\<lambda>x. x \<noteq> c) s)) else None)"

definition is_space :: "char \<Rightarrow> bool" where
  "is_space c \<longleftrightarrow> (of_char c :: nat) \<in> {9, 10, 11, 12, 13, 32}"

definition TrimSpace :: "string \<Rightarrow> string" where
  "TrimSpace s = rev (dropWhile is_space (rev (dropWhile is_space s)))"

text \<open>\<^verbatim>\<open>strconv.Atoi\<close>: an optional sign and digits, in the range of 64 bits.\<close>

definition Atoi :: "string \<Rightarrow> int option" where
  "Atoi s =
     (let (neg, d) = (case s of c # r \<Rightarrow> if c = CHR ''-'' then (True, r) else if c = CHR ''+'' then (False, r) else (False, s) | [] \<Rightarrow> (False, []));
          v = (if neg then - digits_val d else digits_val d) in
      if d = [] \<or> \<not> list_all is_digit d \<or> v < - (2 ^ 63) \<or> 2 ^ 63 - 1 < v then None else Some v)"

lemma list_all_nat_digits: "list_all is_digit (nat_digits n)"
  by (auto simp: list_all_iff intro: nat_digits_are_digits)

lemma Atoi_Itoa:
  assumes "0 \<le> i" and "i < 2 ^ 63"
  shows "Atoi (Itoa i) = Some i"
proof -
  obtain c r where cr: "nat_digits (nat i) = c # r" using nat_digits_nonempty [of "nat i"] by (cases "nat_digits (nat i)") auto
  with list_all_nat_digits [of "nat i"] have c: "is_digit c" by simp
  have "\<not> is_digit (CHR ''-'')" "\<not> is_digit (CHR ''+'')" by (simp_all add: is_digit_def)
  with c have "c \<noteq> CHR ''-''" "c \<noteq> CHR ''+''" by blast+
  with cr assms show ?thesis
    using list_all_nat_digits [of "nat i"] digits_val_nat_digits [of "nat i"]
    by (simp add: Atoi_def Itoa_def Let_def)
qed

section \<open>Settings, proxies and devices\<close>

record Key =
  kMTU :: int
  kMark :: int
  kProxy :: string
  kRestAPI :: string
  kDevice :: string
  kLogLevel :: string
  kInterface :: string
  kModerate :: bool
  kSendBuffer :: string
  kReceiveBuffer :: string
  kMulticast :: string
  kPreUp :: string
  kPostUp :: string
  kUDPTimeout :: int

text \<open>A parsed URL; the user part is its text, the name and the password if one is set.\<close>

record userinfo =
  uiText :: string
  uiName :: string
  uiPassword :: "string option"

record url =
  urlScheme :: string
  urlHost :: string
  urlUser :: userinfo
  urlPath :: string
  urlQuery :: string

datatype proxy =
    PDirect
  | PReject
  | PHTTP string string string
  | PSocks4 string string
  | PSocks5 string string string bool
  | PShadowsocks string string string string string
  | PRelay string string string bool
  | PCustom string

datatype device = FDDevice int int | TUNDevice string int

datatype stack_option = ModerateReceiveBuffer bool | SendBufferSize int | ReceiveBufferSize int

record stack =
  stDevice :: device
  stGroups :: "string list"
  stOptions :: "stack_option list"

record engine =
  defaultKey :: "Key option"
  customProxy :: "proxy option"
  defaultProxy :: "proxy option"
  defaultDevice :: "device option"
  defaultStack :: "stack option"
  stackRunning :: bool
  tunnelDialer :: "proxy option"
  tunnelTimeout :: int
  boundInterface :: "(string \<times> int) option"
  routingMark :: int
  restServer :: "(string \<times> string) option"
  ranCommands :: "string list"
  closedDevices :: "device list"

record engine_env =
  eeLevel :: "string \<Rightarrow> go_error option"
  eeInterface :: "string \<Rightarrow> go_error + string \<times> int"
  eeURL :: "string \<Rightarrow> go_error + url"
  eeResolveTCP :: "string \<Rightarrow> go_error + string option \<times> int"
  eeBase64 :: "string \<Rightarrow> string"
  eeUnescape :: "string \<Rightarrow> string"
  eeNoDelay :: "url \<Rightarrow> go_error + bool"           \<comment> \<open>the schema decoder\<close>
  eePickCipher :: "string \<Rightarrow> string \<Rightarrow> go_error option"
  eeFdNew :: "int \<Rightarrow> int \<Rightarrow> go_error option"       \<comment> \<open>the link endpoint on a descriptor\<close>
  eeTunOpen :: "string \<Rightarrow> int \<Rightarrow> go_error option"
  eeParseAddr :: "string \<Rightarrow> go_error + string \<times> bool" \<comment> \<open>its text and whether it is multicast\<close>
  eeRAM :: "string \<Rightarrow> go_error + int"
  eeCreateStack :: "stack \<Rightarrow> go_error option"

section \<open>Parsing\<close>

definition with_scheme :: "string \<Rightarrow> string \<Rightarrow> string" where
  "with_scheme scheme s = (if Contains s ''://'' then s else scheme @ ''://'' @ s)"

definition parseRestAPI :: "engine_env \<Rightarrow> string \<Rightarrow> go_error + url" where
  "parseRestAPI env s =
     sum_bind (eeURL env (with_scheme ''http'' s)) (\<lambda>u.
     sum_bind (eeResolveTCP env (urlHost u)) (\<lambda>(ip, port).
     let u = u\<lparr>urlHost := (case ip of None \<Rightarrow> ''0.0.0.0'' | Some a \<Rightarrow> a) @ '':'' @ Itoa port\<rparr> in
     if urlScheme u = ''http'' then Inr u else Inl (ErrorNew (''unsupported scheme: '' @ urlScheme u))))"

definition fdOpen :: "engine_env \<Rightarrow> string \<Rightarrow> int \<Rightarrow> go_error + device" where
  "fdOpen env name mtu =
     (case Atoi name of
        None \<Rightarrow> Inl (ErrorNew (''cannot open fd: '' @ name))
      | Some fd \<Rightarrow>
          let mtu = (if mtu = 0 then 1500 else mtu) in
          case eeFdNew env fd mtu of
            Some err \<Rightarrow> Inl (opError ''create endpoint'' err)
          | None \<Rightarrow> Inr (FDDevice fd mtu))"

definition parseDevice :: "engine_env \<Rightarrow> string \<Rightarrow> int \<Rightarrow> go_error + device" where
  "parseDevice env s mtu =
     sum_bind (eeURL env (with_scheme ''tun'' s)) (\<lambda>u.
     let driver = ToLower (urlScheme u) in
     if driver = ''fd'' then fdOpen env (urlHost u) mtu
     else if driver = ''tun'' then
       (case eeTunOpen env (urlHost u) mtu of Some err \<Rightarrow> Inl err | None \<Rightarrow> Inr (TUNDevice (urlHost u) mtu))
     else Inl (ErrorNew (''unsupported driver: '' @ driver)))"

text \<open>
  \<^verbatim>\<open>NewSocks5\<close>. The condition reads \<open>(len > 2 && addr[1] == '@') || addr[1] == 0\<close>, so an address of
  fewer than two characters is indexed out of range.
\<close>

definition NewSocks5 :: "string \<Rightarrow> string \<Rightarrow> string \<Rightarrow> ('w, proxy) io" where
  "NewSocks5 a user pass =
     (let unix = (a \<noteq> [] \<and> a ! 0 = CHR ''/'') in
      if length a > 2 \<and> a ! 1 = CHR ''@'' then io_return (PSocks5 (drop 1 a) user pass unix)
      else io_bind (io_option (go_index a 1)) (\<lambda>c.
        io_return (PSocks5 (if c = CHR 0x00 then drop 1 a else a) user pass unix)))"

definition parseSocks5 :: "url \<Rightarrow> ('w, proxy) io" where
  "parseSocks5 u =
     NewSocks5 (if urlHost u = [] then urlPath u else urlHost u) (uiName (urlUser u))
       (case uiPassword (urlUser u) of None \<Rightarrow> [] | Some p \<Rightarrow> p)"

definition ss_userinfo :: "engine_env \<Rightarrow> userinfo \<Rightarrow> string \<times> string" where
  "ss_userinfo env ui =
     (if uiText ui = [] then (''dummy'', [])
      else case uiPassword ui of
        Some pass \<Rightarrow> (uiName ui, pass)
      | None \<Rightarrow> (case split_two (CHR '':'') (eeBase64 env (uiText ui)) of None \<Rightarrow> ([], []) | Some mp \<Rightarrow> mp))"

fun ss_obfs :: "string list \<Rightarrow> string \<times> string \<Rightarrow> string \<times> string" where
  "ss_obfs [] mh = mh"
| "ss_obfs (s # ss) (mode, host) =
     ss_obfs ss
       (case split_two (CHR ''='') s of
          None \<Rightarrow> (mode, host)
        | Some (key, v) \<Rightarrow> if key = ''obfs'' then (v, host) else if key = ''obfs-host'' then (mode, v) else (mode, host))"

definition parseShadowsocks :: "engine_env \<Rightarrow> url \<Rightarrow> go_error + proxy" where
  "parseShadowsocks env u =
     (let (method, password) = ss_userinfo env (urlUser u);
          (obfsMode, obfsHost) = ss_obfs (split_on (CHR '';'') (eeUnescape env (urlQuery u))) ([], []) in
      case eePickCipher env method password of
        Some err \<Rightarrow> Inl (opError ''ss initialize'' err)
      | None \<Rightarrow> Inr (PShadowsocks (urlHost u) method password obfsMode obfsHost))"

definition parseRelay :: "engine_env \<Rightarrow> url \<Rightarrow> go_error + proxy" where
  "parseRelay env u =
     sum_bind (eeNoDelay env u) (\<lambda>noDelay.
     Inr (PRelay (urlHost u) (uiName (urlUser u)) (case uiPassword (urlUser u) of None \<Rightarrow> [] | Some p \<Rightarrow> p) noDelay))"

definition io_of_sum :: "go_error + 'a \<Rightarrow> ('w, 'a) io" where
  "io_of_sum r = (case r of Inl e \<Rightarrow> io_fail e | Inr x \<Rightarrow> io_return x)"

definition parseProxy :: "engine_env \<Rightarrow> string \<Rightarrow> ('w, proxy) io" where
  "parseProxy env s =
     io_bind (io_of_sum (eeURL env (with_scheme ''socks5'' s))) (\<lambda>u.
     let protocol = ToLower (urlScheme u); ui = urlUser u; pass = (case uiPassword ui of None \<Rightarrow> [] | Some p \<Rightarrow> p) in
     if protocol = ''direct'' then io_return PDirect
     else if protocol = ''reject'' then io_return PReject
     else if protocol = ''http'' then io_return (PHTTP (urlHost u) (uiName ui) pass)
     else if protocol = ''socks4'' then io_return (PSocks4 (urlHost u) (uiName ui))
     else if protocol = ''socks5'' then parseSocks5 u
     else if protocol = ''ss'' then io_of_sum (parseShadowsocks env u)
     else if protocol = ''relay'' then io_of_sum (parseRelay env u)
     else io_fail (ErrorNew (''unsupported protocol: '' @ protocol)))"

fun multicast_loop :: "engine_env \<Rightarrow> string list \<Rightarrow> string list \<Rightarrow> go_error + string list" where
  "multicast_loop env [] groups = Inr groups"
| "multicast_loop env (s # ss) groups =
     (let ip = TrimSpace s in
      if ip = [] then multicast_loop env ss groups
      else sum_bind (eeParseAddr env ip) (\<lambda>(a, multicast).
        if \<not> multicast then Inl (ErrorNew (''invalid multicast IP: '' @ a))
        else multicast_loop env ss (groups @ [a])))"

definition parseMulticastGroups :: "engine_env \<Rightarrow> string \<Rightarrow> go_error + string list" where
  "parseMulticastGroups env s = multicast_loop env (split_on (CHR '','') s) []"

section \<open>Starting and stopping\<close>

definition eng :: "(engine \<Rightarrow> engine) \<Rightarrow> (engine, unit) io" where
  "eng f e = (Ok (), f e)"

definition general :: "engine_env \<Rightarrow> Key \<Rightarrow> (engine, unit) io" where
  "general env k =
     (case eeLevel env (kLogLevel k) of
        Some err \<Rightarrow> io_fail err
      | None \<Rightarrow>
          io_bind (if kInterface k \<noteq> [] then
              io_bind (io_of_sum (eeInterface env (kInterface k))) (\<lambda>i. eng (boundInterface_update (\<lambda>_. Some i)))
            else io_return ()) (\<lambda>_.
          io_bind (if kMark k \<noteq> 0 then eng (routingMark_update (\<lambda>_. (kMark k + 2 ^ 31) mod 2 ^ 32 - 2 ^ 31)) else io_return ()) (\<lambda>_.
          if kUDPTimeout k > 0 then
            (if kUDPTimeout k < 1000000000 then io_fail (ErrorNew ''invalid udp timeout value'')
             else eng (tunnelTimeout_update (\<lambda>_. kUDPTimeout k)))
          else io_return ())))"

definition restAPI :: "engine_env \<Rightarrow> Key \<Rightarrow> (engine, unit) io" where
  "restAPI env k =
     (if kRestAPI k \<noteq> [] then
        io_bind (io_of_sum (parseRestAPI env (kRestAPI k))) (\<lambda>u.
        eng (restServer_update (\<lambda>_. Some (urlHost u, uiText (urlUser u)))))
      else io_return ())"

text \<open>An assignment \<open>x, err = f()\<close>: the variable gets the zero value when \<open>f\<close> fails.\<close>

definition assign :: "('a option \<Rightarrow> engine \<Rightarrow> engine) \<Rightarrow> go_error + 'a \<Rightarrow> (engine, 'a) io" where
  "assign upd r = (case r of
       Inl err \<Rightarrow> io_bind (eng (upd None)) (\<lambda>_. io_fail err)
     | Inr x \<Rightarrow> io_bind (eng (upd (Some x))) (\<lambda>_. io_return x))"

definition buffer_option :: "engine_env \<Rightarrow> (int \<Rightarrow> stack_option) \<Rightarrow> string \<Rightarrow> go_error + stack_option list" where
  "buffer_option env mk s = (if s = [] then Inr [] else sum_bind (eeRAM env s) (\<lambda>n. Inr [mk n]))"

definition stackOptions :: "engine_env \<Rightarrow> Key \<Rightarrow> go_error + stack_option list" where
  "stackOptions env k =
     sum_bind (buffer_option env SendBufferSize (kSendBuffer k)) (\<lambda>snd.
     sum_bind (buffer_option env ReceiveBufferSize (kReceiveBuffer k)) (\<lambda>rcv.
     Inr ((if kModerate k then [ModerateReceiveBuffer True] else []) @ snd @ rcv)))"

definition netstack_proxy :: "engine_env \<Rightarrow> Key \<Rightarrow> (engine, unit) io" where
  "netstack_proxy env k e =
     (case customProxy e of
        Some p \<Rightarrow> (Ok (), e\<lparr>defaultProxy := Some p, tunnelDialer := Some p\<rparr>)
      | None \<Rightarrow>
          (case parseProxy env (kProxy k) e of
             (Ok p, e') \<Rightarrow> (Ok (), e'\<lparr>defaultProxy := Some p, tunnelDialer := Some p\<rparr>)
           | (Fail err, e') \<Rightarrow> (Fail err, e'\<lparr>defaultProxy := None\<rparr>)
           | (Panic, e') \<Rightarrow> (Panic, e')))"

definition netstack_stack :: "engine_env \<Rightarrow> Key \<Rightarrow> (engine, unit) io" where
  "netstack_stack env k =
     io_bind (assign (\<lambda>d. defaultDevice_update (\<lambda>_. d)) (parseDevice env (kDevice k) (kMTU k mod 2 ^ 32))) (\<lambda>dev.
     io_bind (io_of_sum (parseMulticastGroups env (kMulticast k))) (\<lambda>groups.
     io_bind (io_of_sum (stackOptions env k)) (\<lambda>opts.
     let st = \<lparr>stDevice = dev, stGroups = groups, stOptions = opts\<rparr> in
     io_bind (assign (\<lambda>s. defaultStack_update (\<lambda>_. s)) (case eeCreateStack env st of Some err \<Rightarrow> Inl err | None \<Rightarrow> Inr st)) (\<lambda>_.
     eng (stackRunning_update (\<lambda>_. True))))))"

definition run_command :: "string \<Rightarrow> (engine, unit) io" where
  "run_command c = (if c = [] then io_return () else eng (ranCommands_update (\<lambda>cs. cs @ [c])))"

definition netstack :: "engine_env \<Rightarrow> Key \<Rightarrow> (engine, unit) io" where
  "netstack env k e =
     (if kProxy k = [] \<and> customProxy e = None then (Fail (ErrorNew ''empty proxy''), e)
      else if kDevice k = [] then (Fail (ErrorNew ''empty device''), e)
      else
        io_bind (run_command (kPreUp k)) (\<lambda>_.
        io_bind (netstack_proxy env k) (\<lambda>_.
        io_bind (netstack_stack env k) (\<lambda>_.
        run_command (kPostUp k)))) e)"

definition start :: "engine_env \<Rightarrow> (engine, unit) io" where
  "start env e =
     (case defaultKey e of
        None \<Rightarrow> (Fail (ErrorNew ''empty key''), e)
      | Some k \<Rightarrow> io_each (\<lambda>f. f env k) [general, restAPI, netstack] e)"

text \<open>The device and the stack stay recorded after they are closed.\<close>

definition stop :: "engine \<Rightarrow> engine" where
  "stop e =
     (let e = (case defaultDevice e of None \<Rightarrow> e | Some d \<Rightarrow> e\<lparr>closedDevices := closedDevices e @ [d]\<rparr>) in
      case defaultStack e of None \<Rightarrow> e | Some _ \<Rightarrow> e\<lparr>stackRunning := False\<rparr>)"

definition Insert :: "Key \<Rightarrow> engine \<Rightarrow> engine" where "Insert k e = e\<lparr>defaultKey := Some k\<rparr>"
definition SetCustomProxy :: "proxy \<Rightarrow> engine \<Rightarrow> engine" where "SetCustomProxy p e = e\<lparr>customProxy := Some p\<rparr>"
definition ClearCustomProxy :: "engine \<Rightarrow> engine" where "ClearCustomProxy e = e\<lparr>customProxy := None\<rparr>"

end
