(* ===== verification/MobileApi.thy ===== *)
theory MobileApi
  imports Engine MobileStats Steps "HOL-Library.Multiset"
begin

text \<open>
  The calls the Android app makes, \<^verbatim>\<open>mobile/mobile_api.go\<close>: the working directory, starting and
  stopping, over the engine. Shown here, for every sequence of calls: the running flag, the
  stack, the proxy override, the log writer and the pools' monitors agree, and every tunnel
  descriptor the library has accepted is closed exactly once or is the one in use.
\<close>

section \<open>State and calls\<close>

record api =
  workingDir :: string
  isRunning :: bool
  apiEngine :: engine
  logWriter :: bool
  monitors :: bool
  logEntries :: "string list"
  apiStats :: statsState
  quicBlocked :: bool
  closedFDs :: "int list"          \<comment> \<open>descriptors closed by \<^verbatim>\<open>closeUnusedFD\<close>\<close>

text \<open>
  The core's calls: loading the configuration gives its error, if any, and may start the pools'
  monitors before it fails.
\<close>

record api_env =
  aeEngine :: engine_env
  aeJoin :: "string \<Rightarrow> string \<Rightarrow> string"
  aeLoadConfig :: "string \<Rightarrow> go_error option \<times> bool"
  aeLogLine :: "string \<Rightarrow> string"
  aeNow :: int

definition closeUnusedFD :: "int \<Rightarrow> api \<Rightarrow> api" where
  "closeUnusedFD fd a = (if fd < 0 then a else a\<lparr>closedFDs := closedFDs a @ [fd]\<rparr>)"

definition stopCore :: "api \<Rightarrow> api" where
  "stopCore a = a\<lparr>apiEngine := ClearCustomProxy (apiEngine a), monitors := False, logWriter := False\<rparr>"

definition mobileKey :: "int \<Rightarrow> Key" where
  "mobileKey fd = \<lparr>kMTU = 1500, kMark = 0, kProxy = [], kRestAPI = [], kDevice = ''fd://'' @ Itoa fd, kLogLevel = ''info'',
     kInterface = [], kModerate = False, kSendBuffer = [], kReceiveBuffer = [], kMulticast = [], kPreUp = [], kPostUp = [],
     kUDPTimeout = 0\<rparr>"

definition LumineProxy :: proxy where "LumineProxy = PCustom ''lumine''"

definition prepareStart :: "api_env \<Rightarrow> api \<Rightarrow> api" where
  "prepareStart env a =
     a\<lparr>logEntries := pushLog [] (aeLogLine env ''Lumine mobile starting...''), apiStats := resetStats (aeNow env) (apiStats a),
       logWriter := True\<rparr>"

definition StartLumine :: "api_env \<Rightarrow> int \<Rightarrow> string \<Rightarrow> (api, string) io" where
  "StartLumine env fd configName a =
     (if workingDir a = [] then (Ok ''working directory not set'', a)
      else if isRunning a then (Ok [], closeUnusedFD fd a)
      else
        let a = prepareStart env a;
            (err, started) = aeLoadConfig env (aeJoin env (workingDir a) (configName @ ''.json''));
            a = a\<lparr>monitors := monitors a \<or> started\<rparr> in
        case err of
          Some err \<Rightarrow> (Ok (''load config error: '' @ Error err), stopCore a)
        | None \<Rightarrow>
            (case start (aeEngine env) (Insert (mobileKey fd) (SetCustomProxy LumineProxy (apiEngine a))) of
               (Ok _, e) \<Rightarrow> (Ok [], a\<lparr>apiEngine := e, isRunning := True\<rparr>)
             | (Fail err, e) \<Rightarrow> (Ok (''engine start error: '' @ Error err), stopCore (a\<lparr>apiEngine := e\<rparr>))
             | (Panic, e) \<Rightarrow> (Panic, stopCore (a\<lparr>apiEngine := e\<rparr>))))"

text \<open>The engine's \<^verbatim>\<open>stop\<close> never reports an error.\<close>

definition StopLumine :: "api \<Rightarrow> api" where
  "StopLumine a =
     (if \<not> isRunning a then a
      else (stopCore (a\<lparr>apiEngine := stop (apiEngine a)\<rparr>))\<lparr>isRunning := False\<rparr>)"

definition SetWorkingDir :: "string \<Rightarrow> api \<Rightarrow> api" where "SetWorkingDir dir a = a\<lparr>workingDir := dir\<rparr>"
definition SetBlockQuic :: "bool \<Rightarrow> api \<Rightarrow> api" where "SetBlockQuic b a = a\<lparr>quicBlocked := b\<rparr>"

definition CheckConfig :: "(string \<Rightarrow> go_error option) \<Rightarrow> string \<Rightarrow> string" where
  "CheckConfig validate content = (case validate content of None \<Rightarrow> [] | Some err \<Rightarrow> ''invalid config: '' @ Error err)"

text \<open>The logger's writer appends to the log and never fails.\<close>

definition LogWriter_Write :: "string \<Rightarrow> api \<Rightarrow> (go_error + nat) \<times> api" where
  "LogWriter_Write p a = (Inr (length p), a\<lparr>logEntries := pushLog (logEntries a) p\<rparr>)"

definition IsRunning :: "api \<Rightarrow> bool" where "IsRunning a = isRunning a"
definition GetVersion :: "string \<Rightarrow> string" where "GetVersion version = version @ ''-android-original''"

definition HelloSplice :: "string \<Rightarrow> string" where
  "HelloSplice goos = (if goos = ''linux'' then ''Splice is available on Linux/Android'' else ''Splice is NOT available on '' @ goos)"

section \<open>The engine started by the app\<close>

text \<open>How \<^verbatim>\<open>url.Parse\<close> reads the device the library writes.\<close>

definition parses_fd :: "engine_env \<Rightarrow> int \<Rightarrow> bool" where
  "parses_fd env fd \<longleftrightarrow> (\<exists>u. eeURL env (''fd://'' @ Itoa fd) = Inr u \<and> urlScheme u = ''fd'' \<and> urlHost u = Itoa fd)"

lemma with_scheme_fd [simp]: "with_scheme s (''fd://'' @ t) = ''fd://'' @ t"
proof -
  have "Contains (''fd://'' @ t) ''://''"
    unfolding Contains_def list_ex_iff set_upt by (rule bexI [of _ 2]) (auto simp: HasPrefix_def)
  then show ?thesis by (simp add: with_scheme_def)
qed

lemma parseDevice_fd:
  assumes "parses_fd env fd" and "0 \<le> fd" and "fd < 2 ^ 63"
  shows "parseDevice env (''fd://'' @ Itoa fd) 1500 =
    (case eeFdNew env fd 1500 of Some err \<Rightarrow> Inl (opError ''create endpoint'' err) | None \<Rightarrow> Inr (FDDevice fd 1500))"
proof -
  have "ToLower ''fd'' = ''fd''" by (simp add: ToLower_def lower_char_def)
  with assms show ?thesis
    by (auto simp: parses_fd_def parseDevice_def fdOpen_def Atoi_Itoa sum_bind_def simp del: append_Cons append.simps)
qed

lemma start_mobile:
  assumes "parses_fd env fd" and "0 \<le> fd" and "fd < 2 ^ 63"
    and "start env (Insert (mobileKey fd) (SetCustomProxy p e)) = (r, e')"
  shows "r \<noteq> Panic" and "closedDevices e' = closedDevices e" and "customProxy e' = Some p"
    and "(\<exists>err. r = Fail err) \<Longrightarrow> stackRunning e' = stackRunning e"
    and "r = Ok () \<Longrightarrow> defaultDevice e' = Some (FDDevice fd 1500) \<and> tunnelDialer e' = Some p \<and> stackRunning e' \<and>
      (\<exists>st. defaultStack e' = Some st \<and> stDevice st = FDDevice fd 1500)"
proof -
  let ?e = "Insert (mobileKey fd) (SetCustomProxy p e)"
  have k: "kProxy (mobileKey fd) = []" "kDevice (mobileKey fd) = ''fd://'' @ Itoa fd" "kMTU (mobileKey fd) mod 2 ^ 32 = 1500"
    "kPreUp (mobileKey fd) = []" "kPostUp (mobileKey fd) = []" "kRestAPI (mobileKey fd) = []"
    "parseMulticastGroups env (kMulticast (mobileKey fd)) = Inr []" "stackOptions env (mobileKey fd) = Inr []"
    by (simp_all add: mobileKey_def parseMulticastGroups_def TrimSpace_def stackOptions_def buffer_option_def sum_bind_def)
  have g: "general env (mobileKey fd) ?e = (case eeLevel env ''info'' of Some err \<Rightarrow> (Fail err, ?e) | None \<Rightarrow> (Ok (), ?e))"
    by (simp add: general_def mobileKey_def io_fail_def io_return_def split: option.split)
  have s: "start env ?e = (case eeLevel env ''info'' of Some err \<Rightarrow> (Fail err, ?e) | None \<Rightarrow> netstack env (mobileKey fd) ?e)"
    by (simp add: start_def Insert_def [of "mobileKey fd"] g [unfolded Insert_def] io_bind_def restAPI_def k io_return_def
        split: option.split prod.split outcome.split)
  have n: "netstack env (mobileKey fd) ?e = netstack_stack env (mobileKey fd) (?e\<lparr>defaultProxy := Some p, tunnelDialer := Some p\<rparr>)"
    by (simp add: netstack_def k Insert_def SetCustomProxy_def run_command_def netstack_proxy_def io_bind_def io_return_def
        split: prod.split outcome.split)
  let ?st = "\<lparr>stDevice = FDDevice fd 1500, stGroups = [], stOptions = []\<rparr>"
  have t: "netstack_stack env (mobileKey fd) x = (case eeFdNew env fd 1500 of
        Some err \<Rightarrow> (Fail (opError ''create endpoint'' err), x\<lparr>defaultDevice := None\<rparr>)
      | None \<Rightarrow> (case eeCreateStack env ?st of
          Some err \<Rightarrow> (Fail err, x\<lparr>defaultDevice := Some (FDDevice fd 1500), defaultStack := None\<rparr>)
        | None \<Rightarrow> (Ok (), x\<lparr>defaultDevice := Some (FDDevice fd 1500), defaultStack := Some ?st, stackRunning := True\<rparr>)))" for x
    unfolding netstack_stack_def k parseDevice_fd [OF assms(1,2,3)]
    by (simp add: assign_def io_bind_def eng_def io_of_sum_def io_fail_def io_return_def split: option.split)
  show "r \<noteq> Panic" "closedDevices e' = closedDevices e" "customProxy e' = Some p"
    "(\<exists>err. r = Fail err) \<Longrightarrow> stackRunning e' = stackRunning e"
    "r = Ok () \<Longrightarrow> defaultDevice e' = Some (FDDevice fd 1500) \<and> tunnelDialer e' = Some p \<and> stackRunning e' \<and>
      (\<exists>st. defaultStack e' = Some st \<and> stDevice st = FDDevice fd 1500)"
    using assms(4) [unfolded s n t] by (auto simp: Insert_def SetCustomProxy_def split: option.splits)
qed

section \<open>Every sequence of calls\<close>

text \<open>A state with the descriptors of the starts that returned no error, in order.\<close>

type_synonym api_history = "api \<times> int list"

inductive api_step :: "api_history \<Rightarrow> api_history \<Rightarrow> bool" where
  start_call: "StartLumine env fd name a = (Ok msg, a') \<Longrightarrow> parses_fd (aeEngine env) fd \<Longrightarrow> 0 \<le> fd \<Longrightarrow> fd < 2 ^ 63 \<Longrightarrow>
    api_step (a, acc) (a', if msg = [] then acc @ [fd] else acc)"
| stop_call: "api_step (a, acc) (StopLumine a, acc)"
| dir_call: "api_step (a, acc) (SetWorkingDir dir a, acc)"
| quic_call: "api_step (a, acc) (SetBlockQuic b a, acc)"
| stat_event: "api_step (a, acc) (a\<lparr>apiStats := s, logEntries := l\<rparr>, acc)"

fun device_fds :: "device \<Rightarrow> int list" where
  "device_fds (FDDevice fd mtu) = [fd]"
| "device_fds (TUNDevice name mtu) = []"

definition all_closed :: "api \<Rightarrow> int list" where
  "all_closed a = closedFDs a @ concat (map device_fds (closedDevices (apiEngine a)))"

definition in_use :: "api \<Rightarrow> int list" where
  "in_use a = (if isRunning a then (case defaultDevice (apiEngine a) of None \<Rightarrow> [] | Some d \<Rightarrow> device_fds d) else [])"

definition api_start :: "api \<Rightarrow> bool" where
  "api_start a \<longleftrightarrow> \<not> isRunning a \<and> \<not> logWriter a \<and> \<not> monitors a \<and> closedFDs a = [] \<and>
     customProxy (apiEngine a) = None \<and> \<not> stackRunning (apiEngine a) \<and> closedDevices (apiEngine a) = []"

definition api_inv :: "api_history \<Rightarrow> bool" where
  "api_inv = (\<lambda>(a, acc). mset acc = mset (all_closed a) + mset (in_use a) \<and>
     (stackRunning (apiEngine a) \<longleftrightarrow> isRunning a) \<and>
     (isRunning a \<longrightarrow> customProxy (apiEngine a) = Some LumineProxy \<and> tunnelDialer (apiEngine a) = Some LumineProxy \<and> logWriter a \<and>
        (\<exists>fd st. defaultDevice (apiEngine a) = Some (FDDevice fd 1500) \<and> defaultStack (apiEngine a) = Some st \<and>
           stDevice st = FDDevice fd 1500)) \<and>
     (\<not> isRunning a \<longrightarrow> customProxy (apiEngine a) = None \<and> \<not> logWriter a \<and> \<not> monitors a))"

lemma stopCore_simps [simp]:
  "isRunning (stopCore a) = isRunning a" "closedFDs (stopCore a) = closedFDs a" "logWriter (stopCore a) = False"
  "monitors (stopCore a) = False" "customProxy (apiEngine (stopCore a)) = None"
  "closedDevices (apiEngine (stopCore a)) = closedDevices (apiEngine a)"
  "stackRunning (apiEngine (stopCore a)) = stackRunning (apiEngine a)"
  by (simp_all add: stopCore_def ClearCustomProxy_def)

lemma prepareStart_simps [simp]:
  "isRunning (prepareStart env a) = isRunning a" "closedFDs (prepareStart env a) = closedFDs a"
  "logWriter (prepareStart env a) = True" "apiEngine (prepareStart env a) = apiEngine a"
  "monitors (prepareStart env a) = monitors a" "workingDir (prepareStart env a) = workingDir a"
  by (simp_all add: prepareStart_def)

lemma StartLumine_inv:
  assumes "api_inv (a, acc)" and "StartLumine env fd name a = (r, a')"
    and "parses_fd (aeEngine env) fd" and "0 \<le> fd" and "fd < 2 ^ 63"
  shows "\<exists>msg. r = Ok msg \<and> api_inv (a', if msg = [] then acc @ [fd] else acc)"
proof (cases "workingDir a = [] \<or> isRunning a")
  case True
  then have "r = Ok ''working directory not set'' \<and> a' = a \<or> r = Ok [] \<and> isRunning a \<and> a' = a\<lparr>closedFDs := closedFDs a @ [fd]\<rparr>"
    using assms(2,4) by (cases "workingDir a = []") (simp_all add: StartLumine_def closeUnusedFD_def)
  with assms(1) show ?thesis by (elim disjE) (simp_all add: api_inv_def all_closed_def in_use_def)
next
  case False
  let ?e = "Insert (mobileKey fd) (SetCustomProxy LumineProxy (apiEngine a))"
  obtain q e where q: "start (aeEngine env) ?e = (q, e)" by (cases "start (aeEngine env) ?e")
  note s = start_mobile [OF assms(3,4,5) q]
  obtain err st where l: "aeLoadConfig env (aeJoin env (workingDir a) (name @ ''.json'')) = (err, st)" by fastforce
  let ?a = "(prepareStart env a)\<lparr>monitors := monitors a \<or> st\<rparr>"
  have inv: "mset acc = mset (closedFDs a) + mset (concat (map device_fds (closedDevices (apiEngine a))))"
    "\<not> stackRunning (apiEngine a)"
    using False assms(1) by (simp_all add: api_inv_def all_closed_def in_use_def)
  show ?thesis
  proof (cases err)
    case (Some x)
    then have "r = Ok (''load config error: '' @ Error x)" "a' = stopCore ?a"
      using False assms(2) l by (simp_all add: StartLumine_def)
    with inv False show ?thesis by (simp add: api_inv_def all_closed_def in_use_def)
  next
    case None
    show ?thesis
    proof (cases q)
      case (Ok u)
      then have "r = Ok []" "a' = ?a\<lparr>apiEngine := e, isRunning := True\<rparr>"
        using False assms(2) l None q by (simp_all add: StartLumine_def)
      with inv s Ok show ?thesis by (auto simp: api_inv_def all_closed_def in_use_def)
    next
      case (Fail x)
      then have "r = Ok (''engine start error: '' @ Error x)" "a' = stopCore (?a\<lparr>apiEngine := e\<rparr>)"
        using False assms(2) l None q by (simp_all add: StartLumine_def)
      with inv s Fail False show ?thesis by (simp add: api_inv_def all_closed_def in_use_def)
    next
      case Panic
      with s(1) show ?thesis by simp
    qed
  qed
qed

lemma StopLumine_inv: "api_inv (a, acc) \<Longrightarrow> api_inv (StopLumine a, acc)"
  by (auto simp: StopLumine_def api_inv_def all_closed_def in_use_def stop_def Let_def)

interpretation lifecycle: invariant_system "\<lambda>h. api_start (fst h) \<and> snd h = []" api_step api_inv
proof
  show "api_start (fst h) \<and> snd h = [] \<Longrightarrow> api_inv h" for h
    by (cases h) (simp add: api_start_def api_inv_def all_closed_def in_use_def)
  show "api_inv h \<Longrightarrow> api_step h h' \<Longrightarrow> api_inv h'" for h h'
    by (auto elim!: api_step.cases simp: StopLumine_inv dest: StartLumine_inv)
      (auto simp: api_inv_def all_closed_def in_use_def SetWorkingDir_def SetBlockQuic_def)
qed

text \<open>
  C25: under every sequence of calls, starts that fail included, the library's parts agree. The
  stack runs exactly when the running flag is set; then the tunnel dials through the custom
  proxy, on the descriptor of the start that succeeded, with the log writer installed; when it
  is not set, no proxy override, log writer or monitor is left. Every descriptor accepted by a
  start that returned no error has been closed exactly once or is the one in use, and no other
  descriptor has been closed.
\<close>

theorem api_lifecycle:
  assumes "api_start a0" and "api_step\<^sup>*\<^sup>* (a0, []) (a, accepted)"
  shows "mset accepted = mset (all_closed a) + mset (in_use a) \<and> (stackRunning (apiEngine a) \<longleftrightarrow> isRunning a) \<and>
    (if isRunning a then tunnelDialer (apiEngine a) = Some LumineProxy \<and> logWriter a \<and> length (in_use a) = 1
     else customProxy (apiEngine a) = None \<and> \<not> logWriter a \<and> \<not> monitors a)"
proof -
  have "api_inv (a, accepted)" by (rule lifecycle.reachable_inv [OF _ assms(2)]) (simp add: assms(1))
  then show ?thesis by (auto simp: api_inv_def in_use_def)
qed

section \<open>A run\<close>

definition engine_env_example :: engine_env where
  "engine_env_example = \<lparr>eeLevel = (\<lambda>_. None), eeInterface = (\<lambda>_. Inl IoEOF),
     eeURL = (\<lambda>_. Inr \<lparr>urlScheme = ''fd'', urlHost = Itoa 5, urlUser = \<lparr>uiText = [], uiName = [], uiPassword = None\<rparr>, urlPath = [], urlQuery = []\<rparr>),
     eeResolveTCP = (\<lambda>_. Inl IoEOF), eeBase64 = id, eeUnescape = id, eeNoDelay = (\<lambda>_. Inr False), eePickCipher = (\<lambda>_ _. None),
     eeFdNew = (\<lambda>_ _. None), eeTunOpen = (\<lambda>_ _. None), eeParseAddr = (\<lambda>_. Inl IoEOF), eeRAM = (\<lambda>_. Inl IoEOF),
     eeCreateStack = (\<lambda>_. None)\<rparr>"

definition api_env_example :: api_env where
  "api_env_example = \<lparr>aeEngine = engine_env_example, aeJoin = (\<lambda>d f. d @ ''/'' @ f), aeLoadConfig = (\<lambda>_. (None, True)),
     aeLogLine = id, aeNow = 0\<rparr>"

definition api_example :: api where
  "api_example = \<lparr>workingDir = ''/data'', isRunning = False,
     apiEngine = \<lparr>defaultKey = None, customProxy = None, defaultProxy = None, defaultDevice = None, defaultStack = None,
       stackRunning = False, tunnelDialer = None, tunnelTimeout = 60000000000, boundInterface = None, routingMark = 0,
       restServer = None, ranCommands = [], closedDevices = []\<rparr>,
     logWriter = False, monitors = False, logEntries = [],
     apiStats = \<lparr>startedAt = 0, tcpConnections = 0, udpFlows = 0, dnsQueries = 0, blockedRequests = 0, failedRequests = 0, events = []\<rparr>,
     quicBlocked = True, closedFDs = []\<rparr>"

lemma parses_fd_example: "parses_fd engine_env_example 5"
  by (simp add: parses_fd_def engine_env_example_def)

lemma start_example: "\<exists>a. StartLumine api_env_example 5 ''c'' api_example = (Ok [], a) \<and> isRunning a"
proof -
  let ?e = "Insert (mobileKey 5) (SetCustomProxy LumineProxy (apiEngine api_example))"
  have "parseDevice engine_env_example (''fd://'' @ Itoa 5) 1500 = Inr (FDDevice 5 1500)"
    using parseDevice_fd [OF parses_fd_example] by (simp add: engine_env_example_def)
  then have "\<exists>e. start engine_env_example ?e = (Ok (), e)"
    by (simp add: start_def Insert_def SetCustomProxy_def general_def restAPI_def netstack_def netstack_proxy_def netstack_stack_def
        run_command_def assign_def eng_def io_bind_def io_return_def mobileKey_def engine_env_example_def io_of_sum_def
        parseMulticastGroups_def TrimSpace_def stackOptions_def buffer_option_def sum_bind_def Let_def del: with_scheme_fd)
  then obtain e where "start engine_env_example ?e = (Ok (), e)" by blast
  then show ?thesis
    by (simp add: StartLumine_def api_env_example_def api_example_def prepareStart_def Let_def)
qed

theorem api_lifecycle_witness:
  "\<exists>a. api_step\<^sup>*\<^sup>* (api_example, []) (a, [5]) \<and> \<not> isRunning a \<and> mset [5] = mset (all_closed a) + mset (in_use a)"
proof -
  obtain a where a: "StartLumine api_env_example 5 ''c'' api_example = (Ok [], a)" "isRunning a" using start_example by blast
  have "api_step (api_example, []) (a, if [] = ([] :: string) then [] @ [5] else [])"
    by (rule start_call [OF a(1)]) (simp_all add: parses_fd_example api_env_example_def)
  moreover have "api_step (a, [5]) (StopLumine a, [5])" by (rule stop_call)
  ultimately have r: "api_step\<^sup>*\<^sup>* (api_example, []) (StopLumine a, [5])" by simp
  have "api_start api_example" by (simp add: api_start_def api_example_def)
  from api_lifecycle [OF this r] r a(2) show ?thesis by (auto simp: StopLumine_def)
qed

end
