(* ===== verification/Tunnel.thy ===== *)
theory Tunnel
  imports TunConn Steps
begin

text \<open>
  The tunnel of the proxy, \<^verbatim>\<open>internal/tunnel.go\<close>: between a client that has been told to go ahead and
  the server, it looks at the first bytes, sends a ClientHello under the policy (possibly of
  another target, when the server name overrides it), answers or forwards a plain HTTP request,
  and then copies in both directions until both ends are closed. Connections live in a store,
  so that which ones are left open can be stated. The forwarding of the two goroutines is a
  step relation.
\<close>

section \<open>The proxy's world\<close>

record conn =
  cSock :: sock
  cOpen :: bool

record pworld =
  pConns :: "conn list"
  pIn :: bytes                  \<comment> \<open>what the client sends, not yet read\<close>
  pPol :: world
  pTTL :: ttl_world
  pDials :: "string list"

record http_request =
  reqHost :: string
  reqURLHost :: string
  reqScheme :: string
  reqURI :: string              \<comment> \<open>\<^verbatim>\<open>URL.RequestURI()\<close>\<close>
  reqMethod :: string
  reqProto :: string

record http_response =
  respStatus :: string
  respCode :: int
  respProto :: string
  respLocation :: "string option"

record proxy_env =
  peNet :: net_env
  pePol :: penv
  peDial :: "nat \<Rightarrow> string \<Rightarrow> go_error + int"        \<comment> \<open>the n-th dial: an error, or when it connected\<close>
  peReadRequest :: "bytes \<Rightarrow> (go_error + http_request) \<times> bytes"  \<comment> \<open>\<^verbatim>\<open>http.ReadRequest\<close>, and what it leaves\<close>
  peWriteRequest :: "http_request \<Rightarrow> bytes"
  peWriteResponse :: "http_response \<Rightarrow> bytes"
  peStatusText :: "int \<Rightarrow> string"

definition with_conn :: "nat \<Rightarrow> (net, 'a) io \<Rightarrow> (pworld, 'a) io" where
  "with_conn i m w =
     (let c = pConns w ! i in
      case m \<lparr>nSock = cSock c, nTTL = pTTL w, nClosed = \<not> cOpen c\<rparr> of
        (r, n) \<Rightarrow> (r, w\<lparr>pConns := (pConns w)[i := \<lparr>cSock = nSock n, cOpen = \<not> nClosed n\<rparr>], pTTL := nTTL n\<rparr>))"

definition on_pol :: "(world, 'a) io \<Rightarrow> (pworld, 'a) io" where
  "on_pol m w = (case m (pPol w) of (r, x) \<Rightarrow> (r, w\<lparr>pPol := x\<rparr>))"

definition write_conn :: "proxy_env \<Rightarrow> nat \<Rightarrow> bytes \<Rightarrow> (pworld, unit) io" where
  "write_conn env i b = with_conn i (net_write (peNet env) b)"

definition close_conn :: "nat \<Rightarrow> (pworld, unit) io" where
  "close_conn i = with_conn i net_close"

definition dialTCP :: "proxy_env \<Rightarrow> string \<Rightarrow> (pworld, nat) io" where
  "dialTCP env target w =
     (let w' = w\<lparr>pDials := pDials w @ [target]\<rparr> in
      case peDial env (length (pDials w)) target of
        Inl err \<Rightarrow> (Fail err, w')
      | Inr t \<Rightarrow> (Ok (length (pConns w)),
                  w'\<lparr>pConns := pConns w @ [\<lparr>cSock = \<lparr>is_tcp = True, calls = [], now = t\<rparr>, cOpen = True\<rparr>]\<rparr>))"

text \<open>\<^verbatim>\<open>io.ReadFull\<close> on the client's stream, which ends after its bytes.\<close>

definition readFull :: "nat \<Rightarrow> (pworld, bytes) io" where
  "readFull n w =
     (if n \<le> length (pIn w) then (Ok (take n (pIn w)), w\<lparr>pIn := drop n (pIn w)\<rparr>)
      else (Fail (if pIn w = [] then IoEOF else IoErrUnexpectedEOF), w\<lparr>pIn := []\<rparr>))"

definition closeBoth :: "nat \<Rightarrow> nat option \<Rightarrow> (pworld, unit) io" where
  "closeBoth cli dst =
     io_bind (close_conn cli) (\<lambda>_. case dst of None \<Rightarrow> io_return () | Some i \<Rightarrow> close_conn i)"

section \<open>The first TLS record\<close>

text \<open>\<open>if dstConn == nil { dial }\<close>; \<^const>\<open>None\<close> when the dial failed.\<close>

definition ensureDst :: "proxy_env \<Rightarrow> string \<Rightarrow> nat option \<Rightarrow> (pworld, nat option) io" where
  "ensureDst env target dst =
     (case dst of
        Some i \<Rightarrow> io_return (Some i)
      | None \<Rightarrow> io_bind (io_try (dialTCP env target)) (\<lambda>r. io_return (case r of Inl _ \<Rightarrow> None | Inr i \<Rightarrow> Some i)))"

text \<open>
  The target that the server name selects: \<^const>\<open>None\<close> when the connection is blocked, else the
  connection, policy and target to go on with. First, moving to the target of the name's
  policy, staying where it was when the dial fails.
\<close>

definition switchTarget ::
  "proxy_env \<Rightarrow> Policy \<Rightarrow> string \<Rightarrow> string \<Rightarrow> nat option \<Rightarrow> string \<Rightarrow> Policy \<Rightarrow>
   (pworld, (nat option \<times> Policy \<times> string) option) io" where
  "switchTarget env p originPort target dst newDst sniPolicy =
     (let port = (if Port sniPolicy \<noteq> 0 \<and> Port sniPolicy \<noteq> -1 then Itoa (Port sniPolicy) else originPort);
          newTarget = JoinHostPort newDst port in
      io_bind (io_try (dialTCP env newTarget)) (\<lambda>r.
      case r of
        Inl _ \<Rightarrow> io_return (Some (dst, p, target))
      | Inr i \<Rightarrow> io_bind (case dst of None \<Rightarrow> io_return () | Some old \<Rightarrow> close_conn old) (\<lambda>_.
          io_return (Some (Some i, sniPolicy, newTarget)))))"

definition overrideBy ::
  "proxy_env \<Rightarrow> nat \<Rightarrow> Policy \<Rightarrow> string \<Rightarrow> string \<Rightarrow> hello_info \<Rightarrow> nat option \<Rightarrow> gen \<Rightarrow>
   (pworld, (nat option \<times> Policy \<times> string) option) io" where
  "overrideBy env cli p originPort target h dst g =
     (case g of
        GenFailed \<Rightarrow> io_return (Some (dst, p, target))
      | GenNotFound \<Rightarrow> io_return (Some (dst, p, target))
      | GenBlocked \<Rightarrow> io_return None
      | GenOk newDst sniPolicy \<Rightarrow>
          if Mode_of sniPolicy = ModeBlock then io_return None
          else if Mode_of sniPolicy = ModeTLSAlert then
            io_bind (with_conn cli (on_sock (sendTLSAlert (neSock (peNet env)) (prtVer h) tlsAlertAccessDenied tlsAlertLevelFatal)))
              (\<lambda>_. io_return None)
          else switchTarget env p originPort target dst newDst sniPolicy)"

definition sniffOverride ::
  "proxy_env \<Rightarrow> nat \<Rightarrow> Policy \<Rightarrow> string \<Rightarrow> string \<Rightarrow> string \<Rightarrow> string \<Rightarrow> hello_info \<Rightarrow> nat option \<Rightarrow>
   (pworld, (nat option \<times> Policy \<times> string) option) io" where
  "sniffOverride env cli p originHost sniStr originPort target h dst =
     (if originHost = sniStr \<or> (SniffOverride p \<noteq> SniffOverrideAlways \<and> SniffOverride p \<noteq> SniffOverridePolicyExists) \<or> hasECH h
      then io_return (Some (dst, p, target))
      else io_bind (on_pol (genPolicy (pePol env) sniStr False (SniffOverride p = SniffOverridePolicyExists)))
             (overrideBy env cli p originPort target h dst))"

text \<open>The switch over the mode; a mode without a case sends nothing.\<close>

definition sendFirst :: "proxy_env \<Rightarrow> Policy \<Rightarrow> string \<Rightarrow> bytes \<Rightarrow> hello_info \<Rightarrow> nat \<Rightarrow> (pworld, unit) io" where
  "sendFirst env p target rec h i =
     (case Mode_of p of
        ModeDirect \<Rightarrow> write_conn env i rec
      | ModeRaw \<Rightarrow> write_conn env i rec
      | ModeTLSRF \<Rightarrow> with_conn i (sendFragments (peNet env) p rec h)
      | ModeTTLD \<Rightarrow>
          io_bind (io_option (go_index target 0)) (\<lambda>c0.
          let ipv6 = (c0 = CHR ''['') in
          io_bind (with_conn i (fakeTTL_of (peNet env) p target)) (\<lambda>ttl.
          with_conn i (sendDecoy (peNet env) p ipv6 rec h ttl)))
      | _ \<Rightarrow> io_return ())"

text \<open>
  The connection handed back and whether to go on. Every early return hands back no
  connection, since the named result is still nil.
\<close>

definition then_forward :: "nat \<Rightarrow> (pworld, unit) io \<Rightarrow> (pworld, nat option \<times> bool) io" where
  "then_forward i m = io_bind (io_try m) (\<lambda>r. io_return (case r of Inl _ \<Rightarrow> (None, False) | Inr _ \<Rightarrow> (Some i, True)))"

definition sendNamed ::
  "proxy_env \<Rightarrow> nat \<Rightarrow> Policy \<Rightarrow> string \<Rightarrow> string \<Rightarrow> string \<Rightarrow> nat option \<Rightarrow> bytes \<Rightarrow> hello_info \<Rightarrow>
   (pworld, nat option \<times> bool) io" where
  "sendNamed env cli p originHost target originPort dst rec h =
     io_bind (io_option (go_slice rec (sniStart h) (sniStart h + sniLen h))) (\<lambda>name.
     io_bind (sniffOverride env cli p originHost (string_of_bytes name) originPort target h dst) (\<lambda>ov.
     case ov of
       None \<Rightarrow> io_return (None, False)
     | Some (dst, p, target) \<Rightarrow>
         io_bind (ensureDst env target dst) (\<lambda>d.
         case d of None \<Rightarrow> io_return (None, False) | Some i \<Rightarrow> then_forward i (sendFirst env p target rec h i))))"

definition handleClientHello ::
  "proxy_env \<Rightarrow> nat \<Rightarrow> Policy \<Rightarrow> string \<Rightarrow> string \<Rightarrow> string \<Rightarrow> nat option \<Rightarrow> bytes \<Rightarrow> hello_info \<Rightarrow>
   (pworld, nat option \<times> bool) io" where
  "handleClientHello env cli p originHost target originPort dst rec h =
     (let alert = (\<lambda>desc. io_bind (with_conn cli (on_sock (sendTLSAlert (neSock (peNet env)) (prtVer h) desc tlsAlertLevelFatal)))
            (\<lambda>_. io_return (None, False))) in
      if Mode_of p = ModeTLSAlert then alert tlsAlertAccessDenied
      else if IsTrue (TLS13Only p) \<and> \<not> hasKeyShare h then alert tlsAlertProtocolVersion
      else if sniStart h \<le> 0 \<or> sniLen h \<le> 0 then
        io_bind (ensureDst env target dst) (\<lambda>d.
        case d of None \<Rightarrow> io_return (None, False) | Some i \<Rightarrow> then_forward i (write_conn env i rec))
      else sendNamed env cli p originHost target originPort dst rec h)"

definition handleTLS ::
  "proxy_env \<Rightarrow> nat \<Rightarrow> Policy \<Rightarrow> string \<Rightarrow> string \<Rightarrow> string \<Rightarrow> nat \<Rightarrow> nat option \<Rightarrow>
   (pworld, nat option \<times> bool) io" where
  "handleTLS env cli p originHost target originPort recordLen dst =
     io_bind (io_try (readFull recordLen)) (\<lambda>r.
     case r of
       Inl _ \<Rightarrow> io_return (None, False)
     | Inr rec \<Rightarrow>
         io_bind (io_option (parseClientHello rec)) (\<lambda>(h, perr).
         if perr \<noteq> None then io_return (None, False)
         else handleClientHello env cli p originHost target originPort dst rec h))"

section \<open>A plain HTTP request\<close>

definition badGateway :: "http_request \<Rightarrow> http_response" where
  "badGateway req = \<lparr>respStatus = ''502 Bad Gateway'', respCode = 502, respProto = reqProto req, respLocation = None\<rparr>"

definition handleHTTP ::
  "proxy_env \<Rightarrow> nat \<Rightarrow> http_request \<Rightarrow> Policy \<Rightarrow> string \<Rightarrow> string \<Rightarrow> nat option \<Rightarrow> (pworld, nat option \<times> bool) io" where
  "handleHTTP env cli req p originHost target dst =
     (let host = (if reqHost req \<noteq> [] then reqHost req else if reqURLHost req \<noteq> [] then reqURLHost req else originHost) in
      if HttpStatus p = 0 \<or> HttpStatus p = -1 then
        io_bind (ensureDst env target dst) (\<lambda>d.
        case d of
          None \<Rightarrow> io_bind (io_try (write_conn env cli (peWriteResponse env (badGateway req)))) (\<lambda>_. io_return (None, False))
        | Some i \<Rightarrow> then_forward i (write_conn env i (peWriteRequest env req)))
      else
        let resp = \<lparr>respStatus = Itoa (HttpStatus p) @ '' '' @ peStatusText env (HttpStatus p), respCode = HttpStatus p,
              respProto = reqProto req,
              respLocation = (if HttpStatus p = 301 \<or> HttpStatus p = 302
                then Some (''https://'' @ host @ reqURI req) else None)\<rparr> in
        io_bind (io_try (write_conn env cli (peWriteResponse env resp))) (\<lambda>_. io_return (None, False)))"

section \<open>The tunnel up to the forwarding\<close>

text \<open>
  How the part before the forwarding ends: it returned, and the deferred \<^verbatim>\<open>closeBoth\<close> has run with
  the connection the variable then held, or the two connections are being copied.
\<close>

datatype tunnel_end = TunnelReturned | TunnelForward nat

definition httpPrefixes :: "string list" where
  "httpPrefixes = [''GET '', ''POST '', ''HEAD '', ''PUT '', ''DELETE '', ''OPTIONS '', ''TRACE '', ''PATCH '']"

definition returnTunnel :: "nat \<Rightarrow> nat option \<Rightarrow> (pworld, tunnel_end) io" where
  "returnTunnel cli dst = io_bind (closeBoth cli dst) (\<lambda>_. io_return TunnelReturned)"

text \<open>The type assertions to \<^verbatim>\<open>*net.TCPConn\<close>.\<close>

definition startForward :: "nat \<Rightarrow> nat option \<Rightarrow> (pworld, tunnel_end) io" where
  "startForward cli dst w =
     (case dst of
        Some i \<Rightarrow> if is_tcp (cSock (pConns w ! cli)) \<and> is_tcp (cSock (pConns w ! i)) then (Ok (TunnelForward i), w)
                 else returnTunnel cli dst w
      | None \<Rightarrow> returnTunnel cli dst w)"

definition unless_ok :: "nat \<Rightarrow> (pworld, nat option \<times> bool) io \<Rightarrow> (pworld, tunnel_end) io" where
  "unless_ok cli m = io_bind m (\<lambda>(dst, ok). if ok then startForward cli dst else returnTunnel cli dst)"

definition handleTunnel ::
  "proxy_env \<Rightarrow> Policy \<Rightarrow> nat option \<Rightarrow> nat \<Rightarrow> string \<Rightarrow> string \<Rightarrow> string \<Rightarrow> (pworld, tunnel_end) io" where
  "handleTunnel env p dst cli target originHost originPort w =
     (if Mode_of p = ModeRaw then
        io_bind (ensureDst env target dst) (\<lambda>d.
        case d of None \<Rightarrow> returnTunnel cli None | Some i \<Rightarrow> startForward cli (Some i)) w
      else if length (pIn w) < 10 then returnTunnel cli dst w
      else
        let peekBytes = take 10 (pIn w) in
        if peekBytes ! 0 = tlsRecordTypeHandshake \<and> peekBytes ! 1 = tlsMajorVersion then
          unless_ok cli (handleTLS env cli p originHost target originPort (nat (5 + be16_val peekBytes 3)) dst) w
        else if bytesHasPrefix peekBytes httpPrefixes then
          (case peReadRequest env (pIn w) of
             (Inr req, rest) \<Rightarrow> unless_ok cli (handleHTTP env cli req p originHost target dst) (w\<lparr>pIn := rest\<rparr>)
           | (Inl _, rest) \<Rightarrow> startForward cli dst (w\<lparr>pIn := rest\<rparr>))
        else startForward cli dst w)"

section \<open>Forwarding in both directions\<close>

text \<open>
  The goroutine that copies from the client (\<open>fUp\<close>: still copying) and the caller that copies
  to it. Each ends by closing the other side's write half, or by closing both connections
  (once), or, when the connections were closed under it, by doing nothing; the caller returns
  when the goroutine has signalled, and its deferred call closes both unless that happened.
\<close>

record fwd =
  fUp :: bool
  fDown :: bool
  fDone :: bool
  fCloses :: nat
  fHalfDst :: bool
  fHalfCli :: bool
  fReturned :: bool

definition fwd_start :: fwd where
  "fwd_start = \<lparr>fUp = True, fDown = True, fDone = False, fCloses = 0, fHalfDst = False, fHalfCli = False, fReturned = False\<rparr>"

text \<open>\<^verbatim>\<open>once.Do(closeBoth)\<close>.\<close>

definition closeOnce :: "fwd \<Rightarrow> fwd" where
  "closeOnce f = (if fCloses f = 0 then f\<lparr>fCloses := 1\<rparr> else f)"

lemma closeOnce_simps [simp]:
  "fUp (closeOnce f) = fUp f" "fDown (closeOnce f) = fDown f" "fDone (closeOnce f) = fDone f"
  "fReturned (closeOnce f) = fReturned f" "fCloses (closeOnce f) = (if fCloses f = 0 then 1 else fCloses f)"
  by (simp_all add: closeOnce_def)

inductive fwd_step :: "fwd \<Rightarrow> fwd \<Rightarrow> bool" where
  up_eof: "fUp f \<Longrightarrow> fwd_step f (f\<lparr>fUp := False, fHalfDst := True, fDone := True\<rparr>)"
| up_error: "fUp f \<Longrightarrow> fwd_step f ((closeOnce f)\<lparr>fUp := False, fDone := True\<rparr>)"
| up_closed: "fUp f \<Longrightarrow> 0 < fCloses f \<Longrightarrow> fwd_step f (f\<lparr>fUp := False, fDone := True\<rparr>)"
| down_eof: "fDown f \<Longrightarrow> fwd_step f (f\<lparr>fDown := False, fHalfCli := True\<rparr>)"
| down_error: "fDown f \<Longrightarrow> fwd_step f ((closeOnce f)\<lparr>fDown := False\<rparr>)"
| down_closed: "fDown f \<Longrightarrow> 0 < fCloses f \<Longrightarrow> fwd_step f (f\<lparr>fDown := False\<rparr>)"
| returns: "\<not> fDown f \<Longrightarrow> fDone f \<Longrightarrow> \<not> fReturned f \<Longrightarrow> fwd_step f ((closeOnce f)\<lparr>fReturned := True\<rparr>)"

inductive_simps fwd_step_simps: "fwd_step f f'"

definition fwd_inv :: "fwd \<Rightarrow> bool" where
  "fwd_inv f \<longleftrightarrow> fCloses f \<le> 1 \<and> (fDone f \<longleftrightarrow> \<not> fUp f) \<and> (fReturned f \<longrightarrow> fCloses f = 1 \<and> \<not> fUp f \<and> \<not> fDown f)"

definition fwd_left :: "fwd \<Rightarrow> nat" where
  "fwd_left f = of_bool (fUp f) + of_bool (fDown f) + of_bool (\<not> fReturned f)"

interpretation fw: terminating_system "\<lambda>f. f = fwd_start" fwd_step fwd_inv fwd_left fReturned
proof unfold_locales
  show "f = fwd_start \<Longrightarrow> fwd_inv f" for f by (simp add: fwd_inv_def fwd_start_def)
  show "fwd_inv f \<Longrightarrow> fwd_step f f' \<Longrightarrow> fwd_inv f'" for f f'
    by (auto simp: fwd_inv_def fwd_step_simps)
  show "fwd_inv f \<Longrightarrow> fwd_step f f' \<Longrightarrow> fwd_left f' < fwd_left f" for f f'
    by (auto simp: fwd_inv_def fwd_left_def fwd_step_simps)
  show "fwd_inv f \<Longrightarrow> \<not> fReturned f \<Longrightarrow> \<exists>f'. fwd_step f f'" for f
    by (cases "fUp f"; cases "fDown f") (auto simp: fwd_inv_def intro: fwd_step.intros)
qed



section \<open>What a connection carries\<close>

definition conn_calls :: "pworld \<Rightarrow> nat \<Rightarrow> (sock_op \<times> go_error option) list" where
  "conn_calls w i = (if i < length (pConns w) then calls (cSock (pConns w ! i)) else [])"

definition valid_dst :: "pworld \<Rightarrow> nat option \<Rightarrow> bool" where
  "valid_dst w dst \<longleftrightarrow> (\<forall>i. dst = Some i \<longrightarrow> i < length (pConns w))"

lemma with_conn_Ok:
  assumes "with_conn i m w = (Ok x, w')" and "i < length (pConns w)"
  obtains n n' where "m n = (Ok x, n')" and "nSock n = cSock (pConns w ! i)" and "calls (nSock n) = conn_calls w i"
    and "conn_calls w' i = calls (nSock n')" and "pIn w' = pIn w" and "length (pConns w') = length (pConns w)"
    and "\<And>j. j \<noteq> i \<Longrightarrow> conn_calls w' j = conn_calls w j" and "pPol w' = pPol w"
    and "cOpen (pConns w' ! i) \<longleftrightarrow> \<not> nClosed n'" and "nClosed n \<longleftrightarrow> \<not> cOpen (pConns w ! i)"
proof -
  let ?n = "\<lparr>nSock = cSock (pConns w ! i), nTTL = pTTL w, nClosed = \<not> cOpen (pConns w ! i)\<rparr>"
  obtain n' where m: "m ?n = (Ok x, n')"
    and w': "w' = w\<lparr>pConns := (pConns w)[i := \<lparr>cSock = nSock n', cOpen = \<not> nClosed n'\<rparr>], pTTL := nTTL n'\<rparr>"
    using assms(1) by (auto simp: with_conn_def Let_def split: prod.splits)
  show thesis
    by (rule that [of ?n n']) (use m assms(2) in \<open>auto simp: w' conn_calls_def nth_list_update\<close>)
qed

lemma dialTCP_Ok:
  "dialTCP env target w = (Ok i, w') \<Longrightarrow> i = length (pConns w) \<and> length (pConns w') = Suc i \<and> pIn w' = pIn w \<and>
   (\<forall>j. conn_calls w' j = conn_calls w j)"
  by (auto simp: dialTCP_def conn_calls_def Let_def nth_append less_Suc_eq split: sum.splits)

lemma io_try_Inl_dial:
  "io_try (dialTCP env target) w = (Ok (Inl e), w') \<Longrightarrow> w' = w\<lparr>pDials := pDials w @ [target]\<rparr>"
  by (auto simp: dialTCP_def io_try_def Let_def split: sum.splits)

lemma ensureDst_Ok:
  assumes "ensureDst env target dst w = (Ok (Some i), w')" and "valid_dst w dst"
  shows "i < length (pConns w') \<and> pIn w' = pIn w \<and> (\<forall>j. conn_calls w' j = conn_calls w j)"
proof (cases dst)
  case (Some k)
  with assms show ?thesis by (auto simp: ensureDst_def valid_dst_def)
next
  case None
  with assms(1) have "dialTCP env target w = (Ok i, w')"
    by (auto simp: ensureDst_def split: sum.split_asm)
  from dialTCP_Ok [OF this] show ?thesis by auto
qed

text \<open>What the steps before the sending leave as it was.\<close>

definition same_calls :: "pworld \<Rightarrow> pworld \<Rightarrow> bool" where
  "same_calls w w' \<longleftrightarrow> pIn w' = pIn w \<and> length (pConns w) \<le> length (pConns w') \<and> (\<forall>j. conn_calls w' j = conn_calls w j)"

lemma same_calls_refl [simp]: "same_calls w w" "same_calls w (w\<lparr>pPol := x\<rparr>)" "same_calls w (w\<lparr>pDials := ds\<rparr>)"
  by (simp_all add: same_calls_def conn_calls_def)

lemma same_calls_trans: "same_calls w w1 \<Longrightarrow> same_calls w1 w2 \<Longrightarrow> same_calls w w2"
  by (auto simp: same_calls_def)

lemma same_calls_valid: "same_calls w w' \<Longrightarrow> valid_dst w dst \<Longrightarrow> valid_dst w' dst"
  by (auto simp: same_calls_def valid_dst_def)

lemma close_conn_same:
  assumes "close_conn i w = (Ok x, w')" and "i < length (pConns w)"
  shows "same_calls w w'"
proof -
  obtain n n' where "net_close n = (Ok x, n')" "calls (nSock n) = conn_calls w i" "conn_calls w' i = calls (nSock n')"
    "pIn w' = pIn w" "length (pConns w') = length (pConns w)" "\<And>j. j \<noteq> i \<Longrightarrow> conn_calls w' j = conn_calls w j"
    using with_conn_Ok [OF assms [unfolded close_conn_def]] by metis
  then have "conn_calls w' j = conn_calls w j" for j by (cases "j = i") (auto simp: net_close_def)
  with \<open>pIn w' = pIn w\<close> \<open>length (pConns w') = length (pConns w)\<close> show ?thesis by (simp add: same_calls_def)
qed

lemma switchTarget_Ok:
  assumes "switchTarget env p op target dst newDst sp w = (Ok (Some (dst', p', t')), w')" and "valid_dst w dst"
  shows "valid_dst w' dst' \<and> same_calls w w' \<and> (p' = p \<or> p' = sp)"
proof -
  let ?t = "JoinHostPort newDst (if Port sp \<noteq> 0 \<and> Port sp \<noteq> -1 then Itoa (Port sp) else op)"
  from assms(1) obtain r w1 where d: "io_try (dialTCP env ?t) w = (Ok r, w1)"
    and k: "(case r of Inl _ \<Rightarrow> io_return (Some (dst, p, target))
      | Inr i \<Rightarrow> io_bind (case dst of None \<Rightarrow> io_return () | Some old \<Rightarrow> close_conn old) (\<lambda>_.
          io_return (Some (Some i, sp, ?t)))) w1 = (Ok (Some (dst', p', t')), w')"
    by (auto simp: switchTarget_def Let_def)
  show ?thesis
  proof (cases r)
    case (Inl e)
    with d have "same_calls w w1" using io_try_Inl_dial by fastforce
    with Inl k assms(2) show ?thesis by (auto intro: same_calls_valid)
  next
    case (Inr i)
    with d have dial: "i = length (pConns w)" "length (pConns w1) = Suc i" "same_calls w w1"
      using dialTCP_Ok [of env ?t w i w1] by (auto simp: same_calls_def)
    have "same_calls w1 w'" "dst' = Some i" "p' = sp"
      using k Inr assms(2) dial by (auto simp: valid_dst_def close_conn_same split: option.split_asm)
    with dial show ?thesis using same_calls_trans by (auto simp: valid_dst_def same_calls_def)
  qed
qed

lemma sniffOverride_Ok:
  assumes "sniffOverride env cli p oh sni op target h dst w = (Ok (Some (dst', p', t')), w')" and "valid_dst w dst"
  shows "valid_dst w' dst' \<and> same_calls w w' \<and>
    (p' = p \<or> (\<exists>nf x x' d. genPolicy (pePol env) sni False nf x = (Ok (GenOk d p'), x') \<and>
       Mode_of p' \<noteq> ModeBlock \<and> Mode_of p' \<noteq> ModeTLSAlert))"
proof (cases "sniffOverride env cli p oh sni op target h dst = io_return (Some (dst, p, target))")
  case True
  with assms show ?thesis by simp
next
  case False
  then have "sniffOverride env cli p oh sni op target h dst =
      io_bind (on_pol (genPolicy (pePol env) sni False (SniffOverride p = SniffOverridePolicyExists)))
        (overrideBy env cli p op target h dst)"
    by (auto simp: sniffOverride_def split: if_splits)
  with assms(1) obtain g x where
    g: "genPolicy (pePol env) sni False (SniffOverride p = SniffOverridePolicyExists) (pPol w) = (Ok g, x)"
    and o: "overrideBy env cli p op target h dst g (w\<lparr>pPol := x\<rparr>) = (Ok (Some (dst', p', t')), w')"
    by (auto simp: on_pol_def split: prod.splits)
  have valid: "valid_dst (w\<lparr>pPol := x\<rparr>) dst" using assms(2) by (simp add: valid_dst_def)
  show ?thesis
  proof (cases g)
    case (GenOk d sp)
    with o have "switchTarget env p op target dst d sp (w\<lparr>pPol := x\<rparr>) = (Ok (Some (dst', p', t')), w')"
      and m: "Mode_of sp \<noteq> ModeBlock" "Mode_of sp \<noteq> ModeTLSAlert"
      by (auto simp: overrideBy_def split: if_splits)
    from switchTarget_Ok [OF this(1) valid] same_calls_trans [of w "w\<lparr>pPol := x\<rparr>" w']
    have "valid_dst w' dst'" "same_calls w w'" "p' = p \<or> p' = sp" by auto
    with g m GenOk show ?thesis by blast
  qed (use o valid in \<open>auto simp: overrideBy_def\<close>)
qed

section \<open>The first record reaches the server\<close>

text \<open>
  How a record \<open>rec\<close> goes out under a policy: unchanged, as TLS records with the same header
  whose payloads concatenate to its own, or behind a decoy with the same bytes ending up at
  the peer. The modes without a case send nothing.
\<close>

definition fragmented :: "Policy \<Rightarrow> bytes \<Rightarrow> sock_op list \<Rightarrow> bool" where
  "fragmented p rec ops \<longleftrightarrow>
     (let ch = sent_hello (IsTrue (ModMinorVer p)) rec in
      if NumRecords p \<le> 1 then received ops = ch
      else \<exists>parts. int (length parts) \<le> NumRecords p \<and> concat parts = drop 5 ch \<and>
        decode_frames decRecord (length (received ops)) (received ops) = Some (map (Pair (take 3 ch)) parts))"

definition carries :: "Policy \<Rightarrow> bytes \<Rightarrow> sock_op list \<Rightarrow> bool" where
  "carries p rec ops \<longleftrightarrow>
     (case Mode_of p of
        ModeDirect \<Rightarrow> ops = [ConnWrite rec]
      | ModeRaw \<Rightarrow> ops = [ConnWrite rec]
      | ModeTLSRF \<Rightarrow> fragmented p rec ops
      | ModeTTLD \<Rightarrow> \<exists>k. \<forall>pg. k \<le> length pg \<longrightarrow> delivered (final_page pg ops) ops = rec
      | _ \<Rightarrow> ops = [])"

text \<open>What \<^verbatim>\<open>Policy.UnmarshalJSON\<close> guarantees of the counts, and not both urgent-byte options.\<close>

definition can_fragment :: "Policy \<Rightarrow> bool" where
  "can_fragment p \<longleftrightarrow> 0 \<le> NumRecords p \<and> -1 \<le> NumSegments p \<and> \<not> (IsTrue (OOB p) \<and> IsTrue (OOBEx p))"

lemma on_sock_calls:
  assumes "on_sock m n = (Ok x, n')"
  obtains s where "m (nSock n) = (Ok x, s)" and "nSock n' = s"
  using assms by (auto simp: on_sock_Ok)

lemma write_conn_Ok:
  assumes "write_conn env i b w = (Ok (), w')" and "i < length (pConns w)"
  shows "conn_calls w' i = conn_calls w i @ [(ConnWrite b, None)] \<and> pIn w' = pIn w \<and>
    length (pConns w') = length (pConns w)"
proof -
  obtain n n' where "net_write (peNet env) b n = (Ok (), n')" "calls (nSock n) = conn_calls w i"
    "conn_calls w' i = calls (nSock n')" "pIn w' = pIn w" "length (pConns w') = length (pConns w)"
    using with_conn_Ok [OF assms [unfolded write_conn_def]] by metis
  with net_write_Ok [of "peNet env" b n "()" n'] show ?thesis by (simp add: wrote_def)
qed

lemma sendFragments_Ok:
  assumes "sendFragments env p rec h n = (Ok (), n')" and "can_fragment p" and "length rec \<le> 65540"
  shows "\<exists>ops. calls (nSock n') = calls (nSock n) @ map (\<lambda>op. (op, None)) ops \<and> fragmented p rec ops"
proof -
  from assms(1) obtain s where "sendRecords (neSock env) rec (sniStart h) (sniLen h) (NumRecords p) (NumSegments p)
      (IsTrue (OOB p)) (IsTrue (OOBEx p)) (IsTrue (ModMinorVer p)) (IsTrue (WaitForAck p)) (SendInterval p) (nSock n) = (Ok (), s)"
    and "nSock n' = s"
    unfolding sendFragments_def by (rule on_sock_calls)
  with sendRecords_received [OF this(1)] assms(2,3) show ?thesis
    by (simp add: can_fragment_def fragmented_def Let_def)
qed

lemma sendDecoy_Ok:
  assumes "sendDecoy env p ipv6 rec h ttl n = (Ok (), n')" and "0 < nePage env" and "0 < sniStart h"
  shows "\<exists>ops k. calls (nSock n') = calls (nSock n) @ map (\<lambda>op. (op, None)) ops \<and>
    (\<forall>pg. k \<le> length pg \<longrightarrow> delivered (final_page pg ops) ops = rec)"
proof -
  from assms(1) obtain s where "desyncSend (neSock env) (nePage env) (neSlot env) ipv6 rec (sniStart h) (sniLen h) ttl
      (FakeSleep p) (nSock n) = (Ok (), s)" and s: "nSock n' = s"
    unfolding sendDecoy_def by (rule on_sock_calls)
  then obtain c d where "sniStart h \<le> c" "c \<le> int (length rec)" and
    "calls s = calls (nSock n) @ map (\<lambda>op. (op, None)) (desync_calls (neSlot env) ipv6 rec (sniStart h) c ttl d (FakeSleep p))"
    using logs_desyncSend [OF assms(2,3), of "neSock env" "neSlot env" ipv6 rec "sniLen h" ttl "FakeSleep p"]
    unfolding logs_def by blast
  with s show ?thesis
    by (intro exI [of _ "desync_calls (neSlot env) ipv6 rec (sniStart h) c ttl d (FakeSleep p)"] exI [of _ "nat c"])
      (simp add: delivered_desync)
qed

lemma fakeTTL_of_sock: "fakeTTL_of env p addr n = (r, n') \<Longrightarrow> nSock n' = nSock n"
  by (auto simp: fakeTTL_of_def split: prod.splits sum.splits)

lemma sendFirst_Ok:
  assumes "sendFirst env p target rec h i w = (Ok (), w')" and "i < length (pConns w)"
    and "can_fragment p" and "length rec \<le> 65540" and "0 < nePage (peNet env)" and "0 < sniStart h"
  shows "pIn w' = pIn w \<and> length (pConns w') = length (pConns w) \<and>
    (\<exists>ops. conn_calls w' i = conn_calls w i @ map (\<lambda>op. (op, None)) ops \<and> carries p rec ops)"
proof (cases "Mode_of p")
  case ModeTLSRF
  with assms(1) have "with_conn i (sendFragments (peNet env) p rec h) w = (Ok (), w')" by (simp add: sendFirst_def)
  from this assms(2) obtain n n' where "sendFragments (peNet env) p rec h n = (Ok (), n')"
    "calls (nSock n) = conn_calls w i" "conn_calls w' i = calls (nSock n')" "pIn w' = pIn w"
    "length (pConns w') = length (pConns w)" by (rule with_conn_Ok)
  with sendFragments_Ok [OF _ assms(3,4)] ModeTLSRF show ?thesis by (fastforce simp: carries_def)
next
  case ModeTTLD
  with assms(1) obtain c0 ttl w1 where
    t: "with_conn i (fakeTTL_of (peNet env) p target) w = (Ok ttl, w1)" and
    d: "with_conn i (sendDecoy (peNet env) p (c0 = CHR ''['') rec h ttl) w1 = (Ok (), w')"
    by (auto simp: sendFirst_def Let_def)
  from t assms(2) obtain n0 n1 where 1: "fakeTTL_of (peNet env) p target n0 = (Ok ttl, n1)"
    "calls (nSock n0) = conn_calls w i" "conn_calls w1 i = calls (nSock n1)" "pIn w1 = pIn w"
    "length (pConns w1) = length (pConns w)" by (rule with_conn_Ok)
  with assms(2) have "i < length (pConns w1)" by simp
  with d obtain n n' where 2: "sendDecoy (peNet env) p (c0 = CHR ''['') rec h ttl n = (Ok (), n')"
    "calls (nSock n) = conn_calls w1 i" "conn_calls w' i = calls (nSock n')" "pIn w' = pIn w1"
    "length (pConns w') = length (pConns w1)" by (rule with_conn_Ok)
  have "conn_calls w1 i = conn_calls w i" using 1 fakeTTL_of_sock [OF 1(1)] by simp
  with 1 2 sendDecoy_Ok [OF 2(1) assms(5,6)] ModeTTLD show ?thesis by (fastforce simp: carries_def)
qed (use assms(1,2) write_conn_Ok [of env i rec w w'] in \<open>auto simp: sendFirst_def carries_def intro: exI [of _ "[ConnWrite rec]"]\<close>)

lemma then_forward_True:
  "then_forward i m w = (Ok (d, True), w') \<longleftrightarrow> d = Some i \<and> m w = (Ok (), w')"
  by (auto simp: then_forward_def io_try_def io_bind_def io_return_def split: outcome.splits prod.splits)

lemma sendNamed_Ok:
  assumes "sendNamed env cli p oh target op dst rec h w = (Ok (Some i, True), w')" and "valid_dst w dst"
    and "\<And>q. q = p \<or> (\<exists>nf x x' d sni. genPolicy (pePol env) sni False nf x = (Ok (GenOk d q), x')) \<Longrightarrow> can_fragment q"
    and "length rec \<le> 65540" and "0 < nePage (peNet env)" and "0 < sniStart h"
  shows "\<exists>name p' ops. go_slice rec (sniStart h) (sniStart h + sniLen h) = Some name \<and>
    (p' = p \<or> (\<exists>nf x x' d. genPolicy (pePol env) (string_of_bytes name) False nf x = (Ok (GenOk d p'), x') \<and>
       Mode_of p' \<noteq> ModeBlock \<and> Mode_of p' \<noteq> ModeTLSAlert)) \<and>
    pIn w' = pIn w \<and> conn_calls w' i = conn_calls w i @ map (\<lambda>op. (op, None)) ops \<and> carries p' rec ops"
proof -
  from assms(1) obtain name ov w1 where name: "go_slice rec (sniStart h) (sniStart h + sniLen h) = Some name"
    and o: "sniffOverride env cli p oh (string_of_bytes name) op target h dst w = (Ok ov, w1)"
    and k: "(case ov of None \<Rightarrow> io_return (None, False)
     | Some (dst, p, target) \<Rightarrow> io_bind (ensureDst env target dst) (\<lambda>d.
         case d of None \<Rightarrow> io_return (None, False) | Some i \<Rightarrow> then_forward i (sendFirst env p target rec h i))) w1 =
       (Ok (Some i, True), w')"
    by (auto simp: sendNamed_def)
  from k obtain dst' p' t' where ov: "ov = Some (dst', p', t')" by (cases ov) auto
  with o have ok: "sniffOverride env cli p oh (string_of_bytes name) op target h dst w = (Ok (Some (dst', p', t')), w1)" by simp
  note over = sniffOverride_Ok [OF ok assms(2)]
  from k ov obtain d w2 where "ensureDst env t' dst' w1 = (Ok d, w2)"
    and k2: "(case d of None \<Rightarrow> io_return (None, False) | Some i \<Rightarrow> then_forward i (sendFirst env p' t' rec h i)) w2 =
      (Ok (Some i, True), w')" by auto
  with k2 have e: "ensureDst env t' dst' w1 = (Ok (Some i), w2)" and s: "sendFirst env p' t' rec h i w2 = (Ok (), w')"
    by (auto simp: then_forward_True split: option.split_asm)
  from ensureDst_Ok [OF e] over have en: "i < length (pConns w2)" "pIn w2 = pIn w1" "conn_calls w2 i = conn_calls w1 i" by auto
  have "can_fragment p'" using assms(3) over by blast
  from sendFirst_Ok [OF s en(1) this assms(4-6)] en over name show ?thesis
    by (auto simp: same_calls_def) blast
qed


section \<open>A connection that is left open\<close>

lemma sendTLSAlert_with_conn:
  assumes "length ver = 2" and "cli < length (pConns w)"
  obtains w' where "with_conn cli (on_sock (sendTLSAlert se ver desc level)) w = (Ok (), w')" and "pIn w' = pIn w"
    and "length (pConns w') = length (pConns w)" and "\<And>j. j \<noteq> cli \<Longrightarrow> pConns w' ! j = pConns w ! j"
proof -
  have "\<exists>s. sendTLSAlert se ver desc level (cSock (pConns w ! cli)) = (Ok (), s)"
    using assms(1) by (simp add: sendTLSAlert_def go_index_def io_bind_def io_try_def conn_write_def sys_def Let_def
        io_return_def split: option.split)
  then show thesis
    using that by (auto simp: with_conn_def on_sock_def Let_def)
qed

lemma close_conn_eq:
  "close_conn i w = (Ok (), w\<lparr>pConns := (pConns w)[i := \<lparr>cSock = cSock (pConns w ! i), cOpen = False\<rparr>]\<rparr>)"
  by (simp add: close_conn_def with_conn_def net_close_def Let_def)

text \<open>
  A blocked TLS connection leaves the server's connection open. When the policy answers a ClientHello
  with an alert and the server was dialled before, the tunnel returns having closed the client's
  connection only: the deferred close sees no server connection, because the failed \<^verbatim>\<open>handleTLS\<close>
  has replaced it by nil.
\<close>

theorem handleTunnel_alert_leaks:
  assumes "i < length (pConns w)" and "cli < length (pConns w)" and "i \<noteq> cli" and "cOpen (pConns w ! i)"
    and "Mode_of p = ModeTLSAlert" and "pIn w = rec @ rest" and "10 \<le> length rec"
    and "first_record rec = FirstRecord rec []" and "parseClientHello rec = Some (h, None)" and "length (prtVer h) = 2"
  shows "\<exists>w'. handleTunnel env p (Some i) cli target originHost originPort w = (Ok TunnelReturned, w') \<and>
    \<not> cOpen (pConns w' ! cli) \<and> cOpen (pConns w' ! i)"
proof -
  let ?w = "w\<lparr>pIn := rest\<rparr>"
  have rec: "rec ! 0 = tlsRecordTypeHandshake" "rec ! 1 = tlsMajorVersion" "nat (5 + be16_val rec 3) = length rec"
    using assms(7,8) by (auto simp: first_record_def Let_def tls_consts split: if_splits)
  have pk: "take 10 (pIn w) ! 0 = tlsRecordTypeHandshake" "take 10 (pIn w) ! 1 = tlsMajorVersion"
    "nat (5 + be16_val (take 10 (pIn w)) 3) = length rec"
    using rec assms(6,7) by (simp_all add: nth_append be16_val_def)
  have len: "\<not> length (pIn w) < 10" using assms(6,7) by simp
  obtain w1 where a: "with_conn cli (on_sock (sendTLSAlert (neSock (peNet env)) (prtVer h) tlsAlertAccessDenied tlsAlertLevelFatal)) ?w = (Ok (), w1)"
    and w1: "length (pConns w1) = length (pConns w)" "pConns w1 ! i = pConns w ! i"
    using sendTLSAlert_with_conn [of "prtVer h" cli ?w] assms(2,3,10) by (metis pworld.select_convs(1) pworld.surjective pworld.update_convs(2))
  have "readFull (length rec) w = (Ok rec, ?w)" using assms(6) by (simp add: readFull_def)
  then have "handleTLS env cli p originHost target originPort (length rec) (Some i) w = (Ok (None, False), w1)"
    using assms(5,9) a by (simp add: handleTLS_def handleClientHello_def io_try_def io_bind_def io_return_def Let_def)
  then have "handleTunnel env p (Some i) cli target originHost originPort w =
      (Ok TunnelReturned, w1\<lparr>pConns := (pConns w1)[cli := \<lparr>cSock = cSock (pConns w1 ! cli), cOpen = False\<rparr>]\<rparr>)"
    unfolding handleTunnel_def Let_def
    using assms(5) len pk by (simp add: unless_ok_def returnTunnel_def closeBoth_def close_conn_eq io_bind_def io_return_def)
  with w1 assms show ?thesis by simp
qed

section \<open>Concrete tunnels\<close>

definition proxy_env_example :: proxy_env where
  "proxy_env_example = \<lparr>peNet = net_env_example,
     pePol = block_env\<lparr>eMatch := matchers_example\<lparr>findDomain := \<lambda>_. Some (zero_policy\<lparr>Mode_of := ModeBlock\<rparr>)\<rparr>\<rparr>,
     peDial = (\<lambda>_ _. Inr 0), peReadRequest = (\<lambda>b. (Inl IoEOF, [])), peWriteRequest = (\<lambda>_. []),
     peWriteResponse = (\<lambda>_. []), peStatusText = (\<lambda>_. [])\<rparr>"

definition pworld_example :: "bytes \<Rightarrow> pworld" where
  "pworld_example input = \<lparr>pConns = replicate 2 \<lparr>cSock = sock_example, cOpen = True\<rparr>, pIn = input,
     pPol = world_start, pTTL = \<lparr>dials = 0, cacheAdds = []\<rparr>, pDials = []\<rparr>"

theorem handleTunnel_alert_leaks_witness:
  "\<exists>w'. handleTunnel proxy_env_example (zero_policy\<lparr>Mode_of := ModeTLSAlert\<rparr>) (Some 1) 0 ''1.2.3.4:443'' ''a.io'' ''443''
     (pworld_example (enc_hello 1 hello_plain)) = (Ok TunnelReturned, w') \<and>
     \<not> cOpen (pConns w' ! 0) \<and> cOpen (pConns w' ! 1)"
proof -
  have "10 \<le> length (enc_hello 1 hello_plain)" by (simp add: enc_hello_def Let_def enc_body_def hello_plain_def hello_example_def)
  moreover have "parseClientHello (enc_hello 1 hello_plain) = Some (hello_none [3, 3], None)"
    using parseClientHello_scan [OF wf_hello_plain, of 1] by (simp add: hello_plain_def hello_example_def)
  ultimately show ?thesis
    using handleTunnel_alert_leaks [of 1 "pworld_example (enc_hello 1 hello_plain)" 0 "zero_policy\<lparr>Mode_of := ModeTLSAlert\<rparr>"
        "enc_hello 1 hello_plain" "[]" "hello_none [3, 3]"] first_record_enc_hello [OF wf_hello_plain, of 1 "[]"]
    by (simp add: pworld_example_def hello_none_def)
qed

lemma proxy_env_example_blocks: "genPolicy (pePol proxy_env_example) sni False nf x = (Ok GenBlocked, x)"
  by (simp add: genPolicy_def genDomainPolicy_def proxy_env_example_def block_env_def io_return_def Let_def zero_policy_def)

definition direct_policy :: Policy where "direct_policy = zero_policy\<lparr>Mode_of := ModeDirect\<rparr>"

lemma direct_policy_facts [simp]:
  "Mode_of direct_policy = ModeDirect" "\<not> IsTrue (TLS13Only direct_policy)" "can_fragment direct_policy"
  by (simp_all add: direct_policy_def zero_policy_def can_fragment_def IsTrue_def)


end
