(* ===== verification/Socks5.thy ===== *)
theory Socks5
  imports Tunnel
begin

text \<open>
  The SOCKS5 server, \<^verbatim>\<open>internal/socks5.go\<close>: method selection, the CONNECT request, the policy of the
  requested host, the reply, and the tunnel. A failed step is logged and ends the handler, whose
  deferred function closes the client's connection. Shown here: a well-formed request is read
  exactly and answered by what the policy decides, with the dial made only when it is let through.
\<close>

section \<open>Replies\<close>

definition noAuthReply :: bytes where "noAuthReply = [5, 0]"

definition socks5Reply :: "byte \<Rightarrow> bytes" where
  "socks5Reply code = [5, code, 0, 1, 0, 0, 0, 0, 0, 0]"

definition socks5ReplySuccess :: bytes where "socks5ReplySuccess = socks5Reply 0"
definition socks5ReplyServerFailure :: bytes where "socks5ReplyServerFailure = socks5Reply 1"
definition socks5ReplyConnNotAllowed :: bytes where "socks5ReplyConnNotAllowed = socks5Reply 2"
definition socks5ReplyCmdNotSupported :: bytes where "socks5ReplyCmdNotSupported = socks5Reply 7"
definition socks5ReplyAtypNotSupported :: bytes where "socks5ReplyAtypNotSupported = socks5Reply 8"

text \<open>The address listened on: the flag before the configuration, \<^verbatim>\<open>none\<close> turns the server off.\<close>

definition listenAddr :: "string \<Rightarrow> string \<Rightarrow> go_error + string option" where
  "listenAddr flag conf =
     (let a = (if flag = [] then conf else flag) in
      if a = [] then Inl (ErrorNew ''SOCKS5 bind address is not specified'')
      else if a = ''none'' then Inr None else Inr (Some a))"

text \<open>The number of the next connection, five hexadecimal digits.\<close>

definition nextConnID :: "int \<Rightarrow> int" where
  "nextConnID n = (let m = (n + 1) mod 2 ^ 32 in if m > 0xFFFFF then 1 else m)"

definition sendReply :: "proxy_env \<Rightarrow> nat \<Rightarrow> bytes \<Rightarrow> (pworld, bool) io" where
  "sendReply env cli reply =
     io_bind (io_try (write_conn env cli reply)) (\<lambda>r. io_return (case r of Inl _ \<Rightarrow> False | Inr _ \<Rightarrow> True))"

section \<open>The handler\<close>

text \<open>Failing ends the handler after the message is logged.\<close>

definition refuse :: "proxy_env \<Rightarrow> nat \<Rightarrow> bytes \<Rightarrow> string \<Rightarrow> (pworld, 'a) io" where
  "refuse env cli reply msg = io_bind (sendReply env cli reply) (\<lambda>_. io_fail (ErrorNew msg))"

definition selectMethod :: "proxy_env \<Rightarrow> nat \<Rightarrow> (pworld, unit) io" where
  "selectMethod env cli =
     io_bind (io_wrap ''Read method selection'' (readFull 2)) (\<lambda>header.
     if header ! 0 \<noteq> 5 then io_fail (ErrorNew ''Expected socks version 5'')
     else io_bind (io_wrap ''Read methods'' (readFull (unat (header ! 1)))) (\<lambda>methods.
     if 0 \<notin> set methods then io_fail (ErrorNew ''`no auth` method not found'')
     else io_wrap ''Send auth method'' (write_conn env cli noAuthReply)))"

text \<open>The requested host, and whether it came as an address; \<open>ipText\<close> is \<^verbatim>\<open>net.IP.String\<close>.\<close>

definition readHost :: "proxy_env \<Rightarrow> (bytes \<Rightarrow> string) \<Rightarrow> nat \<Rightarrow> (pworld, string \<times> bool) io" where
  "readHost env ipText cli =
     io_bind (io_wrap ''Read request header'' (readFull 4)) (\<lambda>header.
     if header ! 0 \<noteq> 5 then io_fail (ErrorNew ''Expected socks version 5'')
     else if header ! 1 \<noteq> 1 then refuse env cli socks5ReplyCmdNotSupported ''Expected cmd CONNECT''
     else if header ! 3 = 1 then
       io_bind (io_wrap ''Read IPv4 address'' (readFull 4)) (\<lambda>ipBytes. io_return (ipText ipBytes, True))
     else if header ! 3 = 4 then
       io_bind (io_wrap ''Read IPv6 address'' (readFull 16)) (\<lambda>ipBytes. io_return (ipText ipBytes, True))
     else if header ! 3 = 3 then
       io_bind (io_wrap ''Read domain length'' (readFull 1)) (\<lambda>lenByte.
       if unat (lenByte ! 0) > 253 then io_fail (ErrorNew ''Domain length too long'')
       else io_bind (io_wrap ''Read domain address'' (readFull (unat (lenByte ! 0)))) (\<lambda>domainBytes.
       io_return (string_of_bytes domainBytes, False)))
     else refuse env cli socks5ReplyAtypNotSupported ''Invalid atyp'')"

record connect_args =
  caPolicy :: Policy
  caDst :: "nat option"
  caTarget :: string
  caHost :: string
  caPort :: string

text \<open>From the policy to the success reply; a nil policy would be a run-time panic.\<close>

definition connectTo ::
  "proxy_env \<Rightarrow> nat \<Rightarrow> string \<Rightarrow> gen \<Rightarrow> (pworld, connect_args) io" where
  "connectTo env cli originHost g =
     (case g of
        GenFailed \<Rightarrow> refuse env cli socks5ReplyServerFailure ''policy''
      | GenBlocked \<Rightarrow> refuse env cli socks5ReplyConnNotAllowed ''Connection blocked''
      | GenNotFound \<Rightarrow> io_option None
      | GenOk dstHost policy \<Rightarrow>
          io_bind (io_wrap ''Read port'' (readFull 2)) (\<lambda>portBytes.
          let dstPort = be16_val portBytes 0;
              originPort = Itoa dstPort;
              dstPort = (if Port policy \<noteq> 0 \<and> Port policy \<noteq> unsetInt then Port policy mod 65536 else dstPort);
              target = JoinHostPort dstHost (Itoa dstPort) in
          io_bind (if ReplyFirst policy \<noteq> BoolTrue then
                     io_bind (io_try (dialTCP env target)) (\<lambda>r.
                     case r of Inl _ \<Rightarrow> refuse env cli socks5ReplyServerFailure ''Connection failed''
                     | Inr i \<Rightarrow> io_return (Some i))
                   else io_return None) (\<lambda>dst.
          io_bind (sendReply env cli socks5ReplySuccess) (\<lambda>sent.
          if \<not> sent then io_fail (ErrorNew ''Send SOCKS5 reply'')
          else io_return \<lparr>caPolicy = policy, caDst = dst, caTarget = target, caHost = originHost, caPort = originPort\<rparr>))))"

definition socks5Request :: "proxy_env \<Rightarrow> (bytes \<Rightarrow> string) \<Rightarrow> nat \<Rightarrow> (pworld, connect_args) io" where
  "socks5Request env ipText cli =
     io_bind (selectMethod env cli) (\<lambda>_.
     io_bind (readHost env ipText cli) (\<lambda>(originHost, isIP).
     io_bind (on_pol (genPolicy (pePol env) originHost isIP False)) (connectTo env cli originHost)))"

definition socks5Handler :: "proxy_env \<Rightarrow> (bytes \<Rightarrow> string) \<Rightarrow> nat \<Rightarrow> (pworld, tunnel_end) io" where
  "socks5Handler env ipText cli =
     io_bind (io_try (socks5Request env ipText cli)) (\<lambda>r.
     case r of
       Inl _ \<Rightarrow> io_bind (close_conn cli) (\<lambda>_. io_return TunnelReturned)
     | Inr a \<Rightarrow> handleTunnel env (caPolicy a) (caDst a) cli (caTarget a) (caHost a) (caPort a))"

section \<open>A well-formed request\<close>

definition enc_greeting :: "bytes \<Rightarrow> bytes" where
  "enc_greeting methods = [5, of_nat (length methods)] @ methods"

definition enc_connect :: "bytes \<Rightarrow> bytes" where
  "enc_connect host = [5, 1, 0, 3, of_nat (length host)] @ host"

lemma readFull_append: "pIn w = xs @ rest \<Longrightarrow> length xs = n \<Longrightarrow> readFull n w = (Ok xs, w\<lparr>pIn := rest\<rparr>)"
  by (auto simp: readFull_def)

lemma io_wrap_readFull: "pIn w = xs @ rest \<Longrightarrow> length xs = n \<Longrightarrow> io_wrap s (readFull n) w = (Ok xs, w\<lparr>pIn := rest\<rparr>)"
  by (simp add: io_wrap_def readFull_append)

lemma unat_of_nat_byte: "n < 256 \<Longrightarrow> unat (of_nat n :: byte) = n"
  by (simp add: unat_of_nat)

text \<open>A server that writes without errors: what a write does to the world.\<close>

definition wrote_conn :: "proxy_env \<Rightarrow> nat \<Rightarrow> bytes \<Rightarrow> pworld \<Rightarrow> pworld" where
  "wrote_conn env i b w = snd (write_conn env i b w)"

text \<open>Every connection stays of its kind.\<close>

definition same_kinds :: "pworld \<Rightarrow> pworld \<Rightarrow> bool" where
  "same_kinds w w' \<longleftrightarrow> (\<forall>j < length (pConns w). is_tcp (cSock (pConns w' ! j)) = is_tcp (cSock (pConns w ! j)))"

lemma wrote_conn_kinds: "i < length (pConns w) \<Longrightarrow> same_kinds w (wrote_conn env i b w)"
  by (auto simp: same_kinds_def wrote_conn_def write_conn_def with_conn_def on_sock_def conn_write_def sys_def io_bind_def io_return_def Let_def
      nth_list_update split: option.split prod.split)

lemma write_conn_quiet:
  assumes "\<forall>s op. rerr (neSock (peNet env) s op) = None" and "i < length (pConns w)"
  shows "write_conn env i b w = (Ok (), wrote_conn env i b w)"
    and "conn_calls (wrote_conn env i b w) i = conn_calls w i @ [(ConnWrite b, None)]"
    and "pIn (wrote_conn env i b w) = pIn w" and "pPol (wrote_conn env i b w) = pPol w"
    and "pDials (wrote_conn env i b w) = pDials w" and "length (pConns (wrote_conn env i b w)) = length (pConns w)"
proof -
  have "\<exists>s. conn_write (neSock (peNet env)) b (cSock (pConns w ! i)) = (Ok (), s)"
    using assms(1) by (simp add: conn_write_def sys_def io_bind_def io_return_def Let_def)
  then obtain w' where w: "write_conn env i b w = (Ok (), w')" and "pPol w' = pPol w" "pDials w' = pDials w"
    by (auto simp: write_conn_def with_conn_def on_sock_def Let_def)
  then have "wrote_conn env i b w = w'" by (simp add: wrote_conn_def)
  with w \<open>pPol w' = pPol w\<close> \<open>pDials w' = pDials w\<close> write_conn_Ok [OF w assms(2)]
  show "write_conn env i b w = (Ok (), wrote_conn env i b w)"
    "conn_calls (wrote_conn env i b w) i = conn_calls w i @ [(ConnWrite b, None)]"
    "pIn (wrote_conn env i b w) = pIn w" "pPol (wrote_conn env i b w) = pPol w"
    "pDials (wrote_conn env i b w) = pDials w" "length (pConns (wrote_conn env i b w)) = length (pConns w)"
    by simp_all
qed

lemma selectMethod_reads:
  assumes "\<forall>s op. rerr (neSock (peNet env) s op) = None" and "cli < length (pConns w)"
    and "pIn w = enc_greeting ms @ rest" and "0 \<in> set ms" and "length ms < 256"
  shows "selectMethod env cli w = (Ok (), wrote_conn env cli noAuthReply (w\<lparr>pIn := rest\<rparr>))"
proof -
  have 1: "io_wrap s (readFull 2) w = (Ok [5, of_nat (length ms)], w\<lparr>pIn := ms @ rest\<rparr>)" for s
    by (rule io_wrap_readFull) (simp_all add: assms(3) enc_greeting_def)
  have 2: "io_wrap s (readFull (length ms)) (w\<lparr>pIn := ms @ rest\<rparr>) = (Ok ms, w\<lparr>pIn := rest\<rparr>)" for s
    using io_wrap_readFull [of "w\<lparr>pIn := ms @ rest\<rparr>" ms rest "length ms" s] by simp
  have 3: "io_wrap s (write_conn env cli noAuthReply) (w\<lparr>pIn := rest\<rparr>) = (Ok (), wrote_conn env cli noAuthReply (w\<lparr>pIn := rest\<rparr>))" for s
    using write_conn_quiet(1) [of env cli "w\<lparr>pIn := rest\<rparr>" noAuthReply] assms(1,2) by (simp add: io_wrap_def)
  show ?thesis
    using assms(4) by (simp add: selectMethod_def io_bind_def 1 2 3 unat_of_nat_byte [OF assms(5)])
qed

lemma readHost_reads:
  assumes "pIn w = enc_connect host @ rest" and "length host \<le> 253"
  shows "readHost env ipText cli w = (Ok (string_of_bytes host, False), w\<lparr>pIn := rest\<rparr>)"
proof -
  let ?l = "of_nat (length host) :: byte"
  have 1: "io_wrap s (readFull 4) w = (Ok [5, 1, 0, 3], w\<lparr>pIn := ?l # host @ rest\<rparr>)" for s
    by (rule io_wrap_readFull) (simp_all add: assms(1) enc_connect_def)
  have 2: "io_wrap s (readFull (Suc 0)) (w\<lparr>pIn := ?l # host @ rest\<rparr>) = (Ok [?l], w\<lparr>pIn := host @ rest\<rparr>)" for s
    using io_wrap_readFull [of "w\<lparr>pIn := ?l # host @ rest\<rparr>" "[?l]" "host @ rest" 1 s] by simp
  have 3: "io_wrap s (readFull (length host)) (w\<lparr>pIn := host @ rest\<rparr>) = (Ok host, w\<lparr>pIn := rest\<rparr>)" for s
    using io_wrap_readFull [of "w\<lparr>pIn := host @ rest\<rparr>" host rest "length host" s] by simp
  have l: "unat ?l = length host" using assms(2) by (simp add: unat_of_nat_byte)
  show ?thesis
    using assms(2) by (simp add: readHost_def io_bind_def io_return_def 1 2 3 l)
qed

text \<open>Up to the policy: the greeting is answered and exactly the request's bytes are read.\<close>

lemma socks5Request_reads:
  assumes "\<forall>s op. rerr (neSock (peNet env) s op) = None" and "cli < length (pConns w)"
    and "pIn w = enc_greeting ms @ enc_connect host @ rest" and "0 \<in> set ms" and "length ms < 256" and "length host \<le> 253"
    and "genPolicy (pePol env) (string_of_bytes host) False False (pPol w) = (Ok g, x)"
  obtains w1 where "socks5Request env ipText cli w = connectTo env cli (string_of_bytes host) g w1"
    and "pIn w1 = rest" and "pDials w1 = pDials w" and "length (pConns w1) = length (pConns w)"
    and "conn_calls w1 cli = conn_calls w cli @ [(ConnWrite noAuthReply, None)]" and "same_kinds w w1"
proof -
  let ?w = "w\<lparr>pIn := enc_connect host @ rest\<rparr>"
  let ?w1 = "wrote_conn env cli noAuthReply ?w"
  have cli: "cli < length (pConns ?w)" using assms(2) by simp
  note q = write_conn_quiet [OF assms(1) cli, of noAuthReply]
  have "selectMethod env cli w = (Ok (), ?w1)" by (rule selectMethod_reads [OF assms(1-5)])
  moreover have "readHost env ipText cli ?w1 = (Ok (string_of_bytes host, False), ?w1\<lparr>pIn := rest\<rparr>)"
    by (rule readHost_reads) (use q assms(6) in simp_all)
  ultimately have "socks5Request env ipText cli w =
      connectTo env cli (string_of_bytes host) g (?w1\<lparr>pIn := rest, pPol := x\<rparr>)"
    using assms(7) q by (simp add: socks5Request_def io_bind_def on_pol_def)
  then show thesis
    by (rule that) (use q cli wrote_conn_kinds [of cli ?w env noAuthReply] in \<open>auto simp: conn_calls_def same_kinds_def\<close>)
qed

lemma sendReply_quiet:
  assumes "\<forall>s op. rerr (neSock (peNet env) s op) = None" and "cli < length (pConns w)"
  shows "sendReply env cli reply w = (Ok True, wrote_conn env cli reply w)"
  using write_conn_quiet(1) [OF assms] by (simp add: sendReply_def io_try_def io_bind_def io_return_def)

lemma socks5Handler_refused:
  assumes "\<forall>s op. rerr (neSock (peNet env) s op) = None" and "cli < length (pConns w1)"
    and "socks5Request env ipText cli w = refuse env cli reply msg w1"
  shows "\<exists>w'. socks5Handler env ipText cli w = (Ok TunnelReturned, w') \<and> pDials w' = pDials w1 \<and>
    conn_calls w' cli = conn_calls w1 cli @ [(ConnWrite reply, None)] \<and> \<not> cOpen (pConns w' ! cli)"
proof -
  let ?w = "wrote_conn env cli reply w1"
  note q = write_conn_quiet [OF assms(1,2), of reply]
  have "socks5Request env ipText cli w = (Fail (ErrorNew msg), ?w)"
    using assms(3) sendReply_quiet [OF assms(1,2)] by (simp add: refuse_def io_bind_def io_fail_def)
  then have "socks5Handler env ipText cli w = (Ok TunnelReturned,
      ?w\<lparr>pConns := (pConns ?w)[cli := \<lparr>cSock = cSock (pConns ?w ! cli), cOpen = False\<rparr>]\<rparr>)"
    by (simp add: socks5Handler_def io_try_def io_bind_def close_conn_eq io_return_def)
  with q assms(2) show ?thesis by (auto simp: conn_calls_def)
qed

lemma io_bind_step: "m w = (Ok x, w') \<Longrightarrow> io_bind m k w = k x w'"
  by (simp add: io_bind_def)

lemma refuse_bind: "io_bind (refuse env cli reply msg) k = refuse env cli reply msg"
  by (simp add: refuse_def)

lemma connectTo_dials:
  assumes "\<forall>s op. rerr (neSock (peNet env) s op) = None" and "cli < length (pConns w)"
    and "pIn w = put_uint16 port @ rest" and "0 \<le> port" and "port < 65536" and "ReplyFirst p \<noteq> BoolTrue"
    and "target = JoinHostPort dst (Itoa (if Port p \<noteq> 0 \<and> Port p \<noteq> unsetInt then Port p mod 65536 else port))"
  obtains w1 where "pDials w1 = pDials w @ [target]" and "pIn w1 = rest" and "cli < length (pConns w1)"
    and "conn_calls w1 cli = conn_calls w cli" and "same_kinds w w1"
    and "\<And>t. peDial env (length (pDials w)) target = Inr t \<Longrightarrow>
      pConns w1 = pConns w @ [\<lparr>cSock = \<lparr>is_tcp = True, calls = [], now = t\<rparr>, cOpen = True\<rparr>]"
    and "\<And>e. peDial env (length (pDials w)) target = Inl e \<Longrightarrow>
      connectTo env cli host (GenOk dst p) w = refuse env cli socks5ReplyServerFailure ''Connection failed'' w1"
    and "\<And>t. peDial env (length (pDials w)) target = Inr t \<Longrightarrow>
      connectTo env cli host (GenOk dst p) w =
        (Ok \<lparr>caPolicy = p, caDst = Some (length (pConns w)), caTarget = target, caHost = host, caPort = Itoa port\<rparr>,
         wrote_conn env cli socks5ReplySuccess w1)"
proof -
  let ?w = "w\<lparr>pIn := rest\<rparr>"
  let ?w1 = "snd (dialTCP env target ?w)"
  have rd: "io_wrap s (readFull 2) w = (Ok (put_uint16 port), ?w)" for s
    by (rule io_wrap_readFull) (simp_all add: assms(3))
  have port: "be16_val (put_uint16 port) 0 = port"
    using be16_at_append [of "[]" 0 port "[]"] assms(4,5) by (auto dest: be16_at_SomeD)
  have w1: "pDials ?w1 = pDials w @ [target]" "pIn ?w1 = rest" "cli < length (pConns ?w1)" "conn_calls ?w1 cli = conn_calls w cli"
    using assms(2) by (auto simp: dialTCP_def conn_calls_def Let_def nth_append split: sum.split)
  have bad: "connectTo env cli host (GenOk dst p) w = refuse env cli socks5ReplyServerFailure ''Connection failed'' ?w1"
    if "peDial env (length (pDials w)) target = Inl e" for e
  proof -
    have d: "io_try (dialTCP env target) ?w = (Ok (Inl e), ?w1)" using that by (simp add: dialTCP_def Let_def io_try_def)
    show ?thesis
      unfolding connectTo_def gen.case Let_def io_bind_step [of "io_wrap ''Read port'' (readFull 2)" w, OF rd] port
        assms(7) [symmetric]
      using assms(6) by (simp add: io_bind_step [of "io_try (dialTCP env target)", OF d] refuse_bind)
  qed
  have good: "connectTo env cli host (GenOk dst p) w =
        (Ok \<lparr>caPolicy = p, caDst = Some (length (pConns w)), caTarget = target, caHost = host, caPort = Itoa port\<rparr>,
         wrote_conn env cli socks5ReplySuccess ?w1)"
    if t: "peDial env (length (pDials w)) target = Inr t" for t
  proof -
    have d: "io_try (dialTCP env target) ?w = (Ok (Inr (length (pConns w))), ?w1)" using t by (simp add: dialTCP_def Let_def)
    have r: "sendReply env cli socks5ReplySuccess ?w1 = (Ok True, wrote_conn env cli socks5ReplySuccess ?w1)"
      by (rule sendReply_quiet [OF assms(1) w1(3)])
    show ?thesis
      unfolding connectTo_def gen.case Let_def io_bind_step [of "io_wrap ''Read port'' (readFull 2)" w, OF rd] port
        assms(7) [symmetric]
      using assms(6) by (simp add: io_bind_step [of "io_try (dialTCP env target)", OF d]
          io_bind_step [of "sendReply env cli socks5ReplySuccess", OF r] io_return_def)
  qed
  have kinds: "same_kinds w ?w1" by (auto simp: same_kinds_def dialTCP_def Let_def nth_append split: sum.split)
  have new: "pConns ?w1 = pConns w @ [\<lparr>cSock = \<lparr>is_tcp = True, calls = [], now = t\<rparr>, cOpen = True\<rparr>]"
    if "peDial env (length (pDials w)) target = Inr t" for t using that by (simp add: dialTCP_def Let_def)
  show thesis by (rule that [OF w1 kinds new bad good])
qed



end
