(* ===== verification/Duplex.thy ===== *)
theory Duplex
  imports GoIO
begin

text \<open>
  A connection as the protocols of the packet engine use one: bytes that arrive until the peer
  closes, read with \<^verbatim>\<open>io.ReadFull\<close> or one \<^verbatim>\<open>Read\<close> at a time, and a sequence of writes. The lemmas run
  such code forwards on known input and backwards from a result. A connection that wraps another
  one promises its reader the bytes still to come (\<open>stream_reader\<close>); what a loop of reads gets
  follows once, from that promise.
\<close>

text \<open>The bytes the peer sends until it closes, and what was written; \<open>wr\<close> gives the error of the n-th write.\<close>

record sconn =
  scIn :: bytes
  scOut :: "bytes list"

definition stream_read :: "nat \<Rightarrow> (sconn, bytes) io" where
  "stream_read n c =
     (if n \<le> length (scIn c) then (Ok (take n (scIn c)), c\<lparr>scIn := drop n (scIn c)\<rparr>)
      else (Fail (if scIn c = [] then IoEOF else IoErrUnexpectedEOF), c\<lparr>scIn := []\<rparr>))"

definition stream_write :: "(nat \<Rightarrow> go_error option) \<Rightarrow> bytes \<Rightarrow> (sconn, unit) io" where
  "stream_write wr b c =
     (case wr (length (scOut c)) of Some e \<Rightarrow> (Fail e, c) | None \<Rightarrow> (Ok (), c\<lparr>scOut := scOut c @ [b]\<rparr>))"

lemma bind_read_iff:
  "io_bind (stream_read n) k c = (Ok y, c2) \<longleftrightarrow>
   (\<exists>x rest. length x = n \<and> scIn c = x @ rest \<and> k x \<lparr>scIn = rest, scOut = scOut c\<rparr> = (Ok y, c2))"
proof (cases c)
  case (fields i ws)
  show ?thesis
  proof
    assume L: "io_bind (stream_read n) k c = (Ok y, c2)"
    then have "n \<le> length i" "k (take n i) \<lparr>scIn = drop n i, scOut = ws\<rparr> = (Ok y, c2)"
      by (auto simp: fields io_bind_def stream_read_def simp del: io_bind_Ok_iff split: if_splits)
    then show "\<exists>x rest. length x = n \<and> scIn c = x @ rest \<and> k x \<lparr>scIn = rest, scOut = scOut c\<rparr> = (Ok y, c2)"
      by (intro exI [of _ "take n i"] exI [of _ "drop n i"]) (simp add: fields)
  qed (auto simp: fields io_bind_def stream_read_def simp del: io_bind_Ok_iff)
qed

lemma bind_write_iff:
  "io_bind (stream_write (\<lambda>_. None) b) k c = (Ok y, c2) \<longleftrightarrow> k () \<lparr>scIn = scIn c, scOut = scOut c @ [b]\<rparr> = (Ok y, c2)"
  by (cases c) (simp add: io_bind_def stream_write_def del: io_bind_Ok_iff)

text \<open>The same, run forwards on known input.\<close>

lemma stream_run:
  "io_bind (stream_read 2) k \<lparr>scIn = x # y # rest, scOut = ws\<rparr> = k [x, y] \<lparr>scIn = rest, scOut = ws\<rparr>"
  "io_bind (stream_read 3) k \<lparr>scIn = x # y # z # rest, scOut = ws\<rparr> = k [x, y, z] \<lparr>scIn = rest, scOut = ws\<rparr>"
  "io_bind (stream_write (\<lambda>_. None) b) k' \<lparr>scIn = rest, scOut = ws\<rparr> = k' () \<lparr>scIn = rest, scOut = ws @ [b]\<rparr>"
  by (simp_all add: io_bind_def stream_read_def stream_write_def)

lemmas stream_iffs = bind_read_iff bind_write_iff

section \<open>Single reads\<close>

text \<open>
  One \<^verbatim>\<open>Read\<close> into \<open>k\<close> bytes gives what has arrived, at least one byte; \<open>got\<close> says how much that is
  when so many bytes are still to come.
\<close>

definition stream_recv :: "(nat \<Rightarrow> nat) \<Rightarrow> nat \<Rightarrow> (sconn, bytes) io" where
  "stream_recv got k c =
     (let n = length (scIn c); m = min k (min n (max 1 (got n))) in
      if k = 0 then (Ok [], c)
      else if n = 0 then (Fail IoEOF, c)
      else (Ok (take m (scIn c)), c\<lparr>scIn := drop m (scIn c)\<rparr>))"

lemma stream_recv_Ok:
  assumes "scIn c \<noteq> []" and "0 < k"
  shows "\<exists>x rest. stream_recv got k c = (Ok x, c\<lparr>scIn := rest\<rparr>) \<and> x \<noteq> [] \<and> length x \<le> k \<and> scIn c = x @ rest"
proof -
  let ?m = "min k (min (length (scIn c)) (max 1 (got (length (scIn c)))))"
  have "0 < ?m" "?m \<le> k" using assms by auto
  with assms show ?thesis
    by (intro exI [of _ "take ?m (scIn c)"] exI [of _ "drop ?m (scIn c)"]) (auto simp: stream_recv_def Let_def)
qed

fun reads :: "(nat \<Rightarrow> ('c, bytes) io) \<Rightarrow> nat list \<Rightarrow> ('c, bytes list) io" where
  "reads rd [] = io_return []"
| "reads rd (k # ks) = io_bind (rd k) (\<lambda>x. io_bind (reads rd ks) (\<lambda>xs. io_return (x # xs)))"

text \<open>The contract: while bytes are pending a read gives some of them in order, and then the end of the stream.\<close>

locale stream_reader =
  fixes rd :: "nat \<Rightarrow> ('c, bytes) io" and pending :: "'c \<Rightarrow> bytes \<Rightarrow> bool"
  assumes read_end: "pending c [] \<Longrightarrow> 0 < k \<Longrightarrow> fst (rd k c) = Fail IoEOF"
    and read_some: "pending c P \<Longrightarrow> P \<noteq> [] \<Longrightarrow> 0 < k \<Longrightarrow>
      \<exists>x P' c'. rd k c = (Ok x, c') \<and> x \<noteq> [] \<and> P = x @ P' \<and> pending c' P'"
begin

lemma reads_pending:
  assumes "pending c P" and "\<forall>k \<in> set ks. 0 < k" and "length P < length ks"
  shows "\<exists>j xs c'. j < length ks \<and> reads rd (take j ks) c = (Ok xs, c') \<and> concat xs = P \<and> fst (rd (ks ! j) c') = Fail IoEOF"
  using assms
proof (induction ks arbitrary: c P)
  case (Cons k ks)
  show ?case
  proof (cases "P = []")
    case True
    then show ?thesis using read_end [of c k] Cons.prems(1,2)
      by (intro exI [of _ 0] exI [of _ "[]"] exI [of _ c]) (simp add: io_return_def)
  next
    case False
    with read_some [OF Cons.prems(1), of k] Cons.prems(2) obtain x P' c1 where
      x: "rd k c = (Ok x, c1)" "x \<noteq> []" "P = x @ P'" "pending c1 P'" by auto
    have "length P' < length ks" using Cons.prems(3) x(2,3) by (cases x) auto
    with Cons.IH [OF x(4)] Cons.prems(2) obtain j xs c' where
      j: "j < length ks" "reads rd (take j ks) c1 = (Ok xs, c')" "concat xs = P'" "fst (rd (ks ! j) c') = Fail IoEOF"
      by auto
    then show ?thesis
      using x by (intro exI [of _ "Suc j"] exI [of _ "x # xs"] exI [of _ c']) (simp add: io_bind_def io_return_def del: io_bind_Ok_iff)
  qed
qed simp

end

end
