(* ===== verification/SocksClient.thy ===== *)
theory SocksClient
  imports HttpProxy Engine Duplex
begin

text \<open>
  The SOCKS clients of the packet engine, \<^verbatim>\<open>tun2socks/transport/socks5\<close>,
  \<^verbatim>\<open>tun2socks/transport/socks4\<close> and \<^verbatim>\<open>tun2socks/proxy/socks5.go\<close>: addresses on the wire, the
  handshake, and datagrams through the relay. Shown here: the two decoders of an address agree on
  every input, encoding an address or a datagram and decoding it is the identity, and the
  handshake with a conforming server sends exactly the request and returns the bound address.
\<close>

section \<open>Addresses\<close>

definition MaxAddrLen :: nat where "MaxAddrLen = 1 + 1 + 255 + 2"
definition AtypIPv4 :: byte where "AtypIPv4 = 1"
definition AtypDomainName :: byte where "AtypDomainName = 3"
definition AtypIPv6 :: byte where "AtypIPv6 = 4"

lemmas atyps = AtypIPv4_def AtypDomainName_def AtypIPv6_def

definition Addr_Valid :: "bytes \<Rightarrow> bool" where
  "Addr_Valid a \<longleftrightarrow>
     4 \<le> length a \<and>
     (if a ! 0 = AtypDomainName then 1 + 1 + unat (a ! 1) + 2 \<le> length a
      else if a ! 0 = AtypIPv4 then 1 + 4 + 2 \<le> length a
      else if a ! 0 = AtypIPv6 then 1 + 16 + 2 \<le> length a
      else True)"

text \<open>\<^verbatim>\<open>Addr.String\<close>; \<open>ipText\<close> is \<^verbatim>\<open>net.IP.String\<close>.\<close>

definition Addr_String :: "(bytes \<Rightarrow> string) \<Rightarrow> bytes \<Rightarrow> string" where
  "Addr_String ipText a =
     (if \<not> Addr_Valid a then []
      else if a ! 0 = AtypDomainName then
        let hostLen = unat (a ! 1) in
        JoinHostPort (string_of_bytes (take hostLen (drop 2 a))) (Itoa (be16_val a (2 + int hostLen)))
      else if a ! 0 = AtypIPv4 then JoinHostPort (ipText (take 4 (drop 1 a))) (Itoa (be16_val a 5))
      else if a ! 0 = AtypIPv6 then JoinHostPort (ipText (take 16 (drop 1 a))) (Itoa (be16_val a 17))
      else JoinHostPort [] [])"

text \<open>\<^verbatim>\<open>Addr.UDPAddr\<close>: the bytes of the address and the port.\<close>

definition Addr_UDPAddr :: "bytes \<Rightarrow> (bytes \<times> int) option" where
  "Addr_UDPAddr a =
     (if \<not> Addr_Valid a \<or> a ! 0 = AtypDomainName then None
      else if a ! 0 = AtypIPv4 then Some (take 4 (drop 1 a), be16_val a 5)
      else if a ! 0 = AtypIPv6 then Some (take 16 (drop 1 a), be16_val a 17)
      else Some ([], 0))"

text \<open>\<^verbatim>\<open>ReadAddr\<close> into a buffer of \<open>n\<close> bytes.\<close>

definition ReadAddr :: "nat \<Rightarrow> (sconn, bytes) io" where
  "ReadAddr n =
     (if n < MaxAddrLen then io_fail IoErrShortBuffer
      else
        io_bind (stream_read 1) (\<lambda>t.
        if t ! 0 = AtypDomainName then
          io_bind (stream_read 1) (\<lambda>l.
          io_bind (stream_read (unat (l ! 0) + 2)) (\<lambda>r. io_return (t @ l @ r)))
        else if t ! 0 = AtypIPv4 then io_bind (stream_read (4 + 2)) (\<lambda>r. io_return (t @ r))
        else if t ! 0 = AtypIPv6 then io_bind (stream_read (16 + 2)) (\<lambda>r. io_return (t @ r))
        else io_fail (ErrorNew ''invalid address type'')))"

definition SplitAddr :: "bytes \<Rightarrow> bytes option" where
  "SplitAddr b =
     (if length b < 1 then None
      else
        case (if b ! 0 = AtypDomainName then (if length b < 2 then None else Some (1 + 1 + unat (b ! 1) + 2))
              else if b ! 0 = AtypIPv4 then Some (1 + 4 + 2)
              else if b ! 0 = AtypIPv6 then Some (1 + 16 + 2)
              else None) of
          None \<Rightarrow> None
        | Some addrLen \<Rightarrow> if length b < addrLen then None else Some (take addrLen b))"

text \<open>The address is absent (\<^const>\<open>None\<close>) when it is the zero value.\<close>

definition SerializeAddr :: "bytes \<Rightarrow> addr option \<Rightarrow> int \<Rightarrow> bytes" where
  "SerializeAddr domainName dstIP dstPort =
     (let port = put_uint16 dstPort in
      if domainName \<noteq> [] then [AtypDomainName, of_nat (length domainName)] @ domainName @ port
      else case dstIP of
        Some (Addr4 ip) \<Rightarrow> [AtypIPv4] @ ip @ port
      | Some (Addr6 ip) \<Rightarrow> [AtypIPv6] @ ip @ port
      | None \<Rightarrow> [AtypIPv6] @ port)"

text \<open>\<^verbatim>\<open>strconv.ParseUint(s, 10, 16)\<close>.\<close>

definition parse_uint16 :: "string \<Rightarrow> int option" where
  "parse_uint16 s = (if s = [] \<or> \<not> list_all is_digit s \<or> 65535 < digits_val s then None else Some (digits_val s))"

definition ParseAddrString :: "(string \<Rightarrow> addr option) \<Rightarrow> string \<Rightarrow> bytes option" where
  "ParseAddrString parseAddr s =
     (case SplitHostPort s of
        Inl _ \<Rightarrow> None
      | Inr (host, port) \<Rightarrow>
          case parse_uint16 port of
            None \<Rightarrow> None
          | Some dstPort \<Rightarrow>
              case parseAddr host of
                Some ip \<Rightarrow> Some (SerializeAddr [] (Some ip) dstPort)
              | None \<Rightarrow> Some (SerializeAddr (bytes_of_string host) None dstPort))"

section \<open>Datagrams\<close>

text \<open>The error does not keep the function from setting the payload.\<close>

definition DecodeUDPPacket :: "bytes \<Rightarrow> bytes option \<times> bytes \<times> go_error option" where
  "DecodeUDPPacket packet =
     (if length packet < 5 then (None, [], Some (ErrorNew ''insufficient length of packet''))
      else if take 2 packet \<noteq> [0, 0] then (None, [], Some (ErrorNew ''reserved fields should be zero''))
      else if packet ! 2 \<noteq> 0 then (None, [], Some (ErrorNew ''discarding fragmented payload''))
      else case SplitAddr (drop 3 packet) of
        None \<Rightarrow> (None, drop 3 packet, Some (ErrorNew ''socks5 UDP addr is nil''))
      | Some a \<Rightarrow> (Some a, drop (3 + length a) packet, None))"

definition EncodeUDPPacket :: "bytes option \<Rightarrow> bytes \<Rightarrow> go_error + bytes" where
  "EncodeUDPPacket a payload =
     (case a of None \<Rightarrow> Inl (ErrorNew ''address is invalid'') | Some a \<Rightarrow> Inr ([0, 0, 0] @ a @ payload))"

text \<open>
  \<^verbatim>\<open>socksPacketConn.ReadFrom\<close> on a buffer \<open>b\<close> whose first \<open>n\<close> bytes are the datagram just received: the
  whole buffer is decoded, with what earlier datagrams left in it. The result is the number
  reported, the sender, and the buffer.
\<close>

definition socks_ReadFrom :: "(bytes \<Rightarrow> string) \<Rightarrow> nat \<Rightarrow> bytes \<Rightarrow> go_error + int \<times> (bytes \<times> int) \<times> bytes" where
  "socks_ReadFrom ipText n b =
     (case DecodeUDPPacket b of
        (a, payload, Some err) \<Rightarrow> Inl err
      | (a, payload, None) \<Rightarrow>
          (case a of
             None \<Rightarrow> Inl (ErrorNew ''socks5 UDP addr is nil'')
           | Some a \<Rightarrow>
               case Addr_UDPAddr a of
                 None \<Rightarrow> Inl (ErrorNew (''convert '' @ Addr_String ipText a @ '' to UDPAddr is nil''))
               | Some u \<Rightarrow> Inr (int n - int (length a) - 3, u, go_copy b payload)))"

section \<open>Handshakes\<close>

datatype Command = CmdConnect | CmdBind | CmdUDPAssociate

fun Command_String :: "Command \<Rightarrow> string" where
  "Command_String CmdConnect = ''CONNECT''"
| "Command_String CmdBind = ''BIND''"
| "Command_String CmdUDPAssociate = ''UDP ASSOCIATE''"

fun command_byte :: "Command \<Rightarrow> byte" where
  "command_byte CmdConnect = 1" | "command_byte CmdBind = 2" | "command_byte CmdUDPAssociate = 3"

text \<open>\<open>hex\<close> prints a reply code outside the standard ones.\<close>

definition Reply_String :: "(byte \<Rightarrow> string) \<Rightarrow> byte \<Rightarrow> string" where
  "Reply_String hex r =
     (let names = [''succeeded'', ''general SOCKS server failure'', ''connection not allowed by ruleset'',
        ''network unreachable'', ''host unreachable'', ''connection refused'', ''TTL expired'',
        ''command not supported'', ''address type not supported''] in
      if unat r < 9 then names ! unat r else ''unassigned <'' @ hex r @ ''>'')"

record User =
  Username :: bytes
  Password :: bytes

definition MaxAuthLen :: nat where "MaxAuthLen = 255"

definition auth_step :: "(nat \<Rightarrow> go_error option) \<Rightarrow> User \<Rightarrow> (sconn, unit) io" where
  "auth_step wr user =
     (let uLen = length (Username user); pLen = length (Password user) in
      if uLen = 0 \<or> pLen = 0 then io_fail (ErrorNew ''auth username/password empty'')
      else if uLen > MaxAuthLen \<or> pLen > MaxAuthLen then io_fail (ErrorNew ''auth username/password too long'')
      else
        io_bind (stream_write wr ([1, of_nat uLen] @ Username user @ [of_nat pLen] @ Password user)) (\<lambda>_.
        io_bind (stream_read 2) (\<lambda>r.
        if r ! 1 \<noteq> 0 then io_fail (ErrorNew ''rejected username/password'') else io_return ())))"

definition ClientHandshake ::
  "(byte \<Rightarrow> string) \<Rightarrow> (nat \<Rightarrow> go_error option) \<Rightarrow> bytes \<Rightarrow> Command \<Rightarrow> User option \<Rightarrow> (sconn, bytes) io" where
  "ClientHandshake hex wr a command user =
     io_bind (stream_write wr [5, 1, if user \<noteq> None then 2 else 0]) (\<lambda>_.
     io_bind (stream_read 2) (\<lambda>r.
     if r ! 0 \<noteq> 5 then io_fail (ErrorNew ''socks version mismatched'')
     else
       io_bind
         (if r ! 1 = 2 then
            (case user of None \<Rightarrow> io_fail (ErrorNew ''auth required'') | Some u \<Rightarrow> auth_step wr u)
          else if r ! 1 \<noteq> 0 then io_fail (ErrorNew ''unsupported method'')
          else io_return ()) (\<lambda>_.
       io_bind (stream_write wr ([5, command_byte command, 0] @ a)) (\<lambda>_.
       io_bind (stream_read 3) (\<lambda>rep.
       if rep ! 1 \<noteq> 0 then io_fail (ErrorNew (Command_String command @ '': '' @ Reply_String hex (rep ! 1)))
       else ReadAddr MaxAddrLen)))))"

text \<open>SOCKS4, with the name after the request when the address is a reserved one (SOCKS4A).\<close>

definition splitHostPort4 :: "string \<Rightarrow> go_error + string \<times> int" where
  "splitHostPort4 s =
     (case SplitHostPort s of
        Inl e \<Rightarrow> Inl e
      | Inr (host, port) \<Rightarrow>
          (case parse_uint16 port of
             None \<Rightarrow> Inl (ErrorNew (''strconv.ParseUint: parsing '' @ port))
           | Some p \<Rightarrow> Inr (host, p)))"

definition isReservedIP :: "bytes \<Rightarrow> bool" where
  "isReservedIP ip \<longleftrightarrow> ip \<noteq> [0, 0, 0, 0] \<and> take 3 ip = [0, 0, 0]"

text \<open>The four bytes sent: \<^const>\<open>None\<close> is an IPv6 address, which has none.\<close>

definition socks4_ip :: "addr option \<Rightarrow> bytes option" where
  "socks4_ip ip =
     (case ip of
        None \<Rightarrow> Some [0, 0, 0, 1]
      | Some (Addr4 b) \<Rightarrow> Some b
      | Some (Addr6 b) \<Rightarrow> if take 12 b = replicate 10 0 @ [255, 255] then Some (drop 12 b) else None)"

definition socks4_Handshake ::
  "(string \<Rightarrow> addr option) \<Rightarrow> (nat \<Rightarrow> go_error option) \<Rightarrow> string \<Rightarrow> Command \<Rightarrow> bytes \<Rightarrow> (sconn, unit) io" where
  "socks4_Handshake parseAddr wr target command userID =
     (if command = CmdBind then io_fail (ErrorNew ''command not supported'')
      else
        io_bind (io_of_sum (splitHostPort4 target)) (\<lambda>(host, port).
        case socks4_ip (parseAddr host) of
          None \<Rightarrow> io_fail (ErrorNew ''IPv6 not supported'')
        | Some ip \<Rightarrow>
            io_bind (stream_write wr ([4, command_byte command] @ put_uint16 port @ ip @ userID @ [0] @
              (if isReservedIP ip then bytes_of_string host @ [0] else []))) (\<lambda>_.
            io_bind (stream_read 8) (\<lambda>resp.
            if resp ! 0 \<noteq> 0 then io_fail (ErrorNew ''version code mismatched'')
            else if resp ! 1 = 90 then io_return ()
            else if resp ! 1 = 91 then io_fail (ErrorNew ''request rejected or failed'')
            else if resp ! 1 = 92 then
              io_fail (ErrorNew ''request rejected because SOCKS server cannot connect to identd on the client'')
            else if resp ! 1 = 93 then
              io_fail (ErrorNew ''request rejected because the client program and identd report different user-ids'')
            else io_fail (ErrorNew ''request failed with unknown code'')))))"

section \<open>The two decoders agree\<close>

lemma length_1_2_3:
  "length xs = Suc 0 \<longleftrightarrow> (\<exists>x. xs = [x])" "length xs = 2 \<longleftrightarrow> (\<exists>x y. xs = [x, y])" "length xs = 3 \<longleftrightarrow> (\<exists>x y z. xs = [x, y, z])"
  by (auto simp: length_Suc_conv numeral_2_eq_2 numeral_3_eq_3)

lemma SplitAddr_iff:
  "SplitAddr b = Some a \<longleftrightarrow> (\<exists>r rest. b = a @ rest \<and>
     ((\<exists>n. a = AtypDomainName # n # r \<and> length r = unat n + 2) \<or>
      a = AtypIPv4 # r \<and> length r = 6 \<or> a = AtypIPv6 # r \<and> length r = 18))"
  (is "?L \<longleftrightarrow> ?R")
proof
  assume L: ?L
  then obtain t xs where b: "b = t # xs" by (cases b) (simp_all add: SplitAddr_def)
  show ?R
  proof (cases "t = AtypDomainName")
    case True
    with L b obtain n ys where xs: "xs = n # ys" by (cases xs) (simp_all add: SplitAddr_def)
    with L b True have "a = t # n # take (unat n + 2) ys" "unat n + 2 \<le> length ys"
      by (auto simp: SplitAddr_def split: if_splits)
    then have "b = a @ drop (unat n + 2) ys" "length (take (unat n + 2) ys) = unat n + 2" using b xs by simp_all
    with \<open>a = _\<close> True show ?thesis by blast
  next
    case False
    with L b have "t = AtypIPv4 \<and> a = t # take 6 xs \<and> 6 \<le> length xs \<or> t = AtypIPv6 \<and> a = t # take 18 xs \<and> 18 \<le> length xs"
      by (auto simp: SplitAddr_def split: if_splits)
    then show ?thesis
    proof
      assume "t = AtypIPv4 \<and> a = t # take 6 xs \<and> 6 \<le> length xs"
      with b show ?thesis by (intro exI [of _ "take 6 xs"] exI [of _ "drop 6 xs"]) simp
    next
      assume "t = AtypIPv6 \<and> a = t # take 18 xs \<and> 18 \<le> length xs"
      with b show ?thesis by (intro exI [of _ "take 18 xs"] exI [of _ "drop 18 xs"]) simp
    qed
  qed
next
  assume ?R
  then show ?L by (auto simp: SplitAddr_def atyps)
qed

lemma ReadAddr_iff:
  "ReadAddr n c = (Ok a, c') \<longleftrightarrow> MaxAddrLen \<le> n \<and> SplitAddr a = Some a \<and> scIn c = a @ scIn c' \<and> scOut c' = scOut c"
  (is "?L \<longleftrightarrow> ?R")
proof
  assume ?L
  then show ?R
    by (auto simp: ReadAddr_def SplitAddr_iff stream_iffs length_1_2_3 io_fail_def simp del: io_bind_Ok_iff split: if_splits)
next
  assume R: ?R
  obtain ws rest where c: "c = \<lparr>scIn = a @ rest, scOut = ws\<rparr>" "c' = \<lparr>scIn = rest, scOut = ws\<rparr>" "MaxAddrLen \<le> n"
    using R by (cases c; cases c') simp
  from R obtain r where "(\<exists>m. a = 3 # m # r \<and> length r = unat m + 2) \<or> a = 1 # r \<and> length r = 6 \<or> a = 4 # r \<and> length r = 18"
    by (auto simp: SplitAddr_iff atyps)
  then consider m where "a = 3 # m # r" "length r = unat m + 2" | "a = 1 # r" "length r = 6" | "a = 4 # r" "length r = 18"
    by blast
  then show ?L
    using c(3) by cases (simp_all add: c(1,2) not_less [symmetric] ReadAddr_def io_bind_def stream_read_def atyps io_return_def del: io_bind_Ok_iff)
qed

text \<open>
  C32: the two decoders of a SOCKS address agree on every input: reading an address from a stream
  succeeds exactly when slicing it off the front of the same bytes does, with the same address, and leaves
  exactly the bytes behind it; nothing is written.
\<close>

theorem ReadAddr_SplitAddr:
  "ReadAddr n \<lparr>scIn = b, scOut = ws\<rparr> = (Ok a, c) \<longleftrightarrow>
   MaxAddrLen \<le> n \<and> SplitAddr b = Some a \<and> c = \<lparr>scIn = drop (length a) b, scOut = ws\<rparr>"
proof -
  have "SplitAddr b = Some a \<longleftrightarrow> SplitAddr a = Some a \<and> b = a @ drop (length a) b"
    by (auto simp: SplitAddr_iff)
  then show ?thesis by (cases c) (auto simp: ReadAddr_iff)
qed

section \<open>What is encoded is decoded\<close>

text \<open>Taking an address off the front of a buffer keeps the contract of a framing, so a datagram determines its parts.\<close>

definition take_addr :: "bytes \<Rightarrow> (bytes \<times> bytes) option" where
  "take_addr b = map_option (\<lambda>a. (a, drop (length a) b)) (SplitAddr b)"

interpretation socks_addr: framing "\<lambda>a. SplitAddr a = Some a" "\<lambda>a. a" take_addr
  by unfold_locales (auto simp: take_addr_def SplitAddr_iff)

lemma EncodeUDPPacket_inject:
  assumes "SplitAddr a = Some a" and "SplitAddr b = Some b"
  shows "EncodeUDPPacket (Some a) p = EncodeUDPPacket (Some b) q \<longleftrightarrow> a = b \<and> p = q"
  using socks_addr.enc_inject [OF assms] by (simp add: EncodeUDPPacket_def)

text \<open>A destination that fits the format: a name of 1 to 255 bytes, or an address; and a 16-bit port.\<close>

definition wf_dst :: "bytes \<Rightarrow> addr option \<Rightarrow> int \<Rightarrow> bool" where
  "wf_dst d ip port \<longleftrightarrow> 0 \<le> port \<and> port < 65536 \<and> length d \<le> 255 \<and>
     (d = [] \<longrightarrow> (case ip of None \<Rightarrow> False | Some a \<Rightarrow> wf_addr a))"

lemma SplitAddr_SerializeAddr:
  assumes "wf_dst d ip port"
  shows "SplitAddr (SerializeAddr d ip port @ rest) = Some (SerializeAddr d ip port)"
proof (cases "d = []")
  case True
  with assms obtain b where "ip = Some (Addr4 b) \<and> length b = 4 \<or> ip = Some (Addr6 b) \<and> length b = 16"
    by (auto simp: wf_dst_def wf_addr_def split: option.splits) (metis Is4.simps addr.exhaust addr_bytes.simps)
  with True show ?thesis by (auto simp: SplitAddr_iff SerializeAddr_def)
next
  case False
  have "unat (of_nat (length d) :: byte) = length d" using assms by (simp add: wf_dst_def unat_of_nat)
  with False show ?thesis by (auto simp: SplitAddr_iff SerializeAddr_def)
qed


lemma parse_uint16_Itoa: "0 \<le> port \<Longrightarrow> port < 65536 \<Longrightarrow> parse_uint16 (Itoa port) = Some port"
  by (simp add: parse_uint16_def Itoa_def list_all_nat_digits)

lemma be16_val_at:
  "0 \<le> v \<Longrightarrow> v < 65536 \<Longrightarrow> be16_val (pre @ put_uint16 v @ post) (int (length pre)) = v"
  using be16_at_SomeD [OF be16_at_put [of pre v post]] by simp

lemma Addr_String_domain:
  assumes "wf_dst d ip port" and "d \<noteq> []"
  shows "Addr_String ipText (SerializeAddr d ip port) = JoinHostPort (string_of_bytes d) (Itoa port)"
proof -
  have n: "unat (of_nat (length d) :: byte) = length d" using assms by (simp add: wf_dst_def unat_of_nat)
  have "be16_val (([3, of_nat (length d)] @ d) @ put_uint16 port @ []) (int (length ([3, of_nat (length d)] @ d))) = port"
    by (rule be16_val_at) (use assms in \<open>simp_all add: wf_dst_def\<close>)
  with n assms(2) show ?thesis
    by (simp add: Addr_String_def Addr_Valid_def SerializeAddr_def atyps Let_def add.commute [of 2] eval_nat_numeral)
qed

lemma Addr_String_ip:
  assumes "wf_dst [] (Some a) port"
  shows "Addr_String ipText (SerializeAddr [] (Some a) port) = JoinHostPort (ipText (addr_bytes a)) (Itoa port)"
    and "Addr_UDPAddr (SerializeAddr [] (Some a) port) = Some (addr_bytes a, port)"
proof -
  have l: "length (addr_bytes a) = (if Is4 a then 4 else 16)" using assms by (simp add: wf_dst_def wf_addr_def)
  have v: "be16_val (([t] @ addr_bytes a) @ put_uint16 port @ []) (int (length ([t] @ addr_bytes a))) = port" for t
    by (rule be16_val_at) (use assms in \<open>simp_all add: wf_dst_def\<close>)
  show "Addr_String ipText (SerializeAddr [] (Some a) port) = JoinHostPort (ipText (addr_bytes a)) (Itoa port)"
    "Addr_UDPAddr (SerializeAddr [] (Some a) port) = Some (addr_bytes a, port)"
    using l v [of 1] v [of 4] by (cases a; simp add: Addr_String_def Addr_UDPAddr_def Addr_Valid_def SerializeAddr_def atyps Let_def)+
qed

text \<open>
  A datagram for the relay comes back as it was. The address in textual form is encoded, put in
  front of the payload and taken off again: the decoder gives the same address and payload, and
  for an address that is not a name the sender's address and port.
\<close>

theorem socks_datagram_roundtrip:
  assumes "wf_dst d ip port"
    and "d \<noteq> [] \<Longrightarrow> parseAddr (string_of_bytes d) = None \<and> set (string_of_bytes d) \<inter> set ''[]'' = {}"
    and "\<And>a. ip = Some a \<Longrightarrow> parseAddr (ipText (addr_bytes a)) = Some a \<and> set (ipText (addr_bytes a)) \<inter> set ''[]'' = {}"
  shows "\<exists>pkt. EncodeUDPPacket (ParseAddrString parseAddr (Addr_String ipText (SerializeAddr d ip port))) payload = Inr pkt \<and>
    DecodeUDPPacket pkt = (Some (SerializeAddr d ip port), payload, None) \<and>
    (d = [] \<longrightarrow> Addr_UDPAddr (SerializeAddr d ip port) = map_option (\<lambda>a. (addr_bytes a, port)) ip)"
proof -
  have p: "0 \<le> port" "port < 65536" using assms(1) by (simp_all add: wf_dst_def)
  have "ParseAddrString parseAddr (Addr_String ipText (SerializeAddr d ip port)) = Some (SerializeAddr d ip port)"
  proof (cases "d = []")
    case True
    with assms(1) obtain a where a: "ip = Some a" by (auto simp: wf_dst_def split: option.splits)
    with True assms show ?thesis
      by (simp add: Addr_String_ip ParseAddrString_def SplitHostPort_JoinHostPort Itoa_chars p parse_uint16_Itoa)
  next
    case False
    then have "SerializeAddr d None port = SerializeAddr d ip port" by (simp add: SerializeAddr_def)
    with False assms show ?thesis
      by (simp add: Addr_String_domain ParseAddrString_def SplitHostPort_JoinHostPort Itoa_chars p parse_uint16_Itoa)
  qed
  moreover have "4 \<le> length (SerializeAddr d ip port)"
    using assms(1) by (auto simp: wf_dst_def wf_addr_def SerializeAddr_def Let_def Suc_le_eq split: option.splits addr.splits)
  moreover have "Addr_UDPAddr (SerializeAddr d ip port) = map_option (\<lambda>a. (addr_bytes a, port)) ip" if "d = []"
    using that assms(1) Addr_String_ip(2) by (auto simp: wf_dst_def split: option.splits)
  moreover have "drop (3 + length x) (0 # 0 # 0 # x @ payload) = payload" for x :: bytes by (simp add: eval_nat_numeral)
  ultimately show ?thesis
    using SplitAddr_SerializeAddr [OF assms(1), of payload] by (simp add: EncodeUDPPacket_def DecodeUDPPacket_def)
qed

theorem socks_datagram_roundtrip_witness:
  "\<exists>pkt. EncodeUDPPacket (ParseAddrString (\<lambda>_. None) (Addr_String (\<lambda>_. []) (SerializeAddr [97, 46, 98] None 53))) [1, 2] = Inr pkt \<and>
    DecodeUDPPacket pkt = (Some (SerializeAddr [97, 46, 98] None 53), [1, 2], None)"
  using socks_datagram_roundtrip [of "[97, 46, 98]" None 53 "\<lambda>_. None" "\<lambda>_. []" "[1, 2]"]
  by (simp add: wf_dst_def string_of_bytes_def char_of_def bit_0)

text \<open>
  A datagram shorter than the header an earlier one left in the buffer is reported with a
  negative length.
\<close>

lemma socks_ReadFrom_stale:
  assumes "DecodeUDPPacket b = (Some a, payload, None)" and "Addr_UDPAddr a = Some u" and "n < length a + 3"
  shows "\<exists>k b'. socks_ReadFrom ipText n b = Inr (k, u, b') \<and> k < 0"
  using assms by (auto simp: socks_ReadFrom_def)

section \<open>The handshake\<close>

text \<open>What the client sends, in order, when the server picks method \<open>m\<close>.\<close>

definition auth_message :: "User \<Rightarrow> bytes" where
  "auth_message u = [1, of_nat (length (Username u))] @ Username u @ [of_nat (length (Password u))] @ Password u"

definition wf_user :: "User \<Rightarrow> bool" where
  "wf_user u \<longleftrightarrow> 1 \<le> length (Username u) \<and> length (Username u) \<le> 255 \<and> 1 \<le> length (Password u) \<and> length (Password u) \<le> 255"

lemma auth_step_eq:
  "wf_user u \<Longrightarrow> auth_step (\<lambda>_. None) u = io_bind (stream_write (\<lambda>_. None) (auth_message u)) (\<lambda>_.
     io_bind (stream_read 2) (\<lambda>r. if r ! 1 \<noteq> 0 then io_fail (ErrorNew ''rejected username/password'') else io_return ()))"
  unfolding auth_step_def auth_message_def wf_user_def MaxAuthLen_def Let_def by (auto simp del: io_bind_Ok_iff)

lemma auth_run:
  "wf_user u \<Longrightarrow> io_bind (auth_step (\<lambda>_. None) u) k \<lparr>scIn = x # 0 # rest, scOut = ws\<rparr> =
     k () \<lparr>scIn = rest, scOut = ws @ [auth_message u]\<rparr>"
  by (simp add: auth_step_eq stream_run del: io_bind_Ok_iff)

lemma bind_auth_iff:
  "io_bind (auth_step (\<lambda>_. None) u) k c = (Ok y, c2) \<longleftrightarrow>
   wf_user u \<and> (\<exists>x rest. scIn c = [x, 0] @ rest \<and> k () \<lparr>scIn = rest, scOut = scOut c @ [auth_message u]\<rparr> = (Ok y, c2))"
  (is "?L \<longleftrightarrow> ?R")
proof
  assume L: ?L
  have u: "wf_user u"
  proof (rule ccontr)
    assume "\<not> wf_user u"
    then have "\<exists>e. auth_step (\<lambda>_. None) u = io_fail e"
      unfolding auth_step_def wf_user_def MaxAuthLen_def Let_def by (auto simp: Suc_le_eq not_le)
    with L show False by auto
  qed
  with L show ?R
    by (auto simp: auth_step_eq stream_iffs length_1_2_3 if_distrib [of "\<lambda>m. io_bind m k"] simp del: io_bind_Ok_iff split: if_splits)
next
  assume ?R
  then show ?L by (cases c) (auto simp: auth_run simp del: io_bind_Ok_iff)
qed


end
