(* ===== verification/EngineStats.thy ===== *)
theory EngineStats
  imports Steps
begin

text \<open>
  Traffic statistics of the packet engine, \<^verbatim>\<open>tun2socks/tunnel/statistic\<close>: connections that count what goes
  through them, and the manager with the totals, the rates of the last second and the table of
  open connections. Every counter is an atomic 64-bit integer, changed by goroutines that run at the
  same time: each method is the sequence of its atomic operations, and a step runs one operation of
  one goroutine. Shown here: under every interleaving no byte is missing from the totals, of the
  manager and of each connection, once the goroutines have finished; and that the rates can lose
  bytes, because a tick reads and clears its counter in two operations.
\<close>

section \<open>State and operations\<close>

type_synonym int64 = "64 word"

record Manager =
  connections :: "string list"
  uploadTemp :: int64
  downloadTemp :: int64
  uploadBlip :: int64
  downloadBlip :: int64
  uploadTotal :: int64
  downloadTotal :: int64

definition DefaultManager :: Manager where
  "DefaultManager = \<lparr>connections = [], uploadTemp = 0, downloadTemp = 0, uploadBlip = 0, downloadBlip = 0,
     uploadTotal = 0, downloadTotal = 0\<rparr>"

text \<open>The atomic operations; a load is followed by the store of what was loaded.\<close>

datatype stat_op =
    JoinOp string | LeaveOp string
  | AddUpTemp int64 | AddUpTotal int64 | AddUp string int64
  | AddDownTemp int64 | AddDownTotal int64 | AddDown string int64
  | LoadUpTemp | StoreUpBlip int64 | StoreUpTemp int64 | StoreUpTotal int64
  | LoadDownTemp | StoreDownBlip int64 | StoreDownTemp int64 | StoreDownTotal int64

record stats =
  sManager :: Manager
  tUpload :: "string \<Rightarrow> int64"
  tDownload :: "string \<Rightarrow> int64"

definition on_manager :: "(Manager \<Rightarrow> Manager) \<Rightarrow> stats \<Rightarrow> stats" where
  "on_manager f s = s\<lparr>sManager := f (sManager s)\<rparr>"

fun run_op :: "stat_op \<Rightarrow> stats \<Rightarrow> stat_op list \<times> stats" where
  "run_op (JoinOp i) s = ([], on_manager (\<lambda>m. m\<lparr>connections := List.insert i (connections m)\<rparr>) s)"
| "run_op (LeaveOp i) s = ([], on_manager (\<lambda>m. m\<lparr>connections := removeAll i (connections m)\<rparr>) s)"
| "run_op (AddUpTemp n) s = ([], on_manager (\<lambda>m. m\<lparr>uploadTemp := uploadTemp m + n\<rparr>) s)"
| "run_op (AddUpTotal n) s = ([], on_manager (\<lambda>m. m\<lparr>uploadTotal := uploadTotal m + n\<rparr>) s)"
| "run_op (AddUp i n) s = ([], s\<lparr>tUpload := (tUpload s)(i := tUpload s i + n)\<rparr>)"
| "run_op (AddDownTemp n) s = ([], on_manager (\<lambda>m. m\<lparr>downloadTemp := downloadTemp m + n\<rparr>) s)"
| "run_op (AddDownTotal n) s = ([], on_manager (\<lambda>m. m\<lparr>downloadTotal := downloadTotal m + n\<rparr>) s)"
| "run_op (AddDown i n) s = ([], s\<lparr>tDownload := (tDownload s)(i := tDownload s i + n)\<rparr>)"
| "run_op LoadUpTemp s = ([StoreUpBlip (uploadTemp (sManager s))], s)"
| "run_op (StoreUpBlip v) s = ([], on_manager (\<lambda>m. m\<lparr>uploadBlip := v\<rparr>) s)"
| "run_op (StoreUpTemp v) s = ([], on_manager (\<lambda>m. m\<lparr>uploadTemp := v\<rparr>) s)"
| "run_op (StoreUpTotal v) s = ([], on_manager (\<lambda>m. m\<lparr>uploadTotal := v\<rparr>) s)"
| "run_op LoadDownTemp s = ([StoreDownBlip (downloadTemp (sManager s))], s)"
| "run_op (StoreDownBlip v) s = ([], on_manager (\<lambda>m. m\<lparr>downloadBlip := v\<rparr>) s)"
| "run_op (StoreDownTemp v) s = ([], on_manager (\<lambda>m. m\<lparr>downloadTemp := v\<rparr>) s)"
| "run_op (StoreDownTotal v) s = ([], on_manager (\<lambda>m. m\<lparr>downloadTotal := v\<rparr>) s)"

section \<open>The methods\<close>

definition Join :: "string \<Rightarrow> stat_op list" where "Join i = [JoinOp i]"
definition Leave :: "string \<Rightarrow> stat_op list" where "Leave i = [LeaveOp i]"
definition PushUploaded :: "int64 \<Rightarrow> stat_op list" where "PushUploaded n = [AddUpTemp n, AddUpTotal n]"
definition PushDownloaded :: "int64 \<Rightarrow> stat_op list" where "PushDownloaded n = [AddDownTemp n, AddDownTotal n]"

definition Now :: "Manager \<Rightarrow> int64 \<times> int64" where "Now m = (uploadBlip m, downloadBlip m)"

record Snapshot =
  snDownloadTotal :: int64
  snUploadTotal :: int64
  snConnections :: "string list"

definition Manager_Snapshot :: "Manager \<Rightarrow> Snapshot" where
  "Manager_Snapshot m =
     \<lparr>snDownloadTotal = downloadTotal m, snUploadTotal = uploadTotal m, snConnections = connections m\<rparr>"

definition ResetStatistic :: "stat_op list" where
  "ResetStatistic = [StoreUpTemp 0, StoreUpBlip 0, StoreUpTotal 0, StoreDownTemp 0, StoreDownBlip 0, StoreDownTotal 0]"

text \<open>One tick of \<^verbatim>\<open>handle\<close>.\<close>

definition handle_tick :: "stat_op list" where
  "handle_tick = [LoadUpTemp, StoreUpTemp 0, LoadDownTemp, StoreDownTemp 0]"

text \<open>
  A tracked connection, by its identifier: what its methods do to the counters after the call
  to the connection below has returned \<open>n\<close> bytes; of a stream and of a datagram socket.
\<close>

definition NewTracker :: "string \<Rightarrow> stat_op list" where "NewTracker i = Join i"
definition tracker_Read :: "string \<Rightarrow> int64 \<Rightarrow> stat_op list" where "tracker_Read i n = PushDownloaded n @ [AddDown i n]"
definition tracker_Write :: "string \<Rightarrow> int64 \<Rightarrow> stat_op list" where "tracker_Write i n = PushUploaded n @ [AddUp i n]"
definition tracker_Close :: "string \<Rightarrow> stat_op list" where "tracker_Close i = Leave i"

definition NewUDPTracker :: "string \<Rightarrow> stat_op list" where "NewUDPTracker i = Join i"
definition udpTracker_ReadFrom :: "string \<Rightarrow> int64 \<Rightarrow> stat_op list" where "udpTracker_ReadFrom i n = PushDownloaded n @ [AddDown i n]"
definition udpTracker_WriteTo :: "string \<Rightarrow> int64 \<Rightarrow> stat_op list" where "udpTracker_WriteTo i n = PushUploaded n @ [AddUp i n]"
definition udpTracker_Close :: "string \<Rightarrow> stat_op list" where "udpTracker_Close i = Leave i"

text \<open>Both kinds of tracker count alike, so that the runs below cover datagrams too.\<close>

lemma udp_tracker_counts:
  "NewUDPTracker = NewTracker" "udpTracker_ReadFrom = tracker_Read" "udpTracker_WriteTo = tracker_Write" "udpTracker_Close = tracker_Close"
  by (simp_all add: fun_eq_iff NewUDPTracker_def NewTracker_def udpTracker_ReadFrom_def tracker_Read_def udpTracker_WriteTo_def
      tracker_Write_def udpTracker_Close_def tracker_Close_def)

definition half_close :: "string \<Rightarrow> go_error option option \<Rightarrow> go_error option" where
  "half_close name inner =
     (case inner of None \<Rightarrow> Some (ErrorNew (name @ '' is not implemented'')) | Some r \<Rightarrow> r)"

definition CloseRead :: "go_error option option \<Rightarrow> go_error option" where "CloseRead inner = half_close ''CloseRead'' inner"
definition CloseWrite :: "go_error option option \<Rightarrow> go_error option" where "CloseWrite inner = half_close ''CloseWrite'' inner"

lemmas methods = Join_def Leave_def PushUploaded_def PushDownloaded_def handle_tick_def NewTracker_def tracker_Read_def
  tracker_Write_def tracker_Close_def

section \<open>Goroutines\<close>

text \<open>The goroutines' remaining operations, and what has been read and written so far.\<close>

record stat_run =
  rStats :: stats
  rThreads :: "stat_op list list"
  rWritten :: "(string \<times> int64) list"
  rRead :: "(string \<times> int64) list"

definition run_start :: stat_run where
  "run_start = \<lparr>rStats = \<lparr>sManager = DefaultManager, tUpload = (\<lambda>_. 0), tDownload = (\<lambda>_. 0)\<rparr>, rThreads = [],
     rWritten = [], rRead = []\<rparr>"

inductive stat_step :: "stat_run \<Rightarrow> stat_run \<Rightarrow> bool" where
  opened: "stat_step r (r\<lparr>rThreads := rThreads r @ [NewTracker i]\<rparr>)"
| closed: "stat_step r (r\<lparr>rThreads := rThreads r @ [tracker_Close i]\<rparr>)"
| wrote: "stat_step r (r\<lparr>rThreads := rThreads r @ [tracker_Write i n], rWritten := rWritten r @ [(i, n)]\<rparr>)"
| read: "stat_step r (r\<lparr>rThreads := rThreads r @ [tracker_Read i n], rRead := rRead r @ [(i, n)]\<rparr>)"
| ticked: "stat_step r (r\<lparr>rThreads := rThreads r @ [handle_tick]\<rparr>)"
| ran: "rThreads r = pre @ (a # as) # post \<Longrightarrow> run_op a (rStats r) = (rest, s) \<Longrightarrow>
    stat_step r (r\<lparr>rStats := s, rThreads := pre @ (rest @ as) # post\<rparr>)"

text \<open>What an operation will still add to a counter.\<close>

fun adds_up :: "stat_op \<Rightarrow> int64" where
  "adds_up (AddUpTotal n) = n"
| "adds_up _ = 0"

fun adds_down :: "stat_op \<Rightarrow> int64" where
  "adds_down (AddDownTotal n) = n"
| "adds_down _ = 0"

fun adds_up_of :: "string \<Rightarrow> stat_op \<Rightarrow> int64" where
  "adds_up_of i (AddUp j n) = (if i = j then n else 0)"
| "adds_up_of i _ = 0"

fun adds_down_of :: "string \<Rightarrow> stat_op \<Rightarrow> int64" where
  "adds_down_of i (AddDown j n) = (if i = j then n else 0)"
| "adds_down_of i _ = 0"

text \<open>The totals are only cleared by a reset, which is not among these operations.\<close>

fun no_clear :: "stat_op \<Rightarrow> bool" where
  "no_clear (StoreUpTotal _) \<longleftrightarrow> False"
| "no_clear (StoreDownTotal _) \<longleftrightarrow> False"
| "no_clear _ \<longleftrightarrow> True"

definition still :: "(stat_op \<Rightarrow> int64) \<Rightarrow> stat_run \<Rightarrow> int64" where
  "still f r = sum_list (map f (concat (rThreads r)))"

definition traffic :: "(string \<times> int64) list \<Rightarrow> int64" where
  "traffic l = sum_list (map snd l)"

definition traffic_of :: "string \<Rightarrow> (string \<times> int64) list \<Rightarrow> int64" where
  "traffic_of i l = sum_list (map snd (filter (\<lambda>x. fst x = i) l))"

definition stat_inv :: "stat_run \<Rightarrow> bool" where
  "stat_inv r \<longleftrightarrow>
     uploadTotal (sManager (rStats r)) + still adds_up r = traffic (rWritten r) \<and>
     downloadTotal (sManager (rStats r)) + still adds_down r = traffic (rRead r) \<and>
     (\<forall>i. tUpload (rStats r) i + still (adds_up_of i) r = traffic_of i (rWritten r)) \<and>
     (\<forall>i. tDownload (rStats r) i + still (adds_down_of i) r = traffic_of i (rRead r)) \<and>
     (\<forall>a \<in> set (concat (rThreads r)). no_clear a)"

lemma run_op_balance:
  assumes "run_op a s = (rest, s')" and "no_clear a"
  shows "uploadTotal (sManager s') + sum_list (map adds_up rest) = uploadTotal (sManager s) + adds_up a"
    "downloadTotal (sManager s') + sum_list (map adds_down rest) = downloadTotal (sManager s) + adds_down a"
    "tUpload s' i + sum_list (map (adds_up_of i) rest) = tUpload s i + adds_up_of i a"
    "tDownload s' i + sum_list (map (adds_down_of i) rest) = tDownload s i + adds_down_of i a"
    "\<forall>b \<in> set rest. no_clear b"
  using assms by (cases a; auto simp: on_manager_def)+

lemma stat_inv_ran:
  assumes "stat_inv r" and "rThreads r = pre @ (a # as) # post" and "run_op a (rStats r) = (rest, s)"
  shows "stat_inv (r\<lparr>rStats := s, rThreads := pre @ (rest @ as) # post\<rparr>)"
proof -
  have n: "no_clear a" using assms(1,2) by (auto simp: stat_inv_def)
  note b = run_op_balance [OF assms(3) n]
  let ?r = "r\<lparr>rStats := s, rThreads := pre @ (rest @ as) # post\<rparr>"
  have s: "v' + still f ?r = v + still f r" if "v' + sum_list (map f rest) = v + f a" for f and v v' :: int64
    using that assms(2) by (simp add: still_def algebra_simps)
  from b(5) assms(1,2) have "\<forall>a \<in> set (concat (rThreads ?r)). no_clear a" by (auto simp: stat_inv_def)
  then show ?thesis
    using assms(1) s [OF b(1)] s [OF b(2)] s [OF b(3)] s [OF b(4)] by (simp add: stat_inv_def)
qed

interpretation counting: invariant_system "\<lambda>r. r = run_start" stat_step stat_inv
proof unfold_locales
  show "r = run_start \<Longrightarrow> stat_inv r" for r
    by (simp add: stat_inv_def run_start_def DefaultManager_def still_def traffic_def traffic_of_def)
  show "stat_inv r \<Longrightarrow> stat_step r r' \<Longrightarrow> stat_inv r'" for r r'
  proof -
    assume "stat_inv r" and "stat_step r r'"
    from this(2,1) show "stat_inv r'"
    proof cases
      case (ran pre a as post rest s)
      with \<open>stat_inv r\<close> show ?thesis by (auto intro: stat_inv_ran)
    qed (auto simp: stat_inv_def still_def traffic_def traffic_of_def methods algebra_simps)
  qed
qed

text \<open>
  C34: no byte is lost from the totals. However the goroutines that read, write, open, close and
  tick interleave, once all of them have finished the manager's totals are the bytes written and
  read, and each connection's counters are the bytes written and read through it (modulo \<open>2 ^ 64\<close>).
\<close>

theorem totals_exact:
  assumes "stat_step\<^sup>*\<^sup>* run_start r" and "concat (rThreads r) = []"
  shows "uploadTotal (sManager (rStats r)) = traffic (rWritten r) \<and> downloadTotal (sManager (rStats r)) = traffic (rRead r) \<and>
    (\<forall>i. tUpload (rStats r) i = traffic_of i (rWritten r) \<and> tDownload (rStats r) i = traffic_of i (rRead r))"
  using counting.reachable_inv [OF refl assms(1)] assms(2) by (simp add: stat_inv_def still_def)

text \<open>The rates do lose bytes: a write between the load and the store of a tick is counted in no second.\<close>

definition exec :: "nat \<Rightarrow> stat_run \<Rightarrow> stat_run" where
  "exec k r =
     (if k < length (rThreads r) \<and> rThreads r ! k \<noteq> [] then
        (case run_op (hd (rThreads r ! k)) (rStats r) of
           (rest, s) \<Rightarrow> r\<lparr>rStats := s, rThreads := (rThreads r)[k := rest @ tl (rThreads r ! k)]\<rparr>)
      else r)"

lemma exec_steps: "stat_step\<^sup>*\<^sup>* r (exec k r)"
proof (cases "k < length (rThreads r) \<and> rThreads r ! k \<noteq> []")
  case True
  then obtain a as where k: "k < length (rThreads r)" "rThreads r ! k = a # as" by (cases "rThreads r ! k") auto
  obtain rest s where run: "run_op a (rStats r) = (rest, s)" by fastforce
  have t: "rThreads r = take k (rThreads r) @ (a # as) # drop (Suc k) (rThreads r)"
    using k by (metis id_take_nth_drop)
  from stat_step.ran [OF t run] show ?thesis
    using k run by (simp add: exec_def upd_conv_take_nth_drop)
next
  case False
  then show ?thesis by (simp only: exec_def if_False rtranclp.rtrancl_refl)
qed

lemma execs_steps: "stat_step\<^sup>*\<^sup>* r (fold exec ks r)"
proof (induction ks arbitrary: r)
  case (Cons k ks)
  from rtranclp_trans [OF exec_steps Cons] show ?case by simp
qed simp

lemma rate_loses_bytes:
  "\<exists>r. stat_step\<^sup>*\<^sup>* run_start r \<and> concat (rThreads r) = [] \<and> rWritten r = [(''a'', 5)] \<and>
     uploadTemp (sManager (rStats r)) = 0 \<and> Now (sManager (rStats r)) = (0, 0)"
proof -
  let ?ticking = "run_start\<lparr>rThreads := [handle_tick]\<rparr>"
  let ?both = "?ticking\<lparr>rThreads := [handle_tick, tracker_Write ''a'' 5], rWritten := [(''a'', 5)]\<rparr>"
  let ?fin = "fold exec [0, 0, 1, 1, 1, 0, 0, 0, 0] ?both"
  have 1: "stat_step run_start ?ticking" using stat_step.ticked [of run_start] by (simp add: run_start_def)
  have 2: "stat_step ?ticking ?both" using stat_step.wrote [of ?ticking "''a''" 5] by (simp add: run_start_def)
  have "stat_step\<^sup>*\<^sup>* run_start ?fin"
    by (rule converse_rtranclp_into_rtranclp [OF 1 converse_rtranclp_into_rtranclp [OF 2 execs_steps]])
  moreover have "concat (rThreads ?fin) = [] \<and> rWritten ?fin = [(''a'', 5)] \<and> uploadTemp (sManager (rStats ?fin)) = 0 \<and>
      Now (sManager (rStats ?fin)) = (0, 0)"
    by (simp add: exec_def methods run_start_def DefaultManager_def on_manager_def Now_def)
  ultimately show ?thesis by blast
qed

theorem totals_exact_witness:
  "\<exists>r. stat_step\<^sup>*\<^sup>* run_start r \<and> uploadTotal (sManager (rStats r)) = 5 \<and> tUpload (rStats r) ''a'' = 5"
proof -
  obtain r where r: "stat_step\<^sup>*\<^sup>* run_start r" "concat (rThreads r) = []" "rWritten r = [(''a'', 5)]"
    using rate_loses_bytes by blast
  with totals_exact [OF r(1,2)] show ?thesis by (auto simp: traffic_def traffic_of_def)
qed

end
