(* ===== verification/EngineTunnel.thy ===== *)
theory EngineTunnel
  imports EngineStats Redirect "HOL-Library.Multiset"
begin

text \<open>
  The packet engine's tunnel, \<^verbatim>\<open>tun2socks/tunnel\<close> and \<^verbatim>\<open>tun2socks/metadata\<close>: what happens to a TCP
  connection and to a UDP session that the network stack hands over. Each is dialled through the
  proxy, counted, and relayed by two goroutines; what a session does is a log of events, and the two
  goroutines' events are interleaved in every possible way. Shown here: everything read on one
  side is written to the other in order and counted, both connections are closed exactly once
  after the relay, the table of connections is left as it was, and a UDP session passes on
  packets of its destination only.
\<close>

section \<open>Metadata\<close>

datatype Network = TCP | UDP

record Metadata =
  mdNetwork :: Network
  SrcIP :: "addr option"          \<comment> \<open>\<^const>\<open>None\<close>: the invalid address\<close>
  MidIP :: "addr option"
  DstIP :: "addr option"
  SrcPort :: int
  MidPort :: int
  DstPort :: int

definition AddrPort_String :: "netlib \<Rightarrow> addr option \<Rightarrow> int \<Rightarrow> string" where
  "AddrPort_String lib a port =
     (case a of
        None \<Rightarrow> ''invalid AddrPort''
      | Some (Addr4 b) \<Rightarrow> AddrString lib (Addr4 b) @ '':'' @ Itoa port
      | Some (Addr6 b) \<Rightarrow> ''['' @ AddrString lib (Addr6 b) @ '']:'' @ Itoa port)"

definition DestinationAddress :: "netlib \<Rightarrow> Metadata \<Rightarrow> string" where
  "DestinationAddress lib m = AddrPort_String lib (DstIP m) (DstPort m)"

definition SourceAddress :: "netlib \<Rightarrow> Metadata \<Rightarrow> string" where
  "SourceAddress lib m = AddrPort_String lib (SrcIP m) (SrcPort m)"

definition TCPAddr :: "Metadata \<Rightarrow> (addr \<times> int) option" where
  "TCPAddr m = (if mdNetwork m \<noteq> TCP then None else map_option (\<lambda>a. (a, DstPort m)) (DstIP m))"

definition UDPAddr :: "Metadata \<Rightarrow> (addr \<times> int) option" where
  "UDPAddr m = (if mdNetwork m \<noteq> UDP then None else map_option (\<lambda>a. (a, DstPort m)) (DstIP m))"

text \<open>An address as the connection reports it: none, one with an address and a port, or a text.\<close>

datatype net_addr = NilAddr | WithAddrPort "addr option" int | TextAddr string

definition parseAddrString :: "(string \<Rightarrow> (addr \<times> int) option) \<Rightarrow> string \<Rightarrow> addr option \<times> int" where
  "parseAddrString ParseAddrPort s =
     (case ParseAddrPort s of None \<Rightarrow> (None, 0) | Some (a, p) \<Rightarrow> (Some a, p))"

fun parseNetAddr :: "(string \<Rightarrow> (addr \<times> int) option) \<Rightarrow> net_addr \<Rightarrow> addr option \<times> int" where
  "parseNetAddr pap NilAddr = (None, 0)"
| "parseNetAddr pap (WithAddrPort a p) = (a, p)"
| "parseNetAddr pap (TextAddr s) = parseAddrString pap s"

text \<open>\<^verbatim>\<open>netip.AddrFromSlice\<close>: four or sixteen bytes.\<close>

definition parseTCPIPAddress :: "bytes \<Rightarrow> addr option" where
  "parseTCPIPAddress b =
     (if length b = 4 then Some (Addr4 b) else if length b = 16 then Some (Addr6 b) else None)"

record endpoint_id =
  eRemoteAddress :: bytes
  eRemotePort :: int
  eLocalAddress :: bytes
  eLocalPort :: int

definition session_metadata :: "Network \<Rightarrow> endpoint_id \<Rightarrow> Metadata" where
  "session_metadata n e =
     \<lparr>mdNetwork = n, SrcIP = parseTCPIPAddress (eRemoteAddress e), MidIP = None, DstIP = parseTCPIPAddress (eLocalAddress e),
      SrcPort = eRemotePort e, MidPort = 0, DstPort = eLocalPort e\<rparr>"

section \<open>Events\<close>

datatype side = Origin | Remote

datatype event =
    Wrote side bytes | Counted "stat_op list" | HalfClosedRead side | HalfClosedWrite side | Deadline side | Closed side

text \<open>What a side delivers: pieces of data, and how it ends.\<close>

record feed =
  fdPieces :: "bytes list"
  fdEnd :: go_error

definition count_read :: "string \<Rightarrow> side \<Rightarrow> nat \<Rightarrow> event list" where
  "count_read i src n = (if src = Remote then [Counted (tracker_Read i (of_nat n))] else [])"

definition count_write :: "string \<Rightarrow> side \<Rightarrow> nat \<Rightarrow> event list" where
  "count_write i dst n = (if dst = Remote then [Counted (tracker_Write i (of_nat n))] else [])"

section \<open>TCP\<close>

text \<open>\<^verbatim>\<open>io.CopyBuffer\<close>; \<open>wr n\<close> is the error of the n-th write.\<close>

fun copy_events :: "string \<Rightarrow> side \<Rightarrow> side \<Rightarrow> (nat \<Rightarrow> go_error option) \<Rightarrow> nat \<Rightarrow> bytes list \<Rightarrow> event list" where
  "copy_events i dst src wr k [] = count_read i src 0"
| "copy_events i dst src wr k (p # ps) =
     count_read i src (length p) @
     (case wr k of
        Some _ \<Rightarrow> count_write i dst 0
      | None \<Rightarrow> Wrote dst p # count_write i dst (length p) @ copy_events i dst src wr (Suc k) ps)"

text \<open>\<open>half\<close>: the sides whose connection can be half-closed.\<close>

definition unidirectionalStream ::
  "(side \<Rightarrow> bool) \<Rightarrow> string \<Rightarrow> side \<Rightarrow> side \<Rightarrow> (nat \<Rightarrow> go_error option) \<Rightarrow> feed \<Rightarrow> event list" where
  "unidirectionalStream half i dst src wr f =
     copy_events i dst src wr 0 (fdPieces f) @
     (if half src then [HalfClosedRead src] else []) @ (if half dst then [HalfClosedWrite dst] else []) @ [Deadline dst]"

record session_env =
  seDial :: "Metadata \<Rightarrow> go_error + net_addr"
  seParse :: "string \<Rightarrow> (addr \<times> int) option"
  seUUID :: string
  seHalf :: "side \<Rightarrow> bool"
  seWr :: "side \<Rightarrow> nat \<Rightarrow> go_error option"
  seLib :: netlib

definition pipe :: "session_env \<Rightarrow> feed \<Rightarrow> feed \<Rightarrow> event list set" where
  "pipe env origin remote =
     shuffles (unidirectionalStream (seHalf env) (seUUID env) Remote Origin (seWr env Remote) origin)
       (unidirectionalStream (seHalf env) (seUUID env) Origin Remote (seWr env Origin) remote)"

text \<open>The logs a session may have: deferred calls run in reverse, after the relay.\<close>

definition relayed :: "string \<Rightarrow> event list set \<Rightarrow> event list set" where
  "relayed i relay =
     (\<lambda>mid. Counted (NewTracker i) # mid @ [Counted (tracker_Close i), Closed Remote, Closed Origin]) ` relay"

definition handleTCPConn :: "session_env \<Rightarrow> endpoint_id \<Rightarrow> feed \<Rightarrow> feed \<Rightarrow> event list set" where
  "handleTCPConn env e origin remote =
     (case seDial env (session_metadata TCP e) of
        Inl _ \<Rightarrow> {[Closed Origin]}
      | Inr _ \<Rightarrow> relayed (seUUID env) (pipe env origin remote))"

section \<open>UDP\<close>

text \<open>
  A packet socket delivers packets with their sender (a text, \<^const>\<open>None\<close>: none) or an error; when nothing
  more arrives the read deadline, which is set before every read, ends the relay.
\<close>

type_synonym packets = "(string option \<times> (go_error + bytes)) list"

text \<open>\<^verbatim>\<open>symmetricNATPacketConn.ReadFrom\<close>: packets of other senders are dropped.\<close>

fun nat_ReadFrom :: "string \<Rightarrow> packets \<Rightarrow> ((string option \<times> (go_error + bytes)) \<times> packets) option" where
  "nat_ReadFrom dst [] = None"
| "nat_ReadFrom dst ((from, x) # ps) =
     (if from \<noteq> None \<and> from \<noteq> Some dst then nat_ReadFrom dst ps else Some ((from, x), ps))"

definition plain_ReadFrom :: "packets \<Rightarrow> ((string option \<times> (go_error + bytes)) \<times> packets) option" where
  "plain_ReadFrom ps = (case ps of [] \<Rightarrow> None | p # qs \<Rightarrow> Some (p, qs))"

definition MaxSegmentSize :: nat where "MaxSegmentSize = 2 ^ 16 - 1"

text \<open>\<^verbatim>\<open>copyPacketData\<close>; \<open>fuel\<close> bounds the reads, of which each takes a packet.\<close>

fun copyPacketData ::
  "(packets \<Rightarrow> ((string option \<times> (go_error + bytes)) \<times> packets) option) \<Rightarrow> string \<Rightarrow> side \<Rightarrow> side \<Rightarrow> (nat \<Rightarrow> go_error option)
    \<Rightarrow> nat \<Rightarrow> nat \<Rightarrow> packets \<Rightarrow> event list" where
  "copyPacketData rd i dst src wr k 0 ps = [Deadline src]"
| "copyPacketData rd i dst src wr k (Suc fuel) ps =
     Deadline src #
     (case rd ps of
        None \<Rightarrow> count_read i src 0
      | Some ((_, Inl _), _) \<Rightarrow> count_read i src 0
      | Some ((_, Inr p), qs) \<Rightarrow>
          let b = take MaxSegmentSize p in
          count_read i src (length b) @
          (case wr k of
             Some _ \<Rightarrow> count_write i dst 0
           | None \<Rightarrow> Wrote dst b # count_write i dst (length b) @ Deadline dst # copyPacketData rd i dst src wr (Suc k) fuel qs))"

definition pipePacket :: "session_env \<Rightarrow> string \<Rightarrow> packets \<Rightarrow> packets \<Rightarrow> event list set" where
  "pipePacket env dst origin remote =
     shuffles (copyPacketData plain_ReadFrom (seUUID env) Remote Origin (seWr env Remote) 0 (Suc (length origin)) origin)
       (copyPacketData (nat_ReadFrom dst) (seUUID env) Origin Remote (seWr env Origin) 0 (Suc (length remote)) remote)"

definition handleUDPConn :: "session_env \<Rightarrow> endpoint_id \<Rightarrow> packets \<Rightarrow> packets \<Rightarrow> event list set" where
  "handleUDPConn env e origin remote =
     (let m = session_metadata UDP e in
      case seDial env m of
        Inl _ \<Rightarrow> {[Closed Origin]}
      | Inr _ \<Rightarrow> relayed (seUUID env) (pipePacket env (DestinationAddress (seLib env) m) origin remote))"

text \<open>Where the packets of the origin are sent: always the session's destination.\<close>

definition udp_target :: "netlib \<Rightarrow> Metadata \<Rightarrow> string" where
  "udp_target lib m =
     (case UDPAddr m of Some (a, port) \<Rightarrow> AddrPort_String lib (Some a) port | None \<Rightarrow> DestinationAddress lib m)"

lemma udp_target_destination: "udp_target lib m = DestinationAddress lib m"
  by (auto simp: udp_target_def UDPAddr_def DestinationAddress_def split: option.splits)

section \<open>The tunnel's loop\<close>

datatype proc = NotStarted | Running | Stopped

record 'd Tunnel =
  tnDialer :: 'd
  tnUdpTimeout :: int
  tnProc :: proc

definition udpSessionTimeout :: int where "udpSessionTimeout = 60000000000"

definition Tunnel_New :: "'d \<Rightarrow> 'd Tunnel" where
  "Tunnel_New d = \<lparr>tnDialer = d, tnUdpTimeout = udpSessionTimeout, tnProc = NotStarted\<rparr>"

text \<open>The loop is started once; closing before that does nothing, closing later stops it for good.\<close>

definition ProcessAsync :: "'d Tunnel \<Rightarrow> 'd Tunnel" where
  "ProcessAsync t = (if tnProc t = NotStarted then t\<lparr>tnProc := Running\<rparr> else t)"

definition Tunnel_Close :: "'d Tunnel \<Rightarrow> 'd Tunnel" where
  "Tunnel_Close t = (if tnProc t = NotStarted then t else t\<lparr>tnProc := Stopped\<rparr>)"

definition SetDialer :: "'d \<Rightarrow> 'd Tunnel \<Rightarrow> 'd Tunnel" where "SetDialer d t = t\<lparr>tnDialer := d\<rparr>"
definition SetUDPTimeout :: "int \<Rightarrow> 'd Tunnel \<Rightarrow> 'd Tunnel" where "SetUDPTimeout v t = t\<lparr>tnUdpTimeout := v\<rparr>"

text \<open>The channels have no buffer: a connection is taken when the loop runs, and otherwise its sender waits.\<close>

definition HandleConn :: "'d Tunnel \<Rightarrow> ('d \<Rightarrow> event list set) \<Rightarrow> event list set option" where
  "HandleConn t handler = (if tnProc t = Running then Some (handler (tnDialer t)) else None)"

lemma closed_for_good:
  "HandleConn (ProcessAsync (Tunnel_Close (ProcessAsync t))) handler = None"
  by (cases "tnProc t") (simp_all add: HandleConn_def ProcessAsync_def Tunnel_Close_def)

section \<open>What a log says\<close>

fun to_side :: "side \<Rightarrow> event \<Rightarrow> bytes list" where
  "to_side d (Wrote s b) = (if s = d then [b] else [])"
| "to_side d _ = []"

fun close_of :: "event \<Rightarrow> side list" where
  "close_of (Closed s) = [s]"
| "close_of _ = []"

fun ops_of :: "event \<Rightarrow> stat_op list" where
  "ops_of (Counted ops) = ops"
| "ops_of _ = []"

definition collect :: "(event \<Rightarrow> 'a list) \<Rightarrow> event list \<Rightarrow> 'a list" where
  "collect f es = concat (map f es)"

lemma collect_simps [simp]:
  "collect f [] = []" "collect f (x # xs) = f x @ collect f xs" "collect f (xs @ ys) = collect f xs @ collect f ys"
  by (simp_all add: collect_def)

text \<open>Interleaving keeps what only one of the two goroutines does in its order, and what both do up to order.\<close>

lemma collect_shuffles:
  "es \<in> shuffles xs ys \<Longrightarrow> collect f ys = [] \<Longrightarrow> collect f es = collect f xs"
  "es \<in> shuffles xs ys \<Longrightarrow> collect f xs = [] \<Longrightarrow> collect f es = collect f ys"
proof (induction xs ys arbitrary: es rule: shuffles.induct)
  case (3 x xs y ys)
  {
    case 1
    then show ?case using "3.IH" by (auto simp del: shuffles.simps simp: shuffles.simps(3)) 
  next
    case 2
    then show ?case using "3.IH" by (auto simp del: shuffles.simps simp: shuffles.simps(3))
  }
qed auto

lemma sum_collect_shuffles:
  fixes g :: "'a \<Rightarrow> int64"
  assumes "es \<in> shuffles xs ys"
  shows "sum_list (map g (collect f es)) = sum_list (map g (collect f xs)) + sum_list (map g (collect f ys))"
  using assms by (induction xs ys arbitrary: es rule: shuffles.induct) (auto simp: algebra_simps)

lemma copy_events_collect:
  assumes "\<And>k. wr k = None" and "dst \<noteq> src"
  shows "collect (to_side dst) (copy_events i dst src wr k ps) = ps"
    "collect (to_side src) (copy_events i dst src wr k ps) = []"
    "collect close_of (copy_events i dst src wr k ps) = []"
    "sum_list (map adds_up (collect ops_of (copy_events i dst src wr k ps))) =
       (if dst = Remote then of_nat (length (concat ps)) else 0)"
    "sum_list (map adds_down (collect ops_of (copy_events i dst src wr k ps))) =
       (if src = Remote then of_nat (length (concat ps)) else 0)"
proof (induction ps arbitrary: k)
  case (Cons p ps)
  {
    case 1 with assms Cons(1) show ?case by (simp add: count_read_def count_write_def)
  next
    case 2 with assms Cons(2) show ?case by (simp add: count_read_def count_write_def)
  next
    case 3 with assms Cons(3) show ?case by (simp add: count_read_def count_write_def)
  next
    case 4 with assms Cons(4) show ?case by (simp add: count_read_def count_write_def methods)
  next
    case 5 with assms Cons(5) show ?case by (simp add: count_read_def count_write_def methods)
  }
qed (simp_all add: count_read_def methods)

lemma unidirectionalStream_collect:
  assumes "\<And>k. wr k = None" and "dst \<noteq> src"
  shows "collect (to_side dst) (unidirectionalStream half i dst src wr f) = fdPieces f"
    "collect (to_side src) (unidirectionalStream half i dst src wr f) = []"
    "collect close_of (unidirectionalStream half i dst src wr f) = []"
    "sum_list (map adds_up (collect ops_of (unidirectionalStream half i dst src wr f))) =
       (if dst = Remote then of_nat (length (concat (fdPieces f))) else 0)"
    "sum_list (map adds_down (collect ops_of (unidirectionalStream half i dst src wr f))) =
       (if src = Remote then of_nat (length (concat (fdPieces f))) else 0)"
  using copy_events_collect [OF assms] by (simp_all add: unidirectionalStream_def)

text \<open>
  A TCP session is relayed in full. However its two goroutines interleave, what the origin sends
  is written to the remote side in order and nothing else is, and the same the other way; both
  connections are closed once, after the relay; and the session adds to the totals exactly the
  bytes relayed. If the dial fails, the origin is closed and nothing else happens.
\<close>

theorem tcp_relayed:
  assumes "es \<in> handleTCPConn env e origin remote" and "\<And>s k. seWr env s k = None"
  shows "if isl (seDial env (session_metadata TCP e)) then es = [Closed Origin]
    else collect (to_side Remote) es = fdPieces origin \<and> collect (to_side Origin) es = fdPieces remote \<and>
      collect close_of es = [Remote, Origin] \<and>
      sum_list (map adds_up (collect ops_of es)) = of_nat (length (concat (fdPieces origin))) \<and>
      sum_list (map adds_down (collect ops_of es)) = of_nat (length (concat (fdPieces remote)))"
proof (cases "seDial env (session_metadata TCP e)")
  case (Inl x)
  with assms(1) show ?thesis by (simp add: handleTCPConn_def)
next
  case (Inr x)
  let ?up = "unidirectionalStream (seHalf env) (seUUID env) Remote Origin (seWr env Remote) origin"
  let ?down = "unidirectionalStream (seHalf env) (seUUID env) Origin Remote (seWr env Origin) remote"
  from Inr assms(1) obtain mid where mid: "mid \<in> shuffles ?up ?down"
    and es: "es = Counted (NewTracker (seUUID env)) # mid @ [Counted (tracker_Close (seUUID env)), Closed Remote, Closed Origin]"
    by (auto simp: handleTCPConn_def relayed_def pipe_def)
  note up = unidirectionalStream_collect [of "seWr env Remote" Remote Origin "seHalf env" "seUUID env" origin]
  note down = unidirectionalStream_collect [of "seWr env Origin" Origin Remote "seHalf env" "seUUID env" remote]
  show ?thesis
    using Inr up down assms(2) collect_shuffles [OF mid, of "to_side Remote"] collect_shuffles [OF mid, of "to_side Origin"]
      collect_shuffles [OF mid, of close_of] sum_collect_shuffles [OF mid, of adds_up ops_of]
      sum_collect_shuffles [OF mid, of adds_down ops_of]
    by (simp add: es methods)
qed

section \<open>A UDP session\<close>

text \<open>The packets that can be relayed: those before the first error.\<close>

fun payloads :: "packets \<Rightarrow> bytes list" where
  "payloads [] = []"
| "payloads ((_, Inl _) # ps) = []"
| "payloads ((_, Inr p) # ps) = take MaxSegmentSize p # payloads ps"

text \<open>A socket that shows its reader part of what arrives.\<close>

locale packet_source =
  fixes rd :: "packets \<Rightarrow> ((string option \<times> (go_error + bytes)) \<times> packets) option" and view :: "packets \<Rightarrow> packets"
  assumes rd_end: "rd ps = None \<Longrightarrow> view ps = []"
    and rd_next: "rd ps = Some (x, qs) \<Longrightarrow> view ps = x # view qs \<and> length qs < length ps"
begin

lemma copied:
  assumes "\<And>k. wr k = None" and "dst \<noteq> src"
  shows "length ps < fuel \<Longrightarrow> collect (to_side dst) (copyPacketData rd i dst src wr k fuel ps) = payloads (view ps) \<and>
    collect (to_side src) (copyPacketData rd i dst src wr k fuel ps) = [] \<and>
    collect close_of (copyPacketData rd i dst src wr k fuel ps) = []"
proof (induction fuel arbitrary: k ps)
  case (Suc fuel)
  show ?case
  proof (cases "rd ps")
    case None
    with rd_end [OF None] show ?thesis by (simp add: count_read_def)
  next
    case (Some y)
    obtain u x qs where y: "y = ((u, x), qs)" by (metis surj_pair)
    with Some rd_next [of ps] have v: "view ps = (u, x) # view qs" "length qs < length ps" by auto
    with Suc.prems Suc.IH [of qs "Suc k"] Some y assms show ?thesis
      by (cases x) (auto simp: count_read_def count_write_def Let_def)
  qed
qed simp

end

interpretation plain: packet_source plain_ReadFrom "\<lambda>ps. ps"
  by unfold_locales (auto simp: plain_ReadFrom_def split: list.splits)

definition from_peer :: "string \<Rightarrow> packets \<Rightarrow> packets" where
  "from_peer dst ps = filter (\<lambda>x. fst x = None \<or> fst x = Some dst) ps"

lemma nat_ReadFrom_view:
  "nat_ReadFrom dst ps = None \<Longrightarrow> from_peer dst ps = []"
  "nat_ReadFrom dst ps = Some (x, qs) \<Longrightarrow> from_peer dst ps = x # from_peer dst qs \<and> length qs < length ps"
  by (induction dst ps rule: nat_ReadFrom.induct) (auto simp: from_peer_def split: if_splits)

interpretation nat: packet_source "nat_ReadFrom dst" "from_peer dst" for dst
  by unfold_locales (use nat_ReadFrom_view in auto)

text \<open>
  C35: a UDP session passes packets of its destination only. However its two goroutines interleave,
  the origin's packets are sent on in order, the origin is given, in order, exactly the packets of
  the session's destination, and both sockets are closed once, after the relay.
\<close>

theorem udp_relayed:
  assumes "es \<in> handleUDPConn env e origin remote" and "\<And>s k. seWr env s k = None"
  shows "if isl (seDial env (session_metadata UDP e)) then es = [Closed Origin]
    else collect (to_side Remote) es = payloads origin \<and>
      collect (to_side Origin) es = payloads (from_peer (DestinationAddress (seLib env) (session_metadata UDP e)) remote) \<and>
      collect close_of es = [Remote, Origin]"
proof (cases "seDial env (session_metadata UDP e)")
  case (Inl x)
  with assms(1) show ?thesis by (simp add: handleUDPConn_def)
next
  case (Inr x)
  let ?d = "DestinationAddress (seLib env) (session_metadata UDP e)"
  let ?up = "copyPacketData plain_ReadFrom (seUUID env) Remote Origin (seWr env Remote) 0 (Suc (length origin)) origin"
  let ?down = "copyPacketData (nat_ReadFrom ?d) (seUUID env) Origin Remote (seWr env Origin) 0 (Suc (length remote)) remote"
  from Inr assms(1) obtain mid where mid: "mid \<in> shuffles ?up ?down"
    and es: "es = Counted (NewTracker (seUUID env)) # mid @ [Counted (tracker_Close (seUUID env)), Closed Remote, Closed Origin]"
    by (auto simp: handleUDPConn_def relayed_def pipePacket_def Let_def)
  have up: "collect (to_side Remote) ?up = payloads origin" "collect (to_side Origin) ?up = []" "collect close_of ?up = []"
    using plain.copied [of "seWr env Remote" Remote Origin origin "Suc (length origin)" "seUUID env" 0] assms(2) by auto
  have down: "collect (to_side Origin) ?down = payloads (from_peer ?d remote)" "collect (to_side Remote) ?down = []" "collect close_of ?down = []"
    using nat.copied [of "seWr env Origin" Origin Remote remote "Suc (length remote)" ?d "seUUID env" 0] assms(2) by auto
  show ?thesis
    using Inr up down collect_shuffles [OF mid, of "to_side Remote"] collect_shuffles [OF mid, of "to_side Origin"]
      collect_shuffles [OF mid, of close_of]
    by (simp add: es)
qed

lemma append_in_shuffles: "xs @ ys \<in> shuffles xs ys"
  by (induction xs) (auto intro: Cons_in_shuffles_leftI)

definition session_example :: session_env where
  "session_example = \<lparr>seDial = (\<lambda>_. Inr NilAddr), seParse = (\<lambda>_. None), seUUID = ''u'', seHalf = (\<lambda>_. True),
     seWr = (\<lambda>_ _. None), seLib = lib_example\<rparr>"

definition endpoint_example :: endpoint_id where
  "endpoint_example = \<lparr>eRemoteAddress = [10, 0, 0, 1], eRemotePort = 4000, eLocalAddress = [], eLocalPort = 53\<rparr>"

text \<open>Two packets, of which the second is not from the destination.\<close>

theorem udp_relayed_witness:
  "\<exists>es \<in> handleUDPConn session_example endpoint_example [(None, Inr [1])] [(Some ''invalid AddrPort'', Inr [7]), (Some ''x'', Inr [8])].
     collect (to_side Remote) es = [[1]] \<and> collect (to_side Origin) es = [[7]] \<and> collect close_of es = [Remote, Origin]"
proof -
  let ?o = "[(None, Inr [1])] :: packets" and ?r = "[(Some ''invalid AddrPort'', Inr [7]), (Some ''x'', Inr [8])] :: packets"
  have d: "DestinationAddress (seLib session_example) (session_metadata UDP endpoint_example) = ''invalid AddrPort''"
    by (simp add: DestinationAddress_def session_metadata_def endpoint_example_def parseTCPIPAddress_def AddrPort_String_def)
  have "\<exists>es. es \<in> handleUDPConn session_example endpoint_example ?o ?r"
    using append_in_shuffles by (simp add: handleUDPConn_def relayed_def pipePacket_def Let_def session_example_def) blast
  then obtain es where es: "es \<in> handleUDPConn session_example endpoint_example ?o ?r" by blast
  from udp_relayed [OF es] d es show ?thesis
    by (auto simp: session_example_def from_peer_def MaxSegmentSize_def)
qed

end
