(* ===== verification/RelayProxy.thy ===== *)
theory RelayProxy
  imports EngineTunnel Duplex Framing
begin

text \<open>
  The connection of the relay protocol, \<^verbatim>\<open>tun2socks/proxy/relay.go\<close>. With \<^verbatim>\<open>noDelay\<close> unset the request
  waits in a buffer and goes out with the first data, and the response is read before the first
  data is. One TCP connection carries either a byte stream or datagrams with a length in front. The
  protocol library (its encoding of a request, its decoding of a response) is an argument, record
  \<open>relay_lib\<close>. Shown here: what is written arrives behind exactly one request, in both modes; the
  reader of a stream gets the bytes behind the response; datagrams keep their boundaries, cut to
  the reader's buffer.
\<close>

section \<open>Requests and responses\<close>

datatype relay_feature =
    NetworkFeatureUDP
  | UserAuthFeature string string
  | AddrFeature bool string int          \<comment> \<open>whether it is IPv4, the host and the port\<close>

record relay_request =
  rqUDP :: bool                          \<comment> \<open>the flag \<^verbatim>\<open>FUDP\<close> of the command \<^verbatim>\<open>CmdConnect\<close>\<close>
  rqFeatures :: "relay_feature list"

record relay_lib =
  rlVersion1 :: nat
  rlStatusOK :: nat
  rlErrBadVersion :: go_error
  rlRequest :: "relay_request \<Rightarrow> go_error + bytes list"     \<comment> \<open>\<^verbatim>\<open>Request.WriteTo\<close>: the writes it makes\<close>
  rlReadResponse :: "(sconn, nat \<times> nat) io"                \<comment> \<open>\<^verbatim>\<open>Response.ReadFrom\<close>: version and status\<close>

definition serializeRelayAddr :: "netlib \<Rightarrow> Metadata \<Rightarrow> relay_feature" where
  "serializeRelayAddr lib m =
     (case DstIP m of
        Some a \<Rightarrow> AddrFeature (Is4 a) (AddrString lib a) (DstPort m)
      | None \<Rightarrow> AddrFeature False ''invalid IP'' (DstPort m))"

definition relay_request_of :: "netlib \<Rightarrow> string \<Rightarrow> string \<Rightarrow> Metadata \<Rightarrow> relay_request" where
  "relay_request_of lib user pass m =
     \<lparr>rqUDP = (mdNetwork m = UDP),
      rqFeatures = (if mdNetwork m = UDP then [NetworkFeatureUDP] else []) @
        (if user \<noteq> [] then [UserAuthFeature user pass] else []) @ [serializeRelayAddr lib m]\<rparr>"

definition readRelayResponse :: "relay_lib \<Rightarrow> (sconn, unit) io" where
  "readRelayResponse R =
     io_bind (rlReadResponse R) (\<lambda>(version, status).
     if version \<noteq> rlVersion1 R then io_fail (rlErrBadVersion R)
     else if status \<noteq> rlStatusOK R then io_fail (ErrorNew (''status '' @ Itoa (int status)))
     else io_return ())"

section \<open>The connection\<close>

record relayConn =
  rcConn :: sconn
  rcUdp :: bool
  rcAddr :: Metadata
  rcOnce :: bool                         \<comment> \<open>whether \<^verbatim>\<open>once\<close> has run\<close>
  rcWbuf :: "bytes option"

definition newRelayConn :: "sconn \<Rightarrow> Metadata \<Rightarrow> bool \<Rightarrow> bool \<Rightarrow> relayConn" where
  "newRelayConn c m noDelay udp =
     \<lparr>rcConn = c, rcUdp = udp, rcAddr = m, rcOnce = False, rcWbuf = (if noDelay then None else Some [])\<rparr>"

definition on_relay :: "(sconn, 'a) io \<Rightarrow> (relayConn, 'a) io" where
  "on_relay m rc = (case m (rcConn rc) of (x, c) \<Rightarrow> (x, rc\<lparr>rcConn := c\<rparr>))"

text \<open>The response is read once, whether or not that succeeds, and only if the request was delayed.\<close>

definition relay_once :: "relay_lib \<Rightarrow> (relayConn, unit) io" where
  "relay_once R rc =
     (if rcOnce rc then (Ok (), rc)
      else
        let rc = rc\<lparr>rcOnce := True\<rparr> in
        if rcWbuf rc = None then (Ok (), rc) else on_relay (readRelayResponse R) rc)"

text \<open>\<^verbatim>\<open>Read\<close> into \<open>k\<close> bytes; the number that is returned beside an error is not modelled.\<close>

definition relay_Read :: "relay_lib \<Rightarrow> (nat \<Rightarrow> nat) \<Rightarrow> nat \<Rightarrow> (relayConn, bytes) io" where
  "relay_Read R got k =
     io_bind (relay_once R) (\<lambda>_ rc.
       if \<not> rcUdp rc then on_relay (stream_recv got k) rc
       else
         io_bind (on_relay (stream_read 2)) (\<lambda>bb.
         let dLen = nat (be16_val bb 0) in
         if dLen \<le> k then on_relay (stream_read dLen)
         else io_bind (on_relay (stream_read dLen)) (\<lambda>buf. io_return (take k buf))) rc)"

definition relay_ReadFrom :: "relay_lib \<Rightarrow> (nat \<Rightarrow> nat) \<Rightarrow> nat \<Rightarrow> (relayConn, bytes \<times> Metadata) io" where
  "relay_ReadFrom R got k = io_bind (relay_Read R got k) (\<lambda>b rc. (Ok (b, rcAddr rc), rc))"

definition relay_held :: "relayConn \<Rightarrow> bytes" where
  "relay_held rc = (case rcWbuf rc of None \<Rightarrow> [] | Some q \<Rightarrow> q)"

text \<open>The buffer is emptied also when the write fails.\<close>

definition relay_tcpWrite :: "(nat \<Rightarrow> go_error option) \<Rightarrow> bytes \<Rightarrow> (relayConn, nat) io" where
  "relay_tcpWrite wr b rc =
     (if relay_held rc \<noteq> [] then
        (case stream_write wr (relay_held rc @ b) (rcConn rc) of
           (Ok _, c) \<Rightarrow> (Ok (length b), rc\<lparr>rcConn := c, rcWbuf := Some []\<rparr>)
         | (Fail e, c) \<Rightarrow> (Fail e, rc\<lparr>rcConn := c, rcWbuf := Some []\<rparr>)
         | (Panic, c) \<Rightarrow> (Panic, rc\<lparr>rcConn := c\<rparr>))
      else io_bind (on_relay (stream_write wr b)) (\<lambda>_. io_return (length b)) rc)"

text \<open>Here it is emptied by what was written of it.\<close>

definition relay_udpWrite :: "(nat \<Rightarrow> go_error option) \<Rightarrow> bytes \<Rightarrow> (relayConn, nat) io" where
  "relay_udpWrite wr b rc =
     (if length b > 65535 then (Fail (ErrorNew ''write: data maximum exceeded''), rc)
      else
        let bb = put_uint16 (int (length b)) in
        if relay_held rc \<noteq> [] then
          (let q = relay_held rc @ bb @ b in
           case stream_write wr q (rcConn rc) of
             (Ok _, c) \<Rightarrow> (Ok (length b), rc\<lparr>rcConn := c, rcWbuf := Some []\<rparr>)
           | (Fail e, c) \<Rightarrow> (Fail e, rc\<lparr>rcConn := c, rcWbuf := Some q\<rparr>)
           | (Panic, c) \<Rightarrow> (Panic, rc\<lparr>rcConn := c\<rparr>))
        else
          io_bind (on_relay (stream_write wr bb)) (\<lambda>_.
          io_bind (on_relay (stream_write wr b)) (\<lambda>_. io_return (length b))) rc)"

definition relay_Write :: "(nat \<Rightarrow> go_error option) \<Rightarrow> bytes \<Rightarrow> (relayConn, nat) io" where
  "relay_Write wr b rc = (if rcUdp rc then relay_udpWrite wr b rc else relay_tcpWrite wr b rc)"

definition relay_WriteTo :: "(nat \<Rightarrow> go_error option) \<Rightarrow> bytes \<Rightarrow> 'a \<Rightarrow> (relayConn, nat) io" where
  "relay_WriteTo wr b to_addr = relay_Write wr b"

section \<open>Writing\<close>

definition relay_frame :: "bytes \<Rightarrow> bytes" where
  "relay_frame d = put_uint16 (int (length d)) @ d"

text \<open>What one write puts on the wire.\<close>

definition relay_wire :: "relayConn \<Rightarrow> bytes \<Rightarrow> bytes" where
  "relay_wire rc b = (if rcUdp rc then relay_frame b else b)"

definition relay_writes :: "bytes list \<Rightarrow> (relayConn, unit) io" where
  "relay_writes = io_each (\<lambda>b. io_bind (relay_Write (\<lambda>_. None) b) (\<lambda>_. io_return ()))"

lemma stream_write_ok: "stream_write (\<lambda>_. None) b c = (Ok (), c\<lparr>scOut := scOut c @ [b]\<rparr>)"
  by (simp add: stream_write_def)

lemma relay_Write_ok:
  assumes "rcUdp rc \<Longrightarrow> length b \<le> 65535"
  shows "\<exists>rc'. relay_Write (\<lambda>_. None) b rc = (Ok (length b), rc') \<and> relay_held rc' = [] \<and> rcUdp rc' = rcUdp rc \<and>
    concat (scOut (rcConn rc')) = concat (scOut (rcConn rc)) @ relay_held rc @ relay_wire rc b \<and>
    scIn (rcConn rc') = scIn (rcConn rc) \<and> rcOnce rc' = rcOnce rc \<and> (rcWbuf rc' = None \<longleftrightarrow> rcWbuf rc = None)"
  using assms
  by (auto simp: relay_Write_def relay_tcpWrite_def relay_udpWrite_def relay_wire_def relay_frame_def relay_held_def on_relay_def
      stream_write_ok io_bind_def io_return_def Let_def simp del: io_bind_Ok_iff split: option.splits)

lemma relay_writes_ok:
  assumes "rcUdp rc \<Longrightarrow> \<forall>b \<in> set bs. length b \<le> 65535" and "bs \<noteq> []"
  shows "\<exists>rc'. relay_writes bs rc = (Ok (), rc') \<and> relay_held rc' = [] \<and>
    concat (scOut (rcConn rc')) = concat (scOut (rcConn rc)) @ relay_held rc @ concat (map (relay_wire rc) bs) \<and>
    scIn (rcConn rc') = scIn (rcConn rc) \<and> rcOnce rc' = rcOnce rc \<and> (rcWbuf rc' = None \<longleftrightarrow> rcWbuf rc = None)"
  using assms
proof (induction bs arbitrary: rc)
  case (Cons b bs)
  from relay_Write_ok [of rc b] Cons.prems obtain rc1 where
    1: "relay_Write (\<lambda>_. None) b rc = (Ok (length b), rc1)" "relay_held rc1 = []" "rcUdp rc1 = rcUdp rc"
      "concat (scOut (rcConn rc1)) = concat (scOut (rcConn rc)) @ relay_held rc @ relay_wire rc b"
      "scIn (rcConn rc1) = scIn (rcConn rc)" "rcOnce rc1 = rcOnce rc" "rcWbuf rc1 = None \<longleftrightarrow> rcWbuf rc = None"
    by auto
  then have w: "relay_wire rc1 = relay_wire rc" by (simp add: relay_wire_def fun_eq_iff)
  have step: "relay_writes (b # bs) rc = relay_writes bs rc1"
    using 1(1) by (simp add: relay_writes_def io_bind_def io_return_def del: io_bind_Ok_iff)
  show ?case
  proof (cases "bs = []")
    case True
    with 1 step show ?thesis by (simp add: relay_writes_def io_return_def)
  next
    case False
    with Cons.IH [of rc1] Cons.prems(1) 1(2-) step w show ?thesis by auto
  qed
qed simp

section \<open>Reading\<close>

text \<open>\<open>ans\<close> is a positive response: it is read to its end and no further.\<close>

definition relay_accepts :: "relay_lib \<Rightarrow> bytes \<Rightarrow> bool" where
  "relay_accepts R ans \<longleftrightarrow> (\<forall>rest ws. rlReadResponse R \<lparr>scIn = ans @ rest, scOut = ws\<rparr> =
     (Ok (rlVersion1 R, rlStatusOK R), \<lparr>scIn = rest, scOut = ws\<rparr>))"

text \<open>The bytes still to come behind the response.\<close>

definition relay_behind :: "relay_lib \<Rightarrow> bytes \<Rightarrow> relayConn \<Rightarrow> bytes \<Rightarrow> bool" where
  "relay_behind R ans rc P \<longleftrightarrow> relay_accepts R ans \<and>
     scIn (rcConn rc) = (if rcOnce rc \<or> rcWbuf rc = None then [] else ans) @ P"

lemma relay_once_behind:
  assumes "relay_behind R ans rc P"
  shows "\<exists>rc'. relay_once R rc = (Ok (), rc') \<and> rcOnce rc' \<and> scIn (rcConn rc') = P \<and> relay_behind R ans rc' P \<and>
    rcUdp rc' = rcUdp rc \<and> rcAddr rc' = rcAddr rc"
proof -
  obtain i ws where c: "rcConn rc = \<lparr>scIn = i, scOut = ws\<rparr>" by (cases "rcConn rc")
  with assms show ?thesis
    by (auto simp: relay_once_def relay_behind_def relay_accepts_def on_relay_def readRelayResponse_def Let_def
        io_bind_def io_return_def simp del: io_bind_Ok_iff)
qed

text \<open>A relayed stream is a reader of the bytes behind the response.\<close>

definition relay_stream :: "relay_lib \<Rightarrow> bytes \<Rightarrow> relayConn \<Rightarrow> bytes \<Rightarrow> bool" where
  "relay_stream R ans rc P \<longleftrightarrow> relay_behind R ans rc P \<and> \<not> rcUdp rc"

lemma relay_behind_after:
  "relay_behind R ans rc P \<Longrightarrow> rcOnce rc \<Longrightarrow> relay_behind R ans (rc\<lparr>rcConn := c\<rparr>) (scIn c)"
  by (simp add: relay_behind_def)

interpretation relay: stream_reader "relay_Read R got" "relay_stream R ans"
proof unfold_locales
  fix c k assume "relay_stream R ans c []" and k: "(0::nat) < k"
  then obtain c' where "relay_once R c = (Ok (), c')" "scIn (rcConn c') = []" "\<not> rcUdp c'"
    using relay_once_behind [of R ans c "[]"] by (auto simp: relay_stream_def)
  with k show "fst (relay_Read R got k c) = Fail IoEOF"
    by (simp add: relay_Read_def io_bind_def on_relay_def stream_recv_def)
next
  fix c P k assume "relay_stream R ans c P" and P: "P \<noteq> []" and k: "(0::nat) < k"
  then obtain c' where 1: "relay_once R c = (Ok (), c')" "rcOnce c'" "scIn (rcConn c') = P" "\<not> rcUdp c'" "relay_behind R ans c' P"
    using relay_once_behind [of R ans c P] by (auto simp: relay_stream_def)
  with stream_recv_Ok [of "rcConn c'" k got] P k obtain x rest where
    2: "stream_recv got k (rcConn c') = (Ok x, (rcConn c')\<lparr>scIn := rest\<rparr>)" "x \<noteq> []" "P = x @ rest"
    by auto
  with 1 show "\<exists>x P' c'. relay_Read R got k c = (Ok x, c') \<and> x \<noteq> [] \<and> P = x @ P' \<and> relay_stream R ans c' P'"
    using relay_behind_after [OF 1(5,2), of "(rcConn c')\<lparr>scIn := rest\<rparr>"]
    by (auto simp: relay_Read_def io_bind_def on_relay_def relay_stream_def simp del: io_bind_Ok_iff)
qed

section \<open>Datagrams\<close>

definition relay_unframe :: "bytes \<Rightarrow> (bytes \<times> bytes) option" where
  "relay_unframe bs =
     (if length bs < 2 \<or> length bs - 2 < nat (be16_val bs 0) then None
      else Some (take (nat (be16_val bs 0)) (drop 2 bs), drop (2 + nat (be16_val bs 0)) bs))"

lemma be16_val_put: "0 \<le> v \<Longrightarrow> v < 65536 \<Longrightarrow> be16_val (put_uint16 v @ rest) 0 = v"
  using be16_at_SomeD [OF be16_at_put [of "[]" v rest]] by simp

interpretation relay_frames: framing "\<lambda>d. length d \<le> 65535" relay_frame relay_unframe
proof
  show "length d \<le> 65535 \<Longrightarrow> relay_unframe (relay_frame d @ rest) = Some (d, rest)" for d rest
    by (simp add: relay_unframe_def relay_frame_def be16_val_put)
  show "length d \<le> 65535 \<Longrightarrow> relay_frame d \<noteq> []" for d
    by (simp add: relay_frame_def put_uint16_def)
qed

lemma stream_read_append: "n = length x \<Longrightarrow> scIn c = x @ rest \<Longrightarrow> stream_read n c = (Ok x, c\<lparr>scIn := rest\<rparr>)"
  by (simp add: stream_read_def)

text \<open>One read takes one datagram off the stream, whatever the size of the buffer.\<close>

lemma relay_Read_datagram:
  assumes "relay_behind R ans rc (relay_frame d @ rest)" and "rcUdp rc" and "length d \<le> 65535"
  shows "\<exists>rc'. relay_Read R got k rc = (Ok (take k d), rc') \<and> relay_behind R ans rc' rest \<and> rcUdp rc'"
proof -
  from relay_once_behind [OF assms(1)] assms(2) obtain rc1 where
    1: "relay_once R rc = (Ok (), rc1)" "rcOnce rc1" "scIn (rcConn rc1) = put_uint16 (int (length d)) @ d @ rest"
      "relay_behind R ans rc1 (relay_frame d @ rest)" "rcUdp rc1"
    by (auto simp: relay_frame_def)
  let ?c = "(rcConn rc1)\<lparr>scIn := d @ rest\<rparr>"
  have h: "stream_read 2 (rcConn rc1) = (Ok (put_uint16 (int (length d))), ?c)"
    using 1(3) by (intro stream_read_append) simp_all
  have v: "nat (be16_val (put_uint16 (int (length d))) 0) = length d"
    using be16_val_put [of "int (length d)" "[]"] assms(3) by simp
  have r: "stream_read (length d) ?c = (Ok d, (rcConn rc1)\<lparr>scIn := rest\<rparr>)"
    using stream_read_append [of "length d" d ?c rest] by simp
  have "relay_Read R got k rc = (Ok (take k d), rc1\<lparr>rcConn := (rcConn rc1)\<lparr>scIn := rest\<rparr>\<rparr>)"
    using 1(1,5) h v r by (simp add: relay_Read_def io_bind_def on_relay_def io_return_def Let_def del: io_bind_Ok_iff)
  with relay_behind_after [OF 1(4,2), of "(rcConn rc1)\<lparr>scIn := rest\<rparr>"] 1(5) show ?thesis by simp
qed

lemma relay_reads_datagrams:
  assumes "relay_behind R ans rc (concat (map relay_frame ds))" and "rcUdp rc" and "\<forall>d \<in> set ds. length d \<le> 65535"
    and "length ks = length ds"
  shows "\<exists>rc'. reads (relay_Read R got) ks rc = (Ok (map2 take ks ds), rc')"
  using assms
proof (induction ks arbitrary: rc ds)
  case Nil
  then show ?case by (simp add: io_return_def)
next
  case (Cons k ks)
  then obtain d ds' where ds: "ds = d # ds'" by (cases ds) auto
  with Cons.prems relay_Read_datagram [of R ans rc d "concat (map relay_frame ds')" got k] obtain rc1 where
    1: "relay_Read R got k rc = (Ok (take k d), rc1)" "relay_behind R ans rc1 (concat (map relay_frame ds'))" "rcUdp rc1"
    by auto
  with Cons.IH [OF 1(2,3)] Cons.prems ds obtain rc' where "reads (relay_Read R got) ks rc1 = (Ok (map2 take ks ds'), rc')"
    by auto
  with 1(1) ds show ?case by (simp add: io_bind_def io_return_def del: io_bind_Ok_iff)
qed

text \<open>
  C37: datagrams cross a relay connection one by one. With the request held back, the datagrams
  written go out behind exactly one copy of the request, in frames from which they can be read
  again; and a connection on which a positive response and the frames of datagrams arrive gives
  its reader each datagram in one read, cut to the buffer of that read, without losing its place.
\<close>

theorem relay_datagrams:
  assumes "\<forall>d \<in> set ds. length d \<le> 65535" and "ds \<noteq> []" and "relay_accepts R ans" and "length ks = length ds"
  shows "\<exists>w wire. relay_writes ds ((newRelayConn \<lparr>scIn = [], scOut = []\<rparr> m False True)\<lparr>rcWbuf := Some request\<rparr>) = (Ok (), w) \<and>
      concat (scOut (rcConn w)) = request @ wire \<and> decode_frames relay_unframe (length wire) wire = Some ds \<and>
      (\<exists>r. reads (relay_Read R got) ks (newRelayConn \<lparr>scIn = ans @ wire, scOut = []\<rparr> m False True) = (Ok (map2 take ks ds), r))"
proof -
  let ?w = "(newRelayConn \<lparr>scIn = [], scOut = []\<rparr> m False True)\<lparr>rcWbuf := Some request\<rparr>"
  let ?wire = "concat (map relay_frame ds)" and ?r = "\<lambda>i. newRelayConn \<lparr>scIn = i, scOut = []\<rparr> m False True"
  have "relay_wire ?w = relay_frame" by (simp add: relay_wire_def newRelayConn_def fun_eq_iff)
  with relay_writes_ok [of ?w ds] assms obtain w where
    "relay_writes ds ?w = (Ok (), w)" "concat (scOut (rcConn w)) = request @ ?wire"
    by (auto simp: newRelayConn_def relay_held_def)
  moreover have "decode_frames relay_unframe (length ?wire) ?wire = Some ds"
    using assms(1) by (intro relay_frames.decode_frames_enc) auto
  moreover have "relay_behind R ans (?r (ans @ ?wire)) ?wire"
    using assms(3) by (simp add: relay_behind_def newRelayConn_def)
  then have "\<exists>r. reads (relay_Read R got) ks (?r (ans @ ?wire)) = (Ok (map2 take ks ds), r)"
    using assms by (intro relay_reads_datagrams) (simp_all add: newRelayConn_def)
  ultimately show ?thesis by blast
qed

definition relay_example :: relay_lib where
  "relay_example = \<lparr>rlVersion1 = 1, rlStatusOK = 0, rlErrBadVersion = ErrorNew ''bad version'', rlRequest = (\<lambda>_. Inr [[1, 1]]),
     rlReadResponse = io_bind (stream_read 2) (\<lambda>b. io_return (unat (b ! 0), unat (b ! 1)))\<rparr>"

lemma relay_example_accepts: "relay_accepts relay_example [1, 0]"
  by (simp add: relay_accepts_def relay_example_def stream_run io_return_def del: io_bind_Ok_iff)

definition relay_md :: Metadata where
  "relay_md = session_metadata UDP \<lparr>eRemoteAddress = [10, 0, 0, 1], eRemotePort = 1, eLocalAddress = [8, 8, 8, 8], eLocalPort = 53\<rparr>"

theorem relay_datagrams_witness:
  "\<exists>w wire. relay_writes [[7, 8, 9], []] ((newRelayConn \<lparr>scIn = [], scOut = []\<rparr> relay_md False True)\<lparr>rcWbuf := Some [1, 1]\<rparr>) = (Ok (), w) \<and>
     concat (scOut (rcConn w)) = [1, 1] @ wire \<and> decode_frames relay_unframe (length wire) wire = Some [[7, 8, 9], []] \<and>
     (\<exists>r. reads (relay_Read relay_example (\<lambda>n. n)) [2, 2] (newRelayConn \<lparr>scIn = [1, 0] @ wire, scOut = []\<rparr> relay_md False True) =
        (Ok [[7, 8], []], r))"
  using relay_datagrams [where ds = "[[7, 8, 9], []]" and ans = "[1, 0]" and ks = "[2, 2]" and m = relay_md and request = "[1, 1]"
      and got = "\<lambda>n. n", OF _ _ relay_example_accepts] by simp

section \<open>Streams\<close>

text \<open>
  The same for a stream: the bytes written arrive behind one request, and any sequence of
  reads that is long enough gets the bytes behind the response and then the end.
\<close>

theorem relay_stream_carried:
  assumes "bs \<noteq> []" and "relay_accepts R ans" and "\<forall>k \<in> set ks. 0 < k" and "length P < length ks"
  shows "(\<exists>w. relay_writes bs ((newRelayConn \<lparr>scIn = [], scOut = []\<rparr> m False False)\<lparr>rcWbuf := Some request\<rparr>) = (Ok (), w) \<and>
      concat (scOut (rcConn w)) = request @ concat bs) \<and>
    (\<exists>j xs c. reads (relay_Read R got) (take j ks) (newRelayConn \<lparr>scIn = ans @ P, scOut = []\<rparr> m False False) = (Ok xs, c) \<and>
      concat xs = P \<and> fst (relay_Read R got (ks ! j) c) = Fail IoEOF)"
proof
  let ?w = "(newRelayConn \<lparr>scIn = [], scOut = []\<rparr> m False False)\<lparr>rcWbuf := Some request\<rparr>"
  have "relay_wire ?w = (\<lambda>b. b)" by (simp add: relay_wire_def newRelayConn_def fun_eq_iff)
  with relay_writes_ok [of ?w bs] assms(1) show "\<exists>w. relay_writes bs ?w = (Ok (), w) \<and> concat (scOut (rcConn w)) = request @ concat bs"
    by (auto simp: newRelayConn_def relay_held_def)
  have "relay_stream R ans (newRelayConn \<lparr>scIn = ans @ P, scOut = []\<rparr> m False False) P"
    using assms(2) by (simp add: relay_stream_def relay_behind_def newRelayConn_def)
  from relay.reads_pending [OF this assms(3,4)]
  show "\<exists>j xs c. reads (relay_Read R got) (take j ks) (newRelayConn \<lparr>scIn = ans @ P, scOut = []\<rparr> m False False) = (Ok xs, c) \<and>
      concat xs = P \<and> fst (relay_Read R got (ks ! j) c) = Fail IoEOF"
    by blast
qed

text \<open>
  A negative response is reported by the first read only: it counts as read, so the next read
  takes what follows it for data of the connection.
\<close>

lemma relay_refusal_forgotten:
  assumes "rlReadResponse R \<lparr>scIn = ans @ rest, scOut = []\<rparr> = (Ok (rlVersion1 R, status), \<lparr>scIn = rest, scOut = []\<rparr>)"
    and "status \<noteq> rlStatusOK R" and "rest \<noteq> []"
  shows "\<exists>c x. relay_Read R got 1 (newRelayConn \<lparr>scIn = ans @ rest, scOut = []\<rparr> m False False) =
      (Fail (ErrorNew (''status '' @ Itoa (int status))), c) \<and> fst (relay_Read R got 1 c) = Ok x \<and> x \<noteq> []"
  using assms stream_recv_Ok [of "\<lparr>scIn = rest, scOut = []\<rparr>" 1 got]
  by (auto simp: relay_Read_def relay_once_def newRelayConn_def on_relay_def readRelayResponse_def io_bind_def io_fail_def Let_def
      simp del: io_bind_Ok_iff)

text \<open>A first write that fails takes the request with it: the next one sends data without any.\<close>

lemma relay_request_lost:
  assumes "wr 0 = Some e" and "request \<noteq> []" and "rcWbuf rc = Some request" and "\<not> rcUdp rc" and "scOut (rcConn rc) = []"
  shows "\<exists>rc'. relay_Write wr b rc = (Fail e, rc') \<and> relay_held rc' = [] \<and>
    scOut (rcConn (snd (relay_Write (\<lambda>_. None) b2 rc'))) = [b2]"
  using assms
  by (auto simp: relay_Write_def relay_tcpWrite_def relay_held_def stream_write_def on_relay_def io_bind_def io_return_def
      simp del: io_bind_Ok_iff)

end
