(* ===== verification/ShadowAead.thy ===== *)
theory ShadowAead
  imports Duplex Json
begin

text \<open>
  Shadowsocks with an authenticated cipher, \<^verbatim>\<open>transport/shadowsocks/shadowaead\<close>: the chunked
  stream and the packet format. The primitives (AEAD, key derivation, random bytes) are arguments; what is
  used of an AEAD is that opening inverts sealing under the same nonce and that sealing adds
  the overhead. Shown here: a stream of writes is read back whatever the sizes of the reads, no
  nonce is used twice, and copying from a reader ends the stream with a chunk the peer rejects.
\<close>

section \<open>Primitives\<close>

record aead =
  aSeal :: "bytes \<Rightarrow> bytes \<Rightarrow> bytes"                  \<comment> \<open>nonce and plaintext\<close>
  aOpen :: "bytes \<Rightarrow> bytes \<Rightarrow> go_error + bytes"
  aNonceSize :: nat
  aOverhead :: nat

text \<open>What \<^verbatim>\<open>cipher.AEAD\<close> documents.\<close>

definition aead_laws :: "aead \<Rightarrow> bool" where
  "aead_laws a \<longleftrightarrow> (\<forall>n p. length n = aNonceSize a \<longrightarrow> aOpen a n (aSeal a n p) = Inr p \<and> length (aSeal a n p) = length p + aOverhead a)"

text \<open>\<^verbatim>\<open>metaCipher\<close>: the sub-key of a salt gives the AEAD.\<close>

record metaCipher =
  psk :: bytes
  mcHKDF :: "bytes \<Rightarrow> bytes \<Rightarrow> bytes \<Rightarrow> nat \<Rightarrow> bytes"  \<comment> \<open>secret, salt, info and length\<close>
  makeAEAD :: "bytes \<Rightarrow> go_error + aead"

definition KeySize :: "metaCipher \<Rightarrow> nat" where "KeySize m = length (psk m)"
definition SaltSize :: "metaCipher \<Rightarrow> nat" where "SaltSize m = (if KeySize m > 16 then KeySize m else 16)"

definition Encrypter :: "metaCipher \<Rightarrow> bytes \<Rightarrow> go_error + aead" where
  "Encrypter m salt = makeAEAD m (mcHKDF m (psk m) salt (bytes_of_string ''ss-subkey'') (KeySize m))"

definition Decrypter :: "metaCipher \<Rightarrow> bytes \<Rightarrow> go_error + aead" where
  "Decrypter m salt = makeAEAD m (mcHKDF m (psk m) salt (bytes_of_string ''ss-subkey'') (KeySize m))"

section \<open>Nonces\<close>

fun increment :: "bytes \<Rightarrow> bytes" where
  "increment [] = []"
| "increment (b # bs) = (let b' = b + 1 in if b' \<noteq> 0 then b' # bs else b' # increment bs)"

definition zero_nonce :: "aead \<Rightarrow> bytes" where "zero_nonce a = replicate (aNonceSize a) 0"

fun le_val :: "bytes \<Rightarrow> int" where
  "le_val [] = 0"
| "le_val (b # bs) = uint b + 256 * le_val bs"

lemma length_increment [simp]: "length (increment n) = length n"
  by (induction n) (auto simp: Let_def)

lemma le_val_bounds: "0 \<le> le_val n" "le_val n < 256 ^ length n"
proof (induction n)
  case (Cons b n)
  have "uint b < 256" using uint_lt2p [of b] by simp
  with Cons show "0 \<le> le_val (b # n)" "le_val (b # n) < 256 ^ length (b # n)" by simp_all
qed simp_all

text \<open>The counter is a little-endian number that wraps around.\<close>

lemma le_val_increment: "le_val (increment n) = (le_val n + 1) mod 256 ^ length n"
proof (induction n)
  case (Cons b n)
  have b: "uint b < 256" "0 \<le> uint b" using uint_lt2p [of b] by simp_all
  note v = le_val_bounds [of n]
  have u: "uint (b + 1) = (uint b + 1) mod 256" by (simp add: uint_word_ariths)
  show ?case
  proof (cases "b + 1 = 0")
    case True
    with u have "(uint b + 1) mod 256 = 0" by simp
    with b have ub: "uint b = 255" by presburger
    then have "le_val (increment (b # n)) = 256 * ((le_val n + 1) mod 256 ^ length n)"
      using True Cons by (simp add: Let_def)
    also have "\<dots> = (256 * (le_val n + 1)) mod 256 ^ length (b # n)" by (simp only: mod_mult_mult1 length_Cons power_Suc)
    finally show ?thesis using ub by (simp add: algebra_simps)
  next
    case False
    then have "uint (b + 1) \<noteq> 0" by (metis uint_0_iff)
    with u have "uint b \<noteq> 255" by auto
    with b have lt: "uint b + 1 < 256" by linarith
    with u b have "uint (b + 1) = uint b + 1" by simp
    moreover note lt
    moreover have "256 * le_val n + 256 \<le> 256 * 256 ^ length n" using v(2) by simp
    ultimately show ?thesis using False v(1) b by (simp add: Let_def)
  qed
qed simp

lemma length_funpow_increment [simp]: "length ((increment ^^ k) n) = length n"
  by (induction k) simp_all

lemma le_val_funpow: "le_val ((increment ^^ k) n) = (le_val n + int k) mod 256 ^ length n"
proof (induction k)
  case 0
  then show ?case using le_val_bounds [of n] by simp
next
  case (Suc k)
  have "le_val ((increment ^^ Suc k) n) = ((le_val n + int k) mod 256 ^ length n + 1) mod 256 ^ length n"
    by (simp add: le_val_increment Suc)
  also have "\<dots> = (le_val n + int k + 1) mod 256 ^ length n" by (rule mod_add_left_eq)
  finally show ?case by (simp add: ac_simps)
qed

section \<open>The stream\<close>

definition payloadSizeMask :: nat where "payloadSizeMask = 0x3FFF"

definition ErrZeroChunk :: go_error where "ErrZeroChunk = ErrorNew ''zero chunk''"

text \<open>One chunk: the sealed size, then the sealed payload.\<close>

definition seal_chunk :: "aead \<Rightarrow> bytes \<Rightarrow> bytes \<Rightarrow> bytes" where
  "seal_chunk a nonce p = aSeal a nonce (put_uint16 (int (length p))) @ aSeal a (increment nonce) p"

text \<open>
  The loop of \<^verbatim>\<open>Writer.Write\<close>: the count, the error, the next nonce and the stream. The count is
  advanced by the loop's post statement also when the write failed.
\<close>

function write_loop ::
  "(nat \<Rightarrow> go_error option) \<Rightarrow> aead \<Rightarrow> nat \<Rightarrow> bytes \<Rightarrow> bytes \<Rightarrow> sconn \<Rightarrow> nat \<times> go_error option \<times> bytes \<times> sconn" where
  "write_loop wr a n p nonce c =
     (if p = [] then (n, None, nonce, c)
      else
        let nr = (if payloadSizeMask > length p then length p else payloadSizeMask);
            nonce' = increment (increment nonce) in
        case stream_write wr (seal_chunk a nonce (take nr p)) c of
          (Ok _, c') \<Rightarrow> write_loop wr a (n + nr) (drop nr p) nonce' c'
        | (Fail e, c') \<Rightarrow> (n + nr, Some e, nonce', c')
        | (Panic, c') \<Rightarrow> (n + nr, None, nonce', c'))"
  by pat_completeness auto
termination
  by (relation "measure (\<lambda>(wr, a, n, p, nonce, c). length p)") (auto simp: payloadSizeMask_def split: if_splits)

declare write_loop.simps [simp del]

definition Writer_Write ::
  "(nat \<Rightarrow> go_error option) \<Rightarrow> aead \<Rightarrow> bytes \<Rightarrow> bytes \<Rightarrow> sconn \<Rightarrow> nat \<times> go_error option \<times> bytes \<times> sconn" where
  "Writer_Write wr a p nonce c =
     (if p = [] then
        (case stream_write wr (aSeal a nonce [0, 0]) c of
           (Fail e, c') \<Rightarrow> (0, Some e, increment nonce, c')
         | (_, c') \<Rightarrow> (0, None, increment nonce, c'))
      else write_loop wr a 0 p nonce c)"

text \<open>
  \<^verbatim>\<open>Writer.ReadFrom\<close> on a reader that gives these pieces (at most the payload size each) and then the
  error; every read is sealed and sent, also the last one with no bytes.
\<close>

fun Writer_ReadFrom ::
  "(nat \<Rightarrow> go_error option) \<Rightarrow> aead \<Rightarrow> bytes list \<Rightarrow> go_error \<Rightarrow> bytes \<Rightarrow> sconn \<Rightarrow> nat \<times> go_error option \<times> bytes \<times> sconn" where
  "Writer_ReadFrom wr a [] er nonce c =
     (case stream_write wr (seal_chunk a nonce []) c of
        (Fail e, c') \<Rightarrow> (0, Some e, increment (increment nonce), c')
      | (_, c') \<Rightarrow> (0, if er \<noteq> IoEOF then Some er else None, increment (increment nonce), c'))"
| "Writer_ReadFrom wr a (p # ps) er nonce c =
     (case stream_write wr (seal_chunk a nonce p) c of
        (Fail e, c') \<Rightarrow> (length p, Some e, increment (increment nonce), c')
      | (_, c') \<Rightarrow>
          (case Writer_ReadFrom wr a ps er (increment (increment nonce)) c' of
             (n, e, r) \<Rightarrow> (length p + n, e, r)))"

text \<open>The reader: its nonce, the rest of the last record (\<^const>\<open>None\<close>: no buffer), and the stream.\<close>

record areader =
  arNonce :: bytes
  arBuf :: "bytes option"
  arConn :: sconn

definition on_conn :: "(sconn, 'a) io \<Rightarrow> (areader, 'a) io" where
  "on_conn m r = (case m (arConn r) of (x, c) \<Rightarrow> (x, r\<lparr>arConn := c\<rparr>))"

definition next_nonce :: "(areader, bytes) io" where
  "next_nonce r = (Ok (arNonce r), r\<lparr>arNonce := increment (arNonce r)\<rparr>)"

definition io_sum2 :: "go_error + 'a \<Rightarrow> ('w, 'a) io" where
  "io_sum2 x = (case x of Inl e \<Rightarrow> io_fail e | Inr y \<Rightarrow> io_return y)"

text \<open>The nonce is advanced before the result of opening is looked at.\<close>

definition Reader_read :: "aead \<Rightarrow> (areader, bytes) io" where
  "Reader_read a =
     io_bind (on_conn (stream_read (2 + aOverhead a))) (\<lambda>p.
     io_bind next_nonce (\<lambda>nonce.
     io_bind (io_sum2 (aOpen a nonce p)) (\<lambda>h.
     let size = nat (be16_val h 0) mod 0x4000 in
     if size = 0 then io_fail ErrZeroChunk
     else
       io_bind (on_conn (stream_read (size + aOverhead a))) (\<lambda>q.
       io_bind next_nonce (\<lambda>nonce2.
       io_sum2 (aOpen a nonce2 q))))))"

text \<open>\<^verbatim>\<open>Reader.Read\<close> into \<open>k\<close> bytes.\<close>

definition take_buf :: "nat \<Rightarrow> bytes \<Rightarrow> (areader, bytes) io" where
  "take_buf k b r = (Ok (take k b), r\<lparr>arBuf := (if length b \<le> k then None else Some (drop k b))\<rparr>)"

definition Reader_Read :: "aead \<Rightarrow> nat \<Rightarrow> (areader, bytes) io" where
  "Reader_Read a k r =
     (case arBuf r of
        Some b \<Rightarrow> take_buf k b r
      | None \<Rightarrow>
          if k \<ge> payloadSizeMask + aOverhead a then Reader_read a r
          else io_bind (Reader_read a) (take_buf k) r)"

text \<open>Every record read takes at least its sealed size off the stream.\<close>

lemma Reader_read_shrinks:
  assumes "Reader_read a r = (Ok p, r')"
  shows "length (scIn (arConn r')) < length (scIn (arConn r))"
  using assms unfolding Reader_read_def
  by (auto simp: io_bind_def on_conn_def stream_read_def next_nonce_def io_sum2_def io_return_def io_fail_def Let_def
      simp del: io_bind_Ok_iff split: if_splits sum.splits)

text \<open>
  \<^verbatim>\<open>Reader.WriteTo\<close>: \<open>wr n\<close> is the failure of the n-th write to the destination, with the number of bytes it
  took; a write without an error takes all of them, as \<^verbatim>\<open>io.Writer\<close> requires. The destination is
  the list of the writes it took. The buffer stays allocated at the end of the stream.
\<close>

function Reader_WriteTo ::
  "(nat \<Rightarrow> (nat \<times> go_error) option) \<Rightarrow> aead \<Rightarrow> areader \<Rightarrow> bytes list \<Rightarrow> nat \<times> go_error option \<times> areader \<times> bytes list" where
  "Reader_WriteTo wr a r out =
     (let b = (case arBuf r of None \<Rightarrow> [] | Some b \<Rightarrow> b);
          r1 = r\<lparr>arBuf := Some []\<rparr>;
          out1 = (if b = [] then out else out @ [b]) in
      case (if b = [] then None else wr (length out)) of
        Some (k, ew) \<Rightarrow>
          (min k (length b), Some ew, r\<lparr>arBuf := (if length b \<le> k then None else Some (drop k b))\<rparr>, out @ [take k b])
      | None \<Rightarrow>
          (case Reader_read a r1 of
             (Ok p, r2) \<Rightarrow>
               (case Reader_WriteTo wr a (r2\<lparr>arBuf := Some p\<rparr>) out1 of (n, e, r3, out3) \<Rightarrow> (length b + n, e, r3, out3))
           | (Fail er, r2) \<Rightarrow> (length b, if er \<noteq> IoEOF then Some er else None, r2, out1)
           | (Panic, r2) \<Rightarrow> (length b, None, r2, out1)))"
  by pat_completeness auto
termination
  by (relation "measure (\<lambda>(wr, a, r, out). length (scIn (arConn r)))") (auto dest!: Reader_read_shrinks [OF sym])

declare Reader_WriteTo.simps [simp del]

section \<open>Connections\<close>

text \<open>Both directions of \<^verbatim>\<open>Conn\<close>; a direction is set up with its salt when it is first used.\<close>

record cconn =
  ccConn :: sconn
  ccW :: "(aead \<times> bytes) option"
  ccR :: "(aead \<times> bytes \<times> bytes option) option"

definition NewConn :: "sconn \<Rightarrow> cconn" where "NewConn c = \<lparr>ccConn = c, ccW = None, ccR = None\<rparr>"

definition initWriter :: "metaCipher \<Rightarrow> (nat \<Rightarrow> go_error option) \<Rightarrow> bytes \<Rightarrow> (cconn, unit) io" where
  "initWriter m wr salt c =
     (case Encrypter m salt of
        Inl e \<Rightarrow> (Fail e, c)
      | Inr a \<Rightarrow>
          (case stream_write wr salt (ccConn c) of
             (Ok _, n) \<Rightarrow> (Ok (), c\<lparr>ccConn := n, ccW := Some (a, zero_nonce a)\<rparr>)
           | (Fail e, n) \<Rightarrow> (Fail e, c\<lparr>ccConn := n\<rparr>)
           | (Panic, n) \<Rightarrow> (Panic, c\<lparr>ccConn := n\<rparr>)))"

definition writer_step :: "(nat \<Rightarrow> go_error option) \<Rightarrow> bytes \<Rightarrow> (cconn, nat) io" where
  "writer_step wr b c =
     (case ccW c of
        None \<Rightarrow> (Panic, c)
      | Some (a, nonce) \<Rightarrow>
          (case Writer_Write wr a b nonce (ccConn c) of
             (n, e, nonce', net) \<Rightarrow>
               ((case e of None \<Rightarrow> Ok n | Some e \<Rightarrow> Fail e), c\<lparr>ccConn := net, ccW := Some (a, nonce')\<rparr>)))"

text \<open>\<open>salt\<close>: the random bytes a new writer draws.\<close>

definition Conn_Write :: "metaCipher \<Rightarrow> (nat \<Rightarrow> go_error option) \<Rightarrow> bytes \<Rightarrow> bytes \<Rightarrow> (cconn, nat) io" where
  "Conn_Write m wr salt b c =
     io_bind (\<lambda>c. if ccW c = None then initWriter m wr salt c else (Ok (), c)) (\<lambda>_. writer_step wr b) c"

definition initReader :: "metaCipher \<Rightarrow> (cconn, unit) io" where
  "initReader m c =
     (case stream_read (SaltSize m) (ccConn c) of
        (Ok salt, n) \<Rightarrow>
          (case Decrypter m salt of
             Inl e \<Rightarrow> (Fail e, c\<lparr>ccConn := n\<rparr>)
           | Inr a \<Rightarrow> (Ok (), c\<lparr>ccConn := n, ccR := Some (a, zero_nonce a, None)\<rparr>))
      | (Fail e, n) \<Rightarrow> (Fail e, c\<lparr>ccConn := n\<rparr>)
      | (Panic, n) \<Rightarrow> (Panic, c\<lparr>ccConn := n\<rparr>))"

definition reader_step :: "nat \<Rightarrow> (cconn, bytes) io" where
  "reader_step k c =
     (case ccR c of
        None \<Rightarrow> (Panic, c)
      | Some (a, nonce, buf) \<Rightarrow>
          (case Reader_Read a k \<lparr>arNonce = nonce, arBuf = buf, arConn = ccConn c\<rparr> of
             (x, r) \<Rightarrow> (x, c\<lparr>ccConn := arConn r, ccR := Some (a, arNonce r, arBuf r)\<rparr>)))"

definition Conn_Read :: "metaCipher \<Rightarrow> nat \<Rightarrow> (cconn, bytes) io" where
  "Conn_Read m k c =
     io_bind (\<lambda>c. if ccR c = None then initReader m c else (Ok (), c)) (\<lambda>_. reader_step k) c"

definition Conn_ReadFrom ::
  "metaCipher \<Rightarrow> (nat \<Rightarrow> go_error option) \<Rightarrow> bytes \<Rightarrow> bytes list \<Rightarrow> go_error \<Rightarrow> (cconn, nat) io" where
  "Conn_ReadFrom m wr salt ps er c =
     io_bind (\<lambda>c. if ccW c = None then initWriter m wr salt c else (Ok (), c)) (\<lambda>_ c.
       case ccW c of
         None \<Rightarrow> (Panic, c)
       | Some (a, nonce) \<Rightarrow>
           (case Writer_ReadFrom wr a ps er nonce (ccConn c) of
              (n, e, nonce', net) \<Rightarrow>
                ((case e of None \<Rightarrow> Ok n | Some e \<Rightarrow> Fail e), c\<lparr>ccConn := net, ccW := Some (a, nonce')\<rparr>))) c"

text \<open>The result carries the destination, which has taken bytes also when an error ends the copy.\<close>

definition Conn_WriteTo ::
  "metaCipher \<Rightarrow> (nat \<Rightarrow> (nat \<times> go_error) option) \<Rightarrow> cconn \<Rightarrow> (nat \<times> go_error option) outcome \<times> cconn \<times> bytes list" where
  "Conn_WriteTo m wr c =
     (case (if ccR c = None then initReader m c else (Ok (), c)) of
        (Ok _, c1) \<Rightarrow>
          (case ccR c1 of
             None \<Rightarrow> (Panic, c1, [])
           | Some (a, nonce, buf) \<Rightarrow>
               (case Reader_WriteTo wr a \<lparr>arNonce = nonce, arBuf = buf, arConn = ccConn c1\<rparr> [] of
                  (n, e, r, out) \<Rightarrow> (Ok (n, e), c1\<lparr>ccConn := arConn r, ccR := Some (a, arNonce r, arBuf r)\<rparr>, out)))
      | (Fail e, c1) \<Rightarrow> (Fail e, c1, [])
      | (Panic, c1) \<Rightarrow> (Panic, c1, []))"

section \<open>Packets\<close>

definition ErrShortPacket :: go_error where "ErrShortPacket = ErrorNew ''short packet''"

text \<open>\<open>dst\<close>: the length of the destination buffer; a slice out of range panics.\<close>

definition Pack :: "metaCipher \<Rightarrow> bytes \<Rightarrow> nat \<Rightarrow> bytes \<Rightarrow> ('w, bytes) io" where
  "Pack m salt dst plaintext w =
     (if dst < SaltSize m then (Panic, w)
      else case Encrypter m salt of
        Inl e \<Rightarrow> (Fail e, w)
      | Inr a \<Rightarrow>
          if dst < SaltSize m + length plaintext + aOverhead a then (Fail IoErrShortBuffer, w)
          else (Ok (salt @ aSeal a (zero_nonce a) plaintext), w))"

definition Unpack :: "metaCipher \<Rightarrow> nat \<Rightarrow> bytes \<Rightarrow> go_error + bytes" where
  "Unpack m dst pkt =
     (if length pkt < SaltSize m then Inl ErrShortPacket
      else case Decrypter m (take (SaltSize m) pkt) of
        Inl e \<Rightarrow> Inl e
      | Inr a \<Rightarrow>
          if length pkt < SaltSize m + aOverhead a then Inl ErrShortPacket
          else if SaltSize m + dst + aOverhead a < length pkt then Inl IoErrShortBuffer
          else aOpen a (zero_nonce a) (drop (SaltSize m) pkt))"

lemma Unpack_Pack:
  assumes "Pack m salt dst p w = (Ok pkt, w')" and "length salt = SaltSize m" and "length p \<le> dst2"
    and "\<And>a. Encrypter m salt = Inr a \<Longrightarrow> aead_laws a"
  shows "Unpack m dst2 pkt = Inr p"
proof -
  from assms(1) obtain a where a: "Encrypter m salt = Inr a" and pkt: "pkt = salt @ aSeal a (zero_nonce a) p"
    by (auto simp: Pack_def split: if_splits sum.splits)
  from assms(4) [OF a] have "aOpen a (zero_nonce a) (aSeal a (zero_nonce a) p) = Inr p"
    "length (aSeal a (zero_nonce a) p) = length p + aOverhead a"
    by (simp_all add: aead_laws_def zero_nonce_def)
  moreover have "Decrypter m salt = Inr a" using a by (simp add: Encrypter_def Decrypter_def)
  ultimately show ?thesis using assms(2,3) by (simp add: pkt Unpack_def)
qed

definition maxPacketSize :: nat where "maxPacketSize = 64 * 1024"

text \<open>\<^verbatim>\<open>PacketConn.WriteTo\<close>; the state is the packets sent, \<open>send\<close> the error of sending one.\<close>

definition PacketConn_WriteTo :: "metaCipher \<Rightarrow> bytes \<Rightarrow> (bytes \<Rightarrow> go_error option) \<Rightarrow> bytes \<Rightarrow> (bytes list, nat) io" where
  "PacketConn_WriteTo m salt send b =
     io_bind (Pack m salt maxPacketSize b) (\<lambda>pkt sent.
       case send pkt of None \<Rightarrow> (Ok (length b), sent @ [pkt]) | Some e \<Rightarrow> (Fail e, sent))"

text \<open>
  \<^verbatim>\<open>PacketConn.ReadFrom\<close> into a buffer of \<open>k\<close> bytes: what has arrived in it, and the payload. A buffer
  shorter than the salt is sliced out of range.
\<close>

definition PacketConn_ReadFrom :: "metaCipher \<Rightarrow> nat \<Rightarrow> go_error + bytes \<Rightarrow> bytes outcome" where
  "PacketConn_ReadFrom m k arrived =
     (case arrived of
        Inl e \<Rightarrow> Fail e
      | Inr pkt \<Rightarrow>
          if k < SaltSize m then Panic
          else case Unpack m (k - SaltSize m) (take k pkt) of Inl e \<Rightarrow> Fail e | Inr b \<Rightarrow> Ok b)"

lemma PacketConn_roundtrip:
  assumes "Encrypter m salt = Inr a" and "aead_laws a" and "length salt = SaltSize m"
    and "SaltSize m + length b + aOverhead a \<le> k" and "k \<le> maxPacketSize"
  shows "\<exists>pkt. PacketConn_WriteTo m salt (\<lambda>_. None) b sent = (Ok (length b), sent @ [pkt]) \<and> PacketConn_ReadFrom m k (Inr pkt) = Ok b"
proof -
  let ?pkt = "salt @ aSeal a (zero_nonce a) b"
  have P: "Pack m salt maxPacketSize b w = (Ok ?pkt, w)" for w :: "bytes list"
    using assms by (simp add: Pack_def)
  have "length ?pkt \<le> k" using assms by (simp add: aead_laws_def zero_nonce_def)
  moreover have "Unpack m (k - SaltSize m) ?pkt = Inr b"
    by (rule Unpack_Pack [OF P assms(3)]) (use assms in auto)
  ultimately show ?thesis
    using P assms(4)
    by (intro exI [of _ ?pkt]) (simp add: PacketConn_WriteTo_def PacketConn_ReadFrom_def io_bind_def del: io_bind_Ok_iff)
qed

section \<open>The stream is read back\<close>

definition wf_chunk :: "bytes \<Rightarrow> bool" where "wf_chunk p \<longleftrightarrow> p \<noteq> [] \<and> length p \<le> payloadSizeMask"

fun seal_chunks :: "aead \<Rightarrow> bytes \<Rightarrow> bytes list \<Rightarrow> bytes" where
  "seal_chunks a nonce [] = []"
| "seal_chunks a nonce (p # ps) = seal_chunk a nonce p @ seal_chunks a (increment (increment nonce)) ps"

fun after :: "bytes list \<Rightarrow> bytes \<Rightarrow> bytes" where
  "after [] nonce = nonce"
| "after (p # ps) nonce = after ps (increment (increment nonce))"

lemma after_append [simp]: "after (ps @ qs) n = after qs (after ps n)"
  by (induction ps arbitrary: n) simp_all

lemma length_after [simp]: "length (after ps n) = length n"
  by (induction ps arbitrary: n) simp_all

lemma seal_chunks_append: "seal_chunks a n (ps @ qs) = seal_chunks a n ps @ seal_chunks a (after ps n) qs"
  by (induction ps arbitrary: n) simp_all

lemma write_loop_ok:
  "\<exists>ps c'. write_loop (\<lambda>_. None) a n p nonce c = (n + length p, None, after ps nonce, c') \<and> concat ps = p \<and>
     (\<forall>x \<in> set ps. wf_chunk x) \<and> scIn c' = scIn c \<and> concat (scOut c') = concat (scOut c) @ seal_chunks a nonce ps"
proof (induction "length p" arbitrary: n p nonce c rule: less_induct)
  case less
  show ?case
  proof (cases "p = []")
    case True
    then show ?thesis by (intro exI [of _ "[]"] exI [of _ c]) (simp add: write_loop.simps)
  next
    case False
    let ?nr = "min (length p) payloadSizeMask"
    let ?n2 = "increment (increment nonce)"
    let ?c = "c\<lparr>scOut := scOut c @ [seal_chunk a nonce (take ?nr p)]\<rparr>"
    have nr: "(if payloadSizeMask > length p then length p else payloadSizeMask) = ?nr" by simp
    have "length (drop ?nr p) < length p" using False by (simp add: payloadSizeMask_def)
    from less [OF this, of "n + ?nr" ?n2 ?c] obtain ps c' where
      ih: "write_loop (\<lambda>_. None) a (n + ?nr) (drop ?nr p) ?n2 ?c = (n + ?nr + length (drop ?nr p), None, after ps ?n2, c')"
      "concat ps = drop ?nr p" "\<forall>x \<in> set ps. wf_chunk x" "scIn c' = scIn ?c"
      "concat (scOut c') = concat (scOut ?c) @ seal_chunks a ?n2 ps" by blast
    have "write_loop (\<lambda>_. None) a n p nonce c = write_loop (\<lambda>_. None) a (n + ?nr) (drop ?nr p) ?n2 ?c"
      using False by (subst write_loop.simps) (simp add: nr stream_write_def Let_def)
    with ih False show ?thesis
      by (intro exI [of _ "take ?nr p # ps"] exI [of _ c']) (auto simp: wf_chunk_def payloadSizeMask_def)
  qed
qed

lemma Reader_read_chunk:
  assumes "aead_laws a" and "wf_chunk p" and "length n = aNonceSize a"
  shows "Reader_read a \<lparr>arNonce = n, arBuf = b, arConn = \<lparr>scIn = seal_chunk a n p @ rest, scOut = ws\<rparr>\<rparr> =
    (Ok p, \<lparr>arNonce = increment (increment n), arBuf = b, arConn = \<lparr>scIn = rest, scOut = ws\<rparr>\<rparr>)"
proof -
  let ?h = "put_uint16 (int (length p))"
  have o: "aOpen a n (aSeal a n ?h) = Inr ?h" "aOpen a (increment n) (aSeal a (increment n) p) = Inr p"
    and l: "length (aSeal a n ?h) = 2 + aOverhead a" "length (aSeal a (increment n) p) = length p + aOverhead a"
    using assms(1,3) by (simp_all add: aead_laws_def)
  have "length p < 0x4000" using assms(2) by (simp add: wf_chunk_def payloadSizeMask_def)
  moreover have "be16_val ?h 0 = int (length p) mod 65536"
    using be16_at_SomeD [OF be16_at_put [of "[]" "int (length p)" "[]"]] by simp
  ultimately have size: "nat (be16_val ?h 0) mod 0x4000 = length p" by simp
  have p: "p \<noteq> []" using assms(2) by (simp add: wf_chunk_def)
  show ?thesis
    unfolding Reader_read_def
    by (simp add: io_bind_def on_conn_def stream_read_def seal_chunk_def l next_nonce_def io_sum2_def o io_return_def size p Let_def
        del: io_bind_Ok_iff)
qed

text \<open>The plaintext a reader has still to give.\<close>

definition pending :: "aead \<Rightarrow> areader \<Rightarrow> bytes \<Rightarrow> bool" where
  "pending a r P \<longleftrightarrow> length (arNonce r) = aNonceSize a \<and> arBuf r \<noteq> Some [] \<and>
     (\<exists>ps. (\<forall>p \<in> set ps. wf_chunk p) \<and> scIn (arConn r) = seal_chunks a (arNonce r) ps \<and>
        P = (case arBuf r of None \<Rightarrow> [] | Some b \<Rightarrow> b) @ concat ps)"

lemma pending_take_buf:
  assumes "pending a (r\<lparr>arBuf := None\<rparr>) Q" and "b \<noteq> []"
  shows "\<exists>r'. take_buf k b r = (Ok (take k b), r') \<and> pending a r' (drop k b @ Q)"
  using assms by (auto simp: take_buf_def pending_def)

lemma Reader_Read_pending:
  assumes "aead_laws a" and "pending a r P" and "0 < k"
  shows "if P = [] then fst (Reader_Read a k r) = Fail IoEOF
    else \<exists>x P' r'. Reader_Read a k r = (Ok x, r') \<and> x \<noteq> [] \<and> P = x @ P' \<and> pending a r' P'"
proof (cases "arBuf r")
  case (Some b)
  then have b: "b \<noteq> []" and q: "\<exists>Q. pending a (r\<lparr>arBuf := None\<rparr>) Q \<and> P = b @ Q" using assms(2) by (auto simp: pending_def)
  then obtain Q where Q: "pending a (r\<lparr>arBuf := None\<rparr>) Q" "P = b @ Q" by blast
  from pending_take_buf [OF Q(1) b, of k] obtain r' where "take_buf k b r = (Ok (take k b), r')" "pending a r' (drop k b @ Q)"
    by blast
  with Q(2) b assms(3) Some show ?thesis
    by (auto simp: Reader_Read_def intro!: exI [of _ "take k b"] exI [of _ "drop k b @ Q"])
next
  case None
  obtain n i ws where r: "r = \<lparr>arNonce = n, arBuf = None, arConn = \<lparr>scIn = i, scOut = ws\<rparr>\<rparr>"
    using None by (metis areader.cases areader.select_convs(2) sconn.cases)
  with assms(2) obtain ps where ps: "\<forall>p \<in> set ps. wf_chunk p" "i = seal_chunks a n ps" "P = concat ps" "length n = aNonceSize a"
    by (auto simp: pending_def)
  show ?thesis
  proof (cases ps)
    case Nil
    then show ?thesis
      using ps by (simp add: r Reader_Read_def Reader_read_def io_bind_def on_conn_def stream_read_def del: io_bind_Ok_iff)
  next
    case (Cons p qs)
    let ?r = "\<lparr>arNonce = increment (increment n), arBuf = None, arConn = \<lparr>scIn = seal_chunks a (increment (increment n)) qs, scOut = ws\<rparr>\<rparr>"
    have p: "wf_chunk p" "p \<noteq> []" using ps(1) Cons by (auto simp: wf_chunk_def)
    have rd: "Reader_read a r = (Ok p, ?r)"
      using Reader_read_chunk [OF assms(1) p(1) ps(4)] Cons ps(2) by (simp add: r)
    have q: "pending a ?r (concat qs)" using ps Cons by (auto simp: pending_def)
    then have q2: "pending a (?r\<lparr>arBuf := None\<rparr>) (concat qs)" by simp
    from pending_take_buf [OF q2 p(2), of k] obtain r' where "take_buf k p ?r = (Ok (take k p), r')" "pending a r' (drop k p @ concat qs)"
      by blast
    with rd q p assms(3) Cons ps(3) show ?thesis
      by (auto simp: Reader_Read_def None io_bind_def simp del: io_bind_Ok_iff intro!: exI [of _ "take k p"] exI [of _ "drop k p @ concat qs"])
  qed
qed

subsection \<open>Whole connections\<close>

definition cpending :: "metaCipher \<Rightarrow> aead \<Rightarrow> cconn \<Rightarrow> bytes \<Rightarrow> bool" where
  "cpending m a c P \<longleftrightarrow>
     (case ccR c of
        Some (a', n, b) \<Rightarrow> a' = a \<and> pending a \<lparr>arNonce = n, arBuf = b, arConn = ccConn c\<rparr> P
      | None \<Rightarrow> \<exists>salt rest. length salt = SaltSize m \<and> Decrypter m salt = Inr a \<and> scIn (ccConn c) = salt @ rest \<and>
          pending a \<lparr>arNonce = zero_nonce a, arBuf = None, arConn = \<lparr>scIn = rest, scOut = scOut (ccConn c)\<rparr>\<rparr> P)"

lemma Conn_Read_started:
  assumes "cpending m a c P"
  shows "\<exists>c'. cpending m a c' P \<and> ccR c' \<noteq> None \<and> Conn_Read m k c = reader_step k c'"
proof (cases "ccR c")
  case None
  with assms obtain salt rest where s: "length salt = SaltSize m" "Decrypter m salt = Inr a" "scIn (ccConn c) = salt @ rest"
    "pending a \<lparr>arNonce = zero_nonce a, arBuf = None, arConn = \<lparr>scIn = rest, scOut = scOut (ccConn c)\<rparr>\<rparr> P"
    by (auto simp: cpending_def)
  let ?c = "c\<lparr>ccConn := (ccConn c)\<lparr>scIn := rest\<rparr>, ccR := Some (a, zero_nonce a, None)\<rparr>"
  have "initReader m c = (Ok (), ?c)" using s by (simp add: initReader_def stream_read_def)
  then have "Conn_Read m k c = reader_step k ?c" using None by (simp add: Conn_Read_def io_bind_def del: io_bind_Ok_iff)
  moreover have "cpending m a ?c P" using s(4) by (cases "ccConn c") (simp add: cpending_def)
  ultimately show ?thesis by (intro exI [of _ ?c]) simp
next
  case (Some x)
  then show ?thesis using assms by (intro exI [of _ c]) (simp add: Conn_Read_def io_bind_def del: io_bind_Ok_iff)
qed

lemma Conn_Read_pending:
  assumes "aead_laws a" and "cpending m a c P" and "0 < k"
  shows "if P = [] then fst (Conn_Read m k c) = Fail IoEOF
    else \<exists>x P' c'. Conn_Read m k c = (Ok x, c') \<and> x \<noteq> [] \<and> P = x @ P' \<and> cpending m a c' P'"
proof -
  obtain c1 where c1: "cpending m a c1 P" "ccR c1 \<noteq> None" "Conn_Read m k c = reader_step k c1"
    using Conn_Read_started [OF assms(2)] by blast
  then obtain n b where r: "ccR c1 = Some (a, n, b)" and p: "pending a \<lparr>arNonce = n, arBuf = b, arConn = ccConn c1\<rparr> P"
    by (auto simp: cpending_def)
  have surj: "\<lparr>arNonce = arNonce r, arBuf = arBuf r, arConn = arConn r\<rparr> = (r :: areader)" for r by simp
  from Reader_Read_pending [OF assms(1) p assms(3)] show ?thesis
    by (auto simp: c1(3) reader_step_def r cpending_def surj split: prod.splits if_splits)
qed

interpretation shadow: stream_reader "Conn_Read m" "\<lambda>c P. aead_laws a \<and> cpending m a c P" for m a
  by unfold_locales (use Conn_Read_pending in force)+

text \<open>Copying the connection to a destination delivers the same bytes, and no error.\<close>

lemma Reader_WriteTo_all:
  assumes "aead_laws a"
  shows "pending a (r\<lparr>arBuf := (if b = [] then None else Some b)\<rparr>) P \<Longrightarrow> arBuf r = Some b \<or> b = [] \<and> arBuf r = None \<Longrightarrow>
    \<exists>r' out'. Reader_WriteTo (\<lambda>_. None) a r out = (length P, None, r', out') \<and> concat out' = concat out @ P"
proof (induction "length (scIn (arConn r))" arbitrary: r b P out rule: less_induct)
  case less
  from less.prems obtain ps where ps: "\<forall>p \<in> set ps. wf_chunk p" "scIn (arConn r) = seal_chunks a (arNonce r) ps"
    "P = b @ concat ps" "length (arNonce r) = aNonceSize a" by (auto simp: pending_def split: if_splits)
  have b: "(case arBuf r of None \<Rightarrow> [] | Some b \<Rightarrow> b) = b" using less.prems(2) by auto
  let ?r1 = "r\<lparr>arBuf := Some []\<rparr>" and ?out = "if b = [] then out else out @ [b]"
  have out: "concat ?out = concat out @ b" by simp
  show ?case
  proof (cases ps)
    case Nil
    then have "\<exists>r2. Reader_read a ?r1 = (Fail IoEOF, r2)"
      using ps(2) by (simp add: Reader_read_def io_bind_def on_conn_def stream_read_def del: io_bind_Ok_iff)
    with ps(3) Nil out show ?thesis by (subst Reader_WriteTo.simps) (auto simp: b Let_def)
  next
    case (Cons p qs)
    let ?n2 = "increment (increment (arNonce r))"
    let ?r2 = "\<lparr>arNonce = ?n2, arBuf = Some [], arConn = \<lparr>scIn = seal_chunks a ?n2 qs, scOut = scOut (arConn r)\<rparr>\<rparr>"
    have p: "wf_chunk p" "p \<noteq> []" using ps(1) Cons by (auto simp: wf_chunk_def)
    have r1: "?r1 = \<lparr>arNonce = arNonce r, arBuf = Some [], arConn = \<lparr>scIn = seal_chunk a (arNonce r) p @ seal_chunks a ?n2 qs,
        scOut = scOut (arConn r)\<rparr>\<rparr>" using ps(2) Cons by simp
    have rd: "Reader_read a ?r1 = (Ok p, ?r2)" unfolding r1 by (rule Reader_read_chunk [OF assms p(1) ps(4)])
    have "pending a (?r2\<lparr>arBuf := Some p\<rparr>) (p @ concat qs)" using ps Cons p(2) by (auto simp: pending_def)
    then have "pending a ((?r2\<lparr>arBuf := Some p\<rparr>)\<lparr>arBuf := (if p = [] then None else Some p)\<rparr>) (p @ concat qs)"
      using p(2) by simp
    from less.hyps [OF _ this, of ?out] Reader_read_shrinks [OF rd] obtain r' out' where
      "Reader_WriteTo (\<lambda>_. None) a (?r2\<lparr>arBuf := Some p\<rparr>) ?out = (length (p @ concat qs), None, r', out')"
      "concat out' = concat ?out @ p @ concat qs" by auto
    with rd ps(3) Cons out show ?thesis by (subst Reader_WriteTo.simps) (simp add: b Let_def)
  qed
qed

text \<open>What the writing side has put on the wire.\<close>

definition cwritten :: "metaCipher \<Rightarrow> bytes \<Rightarrow> aead \<Rightarrow> cconn \<Rightarrow> bytes \<Rightarrow> bool" where
  "cwritten m salt a c P \<longleftrightarrow>
     (\<exists>ps. (\<forall>p \<in> set ps. wf_chunk p) \<and> concat ps = P \<and>
        (case ccW c of
           None \<Rightarrow> ps = [] \<and> concat (scOut (ccConn c)) = []
         | Some (a', n) \<Rightarrow> a' = a \<and> n = after ps (zero_nonce a) \<and>
             concat (scOut (ccConn c)) = salt @ seal_chunks a (zero_nonce a) ps))"

lemma writer_step_written:
  assumes "ccW c = Some (a, n)" and "cwritten m salt a c P" and "b \<noteq> []"
  shows "\<exists>c'. writer_step (\<lambda>_. None) b c = (Ok (length b), c') \<and> cwritten m salt a c' (P @ b) \<and> ccW c' \<noteq> None"
proof -
  from assms obtain ps where ps: "\<forall>p \<in> set ps. wf_chunk p" "concat ps = P" "n = after ps (zero_nonce a)"
    "concat (scOut (ccConn c)) = salt @ seal_chunks a (zero_nonce a) ps" by (auto simp: cwritten_def)
  obtain qs net where q: "write_loop (\<lambda>_. None) a 0 b n (ccConn c) = (length b, None, after qs n, net)" "concat qs = b"
    "\<forall>x \<in> set qs. wf_chunk x" "concat (scOut net) = concat (scOut (ccConn c)) @ seal_chunks a n qs"
    using write_loop_ok [of a 0 b n "ccConn c"] by auto
  let ?c = "c\<lparr>ccConn := net, ccW := Some (a, after qs n)\<rparr>"
  have "writer_step (\<lambda>_. None) b c = (Ok (length b), ?c)"
    using assms(1,3) q(1) by (simp add: writer_step_def Writer_Write_def)
  moreover have "cwritten m salt a ?c (P @ b)"
    unfolding cwritten_def using ps q by (intro exI [of _ "ps @ qs"]) (auto simp: seal_chunks_append)
  ultimately show ?thesis by (intro exI [of _ ?c]) simp
qed

lemma Conn_Write_written:
  assumes "Encrypter m salt = Inr a" and "cwritten m salt a c P" and "b \<noteq> []"
  shows "\<exists>c'. Conn_Write m (\<lambda>_. None) salt b c = (Ok (length b), c') \<and> cwritten m salt a c' (P @ b) \<and> ccW c' \<noteq> None"
proof (cases "ccW c")
  case None
  let ?c = "c\<lparr>ccConn := (ccConn c)\<lparr>scOut := scOut (ccConn c) @ [salt]\<rparr>, ccW := Some (a, zero_nonce a)\<rparr>"
  have i: "initWriter m (\<lambda>_. None) salt c = (Ok (), ?c)" using assms(1) by (simp add: initWriter_def stream_write_def)
  have "cwritten m salt a ?c P" unfolding cwritten_def
    using None assms(2) by (intro exI [of _ "[]"]) (auto simp: cwritten_def concat_eq_Nil_conv [THEN iffD2])
  from writer_step_written [OF _ this assms(3), of "zero_nonce a"] show ?thesis
    using None i by (simp add: Conn_Write_def io_bind_def del: io_bind_Ok_iff)
next
  case (Some x)
  then obtain n where "ccW c = Some (a, n)" using assms(2) by (cases x) (auto simp: cwritten_def)
  from writer_step_written [OF this assms(2,3)] show ?thesis
    using Some by (simp add: Conn_Write_def io_bind_def del: io_bind_Ok_iff)
qed

definition Conn_writes :: "metaCipher \<Rightarrow> bytes \<Rightarrow> bytes list \<Rightarrow> (cconn, unit) io" where
  "Conn_writes m salt = io_each (\<lambda>b. io_bind (Conn_Write m (\<lambda>_. None) salt b) (\<lambda>_. io_return ()))"

lemma Conn_writes_written:
  assumes "Encrypter m salt = Inr a" and "cwritten m salt a c P" and "\<forall>b \<in> set bs. b \<noteq> []"
  shows "\<exists>c'. Conn_writes m salt bs c = (Ok (), c') \<and> cwritten m salt a c' (P @ concat bs) \<and> (bs \<noteq> [] \<longrightarrow> ccW c' \<noteq> None)"
  using assms(2,3)
proof (induction bs arbitrary: c P)
  case Nil
  then show ?case by (simp add: Conn_writes_def io_return_def)
next
  case (Cons b bs)
  from Conn_Write_written [OF assms(1) Cons.prems(1), of b] Cons.prems(2) obtain c1 where
    w: "Conn_Write m (\<lambda>_. None) salt b c = (Ok (length b), c1)" "cwritten m salt a c1 (P @ b)" "ccW c1 \<noteq> None" by auto
  from Cons.IH [OF w(2)] Cons.prems(2) obtain c' where
    r: "Conn_writes m salt bs c1 = (Ok (), c')" "cwritten m salt a c' ((P @ b) @ concat bs)" "bs \<noteq> [] \<longrightarrow> ccW c' \<noteq> None" by auto
  have "Conn_writes m salt (b # bs) c = Conn_writes m salt bs c1"
    using w(1) by (simp add: Conn_writes_def io_bind_def io_return_def del: io_bind_Ok_iff)
  with r w(3) show ?case by (cases bs) (auto simp: Conn_writes_def io_return_def)
qed

text \<open>
  C31: an encrypted connection carries its byte stream unchanged. Whatever non-empty pieces are
  written, the writes succeed; and a reader with the same key that is given what was sent gets, by
  reads of any positive sizes, exactly the bytes written, in order and complete, and then the end
  of the stream.
\<close>

theorem shadow_stream:
  assumes "Encrypter m salt = Inr a" and "aead_laws a" and "length salt = SaltSize m"
    and "bs \<noteq> []" and "\<forall>b \<in> set bs. b \<noteq> []" and "\<forall>k \<in> set ks. 0 < k" and "length (concat bs) < length ks"
  shows "\<exists>w. Conn_writes m salt bs (NewConn \<lparr>scIn = [], scOut = []\<rparr>) = (Ok (), w) \<and>
    (\<exists>j xs c. j < length ks \<and>
       reads (Conn_Read m) (take j ks) (NewConn \<lparr>scIn = concat (scOut (ccConn w)), scOut = []\<rparr>) = (Ok xs, c) \<and>
       concat xs = concat bs \<and> fst (Conn_Read m (ks ! j) c) = Fail IoEOF)"
proof -
  have "cwritten m salt a (NewConn \<lparr>scIn = [], scOut = []\<rparr>) []" by (simp add: cwritten_def NewConn_def)
  from Conn_writes_written [OF assms(1) this assms(5)] assms(4) obtain w where
    w: "Conn_writes m salt bs (NewConn \<lparr>scIn = [], scOut = []\<rparr>) = (Ok (), w)" "cwritten m salt a w (concat bs)" "ccW w \<noteq> None"
    by auto
  then obtain ps where ps: "\<forall>p \<in> set ps. wf_chunk p" "concat ps = concat bs"
    "concat (scOut (ccConn w)) = salt @ seal_chunks a (zero_nonce a) ps" by (auto simp: cwritten_def)
  have "Decrypter m salt = Inr a" using assms(1) by (simp add: Encrypter_def Decrypter_def)
  then have "cpending m a (NewConn \<lparr>scIn = concat (scOut (ccConn w)), scOut = []\<rparr>) (concat bs)"
    unfolding cpending_def NewConn_def using ps assms(3)
    by (simp, intro exI [of _ salt] exI [of _ "seal_chunks a (zero_nonce a) ps"]) (auto simp: pending_def zero_nonce_def)
  from shadow.reads_pending [OF conjI [OF assms(2) this] assms(6,7)] w(1) show ?thesis by blast
qed

section \<open>Nonces are not repeated\<close>

text \<open>
  A nonce comes back only after the whole counter has wrapped. The nonces of a connection,
  which start at zero and are incremented once for every sealed block, are equal exactly when
  their positions agree modulo the size of the nonce space, so no nonce is used twice for fewer
  than that many blocks.
\<close>

theorem nonces_repeat_iff:
  "(increment ^^ i) (zero_nonce a) = (increment ^^ j) (zero_nonce a) \<longleftrightarrow>
   i mod 256 ^ aNonceSize a = j mod 256 ^ aNonceSize a"
proof -
  have inj: "n = n'" if "le_val n = le_val n'" "length n = length n'" for n n'
    using that(2,1)
  proof (induction n n' rule: list_induct2)
    case (Cons x xs y ys)
    have m: "(uint z + 256 * v) mod 256 = uint z" for z :: byte and v
      using uint_lt2p [of z] by simp
    have "uint x + 256 * le_val xs = uint y + 256 * le_val ys" using Cons.prems by simp
    with m [of x "le_val xs"] m [of y "le_val ys"] have "uint x = uint y" by metis
    with Cons show ?case by (auto intro: word_uint_eqI)
  qed simp
  have z: "le_val (replicate n 0) = 0" for n by (induction n) simp_all
  have "le_val ((increment ^^ k) (zero_nonce a)) = int (k mod 256 ^ aNonceSize a)" for k
    by (simp add: le_val_funpow zero_nonce_def z of_nat_mod)
  with inj [of "(increment ^^ i) (zero_nonce a)" "(increment ^^ j) (zero_nonce a)"] show ?thesis
    by (metis length_funpow_increment of_nat_eq_iff)
qed

section \<open>The end of a copied stream\<close>

fun Reader_reads :: "aead \<Rightarrow> nat \<Rightarrow> (areader, bytes list) io" where
  "Reader_reads a 0 = io_return []"
| "Reader_reads a (Suc k) = io_bind (Reader_read a) (\<lambda>x. io_bind (Reader_reads a k) (\<lambda>xs. io_return (x # xs)))"

lemma Writer_ReadFrom_wire:
  "\<exists>c'. Writer_ReadFrom (\<lambda>_. None) a ps IoEOF nonce c = (length (concat ps), None, after (ps @ [[]]) nonce, c') \<and>
     concat (scOut c') = concat (scOut c) @ seal_chunks a nonce ps @ seal_chunk a (after ps nonce) []"
proof (induction ps arbitrary: nonce c)
  case Nil
  then show ?case by (simp add: stream_write_def)
next
  case (Cons p ps)
  let ?c = "c\<lparr>scOut := scOut c @ [seal_chunk a nonce p]\<rparr>"
  from Cons [of "increment (increment nonce)" ?c] show ?case by (auto simp: stream_write_def)
qed

lemma Reader_reads_chunks:
  assumes "aead_laws a" and "\<forall>p \<in> set ps. wf_chunk p" and "length n = aNonceSize a"
  shows "Reader_reads a (length ps) \<lparr>arNonce = n, arBuf = b, arConn = \<lparr>scIn = seal_chunks a n ps @ rest, scOut = ws\<rparr>\<rparr> =
    (Ok ps, \<lparr>arNonce = after ps n, arBuf = b, arConn = \<lparr>scIn = rest, scOut = ws\<rparr>\<rparr>)"
  using assms(2,3)
proof (induction ps arbitrary: n)
  case Nil
  then show ?case by (simp add: io_return_def)
next
  case (Cons p ps)
  then show ?case
    using Reader_read_chunk [OF assms(1), of p n b "seal_chunks a (increment (increment n)) ps @ rest" ws]
    by (simp add: io_bind_def io_return_def del: io_bind_Ok_iff)
qed

lemma Reader_read_zero_chunk:
  assumes "aead_laws a" and "length n = aNonceSize a"
  shows "fst (Reader_read a \<lparr>arNonce = n, arBuf = b, arConn = \<lparr>scIn = seal_chunk a n [] @ rest, scOut = ws\<rparr>\<rparr>) = Fail ErrZeroChunk"
proof -
  have z: "put_uint16 (int (length ([] :: bytes))) = [0, 0]" by (simp add: put_uint16_def)
  have o: "aOpen a n (aSeal a n [0, 0]) = Inr [0, 0]" "length (aSeal a n [0, 0]) = 2 + aOverhead a"
    using assms by (simp_all add: aead_laws_def)
  show ?thesis
    unfolding Reader_read_def seal_chunk_def z
    by (simp add: io_bind_def on_conn_def stream_read_def o next_nonce_def io_sum2_def io_return_def be16_val_def io_fail_def Let_def
        del: io_bind_Ok_iff)
qed

text \<open>
  Copying a reader into the encrypted stream does not end it cleanly. All the data arrive, chunk
  by chunk, but the end of the input is sent as one more chunk, of size zero, and the reading
  side reports an error for it instead of the end of the stream.
\<close>

theorem ReadFrom_ends_in_zero_chunk:
  assumes "aead_laws a" and "\<forall>p \<in> set ps. wf_chunk p"
  shows "\<exists>c nonce. Writer_ReadFrom (\<lambda>_. None) a ps IoEOF (zero_nonce a) \<lparr>scIn = [], scOut = []\<rparr> = (length (concat ps), None, nonce, c) \<and>
    (\<exists>r. Reader_reads a (length ps)
        \<lparr>arNonce = zero_nonce a, arBuf = None, arConn = \<lparr>scIn = concat (scOut c), scOut = []\<rparr>\<rparr> = (Ok ps, r) \<and>
      fst (Reader_read a r) = Fail ErrZeroChunk)"
proof -
  obtain c where c: "Writer_ReadFrom (\<lambda>_. None) a ps IoEOF (zero_nonce a) \<lparr>scIn = [], scOut = []\<rparr> =
      (length (concat ps), None, after (ps @ [[]]) (zero_nonce a), c)"
    "concat (scOut c) = seal_chunks a (zero_nonce a) ps @ seal_chunk a (after ps (zero_nonce a)) []"
    using Writer_ReadFrom_wire [of a ps "zero_nonce a" "\<lparr>scIn = [], scOut = []\<rparr>"] by auto
  have l: "length (zero_nonce a) = aNonceSize a" by (simp add: zero_nonce_def)
  let ?r = "\<lparr>arNonce = after ps (zero_nonce a), arBuf = None,
    arConn = \<lparr>scIn = seal_chunk a (after ps (zero_nonce a)) [], scOut = []\<rparr>\<rparr>"
  have "Reader_reads a (length ps) \<lparr>arNonce = zero_nonce a, arBuf = None, arConn = \<lparr>scIn = concat (scOut c), scOut = []\<rparr>\<rparr> = (Ok ps, ?r)"
    unfolding c(2) by (rule Reader_reads_chunks [OF assms l])
  moreover have "fst (Reader_read a ?r) = Fail ErrZeroChunk"
    using Reader_read_zero_chunk [OF assms(1), of "after ps (zero_nonce a)" None "[]" "[]"] l by simp
  ultimately show ?thesis using c(1) by blast
qed

section \<open>Concrete runs\<close>

text \<open>A scheme with the laws: a tag byte that is the length of the nonce.\<close>

definition aead_example :: aead where
  "aead_example = \<lparr>aSeal = (\<lambda>n p. p @ [of_nat (length n)]), aOpen = (\<lambda>n c. if c = [] then Inl IoEOF else Inr (butlast c)),
     aNonceSize = 12, aOverhead = 1\<rparr>"

lemma aead_example_laws: "aead_laws aead_example"
  by (simp add: aead_laws_def aead_example_def)

definition cipher_example :: metaCipher where
  "cipher_example = \<lparr>psk = replicate 16 1, mcHKDF = (\<lambda>s _ _ n. take n s), makeAEAD = (\<lambda>_. Inr aead_example)\<rparr>"

theorem shadow_stream_witness:
  "\<exists>w. Conn_writes cipher_example (replicate 16 7) [[1], [2, 3]] (NewConn \<lparr>scIn = [], scOut = []\<rparr>) = (Ok (), w) \<and>
    (\<exists>j xs c. reads (Conn_Read cipher_example) (take j [2, 2, 2, 2]) (NewConn \<lparr>scIn = concat (scOut (ccConn w)), scOut = []\<rparr>) = (Ok xs, c) \<and>
       concat xs = [1, 2, 3])"
proof -
  have e: "Encrypter cipher_example (replicate 16 7) = Inr aead_example" by (simp add: Encrypter_def cipher_example_def)
  have l: "length (replicate 16 (7 :: byte)) = SaltSize cipher_example" by (simp add: SaltSize_def KeySize_def cipher_example_def)
  from shadow_stream [OF e aead_example_laws l, of "[[1], [2, 3]]" "[2, 2, 2, 2]"] obtain w j xs c where
    "Conn_writes cipher_example (replicate 16 7) [[1], [2, 3]] (NewConn \<lparr>scIn = [], scOut = []\<rparr>) = (Ok (), w)"
    "reads (Conn_Read cipher_example) (take j [2, 2, 2, 2]) (NewConn \<lparr>scIn = concat (scOut (ccConn w)), scOut = []\<rparr>) = (Ok xs, c)"
    "concat xs = [1, 2, 3]" by auto
  then show ?thesis by blast
qed

theorem ReadFrom_ends_in_zero_chunk_witness:
  "\<exists>c nonce r. Writer_ReadFrom (\<lambda>_. None) aead_example [[1, 2]] IoEOF (zero_nonce aead_example) \<lparr>scIn = [], scOut = []\<rparr> = (2, None, nonce, c) \<and>
    fst (Reader_read aead_example r) = Fail ErrZeroChunk"
  using ReadFrom_ends_in_zero_chunk [OF aead_example_laws, of "[[1, 2]]"] by (auto simp: wf_chunk_def payloadSizeMask_def)

end
