(* ===== verification/ShadowStream.thy ===== *)
theory ShadowStream
  imports Duplex
begin

text \<open>
  Shadowsocks with a stream cipher, \<^verbatim>\<open>transport/shadowsocks/shadowstream\<close>: the encrypted stream, its
  connection, and the packet format. A \<^verbatim>\<open>cipher.Stream\<close> is the function from everything it has been given
  to everything it has returned; what is used of it is what \<^verbatim>\<open>crypto/cipher\<close> documents: the output is
  as long as the input, several calls behave like one on the concatenation, and the decrypting
  stream undoes the encrypting one. Shown here: what is written in any pieces is read back by reads
  of any sizes, however the network cuts it, and a packet comes back as it was.
\<close>

section \<open>Ciphers\<close>

record scipher =
  IVSize :: nat
  sEncrypter :: "bytes \<Rightarrow> bytes \<Rightarrow> bytes"     \<comment> \<open>by the initialisation vector\<close>
  sDecrypter :: "bytes \<Rightarrow> bytes \<Rightarrow> bytes"

definition stream_laws :: "(bytes \<Rightarrow> bytes) \<Rightarrow> bool" where
  "stream_laws f \<longleftrightarrow> (\<forall>x. length (f x) = length x) \<and> (\<forall>x y. take (length x) (f (x @ y)) = f x)"

definition scipher_laws :: "scipher \<Rightarrow> bool" where
  "scipher_laws m \<longleftrightarrow> (\<forall>iv. length iv = IVSize m \<longrightarrow> stream_laws (sEncrypter m iv) \<and> stream_laws (sDecrypter m iv) \<and>
     (\<forall>x. sDecrypter m iv (sEncrypter m iv x) = x))"

text \<open>A call on the next bytes, after \<open>h\<close> has been processed.\<close>

definition XORKeyStream :: "(bytes \<Rightarrow> bytes) \<Rightarrow> bytes \<Rightarrow> bytes \<Rightarrow> bytes" where
  "XORKeyStream f h p = drop (length h) (f (h @ p))"

lemma XORKeyStream_append:
  assumes "stream_laws f"
  shows "f h @ XORKeyStream f h p = f (h @ p)"
  using assms unfolding XORKeyStream_def stream_laws_def by (metis append_take_drop_id)

lemma length_XORKeyStream: "stream_laws f \<Longrightarrow> length (XORKeyStream f h p) = length p"
  by (simp add: XORKeyStream_def stream_laws_def)

section \<open>The stream\<close>

definition bufSize :: nat where "bufSize = 2048"

text \<open>The loop of \<^verbatim>\<open>Writer.Write\<close>: the count, the error, what the cipher has processed, and the stream.\<close>

function sWriter_Write ::
  "(nat \<Rightarrow> go_error option) \<Rightarrow> (bytes \<Rightarrow> bytes) \<Rightarrow> bytes \<Rightarrow> bytes \<Rightarrow> sconn \<Rightarrow> nat \<times> go_error option \<times> bytes \<times> sconn" where
  "sWriter_Write wr f p h c =
     (if p = [] then (0, None, h, c)
      else
        let q = take bufSize p in
        case stream_write wr (XORKeyStream f h q) c of
          (Ok _, c') \<Rightarrow>
            (case sWriter_Write wr f (drop bufSize p) (h @ q) c' of (n, r) \<Rightarrow> (length q + n, r))
        | (Fail e, c') \<Rightarrow> (0, Some e, h @ q, c')
        | (Panic, c') \<Rightarrow> (0, None, h @ q, c'))"
  by pat_completeness auto
termination
  by (relation "measure (\<lambda>(wr, f, p, h, c). length p)") (auto simp: bufSize_def)

declare sWriter_Write.simps [simp del]

text \<open>
  \<^verbatim>\<open>Writer.ReadFrom\<close> on a reader that gives these pieces (at most the buffer's size each) and then the
  error; the last, empty read is written too.
\<close>

fun sWriter_ReadFrom ::
  "(nat \<Rightarrow> go_error option) \<Rightarrow> (bytes \<Rightarrow> bytes) \<Rightarrow> bytes list \<Rightarrow> go_error \<Rightarrow> bytes \<Rightarrow> sconn \<Rightarrow> nat \<times> go_error option \<times> bytes \<times> sconn" where
  "sWriter_ReadFrom wr f [] er h c =
     (case stream_write wr (XORKeyStream f h []) c of
        (Fail e, c') \<Rightarrow> (0, Some e, h, c')
      | (_, c') \<Rightarrow> (0, if er \<noteq> IoEOF then Some er else None, h, c'))"
| "sWriter_ReadFrom wr f (p # ps) er h c =
     (case stream_write wr (XORKeyStream f h p) c of
        (Fail e, c') \<Rightarrow> (length p, Some e, h @ p, c')
      | (_, c') \<Rightarrow>
          (case sWriter_ReadFrom wr f ps er (h @ p) c' of (n, r) \<Rightarrow> (length p + n, r)))"

text \<open>The reader's state: what its cipher has processed, and the connection.\<close>

definition sReader_Read :: "(nat \<Rightarrow> nat) \<Rightarrow> (bytes \<Rightarrow> bytes) \<Rightarrow> nat \<Rightarrow> bytes \<times> sconn \<Rightarrow> bytes outcome \<times> bytes \<times> sconn" where
  "sReader_Read got f k s =
     (case s of (h, c) \<Rightarrow>
       case stream_recv got k c of
         (Ok x, c') \<Rightarrow> (Ok (XORKeyStream f h x), h @ x, c')
       | (Fail e, c') \<Rightarrow> (Fail e, h, c')
       | (Panic, c') \<Rightarrow> (Panic, h, c'))"

lemma stream_recv_shrinks: "stream_recv got k c = (Ok x, c') \<Longrightarrow> 0 < k \<Longrightarrow> length (scIn c') < length (scIn c)"
  by (auto simp: stream_recv_def Let_def split: if_splits)

text \<open>
  \<^verbatim>\<open>Reader.WriteTo\<close>: \<open>wr n\<close> is the failure of the n-th write to the destination, with the number of bytes it
  took. The destination is the list of the writes it took.
\<close>

function sReader_WriteTo ::
  "(nat \<Rightarrow> nat) \<Rightarrow> (nat \<Rightarrow> (nat \<times> go_error) option) \<Rightarrow> (bytes \<Rightarrow> bytes) \<Rightarrow> bytes \<Rightarrow> sconn \<Rightarrow> bytes list
    \<Rightarrow> nat \<times> go_error option \<times> bytes \<times> sconn \<times> bytes list" where
  "sReader_WriteTo got wr f h c out =
     (case stream_recv got bufSize c of
        (Ok x, c') \<Rightarrow>
          let y = XORKeyStream f h x in
          (case wr (length out) of
             Some (k, ew) \<Rightarrow> (min k (length y), Some ew, h @ x, c', out @ [take k y])
           | None \<Rightarrow>
               (case sReader_WriteTo got wr f (h @ x) c' (out @ [y]) of (n, r) \<Rightarrow> (length y + n, r)))
      | (Fail er, c') \<Rightarrow> (0, if er \<noteq> IoEOF then Some er else None, h, c', out)
      | (Panic, c') \<Rightarrow> (0, None, h, c', out))"
  by pat_completeness auto
termination
  by (relation "measure (\<lambda>(got, wr, f, h, c, out). length (scIn c))")
    (auto dest!: stream_recv_shrinks [OF sym] simp: bufSize_def)

declare sReader_WriteTo.simps [simp del]

section \<open>Connections\<close>

text \<open>A direction keeps its initialisation vector and what its cipher has processed.\<close>

record ssconn =
  ssConn :: sconn
  ssR :: "(bytes \<times> bytes) option"
  ssW :: "(bytes \<times> bytes) option"
  readIV :: bytes
  writeIV :: bytes

definition sNewConn :: "sconn \<Rightarrow> ssconn" where
  "sNewConn c = \<lparr>ssConn = c, ssR = None, ssW = None, readIV = [], writeIV = []\<rparr>"

text \<open>\<open>iv\<close>: the random bytes drawn, if any are.\<close>

definition ObtainWriteIV :: "scipher \<Rightarrow> bytes \<Rightarrow> (ssconn, bytes) io" where
  "ObtainWriteIV m iv c =
     (if length (writeIV c) = IVSize m then (Ok (writeIV c), c) else (Ok iv, c\<lparr>writeIV := iv\<rparr>))"

definition ObtainReadIV :: "scipher \<Rightarrow> (ssconn, bytes) io" where
  "ObtainReadIV m c =
     (if length (readIV c) = IVSize m then (Ok (readIV c), c)
      else case stream_read (IVSize m) (ssConn c) of
        (Ok iv, n) \<Rightarrow> (Ok iv, c\<lparr>ssConn := n, readIV := iv\<rparr>)
      | (Fail e, n) \<Rightarrow> (Fail e, c\<lparr>ssConn := n\<rparr>)
      | (Panic, n) \<Rightarrow> (Panic, c\<lparr>ssConn := n\<rparr>))"

definition sinitReader :: "scipher \<Rightarrow> (ssconn, unit) io" where
  "sinitReader m c =
     (if ssR c \<noteq> None then (Ok (), c)
      else io_bind (ObtainReadIV m) (\<lambda>iv c. (Ok (), c\<lparr>ssR := Some (iv, [])\<rparr>)) c)"

definition sinitWriter :: "scipher \<Rightarrow> (nat \<Rightarrow> go_error option) \<Rightarrow> bytes \<Rightarrow> (ssconn, unit) io" where
  "sinitWriter m wr iv c =
     (if ssW c \<noteq> None then (Ok (), c)
      else io_bind (ObtainWriteIV m iv) (\<lambda>iv c.
        case stream_write wr iv (ssConn c) of
          (Ok _, n) \<Rightarrow> (Ok (), c\<lparr>ssConn := n, ssW := Some (iv, [])\<rparr>)
        | (Fail e, n) \<Rightarrow> (Fail e, c\<lparr>ssConn := n\<rparr>)
        | (Panic, n) \<Rightarrow> (Panic, c\<lparr>ssConn := n\<rparr>)) c)"

definition sConn_Read :: "scipher \<Rightarrow> (nat \<Rightarrow> nat) \<Rightarrow> nat \<Rightarrow> (ssconn, bytes) io" where
  "sConn_Read m got k =
     io_bind (sinitReader m) (\<lambda>_ c.
       case ssR c of
         None \<Rightarrow> (Panic, c)
       | Some (iv, h) \<Rightarrow>
           (case sReader_Read got (sDecrypter m iv) k (h, ssConn c) of
              (x, h', n) \<Rightarrow> (x, c\<lparr>ssConn := n, ssR := Some (iv, h')\<rparr>)))"

definition sConn_WriteTo ::
  "scipher \<Rightarrow> (nat \<Rightarrow> nat) \<Rightarrow> (nat \<Rightarrow> (nat \<times> go_error) option) \<Rightarrow> ssconn \<Rightarrow> (nat \<times> go_error option) outcome \<times> ssconn \<times> bytes list" where
  "sConn_WriteTo m got wr c =
     (case sinitReader m c of
        (Ok _, c1) \<Rightarrow>
          (case ssR c1 of
             None \<Rightarrow> (Panic, c1, [])
           | Some (iv, h) \<Rightarrow>
               (case sReader_WriteTo got wr (sDecrypter m iv) h (ssConn c1) [] of
                  (n, e, h', net, out) \<Rightarrow> (Ok (n, e), c1\<lparr>ssConn := net, ssR := Some (iv, h')\<rparr>, out)))
      | (Fail e, c1) \<Rightarrow> (Fail e, c1, [])
      | (Panic, c1) \<Rightarrow> (Panic, c1, []))"

text \<open>Running the writer of a connection that has one.\<close>

definition on_writer :: "(bytes \<Rightarrow> bytes \<Rightarrow> sconn \<Rightarrow> nat \<times> go_error option \<times> bytes \<times> sconn) \<Rightarrow> (ssconn, nat) io" where
  "on_writer run c =
     (case ssW c of
        None \<Rightarrow> (Panic, c)
      | Some (iv, h) \<Rightarrow>
          (case run iv h (ssConn c) of
             (n, e, h', net) \<Rightarrow>
               ((case e of None \<Rightarrow> Ok n | Some e \<Rightarrow> Fail e), c\<lparr>ssConn := net, ssW := Some (iv, h')\<rparr>)))"

definition sConn_Write :: "scipher \<Rightarrow> (nat \<Rightarrow> go_error option) \<Rightarrow> bytes \<Rightarrow> bytes \<Rightarrow> (ssconn, nat) io" where
  "sConn_Write m wr iv b =
     io_bind (sinitWriter m wr iv) (\<lambda>_. on_writer (\<lambda>iv h c. sWriter_Write wr (sEncrypter m iv) b h c))"

definition sConn_ReadFrom :: "scipher \<Rightarrow> (nat \<Rightarrow> go_error option) \<Rightarrow> bytes \<Rightarrow> bytes list \<Rightarrow> go_error \<Rightarrow> (ssconn, nat) io" where
  "sConn_ReadFrom m wr iv ps er =
     io_bind (sinitWriter m wr iv) (\<lambda>_. on_writer (\<lambda>iv h c. sWriter_ReadFrom wr (sEncrypter m iv) ps er h c))"

section \<open>Packets\<close>

definition sErrShortPacket :: go_error where "sErrShortPacket = ErrorNew ''short packet''"

definition sPack :: "scipher \<Rightarrow> bytes \<Rightarrow> nat \<Rightarrow> bytes \<Rightarrow> go_error + bytes" where
  "sPack m iv dst plaintext =
     (if dst < IVSize m + length plaintext then Inl IoErrShortBuffer
      else Inr (iv @ XORKeyStream (sEncrypter m iv) [] plaintext))"

definition sUnpack :: "scipher \<Rightarrow> nat \<Rightarrow> bytes \<Rightarrow> go_error + bytes" where
  "sUnpack m dst pkt =
     (if length pkt < IVSize m then Inl sErrShortPacket
      else if dst < length pkt - IVSize m then Inl IoErrShortBuffer
      else Inr (XORKeyStream (sDecrypter m (take (IVSize m) pkt)) [] (drop (IVSize m) pkt)))"

definition smaxPacketSize :: nat where "smaxPacketSize = 64 * 1024"

definition sPacketConn_WriteTo :: "scipher \<Rightarrow> bytes \<Rightarrow> (bytes \<Rightarrow> go_error option) \<Rightarrow> bytes \<Rightarrow> (bytes list, nat) io" where
  "sPacketConn_WriteTo m iv send b sent =
     (case sPack m iv smaxPacketSize b of
        Inl e \<Rightarrow> (Fail e, sent)
      | Inr pkt \<Rightarrow> (case send pkt of None \<Rightarrow> (Ok (length b), sent @ [pkt]) | Some e \<Rightarrow> (Fail e, sent)))"

definition sPacketConn_ReadFrom :: "scipher \<Rightarrow> nat \<Rightarrow> go_error + bytes \<Rightarrow> bytes outcome" where
  "sPacketConn_ReadFrom m k arrived =
     (case arrived of
        Inl e \<Rightarrow> Fail e
      | Inr pkt \<Rightarrow>
          if k < IVSize m then Panic
          else case sUnpack m (k - IVSize m) (take k pkt) of Inl e \<Rightarrow> Fail e | Inr b \<Rightarrow> Ok b)"

section \<open>What is sent is received\<close>

lemma scipher_lawsD:
  assumes "scipher_laws m" and "length iv = IVSize m"
  shows "stream_laws (sEncrypter m iv)" "stream_laws (sDecrypter m iv)" "sDecrypter m iv (sEncrypter m iv x) = x"
  using assms by (simp_all add: scipher_laws_def)

text \<open>Part of a ciphertext is the ciphertext of the part, so it can be decrypted as it comes.\<close>

lemma decrypt_part:
  assumes "scipher_laws m" and "length iv = IVSize m" and "sEncrypter m iv Q = h @ x @ rest"
  shows "XORKeyStream (sDecrypter m iv) h x = take (length x) (drop (length h) Q)"
proof -
  note laws = scipher_lawsD [OF assms(1,2)]
  have "sDecrypter m iv (h @ x) = take (length (h @ x)) (sDecrypter m iv ((h @ x) @ rest))"
    using laws(2) unfolding stream_laws_def by metis
  also have "\<dots> = take (length (h @ x)) Q" using laws(3) [of Q] assms(3) by simp
  finally show ?thesis by (simp add: XORKeyStream_def drop_take)
qed

lemma sWriter_Write_ok:
  assumes "stream_laws f"
  shows "\<exists>c' Z. sWriter_Write (\<lambda>_. None) f p h c = (length p, None, h @ p, c') \<and>
     concat (scOut c') = concat (scOut c) @ Z \<and> f h @ Z = f (h @ p)"
proof (induction "length p" arbitrary: p h c rule: less_induct)
  case less
  show ?case
  proof (cases "p = []")
    case True
    then show ?thesis by (intro exI [of _ c] exI [of _ "[]"]) (simp add: sWriter_Write.simps)
  next
    case False
    let ?q = "take bufSize p" and ?p = "drop bufSize p"
    let ?X = "XORKeyStream f h ?q"
    let ?c = "c\<lparr>scOut := scOut c @ [?X]\<rparr>"
    have "length ?p < length p" using False by (simp add: bufSize_def)
    from less [OF this, of "h @ ?q" ?c] obtain c' Z where
      ih: "sWriter_Write (\<lambda>_. None) f ?p (h @ ?q) ?c = (length ?p, None, (h @ ?q) @ ?p, c')"
      "concat (scOut c') = concat (scOut ?c) @ Z" "f (h @ ?q) @ Z = f ((h @ ?q) @ ?p)" by blast
    have "sWriter_Write (\<lambda>_. None) f p h c = (length p, None, h @ p, c')"
      using False ih(1) by (subst sWriter_Write.simps) (simp add: stream_write_def Let_def)
    moreover have "f h @ ?X @ Z = f (h @ p)"
      using ih(3) XORKeyStream_append [OF assms, of h ?q] by (metis append.assoc append_take_drop_id)
    ultimately show ?thesis using ih(2) by (intro exI [of _ c'] exI [of _ "?X @ Z"]) simp
  qed
qed

text \<open>The plaintext the reading side has still to give.\<close>

definition spending :: "scipher \<Rightarrow> bytes \<Rightarrow> ssconn \<Rightarrow> bytes \<Rightarrow> bool" where
  "spending m iv c P \<longleftrightarrow> length iv = IVSize m \<and>
     (case ssR c of
        Some (iv', h) \<Rightarrow> iv' = iv \<and> (\<exists>Q. sEncrypter m iv Q = h @ scIn (ssConn c) \<and> P = drop (length h) Q)
      | None \<Rightarrow> length (readIV c) \<noteq> IVSize m \<and> scIn (ssConn c) = iv @ sEncrypter m iv P)"

lemma sConn_Read_started:
  assumes "spending m iv c P"
  shows "\<exists>c' h. spending m iv c' P \<and> ssR c' = Some (iv, h) \<and> sinitReader m c = (Ok (), c')"
proof (cases "ssR c")
  case None
  with assms have s: "length (readIV c) \<noteq> IVSize m" "scIn (ssConn c) = iv @ sEncrypter m iv P" "length iv = IVSize m"
    by (simp_all add: spending_def)
  let ?c = "c\<lparr>ssConn := (ssConn c)\<lparr>scIn := sEncrypter m iv P\<rparr>, readIV := iv, ssR := Some (iv, [])\<rparr>"
  have "sinitReader m c = (Ok (), ?c)"
    using None s by (simp add: sinitReader_def ObtainReadIV_def stream_read_def io_bind_def del: io_bind_Ok_iff)
  moreover have "spending m iv ?c P" using s by (simp add: spending_def)
  ultimately show ?thesis by (intro exI [of _ ?c] exI [of _ "[]"]) simp
next
  case (Some x)
  then show ?thesis using assms by (intro exI [of _ c] exI [of _ "snd x"]) (auto simp: spending_def sinitReader_def)
qed

lemma sConn_Read_pending:
  assumes "scipher_laws m" and "spending m iv c P" and "0 < k"
  shows "if P = [] then fst (sConn_Read m got k c) = Fail IoEOF
    else \<exists>x P' c'. sConn_Read m got k c = (Ok x, c') \<and> x \<noteq> [] \<and> P = x @ P' \<and> spending m iv c' P'"
proof -
  obtain c1 h where c1: "spending m iv c1 P" "ssR c1 = Some (iv, h)" "sinitReader m c = (Ok (), c1)"
    using sConn_Read_started [OF assms(2)] by blast
  then obtain Q where Q: "sEncrypter m iv Q = h @ scIn (ssConn c1)" "P = drop (length h) Q" and iv: "length iv = IVSize m"
    by (auto simp: spending_def)
  note laws = scipher_lawsD [OF assms(1) iv]
  have "length (sEncrypter m iv Q) = length Q" using laws(1) by (simp add: stream_laws_def)
  with Q have len: "length P = length (scIn (ssConn c1))" by simp
  show ?thesis
  proof (cases "P = []")
    case True
    with len c1 assms(3) show ?thesis
      by (simp add: sConn_Read_def io_bind_def sReader_Read_def stream_recv_def del: io_bind_Ok_iff)
  next
    case False
    with len have "scIn (ssConn c1) \<noteq> []" by auto
    from stream_recv_Ok [OF this assms(3), of got] obtain x rest where
      x: "stream_recv got k (ssConn c1) = (Ok x, (ssConn c1)\<lparr>scIn := rest\<rparr>)" "x \<noteq> []" "scIn (ssConn c1) = x @ rest" by blast
    let ?y = "XORKeyStream (sDecrypter m iv) h x"
    let ?c = "c1\<lparr>ssConn := (ssConn c1)\<lparr>scIn := rest\<rparr>, ssR := Some (iv, h @ x)\<rparr>"
    have y: "?y = take (length x) P" using decrypt_part [OF assms(1) iv, of Q h x rest] Q x(3) by simp
    have "sConn_Read m got k c = (Ok ?y, ?c)"
      using c1 x(1) by (simp add: sConn_Read_def io_bind_def sReader_Read_def del: io_bind_Ok_iff)
    moreover have "spending m iv ?c (drop (length x) P)"
      using Q x(3) iv by (auto simp: spending_def add.commute intro!: exI [of _ Q])
    moreover have "?y \<noteq> []" using y x(2) False by (cases x; cases P) auto
    moreover have "P = ?y @ drop (length x) P" using y by simp
    ultimately show ?thesis using False by (metis (no_types, lifting))
  qed
qed

interpretation sstream: stream_reader "sConn_Read m got" "\<lambda>c P. scipher_laws m \<and> spending m iv c P" for m got iv
  by unfold_locales (use sConn_Read_pending in force)+

text \<open>What the writing side has put on the wire.\<close>

definition swritten :: "scipher \<Rightarrow> bytes \<Rightarrow> ssconn \<Rightarrow> bytes \<Rightarrow> bool" where
  "swritten m iv c P \<longleftrightarrow>
     (case ssW c of
        None \<Rightarrow> P = [] \<and> concat (scOut (ssConn c)) = [] \<and> length (writeIV c) \<noteq> IVSize m
      | Some (iv', h) \<Rightarrow> iv' = iv \<and> h = P \<and> concat (scOut (ssConn c)) = iv @ sEncrypter m iv P)"

lemma sConn_Write_written:
  assumes "scipher_laws m" and "length iv = IVSize m" and "swritten m iv c P"
  shows "\<exists>c'. sConn_Write m (\<lambda>_. None) iv b c = (Ok (length b), c') \<and> swritten m iv c' (P @ b) \<and> ssW c' \<noteq> None"
proof -
  note laws = scipher_lawsD [OF assms(1,2)]
  have e: "sEncrypter m iv [] = []" using laws(1) unfolding stream_laws_def by (metis length_0_conv)
  have "\<exists>c1. sinitWriter m (\<lambda>_. None) iv c = (Ok (), c1) \<and> swritten m iv c1 P \<and> ssW c1 = Some (iv, P)"
  proof (cases "ssW c")
    case None
    let ?c = "c\<lparr>writeIV := iv, ssConn := (ssConn c)\<lparr>scOut := scOut (ssConn c) @ [iv]\<rparr>, ssW := Some (iv, [])\<rparr>"
    have "sinitWriter m (\<lambda>_. None) iv c = (Ok (), ?c)"
      using None assms(3) by (simp add: sinitWriter_def ObtainWriteIV_def swritten_def stream_write_def io_bind_def del: io_bind_Ok_iff)
    with None assms(3) e show ?thesis by (intro exI [of _ ?c]) (auto simp: swritten_def)
  next
    case (Some x)
    with assms(3) show ?thesis by (intro exI [of _ c]) (auto simp: swritten_def sinitWriter_def)
  qed
  then obtain c1 where c1: "sinitWriter m (\<lambda>_. None) iv c = (Ok (), c1)" "swritten m iv c1 P" "ssW c1 = Some (iv, P)" by blast
  then have out: "concat (scOut (ssConn c1)) = iv @ sEncrypter m iv P" by (simp add: swritten_def)
  obtain n Z where n: "sWriter_Write (\<lambda>_. None) (sEncrypter m iv) b P (ssConn c1) = (length b, None, P @ b, n)"
    "concat (scOut n) = concat (scOut (ssConn c1)) @ Z" "sEncrypter m iv P @ Z = sEncrypter m iv (P @ b)"
    using sWriter_Write_ok [OF laws(1), of b P "ssConn c1"] by blast
  then have "concat (scOut n) = iv @ sEncrypter m iv (P @ b)" using out by simp
  then have "swritten m iv (c1\<lparr>ssConn := n, ssW := Some (iv, P @ b)\<rparr>) (P @ b)" by (simp add: swritten_def)
  with c1 n(1) show ?thesis by (simp add: sConn_Write_def io_bind_def on_writer_def del: io_bind_Ok_iff)
qed

definition sConn_writes :: "scipher \<Rightarrow> bytes \<Rightarrow> bytes list \<Rightarrow> (ssconn, unit) io" where
  "sConn_writes m iv = io_each (\<lambda>b. io_bind (sConn_Write m (\<lambda>_. None) iv b) (\<lambda>_. io_return ()))"

lemma sConn_writes_written:
  assumes "scipher_laws m" and "length iv = IVSize m" and "swritten m iv c P"
  shows "\<exists>c'. sConn_writes m iv bs c = (Ok (), c') \<and> swritten m iv c' (P @ concat bs) \<and> (bs \<noteq> [] \<longrightarrow> ssW c' \<noteq> None)"
  using assms(3)
proof (induction bs arbitrary: c P)
  case Nil
  then show ?case by (simp add: sConn_writes_def io_return_def)
next
  case (Cons b bs)
  from sConn_Write_written [OF assms(1,2) Cons.prems, of b] obtain c1 where
    w: "sConn_Write m (\<lambda>_. None) iv b c = (Ok (length b), c1)" "swritten m iv c1 (P @ b)" "ssW c1 \<noteq> None" by auto
  from Cons.IH [OF w(2)] obtain c' where
    r: "sConn_writes m iv bs c1 = (Ok (), c')" "swritten m iv c' ((P @ b) @ concat bs)" "bs \<noteq> [] \<longrightarrow> ssW c' \<noteq> None" by auto
  have "sConn_writes m iv (b # bs) c = sConn_writes m iv bs c1"
    using w(1) by (simp add: sConn_writes_def io_bind_def io_return_def del: io_bind_Ok_iff)
  with r w(3) show ?case by (cases bs) (auto simp: sConn_writes_def io_return_def)
qed

text \<open>
  A connection under a stream cipher carries its bytes unchanged: what is written in any pieces is read
  back by reads of any positive sizes, whatever the network delivers at a time, and then the
  stream ends.
\<close>

theorem stream_cipher_stream:
  assumes "scipher_laws m" and "length iv = IVSize m" and "0 < IVSize m"
    and "bs \<noteq> []" and "\<forall>k \<in> set ks. 0 < k" and "length (concat bs) < length ks"
  shows "\<exists>w. sConn_writes m iv bs (sNewConn \<lparr>scIn = [], scOut = []\<rparr>) = (Ok (), w) \<and>
    (\<exists>j xs c. j < length ks \<and>
       reads (sConn_Read m got) (take j ks) (sNewConn \<lparr>scIn = concat (scOut (ssConn w)), scOut = []\<rparr>) = (Ok xs, c) \<and>
       concat xs = concat bs \<and> fst (sConn_Read m got (ks ! j) c) = Fail IoEOF)"
proof -
  have "swritten m iv (sNewConn \<lparr>scIn = [], scOut = []\<rparr>) []" using assms(3) by (simp add: swritten_def sNewConn_def)
  from sConn_writes_written [OF assms(1,2) this, of bs] assms(4) obtain w where
    w: "sConn_writes m iv bs (sNewConn \<lparr>scIn = [], scOut = []\<rparr>) = (Ok (), w)" "swritten m iv w (concat bs)" "ssW w \<noteq> None"
    by auto
  then have "concat (scOut (ssConn w)) = iv @ sEncrypter m iv (concat bs)" by (auto simp: swritten_def)
  then have "spending m iv (sNewConn \<lparr>scIn = concat (scOut (ssConn w)), scOut = []\<rparr>) (concat bs)"
    using assms(2,3) by (simp add: spending_def sNewConn_def)
  from sstream.reads_pending [OF conjI [OF assms(1) this] assms(5,6), of got] w(1) show ?thesis by blast
qed

lemma sUnpack_sPack:
  assumes "scipher_laws m" and "length iv = IVSize m" and "sPack m iv dst p = Inr pkt" and "length p \<le> dst2"
  shows "sUnpack m dst2 pkt = Inr p"
proof -
  note laws = scipher_lawsD [OF assms(1,2)]
  have "length (sEncrypter m iv p) = length p" using laws(1) by (simp add: stream_laws_def)
  with assms laws(3) show ?thesis by (auto simp: sPack_def sUnpack_def XORKeyStream_def split: if_splits)
qed

end
