(* ===== verification/ShadowCipher.thy ===== *)
theory ShadowCipher
  imports ShadowAead ShadowStream "HOL-Library.List_Lexorder" "HOL-Library.Char_ord"
begin

text \<open>
  The choice of a Shadowsocks cipher, \<^verbatim>\<open>transport/shadowsocks/core/cipher.go\<close> with the constructors of
  \<^verbatim>\<open>shadowaead/cipher.go\<close> and \<^verbatim>\<open>shadowstream/cipher.go\<close>: the tables of ciphers, the aliases, and the key
  derived from a password. The primitives of \<^verbatim>\<open>crypto\<close> are arguments (record \<open>prims\<close>). Shown here: the
  derived key is the chain of digests of the original Shadowsocks, of exactly the size asked,
  and every cipher of the list is constructed from any password.
\<close>

section \<open>Primitives and constructors\<close>

record prims =
  pMD5 :: "bytes \<Rightarrow> bytes"
  pHKDF :: "bytes \<Rightarrow> bytes \<Rightarrow> bytes \<Rightarrow> nat \<Rightarrow> bytes"
  pGCM :: "bytes \<Rightarrow> go_error + aead"            \<comment> \<open>\<^verbatim>\<open>cipher.NewGCM\<close> of the AES block cipher of the key\<close>
  pPoly1305 :: "bytes \<Rightarrow> go_error + aead"
  pPoly1305X :: "bytes \<Rightarrow> go_error + aead"
  pCTR :: "bytes \<Rightarrow> bytes \<Rightarrow> bytes \<Rightarrow> bytes"    \<comment> \<open>key, vector and text\<close>
  pCFBEnc :: "bytes \<Rightarrow> bytes \<Rightarrow> bytes \<Rightarrow> bytes"
  pCFBDec :: "bytes \<Rightarrow> bytes \<Rightarrow> bytes \<Rightarrow> bytes"
  pChacha20 :: "bytes \<Rightarrow> bytes \<Rightarrow> bytes \<Rightarrow> bytes"
  pRC4 :: "bytes \<Rightarrow> bytes \<Rightarrow> bytes"

definition KeySizeError :: "nat \<Rightarrow> go_error" where
  "KeySizeError n = ErrorNew (''key size error: need '' @ Itoa (int n) @ '' bytes'')"

definition aes_KeySizeError :: "nat \<Rightarrow> go_error" where
  "aes_KeySizeError n = ErrorNew (''crypto/aes: invalid key size '' @ Itoa (int n))"

text \<open>\<^verbatim>\<open>aes.NewCipher\<close> takes keys of three sizes.\<close>

definition aes_NewCipher :: "bytes \<Rightarrow> go_error + bytes" where
  "aes_NewCipher key = (if length key \<in> {16, 24, 32} then Inr key else Inl (aes_KeySizeError (length key)))"

definition aesGCM :: "prims \<Rightarrow> bytes \<Rightarrow> go_error + aead" where
  "aesGCM P key = (case aes_NewCipher key of Inl e \<Rightarrow> Inl e | Inr blk \<Rightarrow> pGCM P blk)"

definition AESGCM :: "prims \<Rightarrow> bytes \<Rightarrow> go_error + metaCipher" where
  "AESGCM P key =
     (if length key \<in> {16, 24, 32} then Inr \<lparr>psk = key, mcHKDF = pHKDF P, makeAEAD = aesGCM P\<rparr>
      else Inl (aes_KeySizeError (length key)))"

definition Chacha20Poly1305 :: "prims \<Rightarrow> bytes \<Rightarrow> go_error + metaCipher" where
  "Chacha20Poly1305 P key =
     (if length key \<noteq> 32 then Inl (KeySizeError 32) else Inr \<lparr>psk = key, mcHKDF = pHKDF P, makeAEAD = pPoly1305 P\<rparr>)"

definition XChacha20Poly1305 :: "prims \<Rightarrow> bytes \<Rightarrow> go_error + metaCipher" where
  "XChacha20Poly1305 P key =
     (if length key \<noteq> 32 then Inl (KeySizeError 32) else Inr \<lparr>psk = key, mcHKDF = pHKDF P, makeAEAD = pPoly1305X P\<rparr>)"

definition AESCTR :: "prims \<Rightarrow> bytes \<Rightarrow> go_error + scipher" where
  "AESCTR P key =
     (case aes_NewCipher key of
        Inl e \<Rightarrow> Inl e
      | Inr blk \<Rightarrow> Inr \<lparr>IVSize = 16, sEncrypter = pCTR P blk, sDecrypter = pCTR P blk\<rparr>)"

definition AESCFB :: "prims \<Rightarrow> bytes \<Rightarrow> go_error + scipher" where
  "AESCFB P key =
     (case aes_NewCipher key of
        Inl e \<Rightarrow> Inl e
      | Inr blk \<Rightarrow> Inr \<lparr>IVSize = 16, sEncrypter = pCFBEnc P blk, sDecrypter = pCFBDec P blk\<rparr>)"

definition Chacha20IETF :: "prims \<Rightarrow> bytes \<Rightarrow> go_error + scipher" where
  "Chacha20IETF P key =
     (if length key \<noteq> 32 then Inl (KeySizeError 32)
      else Inr \<lparr>IVSize = 12, sEncrypter = pChacha20 P key, sDecrypter = pChacha20 P key\<rparr>)"

definition Xchacha20 :: "prims \<Rightarrow> bytes \<Rightarrow> go_error + scipher" where
  "Xchacha20 P key =
     (if length key \<noteq> 32 then Inl (KeySizeError 32)
      else Inr \<lparr>IVSize = 24, sEncrypter = pChacha20 P key, sDecrypter = pChacha20 P key\<rparr>)"

definition RC4MD5 :: "prims \<Rightarrow> bytes \<Rightarrow> go_error + scipher" where
  "RC4MD5 P key =
     (let run = (\<lambda>iv. pRC4 P (pMD5 P (key @ iv))) in Inr \<lparr>IVSize = 16, sEncrypter = run, sDecrypter = run\<rparr>)"

section \<open>The tables\<close>

definition aeadList :: "prims \<Rightarrow> (string \<times> nat \<times> (bytes \<Rightarrow> go_error + metaCipher)) list" where
  "aeadList P = [
     (''AEAD_AES_128_GCM'', 16, AESGCM P), (''AEAD_AES_192_GCM'', 24, AESGCM P), (''AEAD_AES_256_GCM'', 32, AESGCM P),
     (''AEAD_CHACHA20_POLY1305'', 32, Chacha20Poly1305 P), (''AEAD_XCHACHA20_POLY1305'', 32, XChacha20Poly1305 P)]"

definition streamList :: "prims \<Rightarrow> (string \<times> nat \<times> (bytes \<Rightarrow> go_error + scipher)) list" where
  "streamList P = [
     (''RC4-MD5'', 16, RC4MD5 P), (''AES-128-CTR'', 16, AESCTR P), (''AES-192-CTR'', 24, AESCTR P), (''AES-256-CTR'', 32, AESCTR P),
     (''AES-128-CFB'', 16, AESCFB P), (''AES-192-CFB'', 24, AESCFB P), (''AES-256-CFB'', 32, AESCFB P),
     (''CHACHA20-IETF'', 32, Chacha20IETF P), (''XCHACHA20'', 32, Xchacha20 P)]"

definition ListCipher :: "prims \<Rightarrow> string list" where
  "ListCipher P = sort (map fst (aeadList P) @ map fst (streamList P))"

section \<open>Keys\<close>

text \<open>The loop of \<^verbatim>\<open>Kdf\<close>; \<^const>\<open>None\<close>: it does not end.\<close>

partial_function (option) kdf_loop :: "prims \<Rightarrow> bytes \<Rightarrow> nat \<Rightarrow> bytes \<Rightarrow> bytes \<Rightarrow> bytes option" where
  "kdf_loop P password keyLen b prev =
     (if length b < keyLen
      then let b' = b @ pMD5 P (prev @ password) in kdf_loop P password keyLen b' (drop (length b' - 16) b')
      else Some (take keyLen b))"

definition Kdf :: "prims \<Rightarrow> string \<Rightarrow> nat \<Rightarrow> bytes option" where
  "Kdf P password keyLen = kdf_loop P (bytes_of_string password) keyLen [] []"

section \<open>The choice\<close>

definition upper :: "char \<Rightarrow> char" where
  "upper ch = (let n = of_char ch :: nat in if 97 \<le> n \<and> n \<le> 122 then char_of (n - 32) else ch)"

text \<open>\<^verbatim>\<open>strings.ToUpper\<close> on ASCII; no name of the tables has other characters.\<close>

definition ToUpper :: "string \<Rightarrow> string" where "ToUpper s = map upper s"

definition cipher_alias :: "string \<Rightarrow> string" where
  "cipher_alias n =
     (if n = ''CHACHA20-IETF-POLY1305'' then ''AEAD_CHACHA20_POLY1305''
      else if n = ''XCHACHA20-IETF-POLY1305'' then ''AEAD_XCHACHA20_POLY1305''
      else if n = ''AES-128-GCM'' then ''AEAD_AES_128_GCM''
      else if n = ''AES-192-GCM'' then ''AEAD_AES_192_GCM''
      else if n = ''AES-256-GCM'' then ''AEAD_AES_256_GCM''
      else n)"

datatype picked = Dummy | AeadCipher metaCipher bytes | StreamCipher scipher bytes

definition ErrCipherNotSupported :: go_error where "ErrCipherNotSupported = ErrorNew ''cipher not supported''"

text \<open>One entry of a table; \<^const>\<open>None\<close>: the key derivation does not end.\<close>

definition pick_entry :: "prims \<Rightarrow> nat \<times> (bytes \<Rightarrow> go_error + 'c) \<Rightarrow> ('c \<Rightarrow> bytes \<Rightarrow> picked) \<Rightarrow> bytes \<Rightarrow> string \<Rightarrow> (go_error + picked) option" where
  "pick_entry P choice mk key password =
     (case (if key = [] then Kdf P password (fst choice) else Some key) of
        None \<Rightarrow> None
      | Some key \<Rightarrow>
          Some (if length key \<noteq> fst choice then Inl (KeySizeError (fst choice))
                else case snd choice key of Inl e \<Rightarrow> Inl e | Inr c \<Rightarrow> Inr (mk c key)))"

definition PickCipher :: "prims \<Rightarrow> string \<Rightarrow> bytes \<Rightarrow> string \<Rightarrow> (go_error + picked) option" where
  "PickCipher P name key password =
     (let name = ToUpper name in
      if name = ''DUMMY'' then Some (Inr Dummy)
      else
        let name = cipher_alias name in
        case map_of (aeadList P) name of
          Some choice \<Rightarrow> pick_entry P choice AeadCipher key password
        | None \<Rightarrow>
            (case map_of (streamList P) name of
               Some choice \<Rightarrow> pick_entry P choice StreamCipher key password
             | None \<Rightarrow> Some (Inl ErrCipherNotSupported)))"

section \<open>The derived key\<close>

text \<open>The digests of the original key derivation: each one covers its predecessor and the password.\<close>

fun chain :: "prims \<Rightarrow> bytes \<Rightarrow> nat \<Rightarrow> bytes" where
  "chain P pw 0 = pMD5 P pw"
| "chain P pw (Suc i) = pMD5 P (chain P pw i @ pw)"

definition chain_upto :: "prims \<Rightarrow> bytes \<Rightarrow> nat \<Rightarrow> bytes" where
  "chain_upto P pw n = concat (map (chain P pw) [0..<n])"

definition md5_laws :: "prims \<Rightarrow> bool" where
  "md5_laws P \<longleftrightarrow> (\<forall>x. length (pMD5 P x) = 16)"

lemma length_chain: "md5_laws P \<Longrightarrow> length (chain P pw i) = 16"
  by (cases i) (simp_all add: md5_laws_def)

lemma length_chain_upto: "md5_laws P \<Longrightarrow> length (chain_upto P pw n) = 16 * n"
  by (induction n) (simp_all add: chain_upto_def length_chain)

lemma chain_upto_Suc: "chain_upto P pw (Suc n) = chain_upto P pw n @ chain P pw n"
  by (simp add: chain_upto_def)

lemma kdf_loop_step:
  assumes "md5_laws P" and "16 * n < keyLen"
  shows "kdf_loop P pw keyLen (chain_upto P pw n) (case n of 0 \<Rightarrow> [] | Suc i \<Rightarrow> chain P pw i) =
    kdf_loop P pw keyLen (chain_upto P pw (Suc n)) (chain P pw n)"
proof -
  have "pMD5 P ((case n of 0 \<Rightarrow> [] | Suc i \<Rightarrow> chain P pw i) @ pw) = chain P pw n" by (cases n) simp_all
  moreover have "drop (length (chain_upto P pw (Suc n)) - 16) (chain_upto P pw (Suc n)) = chain P pw n"
    using length_chain_upto [OF assms(1), of pw] length_chain [OF assms(1), of pw n] by (simp add: chain_upto_Suc)
  ultimately show ?thesis
    using assms length_chain_upto [OF assms(1), of pw n]
    by (subst kdf_loop.simps) (simp add: chain_upto_Suc [symmetric] Let_def)
qed

lemma kdf_loop_rounds:
  assumes "md5_laws P" and "keyLen \<le> 16 * (n + d)"
  shows "\<exists>r. kdf_loop P pw keyLen (chain_upto P pw n) (case n of 0 \<Rightarrow> [] | Suc i \<Rightarrow> chain P pw i) =
      Some (take keyLen (chain_upto P pw r)) \<and> keyLen \<le> 16 * r"
  using assms(2)
proof (induction d arbitrary: n)
  case 0
  then show ?case
    using length_chain_upto [OF assms(1), of pw n] by (intro exI [of _ n]) (subst kdf_loop.simps, simp)
next
  case (Suc d)
  show ?case
  proof (cases "16 * n < keyLen")
    case True
    from Suc.IH [of "Suc n"] Suc.prems show ?thesis by (simp add: kdf_loop_step [OF assms(1) True])
  next
    case False
    then show ?thesis
      using length_chain_upto [OF assms(1), of pw n] by (intro exI [of _ n]) (subst kdf_loop.simps, simp)
  qed
qed

lemma take_chain_upto:
  assumes "md5_laws P" and "k \<le> 16 * r" and "k \<le> 16 * r'"
  shows "take k (chain_upto P pw r) = take k (chain_upto P pw r')"
proof -
  have "take k (chain_upto P pw (a + d)) = take k (chain_upto P pw a)" if "k \<le> 16 * a" for a d
    using that by (induction d) (simp_all add: chain_upto_Suc length_chain_upto [OF assms(1)])
  from this [of "min r r'" "r - min r r'"] this [of "min r r'" "r' - min r r'"] assms(2,3) show ?thesis by simp
qed

text \<open>
  The derivation ends, whatever the password: its result is the front of the chain of digests, of
  exactly the length asked.
\<close>

lemma Kdf_chain:
  assumes "md5_laws P" and "keyLen \<le> 16 * r"
  shows "Kdf P password keyLen = Some (take keyLen (chain_upto P (bytes_of_string password) r))"
proof -
  have z: "chain_upto P pw 0 = []" for pw by (simp add: chain_upto_def)
  from kdf_loop_rounds [OF assms(1), of keyLen 0 keyLen "bytes_of_string password"] obtain r' where
    "Kdf P password keyLen = Some (take keyLen (chain_upto P (bytes_of_string password) r'))" "keyLen \<le> 16 * r'"
    by (auto simp: Kdf_def z)
  with take_chain_upto [OF assms] show ?thesis by simp
qed

lemma Kdf_length: "md5_laws P \<Longrightarrow> \<exists>k. Kdf P password keyLen = Some k \<and> length k = keyLen"
  using Kdf_chain [of P keyLen keyLen password] length_chain_upto [of P] by auto

section \<open>Every cipher of the tables can be had\<close>

definition key_sizes :: "(string \<times> nat \<times> 'c) list \<Rightarrow> (string \<times> nat) list" where
  "key_sizes t = map (\<lambda>(n, s, _). (n, s)) t"

text \<open>The size of the key a name asks for.\<close>

definition key_size :: "prims \<Rightarrow> string \<Rightarrow> nat option" where
  "key_size P name = map_of (key_sizes (aeadList P) @ key_sizes (streamList P)) (cipher_alias (ToUpper name))"

lemma map_of_key_sizes: "map_of (key_sizes t) n = map_option fst (map_of t n)"
  by (induction t) (auto simp: key_sizes_def)

lemma constructors_ok:
  "(n, s, mk) \<in> set (aeadList P) \<Longrightarrow> length key = s \<Longrightarrow> \<exists>c. mk key = Inr c"
  "(n, s, mk') \<in> set (streamList P) \<Longrightarrow> length key = s \<Longrightarrow> \<exists>c. mk' key = Inr c"
  by (auto simp: aeadList_def streamList_def AESGCM_def Chacha20Poly1305_def XChacha20Poly1305_def AESCTR_def AESCFB_def
      aes_NewCipher_def Chacha20IETF_def Xchacha20_def RC4MD5_def Let_def)

lemma pick_entry_result:
  assumes "md5_laws P" and "\<And>key. length key = n \<Longrightarrow> \<exists>c. new key = Inr c"
  shows "\<exists>r. pick_entry P (n, new) mk key pw = Some r \<and> (isl r \<longleftrightarrow> key \<noteq> [] \<and> length key \<noteq> n)"
proof -
  obtain k where k: "(if key = [] then Kdf P pw n else Some key) = Some k" "length k = n \<longleftrightarrow> key = [] \<or> length key = n"
    using Kdf_length [OF assms(1), of pw n] by (cases "key = []") auto
  then show ?thesis using assms(2) [of k] by (cases "length k = n") (auto simp: pick_entry_def)
qed

text \<open>
  Choosing a cipher always ends. It gives one exactly for the names of the tables and their
  aliases, in any case of letters, with no key (it is then derived from the password) or with a
  key of the size the table asks for.
\<close>

theorem PickCipher_succeeds_iff:
  assumes "md5_laws P"
  shows "\<exists>r. PickCipher P name key pw = Some r \<and>
    (\<not> isl r \<longleftrightarrow> ToUpper name = ''DUMMY'' \<or> (\<exists>n. key_size P name = Some n \<and> (key = [] \<or> length key = n)))"
proof (cases "ToUpper name = ''DUMMY''")
  case False
  let ?n = "cipher_alias (ToUpper name)"
  show ?thesis
  proof (cases "map_of (aeadList P) ?n")
    case (Some c)
    then obtain s mk where c: "c = (s, mk)" "(?n, s, mk) \<in> set (aeadList P)" by (cases c) (auto dest: map_of_SomeD)
    have "key_size P name = Some s" using Some c by (simp add: key_size_def map_of_key_sizes map_add_def)
    moreover have "\<exists>r. pick_entry P (s, mk) AeadCipher key pw = Some r \<and> (isl r \<longleftrightarrow> key \<noteq> [] \<and> length key \<noteq> s)"
      by (rule pick_entry_result [OF assms]) (rule constructors_ok(1) [OF c(2)])
    ultimately show ?thesis using False Some c(1)
      by (auto simp: PickCipher_def Let_def)
  next
    case a: None
    show ?thesis
    proof (cases "map_of (streamList P) ?n")
      case (Some c)
      then obtain s mk where c: "c = (s, mk)" "(?n, s, mk) \<in> set (streamList P)" by (cases c) (auto dest: map_of_SomeD)
      have "key_size P name = Some s" using Some a c by (simp add: key_size_def map_of_key_sizes map_add_def)
      moreover have "\<exists>r. pick_entry P (s, mk) StreamCipher key pw = Some r \<and> (isl r \<longleftrightarrow> key \<noteq> [] \<and> length key \<noteq> s)"
        by (rule pick_entry_result [OF assms]) (rule constructors_ok(2) [OF c(2)])
      ultimately show ?thesis using False a Some c(1)
        by (auto simp: PickCipher_def Let_def)
    next
      case None
      then show ?thesis using a False by (simp add: PickCipher_def Let_def key_size_def map_of_key_sizes map_add_def)
    qed
  qed
qed (simp add: PickCipher_def Let_def)

end
