(* ===== verification/SimpleObfs.thy ===== *)
theory SimpleObfs
  imports ClientHello Duplex
begin

text \<open>
  The obfuscating connections of Shadowsocks, \<^verbatim>\<open>transport/simple-obfs\<close>: the stream is dressed up as a TLS
  session (\<^verbatim>\<open>tls.go\<close>), whose ClientHello carries the first data in its session ticket, or as an
  HTTP upgrade (\<^verbatim>\<open>http.go\<close>). Shown here: the forged ClientHello is well formed and the program's own
  parser finds the configured server name in it; all that is written is carried, in order, by the
  ClientHello and the records behind it; what a server sends in records is read back by reads
  of any sizes; and where a cut-off header is taken for an empty read.
\<close>

section \<open>TLS\<close>

definition chunkSize :: nat where "chunkSize = 2 ^ 14"

record TLSObfs =
  toConn :: sconn
  toServer :: string
  remain :: nat
  firstRequest :: bool
  firstResponse :: bool

definition NewTLSObfs :: "sconn \<Rightarrow> string \<Rightarrow> TLSObfs" where
  "NewTLSObfs c server = \<lparr>toConn = c, toServer = server, remain = 0, firstRequest = True, firstResponse = True\<rparr>"

definition on_tls :: "(sconn, 'a) io \<Rightarrow> (TLSObfs, 'a) io" where
  "on_tls m t = (case m (toConn t) of (x, c) \<Rightarrow> (x, t\<lparr>toConn := c\<rparr>))"

text \<open>\<^verbatim>\<open>read\<close> into \<open>k\<close> bytes; an error at the two bytes of the size is dropped.\<close>

definition TLSObfs_read :: "(nat \<Rightarrow> nat) \<Rightarrow> nat \<Rightarrow> nat \<Rightarrow> (TLSObfs, bytes) io" where
  "TLSObfs_read got k discardN =
     io_bind (on_tls (stream_read discardN)) (\<lambda>_ t.
       case on_tls (stream_read 2) t of
         (Fail _, t') \<Rightarrow> (Ok [], t')
       | (Panic, t') \<Rightarrow> (Panic, t')
       | (Ok sizeBuf, t') \<Rightarrow>
           let l = nat (be16_val sizeBuf 0) in
           if l > k then io_bind (on_tls (stream_recv got k)) (\<lambda>x t. (Ok x, t\<lparr>remain := l - length x\<rparr>)) t'
           else on_tls (stream_read l) t')"

definition TLSObfs_Read :: "(nat \<Rightarrow> nat) \<Rightarrow> nat \<Rightarrow> (TLSObfs, bytes) io" where
  "TLSObfs_Read got k t =
     (if remain t > 0 then
        let l = (if remain t > k then k else remain t);
            n = min l (length (scIn (toConn t))) in
        (case on_tls (stream_read l) t of (x, t') \<Rightarrow> (x, t'\<lparr>remain := remain t - n\<rparr>))
      else if firstResponse t then TLSObfs_read got k 105 (t\<lparr>firstResponse := False\<rparr>)
      else TLSObfs_read got k 3 t)"

text \<open>The forged ClientHello; \<open>now\<close>, \<open>random\<close> and \<open>sessionID\<close> are the clock and the random bytes drawn.\<close>

record hello_seed =
  hsNow :: bytes
  hsRandom :: bytes
  hsSessionID :: bytes

definition obfs_suites :: bytes where
  "obfs_suites = [
     0xc0, 0x2c, 0xc0, 0x30, 0x00, 0x9f, 0xcc, 0xa9, 0xcc, 0xa8, 0xcc, 0xaa, 0xc0, 0x2b, 0xc0, 0x2f,
     0x00, 0x9e, 0xc0, 0x24, 0xc0, 0x28, 0x00, 0x6b, 0xc0, 0x23, 0xc0, 0x27, 0x00, 0x67, 0xc0, 0x0a,
     0xc0, 0x14, 0x00, 0x39, 0xc0, 0x09, 0xc0, 0x13, 0x00, 0x33, 0x00, 0x9d, 0x00, 0x9c, 0x00, 0x3d,
     0x00, 0x3c, 0x00, 0x35, 0x00, 0x2f, 0x00, 0xff]"

definition obfs_signature :: bytes where
  "obfs_signature = [
     0x00, 0x0d, 0x00, 0x20, 0x00, 0x1e, 0x06, 0x01, 0x06, 0x02, 0x06, 0x03, 0x05,
     0x01, 0x05, 0x02, 0x05, 0x03, 0x04, 0x01, 0x04, 0x02, 0x04, 0x03, 0x03, 0x01,
     0x03, 0x02, 0x03, 0x03, 0x02, 0x01, 0x02, 0x02, 0x02, 0x03]"

definition makeClientHelloMsg :: "hello_seed \<Rightarrow> bytes \<Rightarrow> string \<Rightarrow> bytes" where
  "makeClientHelloMsg seed data server =
     (let d = int (length data); s = int (length server);
          length16 = (212 + d + s) mod 65536 in
      [22] @ [0x03, 0x01] @ [word_of_int (length16 div 256), word_of_int (length16 mod 256)]
      @ [1] @ [0] @ put_uint16 (208 + d + s) @ [0x03, 0x03]
      @ hsNow seed @ hsRandom seed @ [32] @ hsSessionID seed
      @ [0x00, 0x38] @ obfs_suites
      @ [0x01, 0x00]
      @ put_uint16 (79 + d + s)
      @ [0x00, 0x23] @ put_uint16 d @ data
      @ [0x00, 0x00] @ put_uint16 (s + 5) @ put_uint16 (s + 3) @ [0] @ put_uint16 s @ bytes_of_string server
      @ [0x00, 0x0b, 0x00, 0x04, 0x03, 0x01, 0x00, 0x02]
      @ [0x00, 0x0a, 0x00, 0x0a, 0x00, 0x08, 0x00, 0x1d, 0x00, 0x17, 0x00, 0x19, 0x00, 0x18]
      @ obfs_signature
      @ [0x00, 0x16, 0x00, 0x00]
      @ [0x00, 0x17, 0x00, 0x00])"

text \<open>One chunk: the first request ends with its write, also when that fails.\<close>

definition TLSObfs_write :: "(nat \<Rightarrow> go_error option) \<Rightarrow> hello_seed \<Rightarrow> bytes \<Rightarrow> (TLSObfs, nat) io" where
  "TLSObfs_write wr seed b t =
     (if firstRequest t then
        (case on_tls (stream_write wr (makeClientHelloMsg seed b (toServer t))) t of
           (Fail e, t') \<Rightarrow> (Fail e, t'\<lparr>firstRequest := False\<rparr>)
         | (Panic, t') \<Rightarrow> (Panic, t')
         | (Ok _, t') \<Rightarrow> (Ok (length b), t'\<lparr>firstRequest := False\<rparr>))
      else io_bind (on_tls (stream_write wr ([0x17, 0x03, 0x03] @ put_uint16 (int (length b)) @ b))) (\<lambda>_. io_return (length b)) t)"

function tls_chunks :: "(nat \<Rightarrow> go_error option) \<Rightarrow> hello_seed \<Rightarrow> bytes \<Rightarrow> (TLSObfs, unit) io" where
  "tls_chunks wr seed b =
     (if b = [] then io_return ()
      else io_bind (TLSObfs_write wr seed (take chunkSize b)) (\<lambda>_. tls_chunks wr seed (drop chunkSize b)))"
  by pat_completeness auto
termination
  by (relation "measure (\<lambda>(wr, seed, b). length b)") (auto simp: chunkSize_def)

declare tls_chunks.simps [simp del]

definition TLSObfs_Write :: "(nat \<Rightarrow> go_error option) \<Rightarrow> hello_seed \<Rightarrow> bytes \<Rightarrow> (TLSObfs, nat) io" where
  "TLSObfs_Write wr seed b = io_bind (tls_chunks wr seed b) (\<lambda>_. io_return (length b))"

section \<open>The forged ClientHello\<close>

definition obfs_hello :: "hello_seed \<Rightarrow> bytes \<Rightarrow> string \<Rightarrow> client_hello" where
  "obfs_hello seed data server = \<lparr>
     chVersion = [0x03, 0x03], chRandom = hsNow seed @ hsRandom seed, chSessionID = hsSessionID seed,
     chCipherSuites = obfs_suites, chCompression = [0],
     chExtensions = [(0x23, data), (tlsExtTypeSNI, enc_sni (bytes_of_string server)), (0x0b, [0x03, 0x01, 0x00, 0x02]),
       (0x0a, [0x00, 0x08, 0x00, 0x1d, 0x00, 0x17, 0x00, 0x19, 0x00, 0x18]), (0x0d, drop 4 obfs_signature), (0x16, []), (0x17, [])]\<rparr>"

definition wf_seed :: "hello_seed \<Rightarrow> bool" where
  "wf_seed seed \<longleftrightarrow> length (hsNow seed) = 4 \<and> length (hsRandom seed) = 28 \<and> length (hsSessionID seed) = 32"

lemma put_uint16_consts:
  "put_uint16 0x23 = [0x00, 0x23]" "put_uint16 0 = [0x00, 0x00]" "put_uint16 0x0b = [0x00, 0x0b]" "put_uint16 4 = [0x00, 0x04]"
  "put_uint16 0x0a = [0x00, 0x0a]" "put_uint16 0x0d = [0x00, 0x0d]" "put_uint16 0x20 = [0x00, 0x20]"
  "put_uint16 0x16 = [0x00, 0x16]" "put_uint16 0x17 = [0x00, 0x17]" "put_uint16 56 = [0x00, 0x38]"
  by (simp_all add: put_uint16_def)

lemma length_obfs_exts:
  "length (enc_exts (chExtensions (obfs_hello seed data server))) = 79 + length data + length server"
  by (simp add: obfs_hello_def enc_exts_def enc_ext_def length_enc_sni obfs_signature_def)

lemma length_obfs_body:
  "wf_seed seed \<Longrightarrow> length (enc_body (obfs_hello seed data server)) = 208 + length data + length server"
  using length_obfs_exts [of seed data server]
  by (simp add: enc_body_def wf_seed_def) (simp add: obfs_hello_def obfs_suites_def)

lemma put_uint16_halves:
  "0 \<le> v \<Longrightarrow> v < 65536 \<Longrightarrow> [word_of_int (v mod 65536 div 256), word_of_int (v mod 65536 mod 256)] = put_uint16 v"
  by (simp add: put_uint16_def word_uint_eq_iff uint_word_of_int)

lemma makeClientHelloMsg_enc:
  assumes "wf_seed seed" and "212 + length data + length server < 65536"
  shows "makeClientHelloMsg seed data server = enc_hello 1 (obfs_hello seed data server)"
    and "wf_hello (obfs_hello seed data server)"
proof -
  let ?n = "int (length data) + int (length server)"
  note l = length_obfs_body [OF assms(1), of data server]
  have n: "0 \<le> ?n" "?n < 65324" using assms(2) by simp_all
  have len16: "[word_of_int ((212 + ?n) mod 65536 div 256), word_of_int ((212 + ?n) mod 65536 mod 256)] = put_uint16 (208 + ?n + 4)"
    using put_uint16_halves [of "212 + ?n"] n by (simp add: ac_simps)
  have e: "put_uint16 (int (length (enc_exts (chExtensions (obfs_hello seed data server))))) = put_uint16 (79 + ?n)"
    by (simp add: length_obfs_exts add.assoc)
  have exts: "enc_exts (chExtensions (obfs_hello seed data server)) =
      [0x00, 0x23] @ put_uint16 (int (length data)) @ data
      @ [0x00, 0x00] @ put_uint16 (int (length server) + 5) @ put_uint16 (int (length server) + 3) @ [0]
        @ put_uint16 (int (length server)) @ bytes_of_string server
      @ [0x00, 0x0b, 0x00, 0x04, 0x03, 0x01, 0x00, 0x02]
      @ [0x00, 0x0a, 0x00, 0x0a, 0x00, 0x08, 0x00, 0x1d, 0x00, 0x17, 0x00, 0x19, 0x00, 0x18]
      @ obfs_signature @ [0x00, 0x16, 0x00, 0x00] @ [0x00, 0x17, 0x00, 0x00]"
    by (simp add: obfs_hello_def enc_exts_def enc_ext_def length_enc_sni put_uint16_consts tls_consts obfs_signature_def)
      (simp add: enc_sni_def)
  have body: "enc_body (obfs_hello seed data server) = [0x03, 0x03] @ (hsNow seed @ hsRandom seed) @ [32] @ hsSessionID seed
      @ [0x00, 0x38] @ obfs_suites @ [0x01, 0x00] @ put_uint16 (79 + ?n) @ enc_exts (chExtensions (obfs_hello seed data server))"
    using assms(1) unfolding enc_body_def e by (simp add: obfs_hello_def wf_seed_def obfs_suites_def put_uint16_consts)
  have "(208 + ?n) div 65536 = 0" using n by simp
  then have enc: "enc_hello 1 (obfs_hello seed data server) =
      [22, 3, 1] @ put_uint16 (208 + ?n + 4) @ [1, 0] @ put_uint16 (208 + ?n) @ enc_body (obfs_hello seed data server)"
    by (simp add: enc_hello_def Let_def l tls_consts add.assoc)
  show "makeClientHelloMsg seed data server = enc_hello 1 (obfs_hello seed data server)"
    unfolding enc body exts makeClientHelloMsg_def Let_def add.assoc len16 by simp
  show "wf_hello (obfs_hello seed data server)"
    using assms l unfolding wf_hello_def
    by (auto simp: obfs_hello_def wf_seed_def obfs_suites_def obfs_signature_def wf_ext_def tls_consts length_enc_sni)
qed

text \<open>The program's own parser finds the configured name in the forged message, and neither key share nor ECH.\<close>

lemma makeClientHelloMsg_parsed:
  assumes "wf_seed seed" and "212 + length data + length server < 65536"
  shows "\<exists>h. parseClientHello (makeClientHelloMsg seed data server) = Some (h, None) \<and> prtVer h = [0x03, 0x03] \<and>
    \<not> hasKeyShare h \<and> \<not> hasECH h \<and>
    go_slice (makeClientHelloMsg seed data server) (sniStart h) (sniStart h + sniLen h) = Some (bytes_of_string server)"
proof -
  note e = makeClientHelloMsg_enc [OF assms]
  have sni: "enc_sni host = enc_sni host' \<Longrightarrow> host = host'" for host host'
    using length_enc_sni [of host] length_enc_sni [of host'] by (simp add: enc_sni_def)
  from hello_decodes [OF e(2), of 1] show ?thesis
    unfolding e(1) by (auto simp: obfs_hello_def tls_consts dest: sni)
qed

section \<open>What is written\<close>

definition app_record :: "bytes \<Rightarrow> bytes" where
  "app_record p = [0x17, 0x03, 0x03] @ put_uint16 (int (length p)) @ p"

definition obfs_wire :: "hello_seed \<Rightarrow> string \<Rightarrow> bytes list \<Rightarrow> bytes" where
  "obfs_wire seed server ps =
     (case ps of [] \<Rightarrow> [] | p # qs \<Rightarrow> makeClientHelloMsg seed p server @ concat (map app_record qs))"

definition wf_piece :: "bytes \<Rightarrow> bool" where "wf_piece p \<longleftrightarrow> p \<noteq> [] \<and> length p \<le> chunkSize"

text \<open>The connection has sent these pieces.\<close>

definition tls_sent :: "hello_seed \<Rightarrow> string \<Rightarrow> TLSObfs \<Rightarrow> bytes list \<Rightarrow> bool" where
  "tls_sent seed server t ps \<longleftrightarrow> toServer t = server \<and> (firstRequest t \<longleftrightarrow> ps = []) \<and>
     concat (scOut (toConn t)) = obfs_wire seed server ps \<and> (\<forall>p \<in> set ps. wf_piece p)"

lemma obfs_wire_snoc: "ps \<noteq> [] \<Longrightarrow> obfs_wire seed server (ps @ [p]) = obfs_wire seed server ps @ app_record p"
  by (cases ps) (simp_all add: obfs_wire_def)

lemma TLSObfs_write_sent:
  assumes "tls_sent seed server t ps" and "wf_piece p"
  shows "\<exists>t'. TLSObfs_write (\<lambda>_. None) seed p t = (Ok (length p), t') \<and> tls_sent seed server t' (ps @ [p])"
proof (cases "ps = []")
  case True
  with assms show ?thesis
    by (simp add: TLSObfs_write_def on_tls_def stream_write_def tls_sent_def obfs_wire_def)
next
  case False
  with assms show ?thesis
    by (simp add: TLSObfs_write_def on_tls_def stream_write_def tls_sent_def obfs_wire_snoc app_record_def io_bind_def io_return_def
        del: io_bind_Ok_iff)
qed

lemma tls_chunks_sent:
  assumes "tls_sent seed server t ps"
  shows "\<exists>t' qs. tls_chunks (\<lambda>_. None) seed b t = (Ok (), t') \<and> tls_sent seed server t' (ps @ qs) \<and> concat qs = b"
  using assms
proof (induction "length b" arbitrary: b t ps rule: less_induct)
  case less
  show ?case
  proof (cases "b = []")
    case True
    with less.prems show ?thesis
      by (intro exI [of _ t] exI [of _ "[]"]) (simp add: tls_chunks.simps io_return_def)
  next
    case False
    let ?p = "take chunkSize b"
    have "wf_piece ?p" using False by (simp add: wf_piece_def chunkSize_def)
    from TLSObfs_write_sent [OF less.prems this] obtain t1 where
      t1: "TLSObfs_write (\<lambda>_. None) seed ?p t = (Ok (length ?p), t1)" "tls_sent seed server t1 (ps @ [?p])" by blast
    have "length (drop chunkSize b) < length b" using False by (simp add: chunkSize_def)
    from less.hyps [OF this t1(2)] obtain t' qs where
      "tls_chunks (\<lambda>_. None) seed (drop chunkSize b) t1 = (Ok (), t')" "tls_sent seed server t' ((ps @ [?p]) @ qs)"
      "concat qs = drop chunkSize b" by blast
    with t1(1) False show ?thesis
      by (intro exI [of _ t'] exI [of _ "?p # qs"]) (subst tls_chunks.simps, simp add: io_bind_def del: io_bind_Ok_iff)
  qed
qed

definition TLSObfs_writes :: "hello_seed \<Rightarrow> bytes list \<Rightarrow> (TLSObfs, unit) io" where
  "TLSObfs_writes seed = io_each (\<lambda>b. io_bind (TLSObfs_Write (\<lambda>_. None) seed b) (\<lambda>_. io_return ()))"

lemma TLSObfs_writes_sent:
  assumes "tls_sent seed server t ps"
  shows "\<exists>t' qs. TLSObfs_writes seed bs t = (Ok (), t') \<and> tls_sent seed server t' (ps @ qs) \<and> concat qs = concat bs"
  using assms
proof (induction bs arbitrary: t ps)
  case Nil
  then show ?case by (intro exI [of _ t] exI [of _ "[]"]) (simp add: TLSObfs_writes_def io_return_def)
next
  case (Cons b bs)
  from tls_chunks_sent [OF Cons.prems, of b] obtain t1 qs where
    1: "tls_chunks (\<lambda>_. None) seed b t = (Ok (), t1)" "tls_sent seed server t1 (ps @ qs)" "concat qs = b" by blast
  from Cons.IH [OF 1(2)] obtain t' rs where
    2: "TLSObfs_writes seed bs t1 = (Ok (), t')" "tls_sent seed server t' ((ps @ qs) @ rs)" "concat rs = concat bs" by blast
  have "TLSObfs_writes seed (b # bs) t = TLSObfs_writes seed bs t1"
    using 1(1) by (simp add: TLSObfs_writes_def TLSObfs_Write_def io_bind_def io_return_def del: io_bind_Ok_iff)
  with 1(3) 2 show ?case by (intro exI [of _ t'] exI [of _ "qs @ rs"]) simp
qed

text \<open>
  What is written goes out in full and in order. The first piece is the session ticket of a
  ClientHello in which the program's own parser finds the configured server name; the others are
  application records. Whatever the sizes of the writes, the pieces put together are the data.
\<close>

theorem obfs_tls_written:
  assumes "wf_seed seed" and "16596 + length server < 65536" and "concat bs \<noteq> []"
  shows "\<exists>t p qs h. TLSObfs_writes seed bs (NewTLSObfs \<lparr>scIn = i, scOut = []\<rparr> server) = (Ok (), t) \<and>
    concat (scOut (toConn t)) = makeClientHelloMsg seed p server @ concat (map app_record qs) \<and>
    p @ concat qs = concat bs \<and> (\<forall>x \<in> set (p # qs). x \<noteq> [] \<and> length x \<le> chunkSize) \<and>
    parseClientHello (makeClientHelloMsg seed p server) = Some (h, None) \<and>
    go_slice (makeClientHelloMsg seed p server) (sniStart h) (sniStart h + sniLen h) = Some (bytes_of_string server)"
proof -
  have "tls_sent seed server (NewTLSObfs \<lparr>scIn = i, scOut = []\<rparr> server) []"
    by (simp add: tls_sent_def NewTLSObfs_def obfs_wire_def)
  from TLSObfs_writes_sent [OF this, of bs] obtain t ps where
    t: "TLSObfs_writes seed bs (NewTLSObfs \<lparr>scIn = i, scOut = []\<rparr> server) = (Ok (), t)" "tls_sent seed server t ps"
      "concat ps = concat bs" by auto
  with assms(3) obtain p qs where ps: "ps = p # qs" by (cases ps) auto
  with t(2) have w: "concat (scOut (toConn t)) = makeClientHelloMsg seed p server @ concat (map app_record qs)"
    "\<forall>x \<in> set (p # qs). x \<noteq> [] \<and> length x \<le> chunkSize"
    by (simp_all add: tls_sent_def obfs_wire_def wf_piece_def)
  then have "212 + length p + length server < 65536" using assms(2) by (simp add: chunkSize_def)
  from makeClientHelloMsg_parsed [OF assms(1) this] t w ps show ?thesis by auto
qed

definition seed_example :: hello_seed where
  "seed_example = \<lparr>hsNow = replicate 4 1, hsRandom = replicate 28 2, hsSessionID = replicate 32 3\<rparr>"

theorem obfs_tls_written_witness:
  "\<exists>t p qs. TLSObfs_writes seed_example [[1, 2], [], [3]] (NewTLSObfs \<lparr>scIn = [], scOut = []\<rparr> ''a.io'') = (Ok (), t) \<and>
    concat (scOut (toConn t)) = makeClientHelloMsg seed_example p ''a.io'' @ concat (map app_record qs) \<and> p @ concat qs = [1, 2, 3]"
proof -
  have w: "wf_seed seed_example" by (simp add: wf_seed_def seed_example_def)
  from obfs_tls_written [OF w, of "''a.io''" "[[1, 2], [], [3]]" "[]"] show ?thesis by auto
qed

section \<open>What is read\<close>

text \<open>The server's records: the bytes that are skipped, and the data.\<close>

definition resp_wire :: "(bytes \<times> bytes) list \<Rightarrow> bytes" where
  "resp_wire rs = concat (map (\<lambda>(h, d). h @ put_uint16 (int (length d)) @ d) rs)"

definition tls_pending :: "TLSObfs \<Rightarrow> bytes \<Rightarrow> bool" where
  "tls_pending t P \<longleftrightarrow>
     (\<exists>cur rs. length cur = remain t \<and> scIn (toConn t) = cur @ resp_wire rs \<and> P = cur @ concat (map snd rs) \<and>
        (firstResponse t \<longrightarrow> cur = []) \<and> (\<forall>r \<in> set rs. snd r \<noteq> [] \<and> length (snd r) < 65536) \<and>
        (rs \<noteq> [] \<longrightarrow> length (fst (hd rs)) = (if firstResponse t then 105 else 3)) \<and> (\<forall>r \<in> set (tl rs). length (fst r) = 3))"

lemma TLSObfs_read_record:
  assumes "tls_pending (t\<lparr>remain := 0, firstResponse := False, toConn := \<lparr>scIn = rest, scOut = ws\<rparr>\<rparr>) Q"
    and "length h = n" and "d \<noteq> []" and "length d < 65536" and "0 < k"
    and "t = t0\<lparr>remain := 0, firstResponse := False, toConn := \<lparr>scIn = h @ put_uint16 (int (length d)) @ d @ rest, scOut = ws\<rparr>\<rparr>"
  shows "\<exists>x P' t'. TLSObfs_read got k n t = (Ok x, t') \<and> x \<noteq> [] \<and> d @ Q = x @ P' \<and> tls_pending t' P'"
proof -
  have v: "nat (be16_val (put_uint16 (int (length d))) 0) = length d"
    using be16_at_SomeD [OF be16_at_put [of "[]" "int (length d)" "[]"]] assms(4) by simp
  let ?t2 = "t0\<lparr>remain := 0, firstResponse := False, toConn := \<lparr>scIn = d @ rest, scOut = ws\<rparr>\<rparr>"
  have run: "TLSObfs_read got k n t =
      (if length d > k then io_bind (on_tls (stream_recv got k)) (\<lambda>x t. (Ok x, t\<lparr>remain := length d - length x\<rparr>)) ?t2
       else on_tls (stream_read (length d)) ?t2)"
    using assms(2) by (simp add: TLSObfs_read_def assms(6) io_bind_def on_tls_def stream_read_def v Let_def del: io_bind_Ok_iff)
  show ?thesis
  proof (cases "length d > k")
    case True
    from stream_recv_Ok [of "\<lparr>scIn = d @ rest, scOut = ws\<rparr>" k got] assms(3,5) obtain x r2 where
      x: "stream_recv got k \<lparr>scIn = d @ rest, scOut = ws\<rparr> = (Ok x, \<lparr>scIn = r2, scOut = ws\<rparr>)" "x \<noteq> []" "length x \<le> k"
        "d @ rest = x @ r2" by auto
    with True obtain d2 where d2: "d = x @ d2" "r2 = d2 @ rest" by (auto simp: append_eq_append_conv2)
    let ?t3 = "?t2\<lparr>toConn := \<lparr>scIn = d2 @ rest, scOut = ws\<rparr>, remain := length d2\<rparr>"
    have "TLSObfs_read got k n t = (Ok x, ?t3)"
      using x(1) d2 True by (simp add: run io_bind_def on_tls_def del: io_bind_Ok_iff)
    moreover have "tls_pending ?t3 (d2 @ Q)"
      using assms(1) by (auto simp: tls_pending_def assms(6))
    ultimately show ?thesis using x(2) d2(1) by auto
  next
    case False
    let ?t3 = "?t2\<lparr>toConn := \<lparr>scIn = rest, scOut = ws\<rparr>\<rparr>"
    have "TLSObfs_read got k n t = (Ok d, ?t3)" using False by (simp add: run on_tls_def stream_read_def)
    moreover have "tls_pending ?t3 Q" using assms(1) by (simp add: assms(6))
    ultimately show ?thesis using assms(3) by auto
  qed
qed

lemma TLSObfs_Read_pending:
  assumes "tls_pending t P" and "0 < k"
  shows "if P = [] then fst (TLSObfs_Read got k t) = Fail IoEOF
    else \<exists>x P' t'. TLSObfs_Read got k t = (Ok x, t') \<and> x \<noteq> [] \<and> P = x @ P' \<and> tls_pending t' P'"
proof -
  from assms(1) obtain cur rs where p: "length cur = remain t" "scIn (toConn t) = cur @ resp_wire rs"
    "P = cur @ concat (map snd rs)" "firstResponse t \<longrightarrow> cur = []" "\<forall>r \<in> set rs. snd r \<noteq> [] \<and> length (snd r) < 65536"
    "rs \<noteq> [] \<longrightarrow> length (fst (hd rs)) = (if firstResponse t then 105 else 3)" "\<forall>r \<in> set (tl rs). length (fst r) = 3"
    unfolding tls_pending_def by auto
  show ?thesis
  proof (cases "cur = []")
    case False
    let ?l = "min k (remain t)"
    have l: "(if remain t > k then k else remain t) = ?l" by simp
    let ?t = "t\<lparr>toConn := (toConn t)\<lparr>scIn := drop ?l cur @ resp_wire rs\<rparr>, remain := remain t - ?l\<rparr>"
    have "0 < remain t" using False p(1) by (metis length_greater_0_conv)
    then have "TLSObfs_Read got k t = (Ok (take ?l cur), ?t)"
      unfolding TLSObfs_Read_def l using False p(1,2) by (auto simp: on_tls_def stream_read_def Let_def)
    moreover have "tls_pending ?t (drop ?l cur @ concat (map snd rs))"
      unfolding tls_pending_def using p False by (intro exI [of _ "drop ?l cur"] exI [of _ rs]) auto
    moreover have "take ?l cur \<noteq> []" using \<open>0 < remain t\<close> False assms(2) by simp
    ultimately show ?thesis using p(3) False
      by (auto intro!: exI [of _ "take ?l cur"] exI [of _ "drop ?l cur @ concat (map snd rs)"])
  next
    case cur: True
    let ?n = "if firstResponse t then 105 else 3"
    let ?t = "t\<lparr>firstResponse := False\<rparr>"
    have run: "TLSObfs_Read got k t = TLSObfs_read got k ?n ?t"
      using cur p(1) by (cases t) (auto simp: TLSObfs_Read_def)
    show ?thesis
    proof (cases rs)
      case Nil
      with cur p run show ?thesis
        by (simp add: TLSObfs_read_def on_tls_def stream_read_def io_bind_def resp_wire_def del: io_bind_Ok_iff)
    next
      case (Cons r qs)
      obtain h d where r: "r = (h, d)" by fastforce
      let ?Q = "concat (map snd qs)" and ?ws = "scOut (toConn t)"
      have q: "tls_pending (?t\<lparr>remain := 0, firstResponse := False, toConn := \<lparr>scIn = resp_wire qs, scOut = ?ws\<rparr>\<rparr>) ?Q"
        unfolding tls_pending_def using p(5,7) Cons by (intro exI [of _ "[]"] exI [of _ qs]) (cases qs; auto)
      have w: "resp_wire rs = h @ put_uint16 (int (length d)) @ d @ resp_wire qs" by (simp add: Cons r resp_wire_def)
      have "?t = t\<lparr>remain := 0, firstResponse := False,
          toConn := \<lparr>scIn = h @ put_uint16 (int (length d)) @ d @ resp_wire qs, scOut = ?ws\<rparr>\<rparr>"
        using p(1,2) cur w by (cases t) (auto simp: sconn.splits)
      from TLSObfs_read_record [OF q _ _ _ assms(2) this, of ?n got] p(5,6) Cons r cur p(3) show ?thesis
        by (auto simp: run)
    qed
  qed
qed

interpretation obfs_tls: stream_reader "TLSObfs_Read got" tls_pending for got
  by unfold_locales (use TLSObfs_Read_pending in force)+

text \<open>
  What the server sends in records is read back by reads of any positive sizes, whatever the
  network delivers at a time.
\<close>

theorem obfs_tls_read:
  assumes "tls_pending t P" and "\<forall>k \<in> set ks. 0 < k" and "length P < length ks"
  shows "\<exists>j xs t'. j < length ks \<and> reads (TLSObfs_Read got) (take j ks) t = (Ok xs, t') \<and> concat xs = P \<and>
    fst (TLSObfs_Read got (ks ! j) t') = Fail IoEOF"
  by (rule obfs_tls.reads_pending [OF assms])

text \<open>A stream that is cut off inside the size of a record reads as an empty read without an error, and then as a clean end.\<close>

lemma TLSObfs_truncated:
  assumes "length h = 3" and "length s < 2"
  shows "\<exists>t'. TLSObfs_Read got k \<lparr>toConn = \<lparr>scIn = h @ s, scOut = ws\<rparr>, toServer = sv, remain = 0, firstRequest = fr, firstResponse = False\<rparr> =
      (Ok [], t') \<and> fst (TLSObfs_Read got k t') = Fail IoEOF"
  using assms
  by (auto simp: TLSObfs_Read_def TLSObfs_read_def on_tls_def stream_read_def io_bind_def simp del: io_bind_Ok_iff)

section \<open>HTTP\<close>

definition RelayBufferSize :: nat where "RelayBufferSize = 20 * 2 ^ 10"

record HTTPObfs =
  hoConn :: sconn
  hoHost :: string
  hoPort :: string
  hoBuf :: "bytes option"           \<comment> \<open>what of the first read is still to be given; \<^const>\<open>None\<close>: no buffer\<close>
  hoFirstRequest :: bool
  hoFirstResponse :: bool

definition NewHTTPObfs :: "sconn \<Rightarrow> string \<Rightarrow> string \<Rightarrow> HTTPObfs" where
  "NewHTTPObfs c host port =
     \<lparr>hoConn = c, hoHost = host, hoPort = port, hoBuf = None, hoFirstRequest = True, hoFirstResponse = True\<rparr>"

definition crlf2 :: bytes where "crlf2 = [13, 10, 13, 10]"

text \<open>\<^verbatim>\<open>bytes.Index\<close>.\<close>

fun bytes_Index :: "bytes \<Rightarrow> bytes \<Rightarrow> nat option" where
  "bytes_Index [] sep = (if sep = [] then Some 0 else None)"
| "bytes_Index (x # xs) sep =
     (if take (length sep) (x # xs) = sep then Some 0 else map_option Suc (bytes_Index xs sep))"

definition HTTPObfs_Read :: "(nat \<Rightarrow> nat) \<Rightarrow> nat \<Rightarrow> (HTTPObfs, bytes) io" where
  "HTTPObfs_Read got k o1 =
     (case hoBuf o1 of
        Some b \<Rightarrow> (Ok (take k b), o1\<lparr>hoBuf := (if length b \<le> k then None else Some (drop k b))\<rparr>)
      | None \<Rightarrow>
          if hoFirstResponse o1 then
            (case stream_recv got RelayBufferSize (hoConn o1) of
               (Fail e, c) \<Rightarrow> (Fail e, o1\<lparr>hoConn := c\<rparr>)
             | (Panic, c) \<Rightarrow> (Panic, o1\<lparr>hoConn := c\<rparr>)
             | (Ok buf, c) \<Rightarrow>
                 (case bytes_Index buf crlf2 of
                    None \<Rightarrow> (Fail IoEOF, o1\<lparr>hoConn := c\<rparr>)
                  | Some idx \<Rightarrow>
                      let body = drop (idx + 4) buf in
                      (Ok (take k body),
                       o1\<lparr>hoConn := c, hoFirstResponse := False, hoBuf := (if length body > k then Some (drop k body) else None)\<rparr>)))
          else (case stream_recv got k (hoConn o1) of (x, c) \<Rightarrow> (x, o1\<lparr>hoConn := c\<rparr>)))"

text \<open>
  The upgrade request as \<^verbatim>\<open>http.Request.Write\<close> prints it; \<open>agent\<close> and \<open>key\<close> are drawn at random. A body of no
  bytes has no length header.
\<close>

definition crlf :: string where "crlf = [CHR 0x0D, CHR 0x0A]"

definition obfs_request :: "string \<Rightarrow> string \<Rightarrow> string \<Rightarrow> bytes \<Rightarrow> bytes" where
  "obfs_request hostport agent key b =
     bytes_of_string (''GET / HTTP/1.1'' @ crlf @ ''Host: '' @ hostport @ crlf @ ''User-Agent: '' @ agent @ crlf
       @ (if b = [] then [] else ''Content-Length: '' @ Itoa (int (length b)) @ crlf)
       @ ''Connection: Upgrade'' @ crlf @ ''Sec-Websocket-Key: '' @ key @ crlf @ ''Upgrade: websocket'' @ crlf @ crlf) @ b"

text \<open>\<open>urlOK\<close>: the host makes a valid URL; otherwise the request is nil and using it panics.\<close>

definition HTTPObfs_Write :: "(string \<Rightarrow> bool) \<Rightarrow> (nat \<Rightarrow> go_error option) \<Rightarrow> string \<Rightarrow> string \<Rightarrow> bytes \<Rightarrow> (HTTPObfs, nat) io" where
  "HTTPObfs_Write urlOK wr agent key b o1 =
     (if hoFirstRequest o1 then
        if \<not> urlOK (hoHost o1) then (Panic, o1)
        else
          let hostport = (if hoPort o1 = ''80'' then hoHost o1 else hoHost o1 @ '':'' @ hoPort o1) in
          (case stream_write wr (obfs_request hostport agent key b) (hoConn o1) of
             (Ok _, c) \<Rightarrow> (Ok (length b), o1\<lparr>hoConn := c, hoFirstRequest := False\<rparr>)
           | (Fail e, c) \<Rightarrow> (Fail e, o1\<lparr>hoConn := c, hoFirstRequest := False\<rparr>)
           | (Panic, c) \<Rightarrow> (Panic, o1\<lparr>hoConn := c\<rparr>))
      else
        (case stream_write wr b (hoConn o1) of
           (Ok _, c) \<Rightarrow> (Ok (length b), o1\<lparr>hoConn := c\<rparr>)
         | (Fail e, c) \<Rightarrow> (Fail e, o1\<lparr>hoConn := c\<rparr>)
         | (Panic, c) \<Rightarrow> (Panic, o1\<lparr>hoConn := c\<rparr>)))"

text \<open>The first separator ends the header that is skipped.\<close>

lemma bytes_Index_first:
  assumes "\<And>i. i < length head \<Longrightarrow> take 4 (drop i (head @ crlf2)) \<noteq> crlf2"
  shows "bytes_Index (head @ crlf2 @ body) crlf2 = Some (length head)"
  using assms
proof (induction head)
  case Nil
  then show ?case by (simp add: crlf2_def)
next
  case (Cons x xs)
  have "take 4 ((x # xs) @ crlf2 @ body) = take 4 ((x # xs) @ crlf2)"
    by (cases xs) (simp_all add: crlf2_def numeral_eq_Suc take_Cons')
  moreover have "take 4 (drop 0 ((x # xs) @ crlf2)) \<noteq> crlf2" by (rule Cons.prems) simp
  ultimately have "take 4 ((x # xs) @ crlf2 @ body) \<noteq> crlf2" by (metis drop0)
  moreover have "bytes_Index (xs @ crlf2 @ body) crlf2 = Some (length xs)"
    using Cons.prems [of "Suc i" for i] by (intro Cons.IH) auto
  moreover have "length crlf2 = 4" by (simp add: crlf2_def)
  ultimately show ?case by simp
qed

lemma HTTPObfs_first_read:
  assumes "\<And>i. i < length head \<Longrightarrow> take 4 (drop i (head @ crlf2)) \<noteq> crlf2"
    and "stream_recv got RelayBufferSize c = (Ok (head @ crlf2 @ body), c')"
  shows "\<exists>o1. HTTPObfs_Read got k (NewHTTPObfs c host port) = (Ok (take k body), o1) \<and> hoConn o1 = c' \<and>
    hoBuf o1 = (if length body > k then Some (drop k body) else None) \<and> \<not> hoFirstResponse o1"
proof -
  have "drop (length head + 4) (head @ crlf2 @ body) = body" by (simp add: crlf2_def)
  with bytes_Index_first [OF assms(1)] assms(2) show ?thesis
    by (simp add: HTTPObfs_Read_def NewHTTPObfs_def Let_def)
qed

text \<open>A response header that does not arrive in one piece is taken for the end of the stream.\<close>

lemma HTTPObfs_split_header:
  assumes "stream_recv got RelayBufferSize c = (Ok buf, c')" and "bytes_Index buf crlf2 = None"
  shows "fst (HTTPObfs_Read got k (NewHTTPObfs c host port)) = Fail IoEOF"
  using assms by (simp add: HTTPObfs_Read_def NewHTTPObfs_def)

end
