(* ===== verification/EngineProxy.thy ===== *)
theory EngineProxy
  imports RelayProxy SocksClient ShadowCipher SimpleObfs
begin

text \<open>
  The outbound proxies of the packet engine, \<^verbatim>\<open>tun2socks/proxy\<close>: how a session is dialled through a
  direct connection, an HTTP, SOCKS4, SOCKS5, Shadowsocks or relay server, and how its datagrams are
  wrapped. The dialler of the operating system, the resolver, random bytes and \<^verbatim>\<open>http.ReadResponse\<close> are
  arguments (record \<open>outbound_env\<close>). A dial keeps a log of what it opens and closes. Shown here: a dial
  that fails leaves nothing open, one that succeeds has opened exactly the connection it
  returns, and a datagram keeps its address and payload through Shadowsocks.
\<close>

section \<open>Protocols\<close>

datatype Proto = ProtoDirect | ProtoReject | ProtoHTTP | ProtoSocks4 | ProtoSocks5 | ProtoShadowsocks | ProtoRelay | ProtoOther nat

fun Proto_String :: "Proto \<Rightarrow> string" where
  "Proto_String ProtoDirect = ''direct''"
| "Proto_String ProtoReject = ''reject''"
| "Proto_String ProtoHTTP = ''http''"
| "Proto_String ProtoSocks4 = ''socks4''"
| "Proto_String ProtoSocks5 = ''socks5''"
| "Proto_String ProtoShadowsocks = ''ss''"
| "Proto_String ProtoRelay = ''relay''"
| "Proto_String (ProtoOther n) = ''proto('' @ Itoa (int n) @ '')''"

text \<open>\<^verbatim>\<open>Base.Addr\<close> and \<^verbatim>\<open>Base.Proto\<close>, as each constructor sets them.\<close>

fun proxy_Addr :: "proxy \<Rightarrow> string" where
  "proxy_Addr (PHTTP a _ _) = a"
| "proxy_Addr (PSocks4 a _) = a"
| "proxy_Addr (PSocks5 a _ _ _) = a"
| "proxy_Addr (PShadowsocks a _ _ _ _) = a"
| "proxy_Addr (PRelay a _ _ _) = a"
| "proxy_Addr _ = []"

fun proxy_Proto :: "proxy \<Rightarrow> Proto" where
  "proxy_Proto PReject = ProtoReject"
| "proxy_Proto (PHTTP _ _ _) = ProtoHTTP"
| "proxy_Proto (PSocks4 _ _) = ProtoSocks4"
| "proxy_Proto (PSocks5 _ _ _ _) = ProtoSocks5"
| "proxy_Proto (PShadowsocks _ _ _ _ _) = ProtoShadowsocks"
| "proxy_Proto (PRelay _ _ _ _) = ProtoRelay"
| "proxy_Proto _ = ProtoDirect"

definition NewDirect :: proxy where "NewDirect = PDirect"
definition NewReject :: proxy where "NewReject = PReject"

definition NewHTTP :: "string \<Rightarrow> string \<Rightarrow> string \<Rightarrow> go_error + proxy" where
  "NewHTTP a user pass = Inr (PHTTP a user pass)"

definition NewSocks4 :: "string \<Rightarrow> string \<Rightarrow> go_error + proxy" where "NewSocks4 a userID = Inr (PSocks4 a userID)"

definition NewRelay :: "string \<Rightarrow> string \<Rightarrow> string \<Rightarrow> bool \<Rightarrow> go_error + proxy" where
  "NewRelay a user pass noDelay = Inr (PRelay a user pass noDelay)"

definition ErrUnsupported :: go_error where "ErrUnsupported = ErrorNew ''unsupported operation''"

definition Base_DialContext :: "Metadata \<Rightarrow> ('w, 'a) io" where "Base_DialContext m = io_fail ErrUnsupported"
definition Base_DialUDP :: "Metadata \<Rightarrow> ('w, 'a) io" where "Base_DialUDP m = io_fail ErrUnsupported"

section \<open>Dialling\<close>

text \<open>What a dial opens and closes; a dial opens at most one connection and one packet socket.\<close>

datatype res_event = Opened string string | KeptAlive | ConnClosed | PacketOpened | PacketClosed | Spawned

record dial_world =
  dwConn :: sconn
  dwLog :: "res_event list"

record outbound_env =
  xeLib :: netlib
  xeDial :: "string \<Rightarrow> string \<Rightarrow> go_error + bytes"      \<comment> \<open>network and address; what will arrive on the connection\<close>
  xeListen :: "go_error option"
  xeResolve :: "string \<Rightarrow> go_error + bytes \<times> int"        \<comment> \<open>\<^verbatim>\<open>net.ResolveUDPAddr\<close>\<close>
  xeWr :: "nat \<Rightarrow> go_error option"                      \<comment> \<open>the error of the n-th write on the connection\<close>
  xeHex :: "byte \<Rightarrow> string"
  xeResponse :: "bytes \<Rightarrow> go_error + int \<times> string \<times> nat"  \<comment> \<open>code, status text and the number of bytes taken\<close>
  xeRelay :: relay_lib
  xePrims :: prims
  xeSalt :: bytes                                        \<comment> \<open>the random bytes of the cipher\<close>
  xeSeed :: hello_seed
  xeURL :: "string \<Rightarrow> bool"
  xeAgent :: string
  xeKey :: string
  xeCustom :: "string \<Rightarrow> Metadata \<Rightarrow> (dial_world, unit) io"   \<comment> \<open>a proxy set by \<^verbatim>\<open>SetCustomProxy\<close>\<close>

definition dlog :: "res_event \<Rightarrow> (dial_world, unit) io" where
  "dlog ev w = (Ok (), w\<lparr>dwLog := dwLog w @ [ev]\<rparr>)"

definition on_dialled :: "(sconn, 'a) io \<Rightarrow> (dial_world, 'a) io" where
  "on_dialled m w = (case m (dwConn w) of (x, c) \<Rightarrow> (x, w\<lparr>dwConn := c\<rparr>))"

definition dialer_DialContext :: "outbound_env \<Rightarrow> string \<Rightarrow> string \<Rightarrow> (dial_world, unit) io" where
  "dialer_DialContext env network address w =
     (case xeDial env network address of
        Inl e \<Rightarrow> (Fail e, w)
      | Inr i \<Rightarrow> (Ok (), \<lparr>dwConn = \<lparr>scIn = i, scOut = []\<rparr>, dwLog = dwLog w @ [Opened network address]\<rparr>))"

definition dialer_ListenPacket :: "outbound_env \<Rightarrow> (dial_world, unit) io" where
  "dialer_ListenPacket env = (case xeListen env of Some e \<Rightarrow> io_fail e | None \<Rightarrow> dlog PacketOpened)"

text \<open>Only a TCP connection can be kept alive.\<close>

definition setKeepAlive :: "string \<Rightarrow> (dial_world, unit) io" where
  "setKeepAlive network = (if network = ''unix'' then io_return () else dlog KeptAlive)"

text \<open>The deferred \<^verbatim>\<open>safeConnClose(c, err)\<close> around the rest of the function.\<close>

definition safeConnClose :: "(dial_world, 'a) io \<Rightarrow> (dial_world, 'a) io" where
  "safeConnClose m w =
     (case m w of
        (Fail e, w') \<Rightarrow> (Fail e, snd (dlog ConnClosed w'))
      | r \<Rightarrow> r)"

text \<open>The common frame: connect to the server, then shake hands and close if that fails.\<close>

definition dial_server :: "outbound_env \<Rightarrow> string \<Rightarrow> string \<Rightarrow> (dial_world, 'a) io \<Rightarrow> (dial_world, 'a) io" where
  "dial_server env network address rest =
     io_bind (io_wrap (''connect to '' @ address) (dialer_DialContext env network address)) (\<lambda>_.
     io_bind (setKeepAlive network) (\<lambda>_. safeConnClose rest))"

section \<open>HTTP\<close>

text \<open>\<^verbatim>\<open>base64.StdEncoding\<close>.\<close>

definition base64_alphabet :: string where
  "base64_alphabet = ''ABCDEFGHIJKLMNOPQRSTUVWXYZabcdefghijklmnopqrstuvwxyz0123456789+/''"

definition b64 :: "nat \<Rightarrow> char" where "b64 n = base64_alphabet ! (n mod 64)"

fun base64 :: "bytes \<Rightarrow> string" where
  "base64 [] = []"
| "base64 [a] = [b64 (unat a div 4), b64 (unat a * 16), CHR ''='', CHR ''='']"
| "base64 [a, b] = [b64 (unat a div 4), b64 (unat a * 16 + unat b div 16), b64 (unat b * 4), CHR ''='']"
| "base64 (a # b # c # xs) =
     [b64 (unat a div 4), b64 (unat a * 16 + unat b div 16), b64 (unat b * 4 + unat c div 64), b64 (unat c)] @ base64 xs"

definition basicAuth :: "string \<Rightarrow> string \<Rightarrow> string" where
  "basicAuth username password = base64 (bytes_of_string (username @ '':'' @ password))"

text \<open>The request as \<^verbatim>\<open>http.Request.Write\<close> prints it: header fields in alphabetical order.\<close>

definition connect_request :: "string \<Rightarrow> string \<Rightarrow> string \<Rightarrow> bytes" where
  "connect_request host user pass =
     bytes_of_string (''CONNECT '' @ host @ '' HTTP/1.1'' @ crlf @ ''Host: '' @ host @ crlf
       @ ''User-Agent: Go-http-client/1.1'' @ crlf
       @ (if user \<noteq> [] \<and> pass \<noteq> [] then ''Proxy-Authorization: Basic '' @ basicAuth user pass @ crlf else [])
       @ ''Proxy-Connection: Keep-Alive'' @ crlf @ crlf)"

text \<open>
  \<^verbatim>\<open>shakeHand\<close>. The buffered reader takes from the connection what one read gives it; what is behind
  the response stays in the reader, which is dropped.
\<close>

definition http_shakeHand :: "outbound_env \<Rightarrow> string \<Rightarrow> string \<Rightarrow> Metadata \<Rightarrow> (sconn, unit) io" where
  "http_shakeHand env user pass m =
     io_bind (stream_write (xeWr env) (connect_request (DestinationAddress (xeLib env) m) user pass)) (\<lambda>_ c.
       case xeResponse env (scIn c) of
         Inl e \<Rightarrow> (Fail e, c)
       | Inr (code, status, taken) \<Rightarrow>
           (if code = 200 then Ok ()
            else if code = 407 then Fail (ErrorNew ''HTTP auth required by proxy'')
            else if code = 405 then Fail (ErrorNew ''CONNECT method not allowed by proxy'')
            else Fail (ErrorNew (''HTTP connect status: '' @ status)), c\<lparr>scIn := drop taken (scIn c)\<rparr>))"

definition http_DialContext :: "outbound_env \<Rightarrow> string \<Rightarrow> string \<Rightarrow> string \<Rightarrow> Metadata \<Rightarrow> (dial_world, unit) io" where
  "http_DialContext env a user pass m = dial_server env ''tcp'' a (on_dialled (http_shakeHand env user pass m))"

section \<open>Direct, reject and SOCKS\<close>

definition direct_DialContext :: "outbound_env \<Rightarrow> Metadata \<Rightarrow> (dial_world, unit) io" where
  "direct_DialContext env m =
     io_bind (dialer_DialContext env ''tcp'' (DestinationAddress (xeLib env) m)) (\<lambda>_. setKeepAlive ''tcp'')"

definition direct_DialUDP :: "outbound_env \<Rightarrow> (dial_world, unit) io" where
  "direct_DialUDP env = dialer_ListenPacket env"

text \<open>Where a datagram goes: an address with a port as it is, anything else after resolving its text.\<close>

definition direct_WriteTo :: "outbound_env \<Rightarrow> (bytes \<Rightarrow> bytes \<times> int \<Rightarrow> go_error option) \<Rightarrow> bytes \<Rightarrow> (bytes \<times> int) + string
    \<Rightarrow> ((bytes \<times> (bytes \<times> int)) list, nat) io" where
  "direct_WriteTo env send b to_addr sent =
     (case (case to_addr of Inl u \<Rightarrow> Inr u | Inr s \<Rightarrow> xeResolve env s) of
        Inl e \<Rightarrow> (Fail e, sent)
      | Inr u \<Rightarrow> (case send b u of Some e \<Rightarrow> (Fail e, sent) | None \<Rightarrow> (Ok (length b), sent @ [(b, u)])))"

text \<open>A rejected session is answered by the end of the stream; datagrams are taken and dropped.\<close>

definition nop_Read :: "('w, bytes) io" where "nop_Read = io_fail IoEOF"
definition nop_Write :: "bytes \<Rightarrow> ('w, nat) io" where "nop_Write b = io_fail IoEOF"
definition nop_WriteTo :: "bytes \<Rightarrow> ('w, nat) io" where "nop_WriteTo b = io_return (length b)"
definition nop_ReadFrom :: "('w, bytes) io" where "nop_ReadFrom = io_fail IoEOF"

definition socks4_DialContext :: "outbound_env \<Rightarrow> string \<Rightarrow> string \<Rightarrow> Metadata \<Rightarrow> (dial_world, unit) io" where
  "socks4_DialContext env a userID m =
     dial_server env ''tcp'' a (on_dialled (socks4_Handshake (ParseAddr (xeLib env)) (xeWr env) (DestinationAddress (xeLib env) m)
       CmdConnect (bytes_of_string userID)))"

definition serializeSocksAddr :: "Metadata \<Rightarrow> bytes" where
  "serializeSocksAddr m = SerializeAddr [] (DstIP m) (DstPort m)"

definition socks_user :: "string \<Rightarrow> string \<Rightarrow> User option" where
  "socks_user user pass = (if user \<noteq> [] then Some \<lparr>Username = bytes_of_string user, Password = bytes_of_string pass\<rparr> else None)"

definition socks5_DialContext :: "outbound_env \<Rightarrow> string \<Rightarrow> string \<Rightarrow> string \<Rightarrow> bool \<Rightarrow> Metadata \<Rightarrow> (dial_world, unit) io" where
  "socks5_DialContext env a user pass unix m =
     dial_server env (if unix then ''unix'' else ''tcp'') a
       (io_bind (on_dialled (ClientHandshake (xeHex env) (xeWr env) (serializeSocksAddr m) CmdConnect (socks_user user pass)))
         (\<lambda>_. io_return ()))"

text \<open>
  \<^verbatim>\<open>Socks5.DialUDP\<close>: the association's connection, a packet socket, and a goroutine that closes both
  when the connection ends. The result is the relay's address.
\<close>

definition is_unspecified :: "bytes \<Rightarrow> bool" where
  "is_unspecified ip \<longleftrightarrow> (length ip = 4 \<or> length ip = 16) \<and> (\<forall>b \<in> set ip. b = 0)"

text \<open>\<^verbatim>\<open>%#v\<close> of an address: its bytes in hexadecimal.\<close>

definition hex_byte :: "byte \<Rightarrow> string" where
  "hex_byte b = (let d = (\<lambda>n. ''0123456789abcdef'' ! n) in
     ''0x'' @ (if unat b < 16 then [] else [d (unat b div 16)]) @ [d (unat b mod 16)])"

definition Addr_GoString :: "bytes \<Rightarrow> string" where
  "Addr_GoString a = ''socks5.Addr{'' @ concat (map (\<lambda>(i, b). (if i = 0 then [] else '', '') @ hex_byte b) (enumerate 0 a)) @ ''}''"

definition socks5_associate :: "outbound_env \<Rightarrow> string \<Rightarrow> string \<Rightarrow> string \<Rightarrow> (dial_world, bytes \<times> int) io" where
  "socks5_associate env a user pass =
     io_bind (io_wrap ''client handshake'' (on_dialled (ClientHandshake (xeHex env) (xeWr env) [AtypIPv4, 0, 0, 0, 0, 0, 0]
       CmdUDPAssociate (socks_user user pass)))) (\<lambda>bound.
     io_bind (io_wrap ''listen packet'' (dialer_ListenPacket env)) (\<lambda>_.
     io_bind (dlog Spawned) (\<lambda>_.
     case Addr_UDPAddr bound of
       None \<Rightarrow> io_fail (ErrorNew (''invalid UDP binding address: '' @ Addr_GoString bound))
     | Some (ip, port) \<Rightarrow>
         if is_unspecified ip then
           (case xeResolve env a of
              Inl e \<Rightarrow> io_fail (opError (''resolve udp address '' @ a) e)
            | Inr (ip', _) \<Rightarrow> io_return (ip', port))
         else io_return (ip, port))))"

definition socks5_DialUDP :: "outbound_env \<Rightarrow> string \<Rightarrow> string \<Rightarrow> string \<Rightarrow> bool \<Rightarrow> (dial_world, bytes \<times> int) io" where
  "socks5_DialUDP env a user pass unix =
     (if unix then io_fail (ErrorNew ''unsupported operation when unix domain socket is enabled'')
      else dial_server env ''tcp'' a (socks5_associate env a user pass))"

text \<open>The address of a datagram: the metadata of a session, or another address.\<close>

datatype pk_addr = MAddr Metadata | OtherAddr net_addr

definition socks_ParseAddr :: "netlib \<Rightarrow> net_addr \<Rightarrow> bytes option outcome" where
  "socks_ParseAddr lib a =
     (case a of
        NilAddr \<Rightarrow> Panic
      | WithAddrPort ip port \<Rightarrow> Ok (Some (SerializeAddr [] ip port))
      | TextAddr s \<Rightarrow> Ok (ParseAddrString (ParseAddr lib) s))"

definition socks_packet :: "netlib \<Rightarrow> bytes \<Rightarrow> pk_addr \<Rightarrow> bytes outcome" where
  "socks_packet lib b to_addr =
     (case (case to_addr of MAddr m \<Rightarrow> Ok (Some (serializeSocksAddr m)) | OtherAddr a \<Rightarrow> socks_ParseAddr lib a) of
        Panic \<Rightarrow> Panic
      | Fail e \<Rightarrow> Fail e
      | Ok a \<Rightarrow> (case EncodeUDPPacket a b of Inl e \<Rightarrow> Fail e | Inr p \<Rightarrow> Ok p))"

definition socks_WriteTo :: "netlib \<Rightarrow> (bytes \<Rightarrow> go_error option) \<Rightarrow> bytes \<Rightarrow> pk_addr \<Rightarrow> (bytes list, nat) io" where
  "socks_WriteTo lib send b to_addr sent =
     (case socks_packet lib b to_addr of
        Panic \<Rightarrow> (Panic, sent)
      | Fail e \<Rightarrow> (Fail e, sent)
      | Ok p \<Rightarrow> (case send p of Some e \<Rightarrow> (Fail e, sent) | None \<Rightarrow> (Ok (length p), sent @ [p])))"

section \<open>Shadowsocks\<close>

record Shadowsocks =
  ssAddr :: string
  ssCipher :: picked
  ssObfsMode :: string
  ssObfsHost :: string

text \<open>\<^const>\<open>None\<close>: the key derivation does not end.\<close>

definition NewShadowsocks :: "prims \<Rightarrow> string \<Rightarrow> string \<Rightarrow> string \<Rightarrow> string \<Rightarrow> string \<Rightarrow> (go_error + Shadowsocks) option" where
  "NewShadowsocks P a method password mode host =
     map_option (\<lambda>r. case r of
         Inl e \<Rightarrow> Inl (opError ''ss initialize'' e)
       | Inr c \<Rightarrow> Inr \<lparr>ssAddr = a, ssCipher = c, ssObfsMode = mode, ssObfsHost = host\<rparr>)
     (PickCipher P method [] password)"

datatype obfs_conn = PlainConn sconn | TlsConn TLSObfs | HttpConn HTTPObfs

fun base_conn :: "obfs_conn \<Rightarrow> sconn" where
  "base_conn (PlainConn c) = c"
| "base_conn (TlsConn t) = toConn t"
| "base_conn (HttpConn h) = hoConn h"

definition obfs_wrap :: "Shadowsocks \<Rightarrow> sconn \<Rightarrow> obfs_conn" where
  "obfs_wrap ss c =
     (if ssObfsMode ss = ''tls'' then TlsConn (NewTLSObfs c (ssObfsHost ss))
      else if ssObfsMode ss = ''http'' then
        HttpConn (NewHTTPObfs c (ssObfsHost ss) (case SplitHostPort (ssAddr ss) of Inl _ \<Rightarrow> [] | Inr (_, port) \<Rightarrow> port))
      else PlainConn c)"

fun obfs_Write :: "outbound_env \<Rightarrow> bytes \<Rightarrow> (obfs_conn, nat) io" where
  "obfs_Write env b (PlainConn c) =
     (case stream_write (xeWr env) b c of (r, c') \<Rightarrow> (case r of Ok _ \<Rightarrow> Ok (length b) | Fail e \<Rightarrow> Fail e | Panic \<Rightarrow> Panic, PlainConn c'))"
| "obfs_Write env b (TlsConn t) = (case TLSObfs_Write (xeWr env) (xeSeed env) b t of (r, t') \<Rightarrow> (r, TlsConn t'))"
| "obfs_Write env b (HttpConn h) =
     (case HTTPObfs_Write (xeURL env) (xeWr env) (xeAgent env) (xeKey env) b h of (r, h') \<Rightarrow> (r, HttpConn h'))"

text \<open>The cipher's connection; what it writes goes to the connection below it, which is kept apart.\<close>

datatype cipher_conn = CPlain | CAead cconn | CStream ssconn

definition no_conn :: sconn where "no_conn = \<lparr>scIn = [], scOut = []\<rparr>"

text \<open>The first \<^verbatim>\<open>Write\<close> on \<^verbatim>\<open>cipher.StreamConn(c)\<close>: its outcome if no write below fails, and the writes below.\<close>

definition StreamConn_Write :: "picked \<Rightarrow> bytes \<Rightarrow> bytes \<Rightarrow> nat outcome \<times> cipher_conn \<times> bytes list" where
  "StreamConn_Write p salt b =
     (case p of
        Dummy \<Rightarrow> (Ok (length b), CPlain, [b])
      | AeadCipher m _ \<Rightarrow> (case Conn_Write m (\<lambda>_. None) salt b (NewConn no_conn) of (r, c) \<Rightarrow> (r, CAead c, scOut (ccConn c)))
      | StreamCipher m _ \<Rightarrow>
          (case sConn_Write m (\<lambda>_. None) salt b (sNewConn no_conn) of (r, c) \<Rightarrow> (r, CStream c, scOut (ssConn c))))"

text \<open>The cipher stops at the first write below that fails.\<close>

definition ss_Write :: "outbound_env \<Rightarrow> picked \<Rightarrow> bytes \<Rightarrow> (obfs_conn, cipher_conn) io" where
  "ss_Write env p b =
     (case StreamConn_Write p (xeSalt env) b of
        (r, cc, ws) \<Rightarrow>
          io_bind (io_each (\<lambda>x. io_bind (obfs_Write env x) (\<lambda>_. io_return ())) ws) (\<lambda>_ oc.
            (case r of Ok _ \<Rightarrow> Ok cc | Fail e \<Rightarrow> Fail e | Panic \<Rightarrow> Panic, oc)))"

definition ss_DialContext :: "outbound_env \<Rightarrow> Shadowsocks \<Rightarrow> Metadata \<Rightarrow> (dial_world, obfs_conn \<times> cipher_conn) io" where
  "ss_DialContext env ss m =
     dial_server env ''tcp'' (ssAddr ss) (\<lambda>w.
       case ss_Write env (ssCipher ss) (serializeSocksAddr m) (obfs_wrap ss (dwConn w)) of
         (r, oc) \<Rightarrow> (case r of Ok cc \<Rightarrow> Ok (oc, cc) | Fail e \<Rightarrow> Fail e | Panic \<Rightarrow> Panic, w\<lparr>dwConn := base_conn oc\<rparr>))"

definition ss_DialUDP :: "outbound_env \<Rightarrow> Shadowsocks \<Rightarrow> (dial_world, bytes \<times> int) io" where
  "ss_DialUDP env ss =
     io_bind (io_wrap ''listen packet'' (dialer_ListenPacket env)) (\<lambda>_.
     io_of_sum (case xeResolve env (ssAddr ss) of
       Inl e \<Rightarrow> Inl (opError (''resolve udp address '' @ ssAddr ss) e)
     | Inr u \<Rightarrow> Inr u))"

text \<open>The packet socket under the cipher: \<^verbatim>\<open>WriteTo\<close> and \<^verbatim>\<open>ReadFrom\<close> into \<open>k\<close> bytes.\<close>

definition cipher_WriteTo :: "picked \<Rightarrow> bytes \<Rightarrow> (bytes \<Rightarrow> go_error option) \<Rightarrow> bytes \<Rightarrow> (bytes list, nat) io" where
  "cipher_WriteTo p salt send b sent =
     (case p of
        Dummy \<Rightarrow> (case send b of Some e \<Rightarrow> (Fail e, sent) | None \<Rightarrow> (Ok (length b), sent @ [b]))
      | AeadCipher m _ \<Rightarrow> PacketConn_WriteTo m salt send b sent
      | StreamCipher m _ \<Rightarrow> sPacketConn_WriteTo m salt send b sent)"

definition cipher_ReadFrom :: "picked \<Rightarrow> nat \<Rightarrow> go_error + bytes \<Rightarrow> bytes outcome" where
  "cipher_ReadFrom p k arrived =
     (case p of
        Dummy \<Rightarrow> (case arrived of Inl e \<Rightarrow> Fail e | Inr b \<Rightarrow> Ok (take k b))
      | AeadCipher m _ \<Rightarrow> PacketConn_ReadFrom m k arrived
      | StreamCipher m _ \<Rightarrow> sPacketConn_ReadFrom m k arrived)"

definition ss_WriteTo :: "netlib \<Rightarrow> picked \<Rightarrow> bytes \<Rightarrow> (bytes \<Rightarrow> go_error option) \<Rightarrow> bytes \<Rightarrow> pk_addr \<Rightarrow> (bytes list, nat) io" where
  "ss_WriteTo lib p salt send b to_addr sent =
     (case socks_packet lib b to_addr of
        Panic \<Rightarrow> (Panic, sent)
      | Fail e \<Rightarrow> (Fail e, sent)
      | Ok pkt \<Rightarrow> (case go_slice pkt 3 (int (length pkt)) of None \<Rightarrow> (Panic, sent) | Some x \<Rightarrow> cipher_WriteTo p salt send x sent))"

text \<open>The payload, moved to the front of the buffer, and its sender.\<close>

definition ss_ReadFrom :: "picked \<Rightarrow> nat \<Rightarrow> go_error + bytes \<Rightarrow> (bytes \<times> bytes \<times> int) outcome" where
  "ss_ReadFrom p k arrived =
     (case cipher_ReadFrom p k arrived of
        Panic \<Rightarrow> Panic
      | Fail e \<Rightarrow> Fail e
      | Ok x \<Rightarrow>
          (case SplitAddr x of
             None \<Rightarrow> Fail (ErrorNew ''parse addr error'')
           | Some a \<Rightarrow>
               (case Addr_UDPAddr a of
                  None \<Rightarrow> Fail (ErrorNew ''parse addr error'')
                | Some u \<Rightarrow> Ok (drop (length a) x, u))))"

section \<open>Relay\<close>

definition relay_send :: "outbound_env \<Rightarrow> relay_request \<Rightarrow> (sconn, unit) io" where
  "relay_send env req = io_bind (io_of_sum (rlRequest (xeRelay env) req)) (io_each (stream_write (xeWr env)))"

definition relay_dialContext :: "outbound_env \<Rightarrow> string \<Rightarrow> string \<Rightarrow> string \<Rightarrow> bool \<Rightarrow> Metadata \<Rightarrow> (dial_world, relayConn) io" where
  "relay_dialContext env a user pass noDelay m =
     dial_server env ''tcp'' a
       (let req = relay_request_of (xeLib env) user pass m in
        io_bind
          (if noDelay then io_bind (on_dialled (relay_send env req)) (\<lambda>_. on_dialled (readRelayResponse (xeRelay env)))
           else io_return ()) (\<lambda>_ w.
        let rc = newRelayConn (dwConn w) m noDelay (mdNetwork m = UDP) in
        if noDelay then (Ok rc, w)
        else case rlRequest (xeRelay env) req of
          Inl e \<Rightarrow> (Fail e, w)
        | Inr ws \<Rightarrow> (Ok (rc\<lparr>rcWbuf := Some (concat ws)\<rparr>), w)))"

section \<open>Any proxy\<close>

datatype tcp_conn = RawConn | NopConn | ShadowConn obfs_conn cipher_conn | RelayedConn relayConn

definition io_map :: "('a \<Rightarrow> 'b) \<Rightarrow> ('w, 'a) io \<Rightarrow> ('w, 'b) io" where
  "io_map f m = io_bind m (\<lambda>x. io_return (f x))"

fun proxy_DialContext :: "outbound_env \<Rightarrow> proxy \<Rightarrow> Metadata \<Rightarrow> (dial_world, tcp_conn) io" where
  "proxy_DialContext env PDirect m = io_map (\<lambda>_. RawConn) (direct_DialContext env m)"
| "proxy_DialContext env PReject m = io_return NopConn"
| "proxy_DialContext env (PHTTP a user pass) m = io_map (\<lambda>_. RawConn) (http_DialContext env a user pass m)"
| "proxy_DialContext env (PSocks4 a userID) m = io_map (\<lambda>_. RawConn) (socks4_DialContext env a userID m)"
| "proxy_DialContext env (PSocks5 a user pass unix) m = io_map (\<lambda>_. RawConn) (socks5_DialContext env a user pass unix m)"
| "proxy_DialContext env (PShadowsocks a method password mode host) m =
     (case NewShadowsocks (xePrims env) a method password mode host of
        Some (Inr ss) \<Rightarrow> io_map (\<lambda>(oc, cc). ShadowConn oc cc) (ss_DialContext env ss m)
      | _ \<Rightarrow> (\<lambda>w. (Panic, w)))"
| "proxy_DialContext env (PRelay a user pass noDelay) m = io_map RelayedConn (relay_dialContext env a user pass noDelay m)"
| "proxy_DialContext env (PCustom name) m = io_map (\<lambda>_. RawConn) (xeCustom env name m)"

datatype packet_conn = RawPacket | NopPacket | RelayedPacket "bytes \<times> int" | ShadowPacket "bytes \<times> int" | RelayPacket relayConn

fun proxy_DialUDP :: "outbound_env \<Rightarrow> proxy \<Rightarrow> Metadata \<Rightarrow> (dial_world, packet_conn) io" where
  "proxy_DialUDP env PDirect m = io_map (\<lambda>_. RawPacket) (direct_DialUDP env)"
| "proxy_DialUDP env PReject m = io_return NopPacket"
| "proxy_DialUDP env (PHTTP a user pass) m = Base_DialUDP m"
| "proxy_DialUDP env (PSocks4 a userID) m = Base_DialUDP m"
| "proxy_DialUDP env (PSocks5 a user pass unix) m = io_map RelayedPacket (socks5_DialUDP env a user pass unix)"
| "proxy_DialUDP env (PShadowsocks a method password mode host) m =
     (case NewShadowsocks (xePrims env) a method password mode host of
        Some (Inr ss) \<Rightarrow> io_map ShadowPacket (ss_DialUDP env ss)
      | _ \<Rightarrow> (\<lambda>w. (Panic, w)))"
| "proxy_DialUDP env (PRelay a user pass noDelay) m = io_map RelayPacket (relay_dialContext env a user pass noDelay m)"
| "proxy_DialUDP env (PCustom name) m = io_map (\<lambda>_. RawPacket) (xeCustom env name m)"

text \<open>The package's default dialler, \<^const>\<open>None\<close> before \<^verbatim>\<open>SetDialer\<close>: then every dial is refused.\<close>

definition proxy_SetDialer :: "proxy \<Rightarrow> proxy option \<Rightarrow> proxy option" where "proxy_SetDialer d defaultDialer = Some d"

definition default_DialContext :: "outbound_env \<Rightarrow> proxy option \<Rightarrow> Metadata \<Rightarrow> (dial_world, tcp_conn) io" where
  "default_DialContext env d m = (case d of None \<Rightarrow> Base_DialContext m | Some p \<Rightarrow> proxy_DialContext env p m)"

definition default_DialUDP :: "outbound_env \<Rightarrow> proxy option \<Rightarrow> Metadata \<Rightarrow> (dial_world, packet_conn) io" where
  "default_DialUDP env d m = (case d of None \<Rightarrow> Base_DialUDP m | Some p \<Rightarrow> proxy_DialUDP env p m)"

section \<open>Nothing is left open\<close>

fun proxy_endpoint :: "netlib \<Rightarrow> proxy \<Rightarrow> Metadata \<Rightarrow> string \<times> string" where
  "proxy_endpoint lib PDirect m = (''tcp'', DestinationAddress lib m)"
| "proxy_endpoint lib (PSocks5 a _ _ unix) m = (if unix then ''unix'' else ''tcp'', a)"
| "proxy_endpoint lib p m = (''tcp'', proxy_Addr p)"

text \<open>The log of a connection to an endpoint.\<close>

definition dialled :: "string \<times> string \<Rightarrow> res_event list" where
  "dialled e = Opened (fst e) (snd e) # (if fst e = ''unix'' then [] else [KeptAlive])"

definition keeps_log :: "(dial_world, 'a) io \<Rightarrow> bool" where
  "keeps_log m \<longleftrightarrow> (\<forall>w. dwLog (snd (m w)) = dwLog w)"

named_theorems log_intros \<open>code that opens and closes nothing\<close>

lemma keeps_log_dialled [log_intros]: "keeps_log (on_dialled m)"
  by (simp add: keeps_log_def on_dialled_def split: prod.splits)

lemma keeps_log_return [log_intros]: "keeps_log (io_return x)"
  by (simp add: keeps_log_def io_return_def)

lemma keeps_log_bind [log_intros]: "keeps_log m \<Longrightarrow> (\<And>x. keeps_log (k x)) \<Longrightarrow> keeps_log (io_bind m k)"
  by (auto simp: keeps_log_def io_bind_def split: outcome.splits prod.splits) (metis snd_conv)+

lemma keeps_log_let [log_intros]: "keeps_log (f x) \<Longrightarrow> keeps_log (let y = x in f y)"
  by simp

lemma keeps_log_if [log_intros]: "keeps_log m \<Longrightarrow> keeps_log n \<Longrightarrow> keeps_log (if b then m else n)"
  by simp

text \<open>What a dial to an endpoint has done to the log, by its outcome.\<close>

definition accounted :: "outbound_env \<Rightarrow> string \<times> string \<Rightarrow> dial_world \<Rightarrow> 'a outcome \<times> dial_world \<Rightarrow> bool" where
  "accounted env e w r \<longleftrightarrow>
     (case r of
        (Ok _, w') \<Rightarrow> dwLog w' = dwLog w @ dialled e
      | (Fail _, w') \<Rightarrow> dwLog w' = dwLog w @ (if isl (xeDial env (fst e) (snd e)) then [] else dialled e @ [ConnClosed])
      | (Panic, _) \<Rightarrow> True)"

lemma accounted_map: "accounted env e w (m w) \<Longrightarrow> accounted env e w (io_map f m w)"
  by (auto simp: accounted_def io_map_def io_bind_def io_return_def split: outcome.splits prod.splits)

lemma accounted_dial_server:
  assumes "keeps_log m"
  shows "accounted env (n, a) w (dial_server env n a m w)"
proof (cases "xeDial env n a")
  case (Inl e)
  then show ?thesis
    by (simp add: accounted_def dial_server_def io_bind_def io_wrap_def dialer_DialContext_def)
next
  case (Inr i)
  let ?w = "\<lparr>dwConn = \<lparr>scIn = i, scOut = []\<rparr>, dwLog = dwLog w @ dialled (n, a)\<rparr>"
  have "dial_server env n a m w = safeConnClose m ?w"
    using Inr by (simp add: dial_server_def io_bind_def io_wrap_def dialer_DialContext_def setKeepAlive_def io_return_def dlog_def
        dialled_def del: io_bind_Ok_iff)
  moreover have "dwLog (snd (m ?w)) = dwLog ?w" using assms by (simp add: keeps_log_def)
  ultimately show ?thesis
    using Inr by (cases "m ?w") (auto simp: accounted_def safeConnClose_def dlog_def split: outcome.splits)
qed

lemma keeps_log_relay [log_intros]:
  "keeps_log (\<lambda>w. let rc = newRelayConn (dwConn w) m noDelay udp in
     if noDelay then (Ok rc, w) else case x of Inl e \<Rightarrow> (Fail e, w) | Inr ws \<Rightarrow> (Ok (rc\<lparr>rcWbuf := Some (concat ws)\<rparr>), w))"
  by (simp add: keeps_log_def Let_def split: sum.splits)

lemma accounted_dials:
  "accounted env (''tcp'', a) w (http_DialContext env a user pass m w)"
  "accounted env (''tcp'', a) w (socks4_DialContext env a userID m w)"
  "accounted env (if unix then ''unix'' else ''tcp'', a) w (socks5_DialContext env a user pass unix m w)"
  "accounted env (''tcp'', ssAddr ss) w (ss_DialContext env ss m w)"
  "accounted env (''tcp'', a) w (relay_dialContext env a user pass noDelay m w)"
  unfolding http_DialContext_def socks4_DialContext_def socks5_DialContext_def ss_DialContext_def relay_dialContext_def
  by (rule accounted_dial_server, (intro log_intros; fail | simp add: keeps_log_def split: prod.splits))+

text \<open>The handshakes written in the repository do not panic.\<close>

lemma returns_stream [returns_intros]:
  "returns (\<lambda>_. True) False (stream_read n)" "returns (\<lambda>_. True) False (stream_write wr b)"
  by (simp_all add: returns_def stream_read_def stream_write_def split: option.splits)

lemma returns_handshakes:
  "returns (\<lambda>_. True) False (ClientHandshake hex wr a command user)"
  "returns (\<lambda>_. True) False (socks4_Handshake parseAddr wr target command userID)"
  "returns (\<lambda>_. True) False (http_shakeHand env name pass m)"
proof -
  have "returns (\<lambda>_. True) False (auth_step wr u)" for u
    by (simp add: auth_step_def Let_def returns_intros)
  then show "returns (\<lambda>_. True) False (ClientHandshake hex wr a command user)"
    unfolding ClientHandshake_def ReadAddr_def by (cases user) (auto intro!: returns_intros)
  show "returns (\<lambda>_. True) False (socks4_Handshake parseAddr wr target command userID)"
    unfolding socks4_Handshake_def io_of_sum_def by (auto intro!: returns_intros split: sum.splits option.splits prod.splits)
  show "returns (\<lambda>_. True) False (http_shakeHand env name pass m)"
    unfolding http_shakeHand_def
    by (intro returns_bind returns_stream) (auto simp: returns_def split: sum.splits)
qed

lemma dial_server_no_panic:
  assumes "returns (\<lambda>_. True) False m"
  shows "fst (dial_server env n a (on_dialled m) w) \<noteq> Panic"
proof (cases "xeDial env n a")
  case (Inr i)
  have "fst (on_dialled m w) \<noteq> Panic" for w
    using assms by (auto simp: returns_def on_dialled_def split: prod.splits) (metis fst_conv)
  then have "fst (safeConnClose (on_dialled m) w) \<noteq> Panic" for w
    by (auto simp: safeConnClose_def split: outcome.splits prod.splits) (metis fst_conv)+
  with Inr show ?thesis
    by (simp add: dial_server_def io_bind_def io_wrap_def dialer_DialContext_def setKeepAlive_def io_return_def dlog_def)
qed (simp add: dial_server_def io_bind_def io_wrap_def dialer_DialContext_def)

lemma io_map_panic: "fst (io_map f m w) = Panic \<longleftrightarrow> fst (m w) = Panic"
  by (auto simp: io_map_def io_bind_def io_return_def split: outcome.splits prod.splits)

lemma on_dialled_bind_return: "io_bind (on_dialled m) (\<lambda>_. io_return ()) = on_dialled (io_bind m (\<lambda>_. io_return ()))"
  by (auto simp: on_dialled_def io_bind_def io_return_def fun_eq_iff split: outcome.splits prod.splits)

lemma dials_no_panic:
  "fst (http_DialContext env a user pass m w) \<noteq> Panic"
  "fst (socks4_DialContext env a user m w) \<noteq> Panic"
  "fst (socks5_DialContext env a user pass unix m w) \<noteq> Panic"
  "fst (direct_DialContext env m w) \<noteq> Panic"
  unfolding http_DialContext_def socks4_DialContext_def socks5_DialContext_def on_dialled_bind_return
  by (intro dial_server_no_panic returns_handshakes returns_bind returns_return)+
    (simp add: direct_DialContext_def io_bind_def dialer_DialContext_def setKeepAlive_def dlog_def split: sum.splits)

lemma accounted_direct: "accounted env (''tcp'', DestinationAddress (xeLib env) m) w (direct_DialContext env m w)"
  by (simp add: accounted_def direct_DialContext_def io_bind_def dialer_DialContext_def setKeepAlive_def dlog_def dialled_def
      split: sum.splits)

lemma NewShadowsocks_addr: "NewShadowsocks P a method password mode host = Some (Inr ss) \<Longrightarrow> ssAddr ss = a"
  by (auto simp: NewShadowsocks_def split: sum.splits)

lemma accounted_proxy:
  assumes "\<And>s. p \<noteq> PCustom s" and "p \<noteq> PReject"
  shows "accounted env (proxy_endpoint (xeLib env) p m) w (proxy_DialContext env p m w)"
proof (cases p)
  case (PShadowsocks a meth password mode host)
  then show ?thesis
    using NewShadowsocks_addr [of "xePrims env" a meth password mode host] accounted_dials(4) [of env _ w m]
    by (auto simp: accounted_def [of env _ w "(Panic, w)"] intro!: accounted_map split: option.splits sum.splits)
qed (use assms in \<open>simp_all add: accounted_map accounted_direct accounted_dials\<close>)


text \<open>A server that asks for a password that was not configured is left, and its connection closed.\<close>

definition outbound_example :: outbound_env where
  "outbound_example =
     \<lparr>xeLib = \<lparr>ParseAddr = (\<lambda>_. None), ParsePrefix = (\<lambda>_. Inl IoEOF), AddrString = (\<lambda>_. ''8.8.8.8'')\<rparr>,
      xeDial = (\<lambda>_ _. Inr [5, 2]), xeListen = None, xeResolve = (\<lambda>_. Inl IoEOF), xeWr = (\<lambda>_. None), xeHex = (\<lambda>_. []),
      xeResponse = (\<lambda>_. Inl IoEOF), xeRelay = relay_example,
      xePrims = \<lparr>pMD5 = (\<lambda>_. []), pHKDF = (\<lambda>_ _ _ _. []), pGCM = (\<lambda>_. Inl IoEOF), pPoly1305 = (\<lambda>_. Inl IoEOF), pPoly1305X = (\<lambda>_. Inl IoEOF),
        pCTR = (\<lambda>_ _ x. x), pCFBEnc = (\<lambda>_ _ x. x), pCFBDec = (\<lambda>_ _ x. x), pChacha20 = (\<lambda>_ _ x. x), pRC4 = (\<lambda>_ x. x)\<rparr>,
      xeSalt = [], xeSeed = seed_example, xeURL = (\<lambda>_. True), xeAgent = [], xeKey = [], xeCustom = (\<lambda>_ _. io_fail IoEOF)\<rparr>"


section \<open>Datagrams\<close>

text \<open>Whether the connection and the packet socket of a dial are open.\<close>

fun held_step :: "res_event \<Rightarrow> bool \<times> bool \<Rightarrow> bool \<times> bool" where
  "held_step (Opened _ _) (c, p) = (True, p)"
| "held_step ConnClosed (c, p) = (False, p)"
| "held_step PacketOpened (c, p) = (c, True)"
| "held_step PacketClosed (c, p) = (c, False)"
| "held_step _ (c, p) = (c, p)"

definition held :: "res_event list \<Rightarrow> bool \<times> bool" where
  "held es = fold held_step es (False, False)"

text \<open>The association's goroutine: it waits for the connection to end, and closes both.\<close>

definition goroutine :: "res_event list \<Rightarrow> res_event list" where
  "goroutine es = (if Spawned \<in> set es \<and> \<not> fst (held es) then es @ [ConnClosed, PacketClosed] else es)"

text \<open>
  The UDP association of the SOCKS5 client: on success the connection and the packet socket are
  open; when a step fails, also after the socket was opened, both are closed once the goroutine
  has seen the connection's end.
\<close>

theorem socks5_udp_accounted:
  "case socks5_DialUDP env a user pass unix \<lparr>dwConn = c, dwLog = []\<rparr> of
     (Ok _, w') \<Rightarrow> held (goroutine (dwLog w')) = (True, True)
   | (Fail _, w') \<Rightarrow> held (goroutine (dwLog w')) = (False, False)
   | (Panic, _) \<Rightarrow> False"
proof (cases "unix \<or> isl (xeDial env ''tcp'' a)")
  case True
  then show ?thesis
    by (cases unix) (auto simp: socks5_DialUDP_def io_fail_def held_def goroutine_def dial_server_def io_bind_def io_wrap_def
        dialer_DialContext_def isl_def)
next
  case False
  then obtain i where i: "xeDial env ''tcp'' a = Inr i" by (cases "xeDial env ''tcp'' a") auto
  let ?H = "ClientHandshake (xeHex env) (xeWr env) [AtypIPv4, 0, 0, 0, 0, 0, 0] CmdUDPAssociate (socks_user user pass)"
  obtain r c' where h: "?H \<lparr>scIn = i, scOut = []\<rparr> = (r, c')" by (cases "?H \<lparr>scIn = i, scOut = []\<rparr>")
  have "r \<noteq> Panic" using returns_handshakes(1) [unfolded returns_def] h by (metis fst_conv)
  with i h False show ?thesis
    by (cases r) (auto simp: socks5_DialUDP_def dial_server_def io_bind_def io_wrap_def dialer_DialContext_def setKeepAlive_def dlog_def
        safeConnClose_def socks5_associate_def on_dialled_def dialer_ListenPacket_def io_fail_def io_return_def held_def goroutine_def
        split: option.splits sum.splits outcome.splits)
qed

text \<open>Shadowsocks keeps the packet socket open when the server's address cannot be resolved.\<close>

lemma ss_DialUDP_leaks:
  assumes "xeListen env = None" and "xeResolve env (ssAddr ss) = Inl e"
  shows "\<exists>e' w'. ss_DialUDP env ss \<lparr>dwConn = c, dwLog = []\<rparr> = (Fail e', w') \<and> held (dwLog w') = (False, True)"
  using assms by (simp add: ss_DialUDP_def dialer_ListenPacket_def io_bind_def io_wrap_def dlog_def io_of_sum_def io_fail_def held_def)

text \<open>What is assumed of a cipher and its random bytes, and how much longer a packet gets.\<close>

definition picked_laws :: "picked \<Rightarrow> bytes \<Rightarrow> bool" where
  "picked_laws p salt \<longleftrightarrow>
     (case p of
        Dummy \<Rightarrow> True
      | AeadCipher m _ \<Rightarrow> length salt = SaltSize m \<and> (case Encrypter m salt of Inl _ \<Rightarrow> False | Inr a \<Rightarrow> aead_laws a)
      | StreamCipher m _ \<Rightarrow> length salt = IVSize m \<and> scipher_laws m)"

definition picked_overhead :: "picked \<Rightarrow> bytes \<Rightarrow> nat" where
  "picked_overhead p salt =
     (case p of
        Dummy \<Rightarrow> 0
      | AeadCipher m _ \<Rightarrow> SaltSize m + (case Encrypter m salt of Inl _ \<Rightarrow> 0 | Inr a \<Rightarrow> aOverhead a)
      | StreamCipher m _ \<Rightarrow> IVSize m)"

lemma cipher_packet_roundtrip:
  assumes "picked_laws p salt" and "length b + picked_overhead p salt \<le> k" and "k \<le> 65536"
  shows "\<exists>pkt. cipher_WriteTo p salt (\<lambda>_. None) b sent = (Ok (length b), sent @ [pkt]) \<and> cipher_ReadFrom p k (Inr pkt) = Ok b"
proof (cases p)
  case Dummy
  with assms show ?thesis by (simp add: cipher_WriteTo_def cipher_ReadFrom_def picked_overhead_def)
next
  case (AeadCipher m key)
  with assms obtain a where "Encrypter m salt = Inr a" "aead_laws a" "length salt = SaltSize m"
    "SaltSize m + length b + aOverhead a \<le> k" "k \<le> maxPacketSize"
    by (auto simp: picked_laws_def picked_overhead_def maxPacketSize_def split: sum.splits)
  from PacketConn_roundtrip [OF this] AeadCipher show ?thesis by (simp add: cipher_WriteTo_def cipher_ReadFrom_def)
next
  case (StreamCipher m key)
  with assms have m: "scipher_laws m" "length salt = IVSize m" "IVSize m + length b \<le> k" "k \<le> smaxPacketSize"
    by (auto simp: picked_laws_def picked_overhead_def smaxPacketSize_def)
  then have "length (sEncrypter m salt b) = length b" "sDecrypter m salt (sEncrypter m salt b) = b"
    using scipher_lawsD [OF m(1,2)] by (simp_all add: stream_laws_def)
  with m StreamCipher show ?thesis
    by (simp add: cipher_WriteTo_def cipher_ReadFrom_def sPacketConn_WriteTo_def sPacketConn_ReadFrom_def sPack_def sUnpack_def XORKeyStream_def)
qed

text \<open>
  A datagram keeps its address and payload through Shadowsocks, with any of its ciphers. A datagram written
  for a session's destination is put behind that address and encrypted into one packet, and a packet socket with
  the same cipher and a large enough buffer reads back the payload, with the destination's address and port.
\<close>

theorem ss_datagram_roundtrip:
  assumes "picked_laws p salt" and "DstIP m = Some ip" and "wf_addr ip" and "0 \<le> DstPort m" and "DstPort m < 65536"
    and "length (serializeSocksAddr m) + length b + picked_overhead p salt \<le> k" and "k \<le> 65536"
  shows "\<exists>n pkt. ss_WriteTo lib p salt (\<lambda>_. None) b (MAddr m) sent = (Ok n, sent @ [pkt]) \<and>
    ss_ReadFrom p k (Inr pkt) = Ok (b, addr_bytes ip, DstPort m)"
proof -
  let ?a = "serializeSocksAddr m"
  have wf: "wf_dst [] (Some ip) (DstPort m)" using assms by (simp add: wf_dst_def)
  from cipher_packet_roundtrip [OF assms(1), of "?a @ b" k sent] assms(6,7) obtain pkt where
    "cipher_WriteTo p salt (\<lambda>_. None) (?a @ b) sent = (Ok (length (?a @ b)), sent @ [pkt])" "cipher_ReadFrom p k (Inr pkt) = Ok (?a @ b)"
    by auto
  moreover have "SplitAddr (?a @ b) = Some ?a" "Addr_UDPAddr ?a = Some (addr_bytes ip, DstPort m)"
    using SplitAddr_SerializeAddr [OF wf] Addr_String_ip(2) [OF wf] assms(2) by (simp_all add: serializeSocksAddr_def)
  moreover have "socks_packet lib b (MAddr m) = Ok ([0, 0, 0] @ ?a @ b)" by (simp add: socks_packet_def EncodeUDPPacket_def)
  ultimately show ?thesis by (simp add: ss_WriteTo_def ss_ReadFrom_def go_slice_def)
qed

theorem ss_datagram_roundtrip_witness:
  "\<exists>n pkt. ss_WriteTo (xeLib outbound_example) (AeadCipher cipher_example [1]) (replicate 16 7) (\<lambda>_. None) [1, 2, 3] (MAddr relay_md) [] =
      (Ok n, [pkt]) \<and> ss_ReadFrom (AeadCipher cipher_example [1]) 100 (Inr pkt) = Ok ([1, 2, 3], [8, 8, 8, 8], 53)"
proof -
  have e: "Encrypter cipher_example (replicate 16 7) = Inr aead_example" "SaltSize cipher_example = 16"
    by (simp_all add: cipher_example_def Encrypter_def SaltSize_def KeySize_def)
  show ?thesis
    using ss_datagram_roundtrip [where p = "AeadCipher cipher_example [1]" and salt = "replicate 16 7" and m = relay_md and ip = "Addr4 [8, 8, 8, 8]"
        and b = "[1, 2, 3]" and k = 100 and lib = "xeLib outbound_example" and sent = "[]"] aead_example_laws e
    by (simp add: picked_laws_def picked_overhead_def relay_md_def session_metadata_def parseTCPIPAddress_def wf_addr_def
        serializeSocksAddr_def SerializeAddr_def aead_example_def)
qed

text \<open>
  The HTTP client drops what its reader has taken: bytes of the session that arrive together with the
  response are not seen by the session.
\<close>

lemma http_bytes_lost:
  assumes "xeDial env ''tcp'' a = Inr (resp @ data)" and "xeResponse env (resp @ data) = Inr (200, status, length (resp @ data))"
    and "xeWr env 0 = None"
  shows "\<exists>w'. http_DialContext env a user pass m w = (Ok (), w') \<and> scIn (dwConn w') = []"
  using assms
  by (simp add: http_DialContext_def dial_server_def io_bind_def io_wrap_def dialer_DialContext_def setKeepAlive_def dlog_def
      safeConnClose_def on_dialled_def http_shakeHand_def stream_write_def del: io_bind_Ok_iff)

end
