(* ===== verification/Allocator.thy ===== *)
theory Allocator
  imports Steps
begin

text \<open>
  The buffer allocator of the packet engine, \<^verbatim>\<open>tun2socks/buffer/allocator\<close>: seventeen pools of byte slices,
  one for each power of two up to 64 KiB. A pool is what was put back, and a new slice when it is
  empty. Shown here: a slice has the length asked and a capacity less than twice that, every slice
  in a pool has that pool's size however the calls are ordered, so what is handed out can always
  be put back, and nothing else can.
\<close>

section \<open>Slices and pools\<close>

record slice =
  sLen :: nat
  sCap :: nat

text \<open>\<^verbatim>\<open>bits.Len32\<close> of the value cut to 32 bits, less one; the 16-bit result wraps for zero.\<close>

fun bit_len :: "nat \<Rightarrow> nat" where
  "bit_len n = (if n = 0 then 0 else Suc (bit_len (n div 2)))"

declare bit_len.simps [simp del]

definition msb :: "nat \<Rightarrow> nat" where
  "msb sz = (let l = bit_len (sz mod 2 ^ 32) in if l = 0 then 65535 else l - 1)"

type_synonym allocator = "slice list list"

definition alloc_New :: allocator where "alloc_New = replicate 17 []"

text \<open>Taking from a pool: any slice in it, here the first, or a new one.\<close>

definition pool_Get :: "nat \<Rightarrow> allocator \<Rightarrow> slice \<times> allocator" where
  "pool_Get k al =
     (case al ! k of [] \<Rightarrow> (\<lparr>sLen = 2 ^ k, sCap = 2 ^ k\<rparr>, al) | s # ss \<Rightarrow> (s, al[k := ss]))"

text \<open>\<^const>\<open>None\<close>: the nil slice.\<close>

definition alloc_Get :: "int \<Rightarrow> allocator \<Rightarrow> slice option \<times> allocator" where
  "alloc_Get sz al =
     (if sz \<le> 0 \<or> sz > 65536 then (None, al)
      else
        let n = nat sz; b = msb n;
            (s, al') = pool_Get (if n = 2 ^ b then b else b + 1) al in
        (Some (s\<lparr>sLen := n\<rparr>), al'))"

definition alloc_Put :: "slice \<Rightarrow> allocator \<Rightarrow> go_error option \<times> allocator" where
  "alloc_Put s al =
     (let b = msb (sCap s) in
      if sCap s = 0 \<or> sCap s > 65536 \<or> sCap s \<noteq> 2 ^ b then (Some (ErrorNew ''allocator Put() incorrect buffer size''), al)
      else (None, al[b := s # al ! b]))"

section \<open>The pools stay in order\<close>

definition alloc_ok :: "allocator \<Rightarrow> bool" where
  "alloc_ok al \<longleftrightarrow> length al = 17 \<and> (\<forall>k < 17. \<forall>s \<in> set (al ! k). sCap s = 2 ^ k)"

lemma bit_len_bounds: "0 < n \<Longrightarrow> 2 ^ (bit_len n - 1) \<le> n \<and> n < 2 ^ bit_len n \<and> 0 < bit_len n"
proof (induction n rule: bit_len.induct)
  case (1 n)
  show ?case
  proof (cases "n div 2 = 0")
    case True
    with "1.prems" have "n = 1" by auto
    then show ?thesis by (simp add: bit_len.simps)
  next
    case False
    with 1 have ih: "2 ^ (bit_len (n div 2) - 1) \<le> n div 2" "n div 2 < 2 ^ bit_len (n div 2)" "0 < bit_len (n div 2)" by auto
    then obtain m where m: "bit_len (n div 2) = Suc m" by (metis gr0_implies_Suc)
    have "bit_len n = Suc (Suc m)" using "1.prems" m by (simp add: bit_len.simps [of n])
    with ih m show ?thesis by auto
  qed
qed

lemma msb_bounds:
  assumes "0 < n" and "n \<le> 65536"
  shows "2 ^ msb n \<le> n \<and> n < 2 * 2 ^ msb n \<and> msb n \<le> 16"
proof -
  obtain m where m: "bit_len n = Suc m" using bit_len_bounds [OF assms(1)] by (metis gr0_implies_Suc)
  have "n mod 2 ^ 32 = n" using assms(2) by simp
  then have "msb n = m" using m unfolding msb_def Let_def by simp
  with bit_len_bounds [OF assms(1)] m have b: "2 ^ msb n \<le> n" "n < 2 * 2 ^ msb n" by simp_all
  then have "(2 :: nat) ^ msb n \<le> 2 ^ 16" using assms(2) by simp
  then have "msb n \<le> 16" by (rule power_le_imp_le_exp [rotated]) simp
  with b show ?thesis by simp
qed

lemma msb_power: "k \<le> 16 \<Longrightarrow> msb (2 ^ k) = k"
proof -
  assume k: "k \<le> 16"
  then have "(2 :: nat) ^ k \<le> 2 ^ 16" by (intro power_increasing) auto
  with msb_bounds [of "2 ^ k"] have b: "(2 :: nat) ^ msb (2 ^ k) \<le> 2 ^ k" "(2 :: nat) ^ k < 2 ^ Suc (msb (2 ^ k))" by auto
  from b(1) have "msb (2 ^ k) \<le> k" by (rule power_le_imp_le_exp [rotated]) simp
  moreover from b(2) have "k < Suc (msb (2 ^ k))" by (rule power_less_imp_less_exp [rotated]) simp
  ultimately show ?thesis by simp
qed

lemma pool_Get_ok:
  assumes "alloc_ok al" and "k \<le> 16" and "pool_Get k al = (s, al')"
  shows "sCap s = 2 ^ k" "alloc_ok al'"
proof -
  from assms(1,2) have "length al = 17" "\<forall>s \<in> set (al ! k). sCap s = 2 ^ k" by (auto simp: alloc_ok_def)
  with assms show "sCap s = 2 ^ k" "alloc_ok al'"
    by (auto simp: pool_Get_def alloc_ok_def nth_list_update split: list.splits if_splits)
qed

lemma alloc_ok_put:
  assumes "alloc_ok al" and "sCap s = 2 ^ k"
  shows "alloc_ok (al[k := s # al ! k])"
proof -
  have "sCap x = 2 ^ j" if "j < 17" "x \<in> set (al[k := s # al ! k] ! j)" for j x
    using that assms by (cases "j = k") (auto simp: alloc_ok_def)
  with assms(1) show ?thesis by (simp add: alloc_ok_def)
qed

lemma alloc_Get_ok:
  assumes "alloc_ok al" and "0 < sz" and "sz \<le> 65536"
  shows "\<exists>s al'. alloc_Get sz al = (Some s, al') \<and> sLen s = nat sz \<and> nat sz \<le> sCap s \<and> sCap s < 2 * nat sz \<and>
    alloc_ok al' \<and> fst (alloc_Put s al') = None \<and> alloc_ok (snd (alloc_Put s al'))"
proof -
  define n where "n = nat sz"
  let ?k = "if n = 2 ^ msb n then msb n else msb n + 1"
  have n: "0 < n" "n \<le> 65536" using assms(2,3) by (auto simp: n_def)
  note b = msb_bounds [OF n]
  have k: "n \<le> 2 ^ ?k" "(2 :: nat) ^ ?k < 2 * n" using b by auto
  have "?k \<le> 16"
  proof (cases "msb n = 16")
    case True
    with b n show ?thesis by simp
  next
    case False
    with b show ?thesis by simp
  qed
  obtain s al' where s: "pool_Get ?k al = (s, al')" by fastforce
  note cap = pool_Get_ok(1) [OF assms(1) \<open>?k \<le> 16\<close> s] and ok = pool_Get_ok(2) [OF assms(1) \<open>?k \<le> 16\<close> s]
  have "alloc_Get sz al = (Some (s\<lparr>sLen := n\<rparr>), al')"
    using assms(2,3) s unfolding alloc_Get_def Let_def n_def [symmetric] by (simp split: prod.splits)
  moreover have "(2 :: nat) ^ ?k \<le> 2 ^ 16" using \<open>?k \<le> 16\<close> by (intro power_increasing) auto
  then have "alloc_Put (s\<lparr>sLen := n\<rparr>) al' = (None, al'[?k := s\<lparr>sLen := n\<rparr> # al' ! ?k])"
    using cap msb_power [OF \<open>?k \<le> 16\<close>] by (simp add: alloc_Put_def Let_def)
  moreover have "alloc_ok (al'[?k := s\<lparr>sLen := n\<rparr> # al' ! ?k])"
    using cap by (intro alloc_ok_put [OF ok]) simp
  ultimately show ?thesis using k cap ok unfolding n_def by auto
qed

lemma alloc_ok_New: "alloc_ok alloc_New"
  by (simp add: alloc_ok_def alloc_New_def)

lemma alloc_ok_ops: "alloc_ok al \<Longrightarrow> alloc_ok (snd (alloc_Get n al))" "alloc_ok al \<Longrightarrow> alloc_ok (snd (alloc_Put s al))"
proof -
  assume ok: "alloc_ok al"
  show "alloc_ok (snd (alloc_Get n al))"
  proof (cases "n \<le> 0 \<or> n > 65536")
    case True
    with ok show ?thesis by (auto simp: alloc_Get_def)
  next
    case False
    with alloc_Get_ok [OF ok, of n] show ?thesis by auto
  qed
  show "alloc_ok (snd (alloc_Put s al))"
    using alloc_ok_put [OF ok, of s "msb (sCap s)"] ok by (simp add: alloc_Put_def Let_def)
qed

text \<open>Any sequence of calls, also of ones that put back slices the allocator did not hand out.\<close>

inductive alloc_step :: "allocator \<Rightarrow> allocator \<Rightarrow> bool" where
  get: "alloc_step al (snd (alloc_Get n al))"
| put: "alloc_step al (snd (alloc_Put s al))"

interpretation pools: invariant_system "\<lambda>al. al = alloc_New" alloc_step alloc_ok
  by unfold_locales (auto simp: alloc_ok_New elim!: alloc_step.cases intro: alloc_ok_ops)

text \<open>
  After any sequence of calls, asking for 1 to 65536 bytes gives a slice of that length whose capacity
  is less than twice the length, so at most half of it is wasted; and it can be put back.
\<close>

theorem Get_fits:
  assumes "alloc_step\<^sup>*\<^sup>* alloc_New al" and "0 < n" and "n \<le> 65536"
  shows "\<exists>s al'. alloc_Get n al = (Some s, al') \<and> sLen s = nat n \<and> nat n \<le> sCap s \<and> sCap s < 2 * nat n \<and>
    fst (alloc_Put s al') = None"
  using alloc_Get_ok [OF pools.reachable_inv [OF refl assms(1)] assms(2,3)] by blast

end
