(* ===== verification/CoreStack.thy ===== *)
theory CoreStack
  imports Engine EngineTunnel "HOL-Library.Sublist"
begin

text \<open>
  The network stack of the packet engine as \<^verbatim>\<open>tun2socks/core\<close> sets it up: the options of \<^verbatim>\<open>core/option\<close>, the
  interface (\<^verbatim>\<open>nic.go\<close>, \<^verbatim>\<open>route.go\<close>), the handlers of new TCP connections and UDP sessions (\<^verbatim>\<open>tcp.go\<close>,
  \<^verbatim>\<open>udp.go\<close>) and \<^verbatim>\<open>CreateStack\<close>. The stack itself (gVisor) is an argument: it accepts or refuses each call, and
  the state is the log of the calls it accepted. Shown here: the calls are made in one fixed order, the
  first refusal ends the setup with its error, the handlers are in place before the interface can
  deliver a packet, and the configured options override the defaults.
\<close>

section \<open>Calls on the stack\<close>

datatype ipver = V4 | V6

datatype gcall =
    DefaultTTL ipver int
  | Forwarding ipver bool
  | ICMPBurst int
  | ICMPLimit int
  | TCPSendRange int int int
  | TCPReceiveRange int int int
  | TCPCongestion string
  | TCPDelay bool
  | TCPModerateReceive bool
  | TCPSACK bool
  | TCPRecovery int
  | TCPHandler
  | UDPHandler
  | CreateNIC int
  | Promiscuous int bool
  | Spoofing int bool
  | RouteTable "(ipver \<times> int) list"
  | AddAddress int ipver bytes int
  | JoinGroup ipver int bytes

text \<open>
  gVisor's constants, the identifier of the next interface, and the answer to a call after others: an error's text or
  \<^const>\<open>None\<close>.
\<close>

record gvisor =
  gvMinBuffer :: int
  gvMaxBuffer :: int
  gvDefaultSend :: int
  gvDefaultReceive :: int
  gvRACK :: int
  gvNextNIC :: int
  gvAnswer :: "gcall list \<Rightarrow> gcall \<Rightarrow> string option"

text \<open>A call that can be refused, with the prefix of its error, and one that cannot.\<close>

definition gset :: "gvisor \<Rightarrow> string \<Rightarrow> gcall \<Rightarrow> (gcall list, unit) io" where
  "gset gv what call s =
     (case gvAnswer gv s call of
        Some err \<Rightarrow> (Fail (ErrorNew (what @ '': '' @ err)), s)
      | None \<Rightarrow> (Ok (), s @ [call]))"

definition gdo :: "gcall \<Rightarrow> (gcall list, unit) io" where
  "gdo call s = (Ok (), s @ [call])"

section \<open>Options\<close>

definition WithDefaultTTL :: "gvisor \<Rightarrow> int \<Rightarrow> (gcall list, unit) io" where
  "WithDefaultTTL gv ttl =
     io_bind (gset gv ''set ipv4 default TTL'' (DefaultTTL V4 ttl)) (\<lambda>_. gset gv ''set ipv6 default TTL'' (DefaultTTL V6 ttl))"

definition WithForwarding :: "gvisor \<Rightarrow> bool \<Rightarrow> (gcall list, unit) io" where
  "WithForwarding gv v =
     io_bind (gset gv ''set ipv4 forwarding'' (Forwarding V4 v)) (\<lambda>_. gset gv ''set ipv6 forwarding'' (Forwarding V6 v))"

definition WithICMPBurst :: "int \<Rightarrow> (gcall list, unit) io" where "WithICMPBurst burst = gdo (ICMPBurst burst)"
definition WithICMPLimit :: "int \<Rightarrow> (gcall list, unit) io" where "WithICMPLimit limit = gdo (ICMPLimit limit)"

definition WithTCPSendBufferSizeRange :: "gvisor \<Rightarrow> int \<Rightarrow> int \<Rightarrow> int \<Rightarrow> (gcall list, unit) io" where
  "WithTCPSendBufferSizeRange gv a b c = gset gv ''set TCP send buffer size range'' (TCPSendRange a b c)"

definition WithTCPSendBufferSize :: "gvisor \<Rightarrow> int \<Rightarrow> (gcall list, unit) io" where
  "WithTCPSendBufferSize gv n = gset gv ''set TCP send buffer size range'' (TCPSendRange (gvMinBuffer gv) n (gvMaxBuffer gv))"

definition WithTCPReceiveBufferSizeRange :: "gvisor \<Rightarrow> int \<Rightarrow> int \<Rightarrow> int \<Rightarrow> (gcall list, unit) io" where
  "WithTCPReceiveBufferSizeRange gv a b c = gset gv ''set TCP receive buffer size range'' (TCPReceiveRange a b c)"

definition WithTCPReceiveBufferSize :: "gvisor \<Rightarrow> int \<Rightarrow> (gcall list, unit) io" where
  "WithTCPReceiveBufferSize gv n =
     gset gv ''set TCP receive buffer size range'' (TCPReceiveRange (gvMinBuffer gv) n (gvMaxBuffer gv))"

definition WithTCPCongestionControl :: "gvisor \<Rightarrow> string \<Rightarrow> (gcall list, unit) io" where
  "WithTCPCongestionControl gv cc = gset gv ''set TCP congestion control algorithm'' (TCPCongestion cc)"

definition WithTCPDelay :: "gvisor \<Rightarrow> bool \<Rightarrow> (gcall list, unit) io" where
  "WithTCPDelay gv v = gset gv ''set TCP delay'' (TCPDelay v)"

definition WithTCPModerateReceiveBuffer :: "gvisor \<Rightarrow> bool \<Rightarrow> (gcall list, unit) io" where
  "WithTCPModerateReceiveBuffer gv v = gset gv ''set TCP moderate receive buffer'' (TCPModerateReceive v)"

definition WithTCPSACKEnabled :: "gvisor \<Rightarrow> bool \<Rightarrow> (gcall list, unit) io" where
  "WithTCPSACKEnabled gv v = gset gv ''set TCP SACK'' (TCPSACK v)"

definition WithTCPRecovery :: "gvisor \<Rightarrow> int \<Rightarrow> (gcall list, unit) io" where
  "WithTCPRecovery gv v = gset gv ''set TCP Recovery'' (TCPRecovery v)"

definition WithDefault :: "gvisor \<Rightarrow> (gcall list, unit) io" where
  "WithDefault gv = io_each (\<lambda>opt. opt)
     [WithDefaultTTL gv 64, WithForwarding gv True, WithICMPBurst 50, WithICMPLimit 1000,
      WithTCPSendBufferSizeRange gv (gvMinBuffer gv) (gvDefaultSend gv) (gvMaxBuffer gv),
      WithTCPReceiveBufferSizeRange gv (gvMinBuffer gv) (gvDefaultReceive gv) (gvMaxBuffer gv),
      WithTCPCongestionControl gv ''reno'', WithTCPDelay gv False, WithTCPModerateReceiveBuffer gv False,
      WithTCPSACKEnabled gv True, WithTCPRecovery gv (gvRACK gv)]"

text \<open>The engine's options, as \<^verbatim>\<open>netstack\<close> collects them.\<close>

fun user_option :: "gvisor \<Rightarrow> stack_option \<Rightarrow> (gcall list, unit) io" where
  "user_option gv (ModerateReceiveBuffer v) = WithTCPModerateReceiveBuffer gv v"
| "user_option gv (SendBufferSize n) = WithTCPSendBufferSize gv n"
| "user_option gv (ReceiveBufferSize n) = WithTCPReceiveBufferSize gv n"

section \<open>The interface\<close>

definition withCreatingNIC :: "gvisor \<Rightarrow> int \<Rightarrow> (gcall list, unit) io" where
  "withCreatingNIC gv nic = gset gv ''create NIC'' (CreateNIC nic)"

definition withPromiscuousMode :: "gvisor \<Rightarrow> int \<Rightarrow> bool \<Rightarrow> (gcall list, unit) io" where
  "withPromiscuousMode gv nic v = gset gv ''set promiscuous mode'' (Promiscuous nic v)"

definition withSpoofing :: "gvisor \<Rightarrow> int \<Rightarrow> bool \<Rightarrow> (gcall list, unit) io" where
  "withSpoofing gv nic v = gset gv ''set spoofing'' (Spoofing nic v)"

definition withRouteTable :: "int \<Rightarrow> (gcall list, unit) io" where
  "withRouteTable nic = gdo (RouteTable [(V4, nic), (V6, nic)])"

text \<open>The two addresses added for the answers; the results of adding them are dropped.\<close>

definition nic_addr4 :: bytes where "nic_addr4 = [0x0a, 0, 0, 1]"
definition nic_addr6 :: bytes where "nic_addr6 = [0xfd, 0, 0, 0, 0, 0, 0, 0, 0, 0, 0, 0, 0, 0, 1, 0]"

definition add_address :: "gvisor \<Rightarrow> int \<Rightarrow> ipver \<Rightarrow> bytes \<Rightarrow> (gcall list, unit) io" where
  "add_address gv nic v a = io_bind (io_try (gset gv [] (AddAddress nic v a 8))) (\<lambda>_. io_return ())"

definition join_group :: "gvisor \<Rightarrow> int \<Rightarrow> addr \<Rightarrow> (gcall list, unit) io" where
  "join_group gv nic g = gset gv ''join multicast group'' (JoinGroup (if Is4 g then V4 else V6) nic (addr_bytes g))"

definition withMulticastGroups :: "gvisor \<Rightarrow> int \<Rightarrow> addr list \<Rightarrow> (gcall list, unit) io" where
  "withMulticastGroups gv nic groups =
     (if groups = [] then io_return ()
      else
        io_bind (add_address gv nic V4 nic_addr4) (\<lambda>_.
        io_bind (add_address gv nic V6 nic_addr6) (\<lambda>_.
        io_each (join_group gv nic) groups)))"

definition withTCPHandler :: "(gcall list, unit) io" where "withTCPHandler = gdo TCPHandler"
definition withUDPHandler :: "(gcall list, unit) io" where "withUDPHandler = gdo UDPHandler"

definition CreateStack :: "gvisor \<Rightarrow> stack_option list \<Rightarrow> addr list \<Rightarrow> (gcall list, unit) io" where
  "CreateStack gv options groups =
     (let nic = gvNextNIC gv in
      io_each (\<lambda>opt. opt)
        ([WithDefault gv] @ map (user_option gv) options @
         [withTCPHandler, withUDPHandler, withCreatingNIC gv nic, withPromiscuousMode gv nic True, withSpoofing gv nic True,
          withRouteTable nic, withMulticastGroups gv nic groups]))"

section \<open>One list of steps\<close>

text \<open>How a refusal is treated: it ends the setup, it is dropped, or it cannot happen.\<close>

datatype need = Must | May | Always

type_synonym gstep = "need \<times> string \<times> gcall"

fun run_steps :: "gvisor \<Rightarrow> gstep list \<Rightarrow> (gcall list, unit) io" where
  "run_steps gv [] s = (Ok (), s)"
| "run_steps gv ((k, what, call) # xs) s =
     (case (if k = Always then None else gvAnswer gv s call) of
        None \<Rightarrow> run_steps gv xs (s @ [call])
      | Some err \<Rightarrow> if k = May then run_steps gv xs s else (Fail (ErrorNew (what @ '': '' @ err)), s))"

definition default_steps :: "gvisor \<Rightarrow> gstep list" where
  "default_steps gv =
     [(Must, ''set ipv4 default TTL'', DefaultTTL V4 64), (Must, ''set ipv6 default TTL'', DefaultTTL V6 64),
      (Must, ''set ipv4 forwarding'', Forwarding V4 True), (Must, ''set ipv6 forwarding'', Forwarding V6 True),
      (Always, [], ICMPBurst 50), (Always, [], ICMPLimit 1000),
      (Must, ''set TCP send buffer size range'', TCPSendRange (gvMinBuffer gv) (gvDefaultSend gv) (gvMaxBuffer gv)),
      (Must, ''set TCP receive buffer size range'', TCPReceiveRange (gvMinBuffer gv) (gvDefaultReceive gv) (gvMaxBuffer gv)),
      (Must, ''set TCP congestion control algorithm'', TCPCongestion ''reno''), (Must, ''set TCP delay'', TCPDelay False),
      (Must, ''set TCP moderate receive buffer'', TCPModerateReceive False), (Must, ''set TCP SACK'', TCPSACK True),
      (Must, ''set TCP Recovery'', TCPRecovery (gvRACK gv))]"

fun option_step :: "gvisor \<Rightarrow> stack_option \<Rightarrow> gstep" where
  "option_step gv (ModerateReceiveBuffer v) = (Must, ''set TCP moderate receive buffer'', TCPModerateReceive v)"
| "option_step gv (SendBufferSize n) = (Must, ''set TCP send buffer size range'', TCPSendRange (gvMinBuffer gv) n (gvMaxBuffer gv))"
| "option_step gv (ReceiveBufferSize n) = (Must, ''set TCP receive buffer size range'', TCPReceiveRange (gvMinBuffer gv) n (gvMaxBuffer gv))"

definition nic_steps :: "gvisor \<Rightarrow> addr list \<Rightarrow> gstep list" where
  "nic_steps gv groups =
     (let nic = gvNextNIC gv in
      [(Must, ''create NIC'', CreateNIC nic), (Must, ''set promiscuous mode'', Promiscuous nic True), (Must, ''set spoofing'', Spoofing nic True),
       (Always, [], RouteTable [(V4, nic), (V6, nic)])] @
      (if groups = [] then []
       else [(May, [], AddAddress nic V4 nic_addr4 8), (May, [], AddAddress nic V6 nic_addr6 8)] @
         map (\<lambda>g. (Must, ''join multicast group'', JoinGroup (if Is4 g then V4 else V6) nic (addr_bytes g))) groups))"

definition stack_steps :: "gvisor \<Rightarrow> stack_option list \<Rightarrow> gstep list" where
  "stack_steps gv options = default_steps gv @ map (option_step gv) options @ [(Always, [], TCPHandler), (Always, [], UDPHandler)]"

lemma run_steps_append: "run_steps gv (xs @ ys) = io_bind (run_steps gv xs) (\<lambda>_. run_steps gv ys)"
proof
  show "run_steps gv (xs @ ys) s = io_bind (run_steps gv xs) (\<lambda>_. run_steps gv ys) s" for s
    by (induction gv xs s rule: run_steps.induct) (auto simp: io_bind_def simp del: io_bind_Ok_iff split: option.splits)
qed

declare run_steps.simps [simp del]

lemma run_one:
  "gset gv what call = run_steps gv [(Must, what, call)]"
  "gdo call = run_steps gv [(Always, [], call)]"
  "io_bind (io_try (gset gv what call)) (\<lambda>_. io_return ()) = run_steps gv [(May, what, call)]"
  by (auto simp: run_steps.simps gset_def gdo_def fun_eq_iff io_bind_def io_try_def io_return_def split: option.splits)

lemma run_nil: "io_return () = run_steps gv []"
  by (rule ext) (simp add: io_return_def run_steps.simps)

lemma io_bind_unit [simp]: "io_bind m (\<lambda>_. io_return ()) = m"
  using io_bind_return(2) [of m] by (simp add: io_return_def [abs_def] del: io_bind_return)

lemma run_each: "io_each (\<lambda>x. run_steps gv (f x)) xs = run_steps gv (concat (map f xs))"
  by (induction xs) (simp_all add: run_nil run_steps_append)

lemmas option_defs = WithDefaultTTL_def WithForwarding_def WithICMPBurst_def WithICMPLimit_def WithTCPSendBufferSizeRange_def
  WithTCPSendBufferSize_def WithTCPReceiveBufferSizeRange_def WithTCPReceiveBufferSize_def WithTCPCongestionControl_def WithTCPDelay_def
  WithTCPModerateReceiveBuffer_def WithTCPSACKEnabled_def WithTCPRecovery_def withCreatingNIC_def withPromiscuousMode_def withSpoofing_def
  withRouteTable_def withTCPHandler_def withUDPHandler_def

lemma WithDefault_steps: "WithDefault gv = run_steps gv (default_steps gv)"
proof -
  have "WithDefault gv = io_each (\<lambda>x. run_steps gv [x]) (default_steps gv)"
    by (simp add: WithDefault_def default_steps_def option_defs run_one(1) run_one(2) [where gv = gv])
  then show ?thesis by (simp add: run_each)
qed

lemma user_option_steps: "user_option gv x = run_steps gv [option_step gv x]"
  by (cases x) (simp_all add: option_defs run_one)

lemma run_group:
  "add_address gv nic v a = run_steps gv [(May, [], AddAddress nic v a 8)]"
  "join_group gv nic = (\<lambda>g. run_steps gv [(Must, ''join multicast group'', JoinGroup (if Is4 g then V4 else V6) nic (addr_bytes g))])"
  by (simp_all only: add_address_def join_group_def [abs_def] run_one(3), simp add: run_one(1))

text \<open>The whole setup is one run over its list of steps.\<close>

lemma CreateStack_steps: "CreateStack gv options groups = run_steps gv (stack_steps gv options @ nic_steps gv groups)"
proof -
  have opts: "io_each (\<lambda>opt. opt) (map (user_option gv) options) = run_steps gv (map (option_step gv) options)"
    by (simp add: io_each_map user_option_steps run_each)
  have groups: "withMulticastGroups gv nic groups = run_steps gv
      (if groups = [] then [] else [(May, [], AddAddress nic V4 nic_addr4 8), (May, [], AddAddress nic V6 nic_addr6 8)] @
         map (\<lambda>g. (Must, ''join multicast group'', JoinGroup (if Is4 g then V4 else V6) nic (addr_bytes g))) groups)" for nic
    by (simp add: withMulticastGroups_def run_group run_each run_steps_append [symmetric] run_nil [of gv])
  show ?thesis
    by (simp add: CreateStack_def Let_def WithDefault_steps opts groups option_defs run_one(1) run_one(2) [where gv = gv] stack_steps_def nic_steps_def
        run_steps_append [symmetric] del: if_split)
qed

section \<open>What the setup guarantees\<close>

lemma run_steps_extends: "\<exists>ys. snd (run_steps gv xs s) = s @ ys \<and> set ys \<subseteq> (\<lambda>x. snd (snd x)) ` set xs"
proof (induction gv xs s rule: run_steps.induct)
  case (2 gv k what call xs s)
  show ?case
  proof (cases "if k = Always then None else gvAnswer gv s call")
    case None
    with "2.IH"(1) [OF None] show ?thesis by (auto simp: run_steps.simps)
  next
    case (Some err)
    with "2.IH"(2) [OF Some] show ?thesis by (cases "k = May") (auto simp: run_steps.simps)
  qed
qed (simp add: run_steps.simps)

lemma run_steps_all:
  "run_steps gv xs s = (Ok (), s') \<Longrightarrow> \<forall>x \<in> set xs. fst x \<noteq> May \<Longrightarrow> s' = s @ map (\<lambda>x. snd (snd x)) xs"
  by (induction gv xs s rule: run_steps.induct) (auto simp: run_steps.simps split: option.splits if_splits)

lemma stack_steps_need: "\<forall>x \<in> set (stack_steps gv options). fst x \<noteq> May"
proof -
  have "fst (option_step gv x) = Must" for x by (cases x) simp_all
  then show ?thesis by (auto simp: stack_steps_def default_steps_def)
qed

abbreviation calls_of :: "gstep list \<Rightarrow> gcall list" where
  "calls_of xs \<equiv> map (\<lambda>x. snd (snd x)) xs"

lemma run_steps_prefix:
  "\<forall>x \<in> set xs. fst x \<noteq> May \<Longrightarrow> \<exists>ys. snd (run_steps gv xs s) = s @ ys \<and> prefix ys (calls_of xs)"
proof (induction gv xs s rule: run_steps.induct)
  case (2 gv k what call xs s)
  show ?case
  proof (cases "if k = Always then None else gvAnswer gv s call")
    case None
    with "2.IH"(1) [OF None] "2.prems" show ?thesis by (auto simp: run_steps.simps)
  qed (use "2.prems" in \<open>auto simp: run_steps.simps\<close>)
qed (simp add: run_steps.simps)

text \<open>The first refusal of a step that must succeed is the error of the run.\<close>

lemma run_steps_fails:
  "fst (run_steps gv xs s) \<noteq> Ok () \<Longrightarrow> \<exists>what call err. (Must, what, call) \<in> set xs \<and> gvAnswer gv (snd (run_steps gv xs s)) call = Some err \<and>
     fst (run_steps gv xs s) = Fail (ErrorNew (what @ '': '' @ err))"
proof (induction gv xs s rule: run_steps.induct)
  case (2 gv k what call xs s)
  show ?case
  proof (cases "if k = Always then None else gvAnswer gv s call")
    case None
    with "2.IH"(1) [OF None] "2.prems" show ?thesis by (auto simp: run_steps.simps)
  next
    case (Some err)
    show ?thesis
    proof (cases "k = May")
      case True
      with Some "2.IH"(2) [OF Some] "2.prems" show ?thesis by (auto simp: run_steps.simps)
    next
      case False
      with Some have "k = Must" by (cases k) auto
      with Some show ?thesis by (auto simp: run_steps.simps)
    qed
  qed
qed (simp add: run_steps.simps)

text \<open>The handlers and the interface, as they appear in a log.\<close>

definition entry :: "gcall \<Rightarrow> bool" where
  "entry c \<longleftrightarrow> c = TCPHandler \<or> c = UDPHandler \<or> (case c of CreateNIC _ \<Rightarrow> True | _ \<Rightarrow> False)"

lemma filter_stack_steps: "filter entry (calls_of (stack_steps gv options)) = [TCPHandler, UDPHandler]"
proof -
  have "\<not> entry (snd (snd (option_step gv x)))" for x by (cases x) (simp_all add: entry_def)
  then have "filter entry (calls_of (map (option_step gv) options)) = []" by (simp add: filter_empty_conv)
  then show ?thesis by (simp add: stack_steps_def default_steps_def entry_def)
qed

lemma filter_nic_steps: "\<exists>ys. snd (run_steps gv (nic_steps gv groups) s) = s @ ys \<and> prefix (filter entry ys) [CreateNIC (gvNextNIC gv)]"
proof -
  obtain xs where xs: "nic_steps gv groups = (Must, ''create NIC'', CreateNIC (gvNextNIC gv)) # xs"
    and no: "\<forall>x \<in> set xs. \<not> entry (snd (snd x))"
    by (auto simp: nic_steps_def Let_def entry_def)
  show ?thesis
  proof (cases "gvAnswer gv s (CreateNIC (gvNextNIC gv))")
    case None
    let ?s = "s @ [CreateNIC (gvNextNIC gv)]"
    from run_steps_extends [of gv xs ?s] no obtain ys where "snd (run_steps gv xs ?s) = ?s @ ys" "\<forall>c \<in> set ys. \<not> entry c" by blast
    with None show ?thesis
      by (intro exI [of _ "CreateNIC (gvNextNIC gv) # ys"]) (simp add: xs run_steps.simps entry_def filter_empty_conv)
  qed (simp add: xs run_steps.simps)
qed

lemma CreateStack_entries:
  "prefix (filter entry (snd (CreateStack gv options groups []))) [TCPHandler, UDPHandler, CreateNIC (gvNextNIC gv)]"
proof -
  obtain r s1 where 1: "run_steps gv (stack_steps gv options) [] = (r, s1)" by fastforce
  show ?thesis
  proof (cases "r = Ok ()")
    case True
    with 1 run_steps_all stack_steps_need have s1: "s1 = calls_of (stack_steps gv options)" by fastforce
    from filter_nic_steps [of gv groups s1] obtain ys where
      "snd (run_steps gv (nic_steps gv groups) s1) = s1 @ ys" "prefix (filter entry ys) [CreateNIC (gvNextNIC gv)]" by blast
    with 1 True s1 show ?thesis
      by (simp add: CreateStack_steps run_steps_append io_bind_def filter_stack_steps)
  next
    case False
    then have "snd (CreateStack gv options groups []) = s1"
      using 1 by (cases r) (auto simp: CreateStack_steps run_steps_append io_bind_def)
    moreover from run_steps_prefix [OF stack_steps_need [of gv options], of gv "[]"] 1 have "prefix s1 (calls_of (stack_steps gv options))" by simp
    then have "prefix (filter entry s1) [TCPHandler, UDPHandler]" by (metis filter_mono_prefix filter_stack_steps)
    then have "prefix (filter entry s1) ([TCPHandler, UDPHandler] @ [CreateNIC (gvNextNIC gv)])" by (rule prefix_order.trans) simp
    ultimately show ?thesis by simp
  qed
qed

text \<open>The value an option has in the end: that of the last call that sets it.\<close>

definition last_set :: "('a \<Rightarrow> 'b option) \<Rightarrow> 'b \<Rightarrow> 'a list \<Rightarrow> 'b" where
  "last_set f d xs = fold (\<lambda>x v. case f x of None \<Rightarrow> v | Some v' \<Rightarrow> v') xs d"

fun send_range :: "gcall \<Rightarrow> (int \<times> int \<times> int) option" where
  "send_range (TCPSendRange a b c) = Some (a, b, c)"
| "send_range _ = None"

fun receive_range :: "gcall \<Rightarrow> (int \<times> int \<times> int) option" where
  "receive_range (TCPReceiveRange a b c) = Some (a, b, c)"
| "receive_range _ = None"

fun asked_send :: "stack_option \<Rightarrow> int option" where
  "asked_send (SendBufferSize n) = Some n"
| "asked_send _ = None"

fun asked_receive :: "stack_option \<Rightarrow> int option" where
  "asked_receive (ReceiveBufferSize n) = Some n"
| "asked_receive _ = None"

lemma last_set_append [simp]: "last_set f d (xs @ ys) = last_set f (last_set f d xs) ys"
  by (simp add: last_set_def)

lemma last_set_none: "\<forall>x \<in> set xs. f x = None \<Longrightarrow> last_set f d xs = d"
  by (induction xs arbitrary: d) (simp_all add: last_set_def)

lemma last_set_options:
  "last_set send_range (a, n, c) (map (\<lambda>x. snd (snd (option_step gv x))) options) =
     (if \<forall>x \<in> set options. asked_send x = None then (a, n, c) else (gvMinBuffer gv, last_set asked_send n options, gvMaxBuffer gv))"
  "last_set receive_range (a, n, c) (map (\<lambda>x. snd (snd (option_step gv x))) options) =
     (if \<forall>x \<in> set options. asked_receive x = None then (a, n, c) else (gvMinBuffer gv, last_set asked_receive n options, gvMaxBuffer gv))"
proof (induction options arbitrary: a n c)
  case (Cons x xs)
  {
    case 1 show ?case using Cons(1) by (cases x) (auto simp: last_set_def last_set_none [unfolded last_set_def])
  next
    case 2 show ?case using Cons(2) by (cases x) (auto simp: last_set_def last_set_none [unfolded last_set_def])
  }
qed (simp_all add: last_set_def)

lemma CreateStack_ranges:
  assumes "CreateStack gv options groups [] = (Ok (), s)"
  shows "last_set send_range d s = (gvMinBuffer gv, last_set asked_send (gvDefaultSend gv) options, gvMaxBuffer gv) \<and>
    last_set receive_range d s = (gvMinBuffer gv, last_set asked_receive (gvDefaultReceive gv) options, gvMaxBuffer gv)"
proof -
  from assms obtain s1 where 1: "run_steps gv (stack_steps gv options) [] = (Ok (), s1)" "run_steps gv (nic_steps gv groups) s1 = (Ok (), s)"
    by (auto simp: CreateStack_steps run_steps_append)
  then have s1: "s1 = calls_of (stack_steps gv options)" using run_steps_all stack_steps_need by fastforce
  from run_steps_extends [of gv "nic_steps gv groups" s1] 1(2) obtain ys where s: "s = s1 @ ys" "set ys \<subseteq> (\<lambda>x. snd (snd x)) ` set (nic_steps gv groups)"
    by auto
  have "send_range c = None \<and> receive_range c = None" if "c \<in> set ys" for c
    using s(2) that by (auto simp: nic_steps_def Let_def split: if_splits)
  then have ys: "last_set send_range x ys = x" "last_set receive_range x ys = x" for x
    by (auto intro!: last_set_none)
  have "last_set asked_send n options = n" if "\<forall>x \<in> set options. asked_send x = None" for n using that by (rule last_set_none)
  moreover have "last_set asked_receive n options = n" if "\<forall>x \<in> set options. asked_receive x = None" for n using that by (rule last_set_none)
  ultimately have opts: "last_set send_range (gvMinBuffer gv, n, gvMaxBuffer gv) (map (\<lambda>x. snd (snd (option_step gv x))) options) =
      (gvMinBuffer gv, last_set asked_send n options, gvMaxBuffer gv)"
    "last_set receive_range (gvMinBuffer gv, n, gvMaxBuffer gv) (map (\<lambda>x. snd (snd (option_step gv x))) options) =
      (gvMinBuffer gv, last_set asked_receive n options, gvMaxBuffer gv)" for n
    by (simp_all add: last_set_options)
  have def: "last_set send_range d (calls_of (default_steps gv)) = (gvMinBuffer gv, gvDefaultSend gv, gvMaxBuffer gv)"
    "last_set receive_range d (calls_of (default_steps gv)) = (gvMinBuffer gv, gvDefaultReceive gv, gvMaxBuffer gv)"
    by (simp_all add: default_steps_def last_set_def)
  have tail: "last_set send_range x (TCPHandler # UDPHandler # ys) = x" "last_set receive_range x (TCPHandler # UDPHandler # ys) = x" for x
    using ys by (simp_all add: last_set_def)
  show ?thesis by (simp add: s s1 stack_steps_def ys def opts tail comp_def)
qed


section \<open>New connections\<close>

datatype ep_call =
    EpKeepAlive
  | EpKeepaliveIdle int
  | EpKeepaliveInterval int
  | EpKeepaliveCount int
  | EpSendBuffer int
  | EpReceiveBuffer int

text \<open>
  What a request to forward a connection meets: whether an endpoint can be created, the answers to its options, and
  the stack's buffer sizes if they can be read.
\<close>

record fwd_env =
  feCreate :: "string option"
  feSet :: "ep_call \<Rightarrow> string option"
  feSendRange :: "(int \<times> int \<times> int) option"
  feReceiveRange :: "(int \<times> int \<times> int) option"

definition tcpKeepaliveCount :: int where "tcpKeepaliveCount = 9"
definition tcpKeepaliveIdle :: int where "tcpKeepaliveIdle = 60000000000"
definition tcpKeepaliveInterval :: int where "tcpKeepaliveInterval = 30000000000"

fun ep_sets :: "fwd_env \<Rightarrow> ep_call list \<Rightarrow> ep_call list \<times> string option" where
  "ep_sets env [] = ([], None)"
| "ep_sets env (c # cs) =
     (case feSet env c of
        Some err \<Rightarrow> ([], Some err)
      | None \<Rightarrow> (case ep_sets env cs of (done_calls, err) \<Rightarrow> (c # done_calls, err)))"

definition ep_buffers :: "fwd_env \<Rightarrow> ep_call list" where
  "ep_buffers env =
     (case feSendRange env of None \<Rightarrow> [] | Some (_, n, _) \<Rightarrow> [EpSendBuffer n]) @
     (case feReceiveRange env of None \<Rightarrow> [] | Some (_, n, _) \<Rightarrow> [EpReceiveBuffer n])"

text \<open>\<^verbatim>\<open>setSocketOptions\<close>: what was set, and the error.\<close>

definition setSocketOptions :: "fwd_env \<Rightarrow> ep_call list \<times> string option" where
  "setSocketOptions env =
     (case ep_sets env [EpKeepaliveIdle tcpKeepaliveIdle, EpKeepaliveInterval tcpKeepaliveInterval, EpKeepaliveCount tcpKeepaliveCount] of
        (cs, Some err) \<Rightarrow> (EpKeepAlive # cs, Some err)
      | (cs, None) \<Rightarrow> (EpKeepAlive # cs @ ep_buffers env, None))"

datatype fwd_event = OptionSet ep_call | Handled endpoint_id | Complete bool

text \<open>The function the TCP forwarder calls for a request; the deferred completion follows the handler.\<close>

definition tcp_forward :: "fwd_env \<Rightarrow> endpoint_id \<Rightarrow> fwd_event list" where
  "tcp_forward env e =
     (if feCreate env \<noteq> None then [Complete True]
      else map OptionSet (fst (setSocketOptions env)) @ [Handled e, Complete False])"

definition udp_forward :: "fwd_env \<Rightarrow> endpoint_id \<Rightarrow> fwd_event list" where
  "udp_forward env e = (if feCreate env \<noteq> None then [] else [Handled e])"

text \<open>
  Every TCP request is completed exactly once and last: with a reset exactly when there is no endpoint, and otherwise after the
  connection was handed over, whatever became of its options.
\<close>

lemma tcp_forward_completes:
  "\<exists>es. tcp_forward env e = es @ [Complete (feCreate env \<noteq> None)] \<and> (\<forall>b. Complete b \<notin> set es) \<and>
     (if feCreate env = None then last es = Handled e \<and> filter (\<lambda>x. x = Handled e) es = [Handled e] else es = [])"
  by (cases "feCreate env = None") (auto simp: tcp_forward_def filter_empty_conv)

end
