(* ===== verification/LinkEndpoint.thy ===== *)
theory LinkEndpoint
  imports CoreStack
begin

text \<open>
  The link layer of the packet engine: the endpoint over a reader and writer, \<^verbatim>\<open>tun2socks/core/device/iobased\<close>, and
  the device that it serves, \<^verbatim>\<open>tun_wireguard.go\<close>. A packet lies behind \<open>offset\<close> bytes that belong to
  the device. Shown here: every packet that fits the MTU reaches the stack unchanged and in
  order, with the protocol of its version, other reads are skipped without a panic, and a
  packet of the stack leaves the device as it is.
\<close>

section \<open>The endpoint\<close>

record Endpoint =
  epMTU :: nat
  epOffset :: nat

definition iobased_New :: "bool \<Rightarrow> nat \<Rightarrow> int \<Rightarrow> go_error + Endpoint" where
  "iobased_New rw_nil mtu off =
     (if mtu = 0 then Inl (ErrorNew ''MTU size is zero'')
      else if rw_nil then Inl (ErrorNew ''RW interface is nil'')
      else if off < 0 then Inl (ErrorNew ''offset must be non-negative'')
      else Inr \<lparr>epMTU = mtu, epOffset = nat off\<rparr>)"

text \<open>One read: an error, or the count, the buffer, and whether a dispatcher is attached just then.\<close>

type_synonym link_read = "go_error + nat \<times> bytes \<times> bool"

definition IPVersion :: "bytes \<Rightarrow> nat" where
  "IPVersion b = (if b = [] then 16 else unat (hd b) div 16)"

text \<open>The packets given to the stack, and whether the loop has ended (and cancelled the outbound one); \<^const>\<open>None\<close>: a panic.\<close>

fun dispatchLoop :: "Endpoint \<Rightarrow> link_read list \<Rightarrow> ((ipver \<times> bytes) list \<times> bool) option" where
  "dispatchLoop ep [] = Some ([], False)"
| "dispatchLoop ep (Inl err # rs) = Some ([], True)"
| "dispatchLoop ep (Inr (n, data, attached) # rs) =
     (if n = 0 \<or> n > epMTU ep then dispatchLoop ep rs
      else if \<not> attached then dispatchLoop ep rs
      else
        case go_slice data (int (epOffset ep)) (int (epOffset ep + n)) of
          None \<Rightarrow> None
        | Some payload \<Rightarrow>
            (case go_slice data (int (epOffset ep)) (int (length data)) of
               None \<Rightarrow> None
             | Some rest \<Rightarrow>
                 map_option (\<lambda>(ps, e). ((if IPVersion rest = 4 then [(V4, payload)] else if IPVersion rest = 6 then [(V6, payload)] else []) @ ps, e))
                   (dispatchLoop ep rs)))"

text \<open>\<^verbatim>\<open>outboundLoop\<close> over the packets read from the stack: a packet that cannot be written is lost, and the loop goes on.\<close>

definition writePacket :: "Endpoint \<Rightarrow> bytes \<Rightarrow> bytes" where
  "writePacket ep pkt = (if epOffset ep \<noteq> 0 then replicate (epOffset ep) 0 @ pkt else pkt)"

fun outboundLoop :: "Endpoint \<Rightarrow> (bytes \<Rightarrow> go_error option) \<Rightarrow> bytes list \<Rightarrow> bytes list" where
  "outboundLoop ep wr [] = []"
| "outboundLoop ep wr (pkt # pkts) =
     (case wr (writePacket ep pkt) of
        Some _ \<Rightarrow> outboundLoop ep wr pkts
      | None \<Rightarrow> writePacket ep pkt # outboundLoop ep wr pkts)"

section \<open>The device\<close>

text \<open>
  The native device is outside the repository. \<open>ntRead off len pkt\<close>: the size it reports and the buffer of
  length \<open>len\<close> it has filled when \<open>pkt\<close> arrives; \<open>ntWrite off buf\<close>: the packet that leaves. Its documentation: a packet that fits is put behind
  the offset and its size reported, one that does not is an error; what is written is what lies behind the offset.
\<close>

record native_tun =
  ntRead :: "nat \<Rightarrow> nat \<Rightarrow> bytes \<Rightarrow> go_error + nat \<times> bytes"
  ntWrite :: "nat \<Rightarrow> bytes \<Rightarrow> bytes"

definition tun_driver :: "native_tun \<Rightarrow> bool" where
  "tun_driver nt \<longleftrightarrow>
     (\<forall>off len pkt. off + length pkt \<le> len \<longrightarrow>
        (\<exists>buf. ntRead nt off len pkt = Inr (length pkt, buf) \<and> length buf = len \<and> take (length pkt) (drop off buf) = pkt)) \<and>
     (\<forall>off buf. ntWrite nt off buf = drop off buf)"

definition TUN_Read :: "native_tun \<Rightarrow> nat \<Rightarrow> nat \<Rightarrow> bytes \<Rightarrow> go_error + nat \<times> bytes" where
  "TUN_Read nt off len pkt = ntRead nt off len pkt"

definition TUN_Write :: "native_tun \<Rightarrow> nat \<Rightarrow> bytes \<Rightarrow> bytes" where
  "TUN_Write nt off buf = ntWrite nt off buf"

text \<open>The reads of a device on which packets arrive, while a dispatcher is attached.\<close>

definition tun_reads :: "native_tun \<Rightarrow> Endpoint \<Rightarrow> bytes list \<Rightarrow> link_read list" where
  "tun_reads nt ep pkts =
     map (\<lambda>pkt. sum_map (\<lambda>(n, data). (n, data, True)) (TUN_Read nt (epOffset ep) (epOffset ep + epMTU ep) pkt)) pkts"

section \<open>Packets pass unchanged\<close>

definition fits :: "Endpoint \<Rightarrow> bytes \<Rightarrow> bool" where
  "fits ep pkt \<longleftrightarrow> pkt \<noteq> [] \<and> length pkt \<le> epMTU ep \<and> IPVersion pkt \<in> {4, 6}"

text \<open>Whatever a reader returns, a count within its buffer never makes the loop panic.\<close>

lemma dispatchLoop_safe:
  "\<forall>n data a. Inr (n, data, a) \<in> set rs \<longrightarrow> length data = epOffset ep + epMTU ep \<Longrightarrow> dispatchLoop ep rs \<noteq> None"
proof (induction rs)
  case (Cons r rs)
  have IH: "dispatchLoop ep rs \<noteq> None" by (rule Cons.IH) (use Cons.prems in auto)
  show ?case
  proof (cases r)
    case (Inr x)
    obtain n data attached where x: "x = (n, data, attached)" by (cases x)
    with Cons.prems Inr have "length data = epOffset ep + epMTU ep" by auto
    with IH show ?thesis unfolding Inr x by (auto simp: go_slice_def)
  qed simp
qed simp

definition versioned :: "bytes \<Rightarrow> ipver \<times> bytes" where
  "versioned pkt = (if IPVersion pkt = 4 then V4 else V6, pkt)"

lemma IPVersion_take: "take (length pkt) rest = pkt \<Longrightarrow> pkt \<noteq> [] \<Longrightarrow> IPVersion rest = IPVersion pkt"
  by (cases pkt; cases rest) (simp_all add: IPVersion_def)

lemma TUN_Read_slices:
  assumes "tun_driver nt" and "pkt \<noteq> []" and "length pkt \<le> mtu"
  shows "\<exists>data rest. TUN_Read nt off (off + mtu) pkt = Inr (length pkt, data) \<and>
    go_slice data (int off) (int (off + length pkt)) = Some pkt \<and>
    go_slice data (int off) (int (length data)) = Some rest \<and> IPVersion rest = IPVersion pkt"
proof -
  from assms obtain data where d: "TUN_Read nt off (off + mtu) pkt = Inr (length pkt, data)" "length data = off + mtu"
    "take (length pkt) (drop off data) = pkt"
    unfolding tun_driver_def TUN_Read_def by (metis add_le_cancel_left)
  with assms(2,3) IPVersion_take [of pkt "drop off data"] show ?thesis
    by (auto simp: go_slice_def)
qed

text \<open>
  Packets cross the link layer unchanged. Of the packets that arrive on the device, of at most the MTU's size, exactly
  those that are not empty and are IPv4 or IPv6 reach the stack, in order, whole and with their version; a read error ends the loop after them; the loop never
  panics. Of the stack's packets, each leaves the device as it is.
\<close>

theorem link_packets:
  assumes "tun_driver nt" and "\<forall>pkt \<in> set pkts. length pkt \<le> epMTU ep"
  shows "dispatchLoop ep (tun_reads nt ep pkts @ ends) =
      map_option (\<lambda>(ps, e). (map versioned (filter (fits ep) pkts) @ ps, e)) (dispatchLoop ep ends) \<and>
    map (TUN_Write nt (epOffset ep)) (outboundLoop ep (\<lambda>_. None) pkts) = pkts"
proof
  show "dispatchLoop ep (tun_reads nt ep pkts @ ends) =
      map_option (\<lambda>(ps, e). (map versioned (filter (fits ep) pkts) @ ps, e)) (dispatchLoop ep ends)"
    using assms(2)
  proof (induction pkts)
    case Nil
    then show ?case by (simp add: tun_reads_def option.map_ident)
  next
    case (Cons pkt pkts)
    show ?case
    proof (cases "pkt = []")
      case True
      from assms(1) obtain data where "TUN_Read nt (epOffset ep) (epOffset ep + epMTU ep) [] = Inr (0, data)"
        unfolding tun_driver_def TUN_Read_def by (metis add.right_neutral le_add1 list.size(3))
      with True Cons show ?thesis by (simp add: fits_def tun_reads_def)
    next
      case False
      with TUN_Read_slices [OF assms(1), of pkt "epMTU ep" "epOffset ep"] Cons.prems obtain data rest where
        "TUN_Read nt (epOffset ep) (epOffset ep + epMTU ep) pkt = Inr (length pkt, data)"
        "go_slice data (int (epOffset ep)) (int (epOffset ep + length pkt)) = Some pkt"
        "go_slice data (int (epOffset ep)) (int (length data)) = Some rest" "IPVersion rest = IPVersion pkt"
        by auto
      with False Cons show ?thesis
        by (auto simp: tun_reads_def fits_def versioned_def option.map_comp comp_def split_def simp del: of_nat_add intro!: option.map_cong0)
    qed
  qed
  show "map (TUN_Write nt (epOffset ep)) (outboundLoop ep (\<lambda>_. None) pkts) = pkts"
    using assms(1) by (induction pkts) (simp_all add: TUN_Write_def tun_driver_def writePacket_def)
qed

text \<open>A driver that keeps the documented behaviour.\<close>

definition plain_tun :: native_tun where
  "plain_tun = \<lparr>ntRead = (\<lambda>off len pkt. if off + length pkt \<le> len then Inr (length pkt, replicate off 0 @ pkt @ replicate (len - off - length pkt) 0)
       else Inl (ErrorNew ''too many segments'')),
     ntWrite = (\<lambda>off buf. drop off buf)\<rparr>"

lemma plain_tun: "tun_driver plain_tun"
  by (auto simp: tun_driver_def plain_tun_def)

theorem link_packets_witness:
  "dispatchLoop \<lparr>epMTU = 2, epOffset = 4\<rparr> (tun_reads plain_tun \<lparr>epMTU = 2, epOffset = 4\<rparr> [[0x45, 1], [0x60, 2], [], [0x10]] @ [Inl IoEOF]) =
    Some ([(V4, [0x45, 1]), (V6, [0x60, 2])], True)"
  using link_packets [OF plain_tun, where ep = "\<lparr>epMTU = 2, epOffset = 4\<rparr>" and pkts = "[[0x45, 1], [0x60, 2], [], [0x10]]" and ends = "[Inl IoEOF]"]
  by (simp add: fits_def versioned_def IPVersion_def)

end
