(* ===== verification/Devices.thy ===== *)
theory Devices
  imports LinkEndpoint "HOL-Library.Multiset"
begin

text \<open>
  Opening and closing the tunnel device: \<^verbatim>\<open>core/device/tun/tun_netstack.go\<close> (Linux), \<^verbatim>\<open>tun_wireguard.go\<close> with its
  constants (other systems). The system's calls are answered by an argument and logged, so that one can read
  from the log which descriptors are open. Shown here: the socket that sets the MTU is closed on every path; an
  opened device holds one descriptor, with the MTU the system reports, and closing it leaves none; an
  opening that fails after the device was created keeps that descriptor open.
\<close>

section \<open>Calls\<close>

datatype dev_call =
    TunOpen string
  | OpenSocket
  | NewIfreq string
  | SetIfMTU int string nat
  | GetMTU string
  | FdEndpoint int nat
  | CreateTUN string nat
  | NativeMTU int
  | CloseEndpoint
  | CloseFd int

type_synonym dev_env = "dev_call \<Rightarrow> go_error + int"
type_synonym dev_log = "(dev_call \<times> (go_error + int)) list"

definition dev_sys :: "dev_env \<Rightarrow> dev_call \<Rightarrow> (dev_log, int) io" where
  "dev_sys env c l = (case env c of Inl e \<Rightarrow> Fail e | Inr v \<Rightarrow> Ok v, l @ [(c, env c)])"

definition dev_deferred :: "dev_env \<Rightarrow> dev_call \<Rightarrow> (dev_log, 'a) io \<Rightarrow> (dev_log, 'a) io" where
  "dev_deferred env c m l = (case m l of (r, l') \<Rightarrow> (r, snd (dev_sys env c l')))"

section \<open>Linux\<close>

definition IFNAMSIZ :: nat where "IFNAMSIZ = 16"

record TUN =
  tunFd :: int
  tunMTU :: nat
  tunName :: string

definition setMTU :: "dev_env \<Rightarrow> string \<Rightarrow> nat \<Rightarrow> (dev_log, unit) io" where
  "setMTU env name n =
     io_bind (dev_sys env OpenSocket) (\<lambda>fd.
     dev_deferred env (CloseFd fd) (
       io_bind (dev_sys env (NewIfreq name)) (\<lambda>_.
       io_bind (dev_sys env (SetIfMTU fd name n)) (\<lambda>_. io_return ()))))"

definition tun_Open :: "dev_env \<Rightarrow> string \<Rightarrow> nat \<Rightarrow> (dev_log, TUN) io" where
  "tun_Open env name mtu =
     (if length name \<ge> IFNAMSIZ then io_fail (ErrorNew (''interface name too long: '' @ name))
      else
        io_bind (io_wrap ''create tun'' (dev_sys env (TunOpen name))) (\<lambda>fd.
        io_bind (if mtu > 0 then io_wrap ''set mtu'' (setMTU env name mtu) else io_return ()) (\<lambda>_.
        io_bind (io_wrap ''get mtu'' (dev_sys env (GetMTU name))) (\<lambda>m.
        io_bind (io_wrap ''create endpoint'' (dev_sys env (FdEndpoint fd (nat m)))) (\<lambda>_.
        io_return \<lparr>tunFd = fd, tunMTU = nat m, tunName = name\<rparr>)))))"

definition tun_Close :: "dev_env \<Rightarrow> TUN \<Rightarrow> (dev_log, unit) io" where
  "tun_Close env t = dev_deferred env CloseEndpoint (io_bind (io_try (dev_sys env (CloseFd (tunFd t)))) (\<lambda>_. io_return ()))"

section \<open>Other systems\<close>

text \<open>Offset and default MTU: \<^verbatim>\<open>tun_wireguard_unix.go\<close> and \<^verbatim>\<open>tun_wireguard_windows.go\<close>.\<close>

definition wg_unix :: "nat \<times> nat" where "wg_unix = (4, 1500)"
definition wg_windows :: "nat \<times> nat" where "wg_windows = (0, 0)"

text \<open>
  \<^verbatim>\<open>Open\<close> of \<^verbatim>\<open>tun_wireguard.go\<close>: the handle and the endpoint. Its deferred \<^verbatim>\<open>recover\<close> makes an error of a panic
  of the library, whose text is \<open>panicText\<close>.
\<close>

definition recovering :: "string \<Rightarrow> ('w, 'a) io \<Rightarrow> ('w, 'a) io" where
  "recovering panicText m w = (case m w of (Panic, w') \<Rightarrow> (Fail (ErrorNew (''open tun: '' @ panicText)), w') | r \<Rightarrow> r)"

definition wg_createTUN :: "dev_env \<Rightarrow> bool \<Rightarrow> string \<Rightarrow> nat \<Rightarrow> (dev_log, int) io" where
  "wg_createTUN env panics name mtu l = (if panics then (Panic, l) else dev_sys env (CreateTUN name mtu) l)"

definition wg_Open :: "dev_env \<Rightarrow> bool \<Rightarrow> string \<Rightarrow> nat \<times> nat \<Rightarrow> string \<Rightarrow> nat \<Rightarrow> (dev_log, int \<times> Endpoint) io" where
  "wg_Open env panics panicText oc name mtu =
     recovering panicText (
       let forcedMTU = (if mtu > 0 then mtu else snd oc) in
       io_bind (io_wrap ''create tun'' (wg_createTUN env panics name forcedMTU)) (\<lambda>nt.
       io_bind (io_wrap ''get mtu'' (dev_sys env (NativeMTU nt))) (\<lambda>m.
       io_bind (io_wrap ''create endpoint'' (io_sum (iobased_New False (nat (m mod 2 ^ 32)) (int (fst oc))))) (\<lambda>ep.
       io_return (nt, ep)))))"

text \<open>\<^verbatim>\<open>Close\<close> of \<^verbatim>\<open>tun_wireguard.go\<close> has the same shape as on Linux, on the native device.\<close>

definition wg_Close :: "dev_env \<Rightarrow> int \<Rightarrow> (dev_log, unit) io" where
  "wg_Close env nt = dev_deferred env CloseEndpoint (io_bind (io_try (dev_sys env (CloseFd nt))) (\<lambda>_. io_return ()))"

section \<open>Descriptors\<close>

text \<open>The descriptors open after a log, beginning with those of \<open>M\<close>.\<close>

fun opened1 :: "dev_call \<times> (go_error + int) \<Rightarrow> int multiset \<Rightarrow> int multiset" where
  "opened1 (TunOpen _, Inr fd) M = add_mset fd M"
| "opened1 (OpenSocket, Inr fd) M = add_mset fd M"
| "opened1 (CreateTUN _ _, Inr fd) M = add_mset fd M"
| "opened1 (CloseFd fd, _) M = M - {#fd#}"
| "opened1 _ M = M"

definition opened :: "dev_log \<Rightarrow> int multiset \<Rightarrow> int multiset" where
  "opened l M = fold opened1 l M"

lemma opened_simps [simp]:
  "opened [] M = M" "opened (x # l) M = opened l (opened1 x M)" "opened (l @ l') M = opened l' (opened l M)"
  by (simp_all add: opened_def)

lemmas dev_defs = dev_sys_def dev_deferred_def io_bind_def io_wrap_def io_return_def io_fail_def io_try_def

text \<open>The socket through which the MTU is set is closed on every path.\<close>

lemma setMTU_runs:
  "\<exists>r l'. setMTU env name n l = (r, l @ l') \<and> (\<forall>M. opened l' M = M) \<and> r \<noteq> Panic \<and>
    (r = Ok () \<longrightarrow> (\<exists>fd v. (SetIfMTU fd name n, Inr v) \<in> set l'))"
  by (cases "env OpenSocket"; cases "env (NewIfreq name)"; cases "env (SetIfMTU (projr (env OpenSocket)) name n)")
    (simp_all add: setMTU_def dev_defs)

lemma tun_Close_closes: "opened (snd (tun_Close env t l)) M = opened l M - {#tunFd t#}"
  by (simp add: tun_Close_def dev_defs split: sum.split)

lemma wg_Close_closes: "opened (snd (wg_Close env nt l)) M = opened l M - {#nt#}"
  by (simp add: wg_Close_def dev_defs split: sum.split)

text \<open>
  An opened device holds exactly one descriptor, its own, has the MTU the system reports after the one asked for was set,
  and closing it leaves none open. An opening that fails leaves none open if the device was not created, and
  otherwise leaves the device's descriptor open: no path closes it.
\<close>

theorem tun_lifecycle:
  "case tun_Open env name mtu [] of
     (Ok t, l) \<Rightarrow>
       opened l {#} = {#tunFd t#} \<and> tunName t = name \<and> length name < IFNAMSIZ \<and> sum_map nat (env (GetMTU name)) = Inr (tunMTU t) \<and>
       (mtu = 0 \<or> (\<exists>fd v. (SetIfMTU fd name mtu, Inr v) \<in> set l)) \<and> opened (snd (tun_Close env t l)) {#} = {#}
   | (Fail e, l) \<Rightarrow>
       opened l {#} = (if IFNAMSIZ \<le> length name then {#} else case env (TunOpen name) of Inl _ \<Rightarrow> {#} | Inr fd \<Rightarrow> {#fd#})
   | (Panic, l) \<Rightarrow> False"
proof (cases "IFNAMSIZ \<le> length name")
  case True
  then show ?thesis by (simp add: tun_Open_def io_fail_def)
next
  case False
  show ?thesis
  proof (cases "env (TunOpen name)")
    case (Inl e)
    with False show ?thesis by (simp add: tun_Open_def dev_defs)
  next
    case (Inr fd)
    obtain r l' where s: "setMTU env name mtu [(TunOpen name, Inr fd)] = (r, [(TunOpen name, Inr fd)] @ l')"
      "\<And>M. opened l' M = M" "r \<noteq> Panic" "r = Ok () \<longrightarrow> (\<exists>fd v. (SetIfMTU fd name mtu, Inr v) \<in> set l')"
      using setMTU_runs [of env name mtu "[(TunOpen name, Inr fd)]"] by blast
    from False Inr s show ?thesis
      by (cases r; cases "env (GetMTU name)"; cases "env (FdEndpoint fd (nat (projr (env (GetMTU name)))))")
        (auto simp: tun_Open_def dev_defs tun_Close_closes)
  qed
qed

lemma wg_Open_runs:
  "case wg_Open env panics panicText oc name mtu [] of
     (Ok (nt, ep), l) \<Rightarrow> opened l {#} = {#nt#} \<and> epOffset ep = fst oc \<and> 0 < epMTU ep \<and> opened (snd (wg_Close env nt l)) {#} = {#}
   | (Fail e, l) \<Rightarrow> opened l {#} = (if panics then {#} else case env (CreateTUN name (if 0 < mtu then mtu else snd oc)) of Inl _ \<Rightarrow> {#} | Inr nt \<Rightarrow> {#nt#})
   | (Panic, l) \<Rightarrow> False"
  by (cases panics; cases "env (CreateTUN name (if 0 < mtu then mtu else snd oc))";
      cases "env (NativeMTU (projr (env (CreateTUN name (if 0 < mtu then mtu else snd oc)))))")
    (auto simp: wg_Open_def wg_createTUN_def recovering_def Let_def dev_defs io_sum_def iobased_New_def wg_Close_closes)

text \<open>The link that such a device serves carries its packets; the endpoint of an opened device is never without an MTU.\<close>

lemma wg_link:
  assumes "wg_Open env panics panicText oc name mtu [] = (Ok (nt, ep), l)" and "tun_driver drv"
    and "\<forall>pkt \<in> set pkts. length pkt \<le> epMTU ep"
  shows "map (TUN_Write drv (fst oc)) (outboundLoop ep (\<lambda>_. None) pkts) = pkts"
  using link_packets [OF assms(2,3), of "[]"] wg_Open_runs [where env = env and panics = panics and panicText = panicText and oc = oc and name = name and mtu = mtu] assms(1) by simp

end
