(* ===== verification/RestApi.thy ===== *)
theory RestApi
  imports Engine EngineStats
begin

text \<open>
  The control interface of the packet engine, \<^verbatim>\<open>tun2socks/restapi\<close>: who may use it, the connection table and
  the traffic over HTTP, and the counters of the network stack in JSON. Requests are given by what the
  handlers look at; the router, the web socket library and the JSON of the standard library are arguments or left out.
  Shown here: with a token set, a request is served exactly when it carries the token; closing by identifier closes that
  connection and no other; the text written for the counters is the JSON of their tree, as long as no counter
  disappears while it is written.
\<close>

section \<open>Authentication\<close>

record request =
  rqMethod :: string
  rqPath :: string
  rqWebSocket :: bool
  rqQuery :: "string \<Rightarrow> string"          \<comment> \<open>empty when absent\<close>
  rqAuthorization :: string

definition ErrBadRequest :: string where "ErrBadRequest = ''Body invalid''"
definition ErrUnauthorized :: string where "ErrUnauthorized = ''Unauthorized''"
definition ErrUninitialized :: string where "ErrUninitialized = ''Uninitialized''"

datatype 'a answer = Served 'a | Refused int string

text \<open>\<^verbatim>\<open>strings.SplitN(s, c, 2)\<close> as a list.\<close>

definition SplitN2 :: "char \<Rightarrow> string \<Rightarrow> string list" where
  "SplitN2 c s = (case split_two c s of None \<Rightarrow> [s] | Some (a, b) \<Rightarrow> [a, b])"

definition authenticator :: "string \<Rightarrow> (request \<Rightarrow> 'a answer) \<Rightarrow> request \<Rightarrow> 'a answer" where
  "authenticator token handler r =
     (if token = [] then handler r
      else if rqWebSocket r \<and> rqQuery r ''token'' \<noteq> [] then
        (if rqQuery r ''token'' \<noteq> token then Refused 401 ErrUnauthorized else handler r)
      else
        let parts = SplitN2 (CHR '' '') (rqAuthorization r);
            hasInvalidHeader = parts ! 0 \<noteq> ''Bearer'';
            hasInvalidToken = (length parts \<noteq> 2 \<or> parts ! 1 \<noteq> token) in
        if hasInvalidHeader \<or> hasInvalidToken then Refused 401 ErrUnauthorized else handler r)"

text \<open>The request carries the token: in the query of a web socket, or as a bearer.\<close>

definition bears_token :: "string \<Rightarrow> request \<Rightarrow> bool" where
  "bears_token token r \<longleftrightarrow>
     (if rqWebSocket r \<and> rqQuery r ''token'' \<noteq> [] then rqQuery r ''token'' = token
      else rqAuthorization r = ''Bearer '' @ token)"

lemma SplitN2_bearer: "SplitN2 (CHR '' '') s = [''Bearer'', t] \<longleftrightarrow> s = ''Bearer '' @ t"
proof
  assume "SplitN2 (CHR '' '') s = [''Bearer'', t]"
  then have "CHR '' '' \<in> set s" "takeWhile (\<lambda>x. x \<noteq> CHR '' '') s = ''Bearer''" "tl (dropWhile (\<lambda>x. x \<noteq> CHR '' '') s) = t"
    by (auto simp: SplitN2_def split_two_def split: if_splits)
  moreover have "dropWhile (\<lambda>x. x \<noteq> CHR '' '') s \<noteq> []" using \<open>CHR '' '' \<in> set s\<close> by (simp add: dropWhile_eq_Nil_conv)
  then have "dropWhile (\<lambda>x. x \<noteq> CHR '' '') s = CHR '' '' # tl (dropWhile (\<lambda>x. x \<noteq> CHR '' '') s)"
    using hd_dropWhile [of "\<lambda>x. x \<noteq> CHR '' ''" s] by (cases "dropWhile (\<lambda>x. x \<noteq> CHR '' '') s") simp_all
  ultimately have "s = ''Bearer'' @ CHR '' '' # t" using takeWhile_dropWhile_id [of "\<lambda>x. x \<noteq> CHR '' ''" s] by simp
  then show "s = ''Bearer '' @ t" by simp
qed (simp add: SplitN2_def split_two_def)

text \<open>
  The control interface serves exactly the requests that carry the configured token (all of them if none is configured); to any other
  request it answers 401, without calling the handler.
\<close>

theorem authenticator_serves:
  "authenticator token handler r = (if token = [] \<or> bears_token token r then handler r else Refused 401 ErrUnauthorized)"
proof -
  have two: "parts ! 0 = ''Bearer'' \<and> length parts = 2 \<and> parts ! 1 = token \<longleftrightarrow> parts = [''Bearer'', token]" for parts :: "string list"
    by (auto simp: length_Suc_conv numeral_2_eq_2)
  show ?thesis
    using two [of "SplitN2 (CHR '' '') (rqAuthorization r)"] SplitN2_bearer [of "rqAuthorization r" token]
    by (auto simp: authenticator_def bears_token_def Let_def)
qed

section \<open>Connections\<close>

text \<open>Closing a connection takes it out of the table; \<open>closed\<close> are the connections closed.\<close>

definition closeConnection :: "string \<Rightarrow> Manager \<Rightarrow> string list" where
  "closeConnection i m = (case List.find (\<lambda>c. i = c) (snConnections (Manager_Snapshot m)) of None \<Rightarrow> [] | Some c \<Rightarrow> [c])"

definition closeAllConnections :: "Manager \<Rightarrow> string list" where
  "closeAllConnections m = snConnections (Manager_Snapshot m)"

definition closing_ops :: "string list \<Rightarrow> stat_op list" where
  "closing_ops closed = concat (map tracker_Close closed)"

text \<open>The table after the operations of the trackers that were closed, run one after the other.\<close>

definition after_ops :: "stat_op list \<Rightarrow> stats \<Rightarrow> stats" where
  "after_ops ops s = fold (\<lambda>x s. snd (run_op x s)) ops s"

lemma after_closing: "connections (sManager (after_ops (closing_ops cs) s)) = filter (\<lambda>c. c \<notin> set cs) (connections (sManager s))"
proof (induction cs arbitrary: s)
  case Nil
  then show ?case by (simp add: after_ops_def closing_ops_def)
next
  case (Cons c cs)
  from Cons [of "snd (run_op (LeaveOp c) s)"] show ?case
    by (auto simp: after_ops_def closing_ops_def tracker_Close_def Leave_def on_manager_def removeAll_filter_not_eq intro!: filter_cong)
qed

lemma close_by_id:
  "connections (sManager (after_ops (closing_ops (closeConnection i (sManager s))) s)) = removeAll i (connections (sManager s))"
  "connections (sManager (after_ops (closing_ops (closeAllConnections (sManager s))) s)) = []"
proof -
  have "closeConnection i m = (if i \<in> set (connections m) then [i] else [])" for m
    using find_None_iff [of "(=) i" "connections m"] find_Some_iff [of "(=) i" "connections m"]
    by (auto simp: closeConnection_def Manager_Snapshot_def in_set_conv_nth split: option.splits)
  then show "connections (sManager (after_ops (closing_ops (closeConnection i (sManager s))) s)) = removeAll i (connections (sManager s))"
    by (auto simp: after_closing removeAll_filter_not_eq intro!: filter_cong)
  show "connections (sManager (after_ops (closing_ops (closeAllConnections (sManager s))) s)) = []"
    by (simp add: after_closing closeAllConnections_def Manager_Snapshot_def filter_empty_conv)
qed

text \<open>The interval between two snapshots of a web socket, in milliseconds: an answer, or the interval.\<close>

definition connections_interval :: "request \<Rightarrow> int answer" where
  "connections_interval r =
     (if rqQuery r ''interval'' = [] then Served 1000
      else case Atoi (rqQuery r ''interval'') of None \<Rightarrow> Refused 400 ErrBadRequest | Some t \<Rightarrow> Served t)"

section \<open>Traffic\<close>

definition quoted :: "string \<Rightarrow> string" where "quoted s = [CHR 0x22] @ s @ [CHR 0x22]"

definition traffic_line :: "int64 \<times> int64 \<Rightarrow> string" where
  "traffic_line ud = ''{'' @ quoted ''up'' @ '':'' @ Itoa (sint (fst ud)) @ '','' @ quoted ''down'' @ '':'' @ Itoa (sint (snd ud)) @ ''}'' @ [CHR 0x0A]"

text \<open>\<^verbatim>\<open>traffic\<close>: a line at every tick, until one cannot be written; \<open>wr n\<close> is the error of the n-th write.\<close>

fun traffic_lines :: "(nat \<Rightarrow> go_error option) \<Rightarrow> nat \<Rightarrow> Manager list \<Rightarrow> string list" where
  "traffic_lines wr k [] = []"
| "traffic_lines wr k (m # ms) =
     (case wr k of Some _ \<Rightarrow> [] | None \<Rightarrow> traffic_line (Now m) # traffic_lines wr (Suc k) ms)"

section \<open>Snapshots of the connections\<close>

text \<open>
  \<^verbatim>\<open>getConnections\<close>: one snapshot, or over a web socket one at once and one at every tick until one cannot be written.
  \<open>enc\<close> is the JSON of a snapshot, \<open>up\<close> the error of the upgrade, \<open>m\<close> and \<open>ms\<close> the manager at the request and at the ticks.
  \<^const>\<open>None\<close>: \<^verbatim>\<open>time.NewTicker\<close> panics, because the interval, in nanoseconds and wrapped at 64 bits, is not positive.
\<close>

fun snapshots_sent :: "(Snapshot \<Rightarrow> string) \<Rightarrow> (nat \<Rightarrow> go_error option) \<Rightarrow> nat \<Rightarrow> Manager list \<Rightarrow> string list" where
  "snapshots_sent enc wr k [] = []"
| "snapshots_sent enc wr k (m # ms) =
     (case wr k of Some _ \<Rightarrow> [] | None \<Rightarrow> enc (Manager_Snapshot m) # snapshots_sent enc wr (Suc k) ms)"

definition tick_interval :: "int \<Rightarrow> int64" where
  "tick_interval t = of_int (1000000 * t)"

definition getConnections ::
  "(Snapshot \<Rightarrow> string) \<Rightarrow> go_error option \<Rightarrow> request \<Rightarrow> (nat \<Rightarrow> go_error option) \<Rightarrow> Manager \<Rightarrow> Manager list \<Rightarrow> string list answer option" where
  "getConnections enc up r wr m ms =
     (if \<not> rqWebSocket r then Some (Served [enc (Manager_Snapshot m)])
      else if up \<noteq> None then Some (Served [])
      else
        case connections_interval r of
          Refused code msg \<Rightarrow> Some (Refused code msg)
        | Served t \<Rightarrow>
            if wr 0 \<noteq> None then Some (Served [])
            else if sint (tick_interval t) \<le> 0 then None
            else Some (Served (snapshots_sent enc wr 0 (m # ms))))"

text \<open>With the default interval the handler serves; an interval of zero in the query makes it panic.\<close>

lemma getConnections_default:
  assumes "rqQuery r ''interval'' = []"
  shows "getConnections enc up r wr m ms \<noteq> None"
  using assms by (auto simp: getConnections_def connections_interval_def tick_interval_def)

lemma getConnections_zero_panics:
  assumes "rqWebSocket r" and "rqQuery r ''interval'' = ''0''" and "wr 0 = None"
  shows "getConnections enc None r wr m ms = None"
proof -
  have "Atoi ''0'' = Some 0" by code_simp
  with assms show ?thesis by (simp add: getConnections_def connections_interval_def tick_interval_def)
qed

text \<open>What is sent are snapshots of the first states, and all of them if every write succeeds.\<close>

lemma snapshots_sent_prefix:
  "\<exists>n. snapshots_sent enc wr k ms = map (enc \<circ> Manager_Snapshot) (take n ms)"
proof (induction ms arbitrary: k)
  case (Cons m ms)
  obtain n where "snapshots_sent enc wr (Suc k) ms = map (enc \<circ> Manager_Snapshot) (take n ms)" using Cons by blast
  then show ?case by (cases "wr k") (auto intro: exI [of _ "Suc n"] exI [of _ 0])
qed simp

lemma snapshots_sent_all: "(\<And>j. wr j = None) \<Longrightarrow> snapshots_sent enc wr k ms = map (enc \<circ> Manager_Snapshot) ms"
  by (induction ms arbitrary: k) simp_all

section \<open>Counters of the stack\<close>

text \<open>A structure of counters; a map of counters may lose a key after its keys were listed (\<^const>\<open>None\<close>).\<close>

datatype stat_val = Counter nat | CounterMap "(nat \<times> nat option) list" | Stats "(string \<times> stat_val) list"

fun encode_entries :: "(nat \<times> nat option) list \<Rightarrow> string" where
  "encode_entries [] = []"
| "encode_entries ((k, None) # es) = encode_entries es"
| "encode_entries ((k, Some n) # es) =
     quoted (Itoa (int k)) @ '':'' @ Itoa (int n) @ (if es \<noteq> [] then '','' else []) @ encode_entries es"

fun encode_val :: "stat_val \<Rightarrow> string" and encodeToJSON :: "(string \<times> stat_val) list \<Rightarrow> string" where
  "encode_val (Counter n) = Itoa (int n)"
| "encode_val (CounterMap es) = ''{'' @ encode_entries es @ ''}''"
| "encode_val (Stats fs) = ''{'' @ encodeToJSON fs @ ''}''"
| "encodeToJSON [] = []"
| "encodeToJSON ((name, v) # fs) =
     quoted name @ '':'' @ encode_val v @ (if fs \<noteq> [] then '','' else []) @ encodeToJSON fs"

text \<open>The reference: an object is its members, separated by commas, in braces.\<close>

fun comma_sep :: "string list \<Rightarrow> string" where
  "comma_sep [] = []"
| "comma_sep [x] = x"
| "comma_sep (x # y # xs) = x @ '','' @ comma_sep (y # xs)"

definition json_object :: "(string \<times> string) list \<Rightarrow> string" where
  "json_object ms = ''{'' @ comma_sep (map (\<lambda>(k, v). quoted k @ '':'' @ v) ms) @ ''}''"

fun stat_json :: "stat_val \<Rightarrow> string" and stat_members :: "(string \<times> stat_val) list \<Rightarrow> (string \<times> string) list" where
  "stat_json (Counter n) = Itoa (int n)"
| "stat_json (CounterMap es) = json_object (map (\<lambda>(k, n). (Itoa (int k), Itoa (int (the n)))) (filter (\<lambda>e. snd e \<noteq> None) es))"
| "stat_json (Stats fs) = json_object (stat_members fs)"
| "stat_members [] = []"
| "stat_members ((name, v) # fs) = (name, stat_json v) # stat_members fs"

fun stable :: "stat_val \<Rightarrow> bool" and stable_fields :: "(string \<times> stat_val) list \<Rightarrow> bool" where
  "stable (Counter n) \<longleftrightarrow> True"
| "stable (CounterMap es) \<longleftrightarrow> (\<forall>e \<in> set es. snd e \<noteq> None)"
| "stable (Stats fs) \<longleftrightarrow> stable_fields fs"
| "stable_fields [] \<longleftrightarrow> True"
| "stable_fields ((name, v) # fs) \<longleftrightarrow> stable v \<and> stable_fields fs"

lemma comma_sep_Cons: "comma_sep (x # xs) = x @ (if xs \<noteq> [] then '','' else []) @ comma_sep xs"
  by (cases xs) simp_all

lemma encode_entries_members:
  "\<forall>e \<in> set es. snd e \<noteq> None \<Longrightarrow>
   encode_entries es = comma_sep (map (\<lambda>(k, n). quoted (Itoa (int k)) @ '':'' @ Itoa (int (the n))) es)"
  by (induction es rule: encode_entries.induct) (simp_all add: comma_sep_Cons)

lemma stat_members_empty: "stat_members fs = [] \<longleftrightarrow> fs = []"
  by (cases fs) auto

theorem encode_is_json:
  "stable v \<Longrightarrow> encode_val v = stat_json v"
  "stable_fields fs \<Longrightarrow> encodeToJSON fs = comma_sep (map (\<lambda>(k, v). quoted k @ '':'' @ v) (stat_members fs))"
proof (induction v and fs rule: encode_val_encodeToJSON.induct)
  case (2 es)
  then have "filter (\<lambda>e. snd e \<noteq> None) es = es" by (simp add: filter_id_conv)
  with 2 encode_entries_members [of es] show ?case
    by (simp add: json_object_def comp_def case_prod_unfold)
next
  case (5 name v fs)
  then show ?case by (simp add: comma_sep_Cons stat_members_empty)
qed (simp_all add: json_object_def)

text \<open>A key that disappears leaves a comma behind, and the text is no JSON.\<close>

lemma encode_trailing_comma:
  "encode_val (CounterMap [(1, Some 2), (3, None)]) = ''{'' @ quoted ''1'' @ '':2,}''"
  by code_simp

end
