(* ===== verification/DesyncWindows.thy ===== *)
theory DesyncWindows
  imports DesyncSend Fragment TTLDetect
begin

text \<open>
  The Windows build of the decoy, \<^verbatim>\<open>internal/desync_windows.go\<close>, and of the urgent send,
  \<^verbatim>\<open>internal/oob_windows.go\<close>. The front of the ClientHello is a temporary file that the kernel transmits
  (\<^verbatim>\<open>TransmitFile\<close>, overlapped): the file holds the decoy while the TTL is small, and is overwritten with the
  real bytes before the TTL is restored. From the log of calls one can read what the kernel may
  send at each moment, and with which TTL. Shown here: whenever the kernel sends or resends, the
  decoy travels with the fake TTL only and everything sent with the socket's own TTL is real; the
  peer ends up with the record; and every resource is released on every path.
\<close>

section \<open>The routines\<close>

definition ERROR_IO_PENDING :: go_error where
  "ERROR_IO_PENDING = ErrorNew ''Overlapped I/O operation is in progress.''"

text \<open>The search for the distance is the same code as on Linux, with the Windows names of the socket options.\<close>

definition win_detectMinimalReachableTTL ::
  "ttl_env \<Rightarrow> string \<Rightarrow> int \<Rightarrow> int \<Rightarrow> ttl_world \<Rightarrow> (go_error + int) \<times> ttl_world" where
  "win_detectMinimalReachableTTL = detectMinimalReachableTTL"

text \<open>A deferred call: made after the rest of the function whatever that ended in; its error is dropped.\<close>

definition deferred :: "sock_env \<Rightarrow> win_op \<Rightarrow> (sock, 'a) io \<Rightarrow> (sock, 'a) io" where
  "deferred env op m w = (case m w of (r, w') \<Rightarrow> (r, snd (sys env (Win op) w')))"

text \<open>One call of the file or the event, with the error wrapped.\<close>

definition win :: "sock_env \<Rightarrow> string \<Rightarrow> win_op \<Rightarrow> (sock, int) io" where
  "win env what op = io_wrap what (sys env (Win op))"

definition transmit :: "sock_env \<Rightarrow> nat \<Rightarrow> (sock, unit) io" where
  "transmit env n =
     io_bind (win env ''raw control'' FileControl) (\<lambda>_.
     io_bind (io_try (sys env (Win (Transmit n)))) (\<lambda>r.
     case r of
       Inl e \<Rightarrow> if e = ERROR_IO_PENDING then io_return () else io_fail (WithStr ''call TransmitFile'' e)
     | Inr _ \<Rightarrow> io_return ()))"

text \<open>A failed wait sets the thread's last error, which is asked for as one more call.\<close>

definition wait_transmit :: "sock_env \<Rightarrow> nat \<Rightarrow> (sock, unit) io" where
  "wait_transmit env n =
     io_bind (win env ''wait for TransmitFile'' EventWait) (\<lambda>event.
     if event = 258 then io_fail (ErrorNew ''wait for TransmitFile: timeout (5s)'')
     else if event = 128 then io_fail (ErrorNew ''wait for TransmitFile: WAIT_ABANDONED'')
     else if event = 4294967295 then
       io_bind (io_try (sys env (Win GetLastError))) (\<lambda>r.
       io_fail (case r of Inl e \<Rightarrow> WithStr ''wait for TransmitFile: WAIT_FAILED'' e
         | Inr _ \<Rightarrow> ErrorNew ''wait for TransmitFile: WAIT_FAILED''))
     else if event \<noteq> 0 then io_fail (ErrorNew (''wait for TransmitFile: unexpected event: '' @ Itoa event))
     else
       io_bind (win env ''get TransmitFile result'' TransmitResult) (\<lambda>k.
       if k < int n then io_fail (ErrorNew (''sent only '' @ Itoa k @ '' of '' @ Itoa (int n) @ '' bytes''))
       else io_return ()))"

text \<open>From the transmission on, with the semaphore held.\<close>

definition noise_transmit :: "sock_env \<Rightarrow> bytes \<Rightarrow> int \<Rightarrow> bool \<Rightarrow> int \<Rightarrow> (sock, unit) io" where
  "noise_transmit env realData defaultTTL ipv6 fakeSleep =
     io_bind (win env ''get raw conn'' FileRawConn) (\<lambda>_.
     io_bind (transmit env (length realData)) (\<lambda>_.
     io_bind (sleep env fakeSleep) (\<lambda>_.
     io_bind (win env ''seek start'' FileSeek) (\<lambda>_.
     io_bind (win env ''write real data'' (FileWrite realData)) (\<lambda>_.
     io_bind (win env ''sync real data'' FileSync) (\<lambda>_.
     io_bind (win env ''seek start'' FileSeek) (\<lambda>_.
     io_bind (io_wrap ''set default TTL'' (sys env (SetTTL ipv6 defaultTTL))) (\<lambda>_.
     wait_transmit env (length realData)))))))))"

definition sem_acquire :: "(sock, unit) io" where
  "sem_acquire w = (Ok (), w\<lparr>calls := calls w @ [(Win SemAcquire, None)]\<rparr>)"

text \<open>\<open>sem\<close>: whether the number of transmissions is limited; the channel is acquired before and released after.\<close>

definition with_sem :: "sock_env \<Rightarrow> bool \<Rightarrow> (sock, unit) io \<Rightarrow> (sock, unit) io" where
  "with_sem env sem m =
     (if sem then io_bind sem_acquire (\<lambda>_. deferred env SemRelease m) else m)"

definition win_sendWithNoise ::
  "sock_env \<Rightarrow> bool \<Rightarrow> bytes \<Rightarrow> bytes \<Rightarrow> int \<Rightarrow> int \<Rightarrow> bool \<Rightarrow> int \<Rightarrow> (sock, unit) io" where
  "win_sendWithNoise env sem fakeData realData fakeTTL defaultTTL ipv6 fakeSleep =
     (if length fakeData \<noteq> length realData then io_fail (ErrorNew ''the length of realData must equal to that of fakeData'')
      else
        io_bind (win env ''create temp file'' FileCreate) (\<lambda>_.
        deferred env FileRemove (deferred env FileClose (
        io_bind (win env ''seek start'' FileSeek) (\<lambda>_.
        io_bind (win env ''write fake data'' (FileWrite fakeData)) (\<lambda>_.
        io_bind (win env ''sync fake data'' FileSync) (\<lambda>_.
        io_bind (io_wrap ''set fake TTL'' (sys env (SetTTL ipv6 fakeTTL))) (\<lambda>_.
        io_bind (win env ''seek start'' FileSeek) (\<lambda>_.
        io_bind (win env ''create event'' EventCreate) (\<lambda>_.
        deferred env EventClose (with_sem env sem (noise_transmit env realData defaultTTL ipv6 fakeSleep))))))))))))"

definition win_desyncSend :: "sock_env \<Rightarrow> bool \<Rightarrow> bool \<Rightarrow> bytes \<Rightarrow> int \<Rightarrow> int \<Rightarrow> int \<Rightarrow> int \<Rightarrow> (sock, unit) io" where
  "win_desyncSend env sem ipv6 rec sni_start sni_len fakeTTL fakeSleep =
     io_bind (getTCPRawConn env) (\<lambda>_.
     io_bind (io_wrap ''raw control'' (sys env RawControl)) (\<lambda>_.
     io_bind (io_wrap ''get default TTL'' (sys env (GetTTL ipv6))) (\<lambda>defaultTTL.
     let fakeSleep = (if fakeSleep < minInterval then minInterval else fakeSleep) in
     io_bind (io_option (do {
         cut \<leftarrow> findLastDotOrMidPos rec sni_start sni_len;
         front \<leftarrow> go_slice rec 0 sni_start;
         real \<leftarrow> go_slice rec 0 cut;
         rest \<leftarrow> go_slice rec cut (int (length rec));
         Some (go_copy (replicate (nat cut) 0) front, real, rest) })) (\<lambda>(fakeData, real, rest).
     io_bind (io_wrap ''send data with noise''
       (win_sendWithNoise env sem fakeData real fakeTTL defaultTTL ipv6 fakeSleep)) (\<lambda>_.
     io_bind (io_wrap ''send remaining data'' (conn_write env rest)) (\<lambda>_. io_return ()))))))"

section \<open>The calls of a run that succeeds\<close>

definition runs :: "(sock, 'a) io \<Rightarrow> sock_op list \<Rightarrow> bool" where
  "runs m os \<longleftrightarrow> (\<forall>w x w'. m w = (Ok x, w') \<longrightarrow> map fst (calls w') = map fst (calls w) @ os)"

named_theorems runs_intros \<open>the calls of a successful run, by the structure of the code\<close>

lemma runs_sys [runs_intros]: "runs (sys env op) [op]"
  by (auto simp: runs_def sys_def Let_def split: option.splits)

lemma runs_sleep [runs_intros]: "runs (sleep env d) [Sleep d]"
  by (auto simp: runs_def sleep_def)

lemma runs_sem: "runs sem_acquire [Win SemAcquire]"
  by (auto simp: runs_def sem_acquire_def)

lemma runs_return [runs_intros]: "runs (io_return x) []"
  by (simp add: runs_def)

lemma runs_fail: "runs (io_fail e) os"
  by (simp add: runs_def)

lemma runs_bind_fail: "runs (io_bind m (\<lambda>x. io_fail (e x))) os"
  by (auto simp: runs_def io_bind_def io_fail_def split: prod.splits outcome.splits)

lemma runs_wrap [runs_intros]: "runs m os \<Longrightarrow> runs (io_wrap what m) os"
  by (simp add: runs_def)

lemma runs_bind [runs_intros]: "runs m os \<Longrightarrow> (\<And>x. runs (k x) os') \<Longrightarrow> runs (io_bind m k) (os @ os')"
  by (fastforce simp: runs_def)

lemma runs_deferred [runs_intros]: "runs m os \<Longrightarrow> runs (deferred env op m) (os @ [Win op])"
  by (auto simp: runs_def deferred_def sys_def Let_def split: prod.splits)

lemma runs_win [runs_intros]: "runs (win env what op) [Win op]"
  unfolding win_def by (intro runs_intros)

lemma runs_transmit [runs_intros]: "runs (transmit env n) [Win FileControl, Win (Transmit n)]"
proof -
  have "runs (io_try (sys env op)) [op]" for op
    by (auto simp: runs_def io_try_def sys_def Let_def split: option.splits)
  then have "runs (transmit env n) ([Win FileControl] @ [Win (Transmit n)] @ [])"
    unfolding transmit_def by (intro runs_intros) (auto split: sum.splits intro: runs_intros runs_fail)
  then show ?thesis by simp
qed

lemma runs_wait [runs_intros]: "runs (wait_transmit env n) [Win EventWait, Win TransmitResult]"
proof -
  have "runs (io_bind (win env what TransmitResult) (\<lambda>k. if k < int n then io_fail (e k) else io_return ())) ([Win TransmitResult] @ [])"
    for what e
    by (rule runs_bind [OF runs_win]) (simp add: runs_fail runs_return)
  then have "runs (wait_transmit env n) ([Win EventWait] @ [Win TransmitResult])"
    unfolding wait_transmit_def by (intro runs_bind [OF runs_win]) (simp add: runs_fail runs_bind_fail)
  then show ?thesis by simp
qed

definition transmit_calls :: "bytes \<Rightarrow> int \<Rightarrow> bool \<Rightarrow> int \<Rightarrow> sock_op list" where
  "transmit_calls real d ipv6 fs =
     [Win FileRawConn, Win FileControl, Win (Transmit (length real)), Sleep fs, Win FileSeek, Win (FileWrite real), Win FileSync,
      Win FileSeek, SetTTL ipv6 d, Win EventWait, Win TransmitResult]"

definition win_calls :: "bool \<Rightarrow> bytes \<Rightarrow> bytes \<Rightarrow> int \<Rightarrow> int \<Rightarrow> bool \<Rightarrow> int \<Rightarrow> sock_op list" where
  "win_calls sem fake real fakeTTL d ipv6 fs =
     [Win FileCreate, Win FileSeek, Win (FileWrite fake), Win FileSync, SetTTL ipv6 fakeTTL, Win FileSeek, Win EventCreate]
     @ (if sem then [Win SemAcquire] else []) @ transmit_calls real d ipv6 fs @ (if sem then [Win SemRelease] else [])
     @ [Win EventClose, Win FileClose, Win FileRemove]"

lemma runs_noise_transmit: "runs (noise_transmit env real d ipv6 fs) (transmit_calls real d ipv6 fs)"
proof -
  have "runs (noise_transmit env real d ipv6 fs)
    ([Win FileRawConn] @ [Win FileControl, Win (Transmit (length real))] @ [Sleep fs] @ [Win FileSeek] @ [Win (FileWrite real)] @
     [Win FileSync] @ [Win FileSeek] @ [SetTTL ipv6 d] @ [Win EventWait, Win TransmitResult])"
    unfolding noise_transmit_def by (intro runs_intros)
  then show ?thesis by (simp add: transmit_calls_def)
qed

lemma runs_with_sem:
  "runs m os \<Longrightarrow> runs (with_sem env sem m) ((if sem then [Win SemAcquire] else []) @ os @ (if sem then [Win SemRelease] else []))"
  unfolding with_sem_def
  using runs_bind [OF runs_sem, of "\<lambda>_. deferred env SemRelease m" "os @ [Win SemRelease]"]
  by (auto intro: runs_intros)

lemma runs_win_sendWithNoise:
  "runs (win_sendWithNoise env sem fake real fakeTTL d ipv6 fs) (win_calls sem fake real fakeTTL d ipv6 fs)"
proof -
  let ?sem = "(if sem then [Win SemAcquire] else []) @ transmit_calls real d ipv6 fs @ (if sem then [Win SemRelease] else [])"
  have "runs (win_sendWithNoise env sem fake real fakeTTL d ipv6 fs)
    ([Win FileCreate] @ (([Win FileSeek] @ [Win (FileWrite fake)] @ [Win FileSync] @ [SetTTL ipv6 fakeTTL] @ [Win FileSeek] @
       [Win EventCreate] @ ?sem @ [Win EventClose]) @ [Win FileClose]) @ [Win FileRemove])"
  proof (cases "length fake = length real")
    case True
    then show ?thesis
      unfolding win_sendWithNoise_def
      by (simp only: True simp_thms if_False, intro runs_bind [OF runs_win] runs_bind [OF runs_wrap [OF runs_sys]] runs_deferred runs_with_sem runs_noise_transmit)
  qed (simp add: win_sendWithNoise_def runs_fail)
  then show ?thesis by (simp add: win_calls_def)
qed

section \<open>What the kernel sends\<close>

text \<open>The temporary file with its write position, the TTL in force, and the number of bytes being transmitted.\<close>

record wstate =
  wFile :: bytes
  wOff :: nat
  wTTL :: int
  wActive :: "nat option"

fun win_step :: "sock_op \<Rightarrow> wstate \<Rightarrow> wstate" where
  "win_step (Win FileCreate) s = s\<lparr>wFile := [], wOff := 0\<rparr>"
| "win_step (Win FileSeek) s = s\<lparr>wOff := 0\<rparr>"
| "win_step (Win (FileWrite b)) s =
     s\<lparr>wFile := take (wOff s) (wFile s) @ b @ drop (wOff s + length b) (wFile s), wOff := wOff s + length b\<rparr>"
| "win_step (SetTTL v t) s = s\<lparr>wTTL := t\<rparr>"
| "win_step (Win (Transmit n)) s = s\<lparr>wActive := Some n\<rparr>"
| "win_step (Win TransmitResult) s = s\<lparr>wActive := None\<rparr>"
| "win_step _ s = s"

text \<open>
  While a transmission is active the kernel may send, or send again, the file's front at any moment: the
  packets it may send between two calls of the program.
\<close>

fun exposed :: "wstate \<Rightarrow> sock_op list \<Rightarrow> (int \<times> bytes) list" where
  "exposed s [] = []"
| "exposed s (op # ops) =
     (let s' = win_step op s in
      (case wActive s' of None \<Rightarrow> [] | Some n \<Rightarrow> [(wTTL s', take n (wFile s'))]) @ exposed s' ops)"

text \<open>The bytes of the connection: a transmission counts with the content it has when it ends.\<close>

fun win_delivered :: "wstate \<Rightarrow> sock_op list \<Rightarrow> bytes" where
  "win_delivered s [] = []"
| "win_delivered s (op # ops) =
     (case op of
        Win TransmitResult \<Rightarrow> (case wActive s of None \<Rightarrow> [] | Some n \<Rightarrow> take n (wFile s))
      | ConnWrite b \<Rightarrow> b
      | _ \<Rightarrow> []) @ win_delivered (win_step op s) ops"

lemma exposed_append: "exposed s (xs @ ys) = exposed s xs @ exposed (fold win_step xs s) ys"
  by (induction xs arbitrary: s) (simp_all add: Let_def)

definition win_desync_calls :: "bool \<Rightarrow> bool \<Rightarrow> bytes \<Rightarrow> int \<Rightarrow> int \<Rightarrow> int \<Rightarrow> int \<Rightarrow> int \<Rightarrow> sock_op list" where
  "win_desync_calls sem ipv6 rec sni_start c fakeTTL d fakeSleep =
     [SyscallConn, RawControl, GetTTL ipv6]
     @ win_calls sem (go_copy (replicate (nat c) 0) (take (nat sni_start) rec)) (take (nat c) rec) fakeTTL d ipv6 (max minInterval fakeSleep)
     @ [ConnWrite (drop (nat c) rec)]"

lemma runs_desyncSend:
  assumes "win_desyncSend env sem ipv6 rec sni_start sni_len fakeTTL fakeSleep w = (Ok (), w')"
  shows "\<exists>c d. findLastDotOrMidPos rec sni_start sni_len = Some c \<and> 0 \<le> sni_start \<and> sni_start \<le> c \<and> c \<le> int (length rec) \<and>
    map fst (calls w') = map fst (calls w) @ win_desync_calls sem ipv6 rec sni_start c fakeTTL d fakeSleep"
proof -
  let ?fs = "if fakeSleep < minInterval then minInterval else fakeSleep"
  have fs: "?fs = max minInterval fakeSleep" by simp
  from assms obtain w1 x w2 w3 d c front real rest w4 where
    1: "getTCPRawConn env w = (Ok (), w1)" "sys env RawControl w1 = (Ok x, w2)" "sys env (GetTTL ipv6) w2 = (Ok d, w3)"
    and c: "findLastDotOrMidPos rec sni_start sni_len = Some c"
    and sl: "go_slice rec 0 sni_start = Some front" "go_slice rec 0 c = Some real" "go_slice rec c (int (length rec)) = Some rest"
    and 2: "win_sendWithNoise env sem (go_copy (replicate (nat c) 0) front) real fakeTTL d ipv6 ?fs w3 = (Ok (), w4)"
      "conn_write env rest w4 = (Ok (), w')"
    by (auto simp: win_desyncSend_def Let_def bind_eq_Some_conv)
  have raw: "runs (getTCPRawConn env) [SyscallConn]"
    using adds_getTCPRawConn [of env] by (auto simp: runs_def adds_def) 
  have cw: "runs (conn_write env rest) [ConnWrite rest]"
    using adds_conn_write [of env rest] by (auto simp: runs_def adds_def)
  have "map fst (calls w') = map fst (calls w) @ [SyscallConn] @ [RawControl] @ [GetTTL ipv6] @
      win_calls sem (go_copy (replicate (nat c) 0) front) real fakeTTL d ipv6 ?fs @ [ConnWrite rest]"
    using raw [unfolded runs_def, rule_format, OF 1(1)] runs_sys [unfolded runs_def, rule_format, OF 1(2)]
      runs_sys [unfolded runs_def, rule_format, OF 1(3)] runs_win_sendWithNoise [unfolded runs_def, rule_format, OF 2(1)]
      cw [unfolded runs_def, rule_format, OF 2(2)] by simp
  moreover have "front = take (nat sni_start) rec" "real = take (nat c) rec" "rest = drop (nat c) rec" "c \<le> int (length rec)"
    using sl by (auto dest!: go_slice_SomeD simp: nat_diff_distrib)
  moreover obtain name where "go_slice rec sni_start (sni_start + sni_len) = Some name"
    using c by (auto simp: findLastDotOrMidPos_def bind_eq_Some_conv)
  then have "0 \<le> sni_start" "sni_start \<le> c" using go_slice_SomeD c by (blast, metis findLastDotOrMidPos_cut option.inject)
  ultimately show ?thesis using c unfolding fs by (auto simp: win_desync_calls_def)
qed

lemma exposed_desync:
  assumes "length fake = length real" and "wActive s = None"
  shows "exposed s ([SyscallConn, RawControl, GetTTL ipv6] @ win_calls sem fake real fakeTTL d ipv6 fs @ [ConnWrite rest]) =
    replicate 3 (fakeTTL, fake) @ replicate 3 (fakeTTL, real) @ replicate 2 (d, real)"
  using assms by (cases s) (simp add: win_calls_def transmit_calls_def Let_def numeral_eq_Suc)

lemma delivered_win_desync:
  assumes "length fake = length real" and "wActive s = None"
  shows "win_delivered s ([SyscallConn, RawControl, GetTTL ipv6] @ win_calls sem fake real fakeTTL d ipv6 fs @ [ConnWrite rest]) = real @ rest"
  using assms by (cases s) (simp add: win_calls_def transmit_calls_def)


text \<open>A run on Windows: the event is signalled and all bytes are sent.\<close>

definition win_env :: sock_env where
  "win_env w op =
     \<lparr>rerr = (if op = Win (Transmit 59) then Some ERROR_IO_PENDING else None),
      rval = (if op = Win TransmitResult then 59 else if op = GetTTL False then 64 else 0), rdur = 0\<rparr>"

lemma win_desync_example: "fst (win_desyncSend win_env True False record_example 58 3 11 0 sock_example) = Ok ()"
  by (simp add: win_desyncSend_def win_sendWithNoise_def noise_transmit_def transmit_def wait_transmit_def with_sem_def sem_acquire_def deferred_def
      win_def win_env_def findLastDotOrMidPos_def record_example_def LastIndexByte_def go_slice_def Let_def go_copy_def
      getTCPRawConn_def sys_def sleep_def conn_write_def sock_example_def io_try_def io_bind_def io_wrap_def io_return_def ERROR_IO_PENDING_def)


section \<open>Every resource is released\<close>

definition acquired :: "win_op \<Rightarrow> (sock_op \<times> go_error option) list \<Rightarrow> nat" where
  "acquired op cs = length (filter (\<lambda>c. c = (Win op, None)) cs)"

definition released :: "win_op \<Rightarrow> (sock_op \<times> go_error option) list \<Rightarrow> nat" where
  "released op cs = length (filter (\<lambda>c. fst c = Win op) cs)"

definition balance :: "(sock_op \<times> go_error option) list \<Rightarrow> bool" where
  "balance cs \<longleftrightarrow> acquired FileCreate cs = released FileClose cs \<and> acquired FileCreate cs = released FileRemove cs \<and>
     acquired EventCreate cs = released EventClose cs \<and> acquired SemAcquire cs = released SemRelease cs"

lemma balance_append: "balance xs \<Longrightarrow> balance ys \<Longrightarrow> balance (xs @ ys)"
  by (simp add: balance_def acquired_def released_def)

text \<open>Whatever the outcome, the calls made are balanced.\<close>

definition balanced :: "(sock, 'a) io \<Rightarrow> bool" where
  "balanced m \<longleftrightarrow> (\<forall>w. \<exists>cs. calls (snd (m w)) = calls w @ cs \<and> balance cs)"

definition neutral :: "sock_op \<Rightarrow> bool" where
  "neutral op \<longleftrightarrow> op \<notin> Win ` {FileCreate, FileClose, FileRemove, EventCreate, EventClose, SemAcquire, SemRelease}"

named_theorems balanced_intros \<open>code that releases what it acquires\<close>

lemma balanced_sys [balanced_intros]: "neutral op \<Longrightarrow> balanced (sys env op)"
  by (auto simp: balanced_def sys_def Let_def neutral_def balance_def acquired_def released_def)

lemma balanced_sleep [balanced_intros]: "balanced (sleep env d)"
  by (simp add: balanced_def sleep_def balance_def acquired_def released_def)

lemma balanced_pure [balanced_intros]: "balanced (io_return x)" "balanced (io_fail e)"
  by (simp_all add: balanced_def io_return_def io_fail_def balance_def acquired_def released_def)

lemma world_kept: "snd (io_wrap what m w) = snd (m w)" "snd (io_try m w) = snd (m w)"
  by (simp_all add: io_wrap_def io_try_def split: prod.splits outcome.splits)

lemma balanced_wrap [balanced_intros]: "balanced m \<Longrightarrow> balanced (io_wrap what m)"
  by (simp add: balanced_def world_kept)

lemma balanced_try [balanced_intros]: "balanced m \<Longrightarrow> balanced (io_try m)"
  by (simp add: balanced_def world_kept)

lemma balanced_bind [balanced_intros]:
  assumes "balanced m" and "\<And>x. balanced (k x)"
  shows "balanced (io_bind m k)"
  unfolding balanced_def
proof
  fix w
  obtain r w1 where m: "m w = (r, w1)" by (cases "m w")
  with assms(1) obtain cs where 1: "calls w1 = calls w @ cs" "balance cs" unfolding balanced_def by (metis snd_conv)
  show "\<exists>cs. calls (snd (io_bind m k w)) = calls w @ cs \<and> balance cs"
  proof (cases r)
    case (Ok x)
    from assms(2) obtain cs' where "calls (snd (k x w1)) = calls w1 @ cs'" "balance cs'" unfolding balanced_def by blast
    with m Ok 1 show ?thesis by (intro exI [of _ "cs @ cs'"]) (simp add: io_bind_def balance_append)
  qed (use m 1 in \<open>auto simp: io_bind_def\<close>)
qed

lemma balanced_if [balanced_intros]: "(b \<Longrightarrow> balanced m) \<Longrightarrow> (\<not> b \<Longrightarrow> balanced n) \<Longrightarrow> balanced (if b then m else n)"
  by simp

lemma deferred_calls:
  "calls (snd (m w)) = calls w @ cs \<Longrightarrow> \<exists>e. calls (snd (deferred env op m w)) = calls w @ cs @ [(Win op, e)]"
  by (auto simp: deferred_def sys_def Let_def split: prod.splits)

lemma win_acquire:
  "(\<exists>e v w1. win env what op w = (Fail e, w1) \<and> calls w1 = calls w @ [(Win op, Some v)]) \<or>
   (\<exists>v w1. win env what op w = (Ok v, w1) \<and> calls w1 = calls w @ [(Win op, None)])"
  by (cases "rerr (env w (Win op))") (auto simp: win_def io_wrap_def sys_def Let_def)

lemma balanced_file:
  assumes "balanced m"
  shows "balanced (io_bind (win env what FileCreate) (\<lambda>_. deferred env FileRemove (deferred env FileClose m)))"
  unfolding balanced_def
proof
  fix w
  let ?d = "deferred env FileClose m"
  from win_acquire [of env what FileCreate w] show "\<exists>cs. calls (snd (io_bind (win env what FileCreate) (\<lambda>_. deferred env FileRemove ?d) w)) = calls w @ cs \<and> balance cs"
  proof (elim disjE exE conjE)
    fix v w1 assume 1: "win env what FileCreate w = (Ok v, w1)" "calls w1 = calls w @ [(Win FileCreate, None)]"
    from assms obtain cs where cs: "calls (snd (m w1)) = calls w1 @ cs" "balance cs" unfolding balanced_def by blast
    with deferred_calls [of m w1 cs env FileClose] deferred_calls [of ?d w1 _ env FileRemove] obtain e e' where
      "calls (snd (deferred env FileRemove ?d w1)) = calls w1 @ (cs @ [(Win FileClose, e)]) @ [(Win FileRemove, e')]" by blast
    with 1 cs(2) show ?thesis
      by (intro exI [of _ "(Win FileCreate, None) # cs @ [(Win FileClose, e), (Win FileRemove, e')]"])
        (simp add: io_bind_def balance_def acquired_def released_def)
  qed (simp add: io_bind_def balance_def acquired_def released_def)
qed

lemma balanced_event:
  assumes "balanced m"
  shows "balanced (io_bind (win env what EventCreate) (\<lambda>_. deferred env EventClose m))"
  unfolding balanced_def
proof
  fix w
  from win_acquire [of env what EventCreate w] show "\<exists>cs. calls (snd (io_bind (win env what EventCreate) (\<lambda>_. deferred env EventClose m) w)) = calls w @ cs \<and> balance cs"
  proof (elim disjE exE conjE)
    fix v w1 assume 1: "win env what EventCreate w = (Ok v, w1)" "calls w1 = calls w @ [(Win EventCreate, None)]"
    from assms obtain cs where cs: "calls (snd (m w1)) = calls w1 @ cs" "balance cs" unfolding balanced_def by blast
    with deferred_calls [of m w1 cs env EventClose] obtain e where
      "calls (snd (deferred env EventClose m w1)) = calls w1 @ cs @ [(Win EventClose, e)]" by blast
    with 1 cs(2) show ?thesis
      by (intro exI [of _ "(Win EventCreate, None) # cs @ [(Win EventClose, e)]"]) (simp add: io_bind_def balance_def acquired_def released_def)
  qed (simp add: io_bind_def balance_def acquired_def released_def)
qed

lemma balanced_sem:
  assumes "balanced m"
  shows "balanced (with_sem env sem m)"
proof -
  have "\<exists>cs. calls (snd (io_bind sem_acquire (\<lambda>_. deferred env SemRelease m) w)) = calls w @ cs \<and> balance cs" for w
  proof -
    let ?w = "w\<lparr>calls := calls w @ [(Win SemAcquire, None)]\<rparr>"
    from assms obtain cs where cs: "calls (snd (m ?w)) = calls ?w @ cs" "balance cs" unfolding balanced_def by blast
    with deferred_calls [of m ?w cs env SemRelease] obtain e where
      "calls (snd (deferred env SemRelease m ?w)) = calls ?w @ cs @ [(Win SemRelease, e)]" by blast
    with cs(2) show ?thesis
      by (intro exI [of _ "(Win SemAcquire, None) # cs @ [(Win SemRelease, e)]"])
        (simp add: io_bind_def sem_acquire_def balance_def acquired_def released_def)
  qed
  with assms show ?thesis by (simp add: with_sem_def balanced_def)
qed

lemma balanced_noise_transmit: "balanced (noise_transmit env real d ipv6 fs)"
  unfolding noise_transmit_def transmit_def wait_transmit_def win_def
  by (intro balanced_intros; auto simp: neutral_def split: sum.split intro: balanced_intros)

text \<open>
  The temporary file, the event and the place in the semaphore are released on every path of
  \<^verbatim>\<open>sendWithNoise\<close>: whatever the system answers and however the call ends, as many files are closed and removed as were
  created, as many events closed, and the semaphore is left as often as it was entered.
\<close>

theorem win_noise_releases:
  "\<exists>cs. calls (snd (win_sendWithNoise env sem fakeData realData fakeTTL defaultTTL ipv6 fakeSleep w)) = calls w @ cs \<and>
     acquired FileCreate cs = released FileClose cs \<and> acquired FileCreate cs = released FileRemove cs \<and>
     acquired EventCreate cs = released EventClose cs \<and> acquired SemAcquire cs = released SemRelease cs"
proof -
  have "balanced (win_sendWithNoise env sem fakeData realData fakeTTL defaultTTL ipv6 fakeSleep)"
    unfolding win_sendWithNoise_def
    by (intro balanced_if balanced_pure balanced_file balanced_event balanced_sem balanced_noise_transmit
        balanced_bind [where k = "\<lambda>_. io_bind _ _"] balanced_wrap balanced_sys)
      (simp_all add: win_def balanced_wrap balanced_sys neutral_def)
  then show ?thesis by (simp add: balanced_def balance_def)
qed

text \<open>
  A wait that times out returns with the transmission still active: the file and the event that the kernel
  works on are released under it.
\<close>

definition timeout_env :: sock_env where
  "timeout_env w op = \<lparr>rerr = None, rval = (if op = Win EventWait then 258 else 0), rdur = 0\<rparr>"

lemma win_timeout_pending:
  assumes "length fake = length real"
  shows "\<exists>w' ops. win_sendWithNoise timeout_env False fake real fakeTTL d ipv6 fs w =
      (Fail (ErrorNew ''wait for TransmitFile: timeout (5s)''), w') \<and>
    map fst (calls w') = map fst (calls w) @ ops \<and> last ops = Win FileRemove \<and> wActive (fold win_step ops s) = Some (length real)"
  using assms
  by (simp add: win_sendWithNoise_def noise_transmit_def transmit_def wait_transmit_def with_sem_def timeout_env_def
      deferred_def win_def sys_def sleep_def Let_def io_bind_def io_wrap_def io_try_def io_return_def io_fail_def)

section \<open>The urgent send\<close>

definition win_sendWithOOB :: "sock_env \<Rightarrow> bytes option \<Rightarrow> byte \<Rightarrow> (sock, unit) io" where
  "win_sendWithOOB env data oob =
     io_bind (getTCPRawConn env) (\<lambda>_.
     let toSend = (case data of None \<Rightarrow> [oob] | Some b \<Rightarrow> b @ [oob]) in
     io_bind (io_wrap ''raw write (wsasend)'' (sys env RawWrite)) (\<lambda>_.
     io_bind (io_wrap ''wsasend (MSG_OOB)'' (sys env (SendOOB toSend))) (\<lambda>_. io_return ())))"

text \<open>It does what the Unix build does; only the texts of the errors differ.\<close>

lemma win_sendWithOOB_unix:
  "win_sendWithOOB env data oob w = (Ok (), w') \<longleftrightarrow> sendWithOOB env (case data of None \<Rightarrow> [] | Some b \<Rightarrow> b) oob w = (Ok (), w')"
  by (cases data) (simp_all add: win_sendWithOOB_def sendWithOOB_def)

end
