(* ===== verification/Support.thy ===== *)
theory Support
  imports DesyncWindows EngineProxy
begin

text \<open>
  Small parts that the others lean on: the text helpers of \<^verbatim>\<open>internal/format\<close>, the builds for systems without a decoy
  (\<^verbatim>\<open>desync_stub.go\<close>, \<^verbatim>\<open>waitack_stub.go\<close>), the packet socket and the logger of \<^verbatim>\<open>tun_bridge.go\<close>, the global tunnel
  (\<^verbatim>\<open>tunnel/global.go\<close>), the pools of buffers, and the start-up code for the resolver and the time zone. Shown here: the hexadecimal text of a byte determines it, and a value of another type is the only thing
  that makes \<^verbatim>\<open>Concat\<close> panic.
\<close>

section \<open>Texts\<close>

definition hexDigits :: string where "hexDigits = ''0123456789abcdef''"

definition format_Byte :: "byte \<Rightarrow> string" where
  "format_Byte b = [hexDigits ! unat (drop_bit 4 b), hexDigits ! unat (and b 0x0f)]"

datatype format_value = FStringer string | FString string | FError go_error | FInt int | FUint nat | FOther

definition format_Int :: "int \<Rightarrow> string" where "format_Int v = Itoa v"
definition format_Uint :: "nat \<Rightarrow> string" where "format_Uint v = Itoa (int v)"

fun format_one :: "format_value \<Rightarrow> string option" where
  "format_one (FStringer s) = Some s"
| "format_one (FString s) = Some s"
| "format_one (FError e) = Some (Error e)"
| "format_one (FInt v) = Some (format_Int v)"
| "format_one (FUint v) = Some (format_Uint v)"
| "format_one FOther = None"

text \<open>\<^const>\<open>None\<close>: the panic on another type.\<close>

fun format_Concat :: "format_value list \<Rightarrow> string option" where
  "format_Concat [] = Some []"
| "format_Concat (v # vs) =
     (case format_one v of None \<Rightarrow> None | Some s \<Rightarrow> map_option (\<lambda>t. s @ t) (format_Concat vs))"

lemma format_Concat_total: "format_Concat vs = None \<longleftrightarrow> FOther \<in> set vs"
proof (induction vs)
  case (Cons v vs)
  then show ?case by (cases v) auto
qed simp

lemma format_Byte_inject: "format_Byte a = format_Byte b \<Longrightarrow> a = b"
proof -
  assume eq: "format_Byte a = format_Byte b"
  have d: "distinct hexDigits" and l: "length hexDigits = 16" by (simp_all add: hexDigits_def)
  have hi: "unat (drop_bit 4 x) < 16" and lo: "unat (and x 0x0f) < 16" for x :: byte
  proof -
    have "unat (drop_bit 4 x) = unat x div 16" by (simp add: drop_bit_eq_div unat_div)
    then show "unat (drop_bit 4 x) < 16" using unsigned_less [of x, where ?'a = nat] by (simp add: div_less_iff_less_mult)
    have "and x 0x0f = take_bit 4 x" by (simp add: take_bit_eq_mask mask_eq_exp_minus_1)
    then show "unat (and x 0x0f) < 16" by (simp add: take_bit_eq_mod unat_mod)
  qed
  from eq have "unat (drop_bit 4 a) = unat (drop_bit 4 b)" "unat (and a 0x0f) = unat (and b 0x0f)"
    using d l hi lo by (auto simp: format_Byte_def nth_eq_iff_index_eq)
  then have "drop_bit 4 a = drop_bit 4 b" "and a 0x0f = and b 0x0f" by (simp_all only: word_unat_eq_iff)
  then have "drop_bit 4 a = drop_bit 4 b" "take_bit 4 a = take_bit 4 b" by (simp_all add: take_bit_eq_mask mask_eq_exp_minus_1)
  moreover have "push_bit 4 (drop_bit 4 x) + take_bit 4 x = x" for x :: byte
    by (metis add.commute bits_ident)
  ultimately show "a = b" by metis
qed

section \<open>Systems without a decoy\<close>

definition errTTLDNotSupported :: go_error where
  "errTTLDNotSupported = ErrorNew ''`ttl-d` is not supported on current system''"

definition stub_loadTTLRules :: "string \<Rightarrow> go_error option" where "stub_loadTTLRules conf = None"
definition stub_getFakeTTL :: "string \<Rightarrow> bool \<Rightarrow> go_error + int" where "stub_getFakeTTL addr ipv6 = Inl errTTLDNotSupported"

definition stub_desyncSend :: "bool \<Rightarrow> bytes \<Rightarrow> int \<Rightarrow> int \<Rightarrow> int \<Rightarrow> int \<Rightarrow> (sock, unit) io" where
  "stub_desyncSend ipv6 rec sni_start sni_len fakeTTL fakeSleep = io_fail errTTLDNotSupported"

definition stub_waitForAck :: "sock_env \<Rightarrow> int \<Rightarrow> (sock, unit) io" where
  "stub_waitForAck env delay = sleep env delay"

section \<open>The tunnel's packet socket and logger\<close>

datatype 'a log_target = Discard | To 'a

definition SetLogWriter :: "'a option \<Rightarrow> 'a option \<Rightarrow> 'a option" where "SetLogWriter w coreLogWriter = w"

definition NewSessionLogger :: "string \<Rightarrow> int \<Rightarrow> 'a option \<Rightarrow> 'a log_target \<times> string \<times> int" where
  "NewSessionLogger pre logLevel coreLogWriter =
     (case coreLogWriter of None \<Rightarrow> (Discard, pre, logLevel) | Some w \<Rightarrow> (To w, pre, logLevel))"

definition NewDirectPacketConn :: "go_error option \<Rightarrow> int \<Rightarrow> go_error + int" where
  "NewDirectPacketConn listen timeout = (case listen of Some e \<Rightarrow> Inl e | None \<Rightarrow> Inr timeout)"

text \<open>\<^verbatim>\<open>directLuminePacketConn.WriteTo\<close>: as the engine's direct proxy.\<close>

definition lumine_WriteTo :: "(string \<Rightarrow> go_error + bytes \<times> int) \<Rightarrow> (bytes \<Rightarrow> bytes \<times> int \<Rightarrow> go_error option) \<Rightarrow> bytes
    \<Rightarrow> (bytes \<times> int) + string \<Rightarrow> ((bytes \<times> (bytes \<times> int)) list, nat) io" where
  "lumine_WriteTo resolver send b to_addr sent =
     (case to_addr of
        Inl u \<Rightarrow> (case send b u of Some e \<Rightarrow> (Fail e, sent) | None \<Rightarrow> (Ok (length b), sent @ [(b, u)]))
      | Inr s \<Rightarrow>
          (case resolver s of
             Inl e \<Rightarrow> (Fail e, sent)
           | Inr u \<Rightarrow> (case send b u of Some e \<Rightarrow> (Fail e, sent) | None \<Rightarrow> (Ok (length b), sent @ [(b, u)]))))"

lemma lumine_WriteTo_direct: "lumine_WriteTo (xeResolve env) send b a sent = direct_WriteTo env send b a sent"
  by (auto simp: lumine_WriteTo_def direct_WriteTo_def split: sum.splits option.splits)

section \<open>Names and the global tunnel\<close>

fun Network_String :: "Network \<Rightarrow> string" where
  "Network_String TCP = ''tcp''"
| "Network_String UDP = ''udp''"

text \<open>\<^verbatim>\<open>ReplaceGlobal\<close>: the new global tunnel, and the function that restores the old one.\<close>

definition ReplaceGlobal :: "'t \<Rightarrow> 't \<Rightarrow> 't \<times> ('t \<Rightarrow> 't)" where
  "ReplaceGlobal t globalT = (t, \<lambda>_. globalT)"

section \<open>Pools\<close>

text \<open>
  \<^verbatim>\<open>internal/pool\<close> and \<^verbatim>\<open>bufferpool\<close>: the pool may hand out any of the objects put back or, at any time, a new
  one; \<open>taken\<close> says which.
\<close>

definition pool_Get :: "'a \<Rightarrow> nat option \<Rightarrow> 'a list \<Rightarrow> 'a \<times> 'a list" where
  "pool_Get fresh taken p =
     (case taken of
        Some i \<Rightarrow> if i < length p then (p ! i, take i p @ drop (Suc i) p) else (fresh, p)
      | None \<Rightarrow> (fresh, p))"

definition pool_Put :: "'a \<Rightarrow> 'a list \<Rightarrow> 'a list" where "pool_Put x p = x # p"

record go_buffer =
  gbBytes :: bytes
  gbCap :: nat

definition gb_Reset :: "go_buffer \<Rightarrow> go_buffer" where "gb_Reset b = b\<lparr>gbBytes := []\<rparr>"

definition bufferpool_size :: nat where "bufferpool_size = 1024"

definition bufferpool_Get :: "nat option \<Rightarrow> go_buffer list \<Rightarrow> go_buffer \<times> go_buffer list" where
  "bufferpool_Get taken p =
     (case pool_Get \<lparr>gbBytes = [], gbCap = bufferpool_size\<rparr> taken p of (b, p') \<Rightarrow> (gb_Reset b, p'))"

definition bufferpool_Put :: "go_buffer \<Rightarrow> go_buffer list \<Rightarrow> go_buffer list" where "bufferpool_Put b p = pool_Put b p"

text \<open>A buffer is in the hands of one holder: what is handed out is no longer in the pool, and nothing of what it held is visible.\<close>

lemma pool_Get_takes: "pool_Get fresh taken p = (x, p') \<Longrightarrow> mset p = mset p' + {#x#} \<or> x = fresh \<and> p' = p"
proof -
  have "mset p = mset (take i p @ drop (Suc i) p) + {#p ! i#}" if "i < length p" for i
    using arg_cong [OF id_take_nth_drop [OF that], of mset] by simp
  then show "pool_Get fresh taken p = (x, p') \<Longrightarrow> mset p = mset p' + {#x#} \<or> x = fresh \<and> p' = p"
    by (auto simp: pool_Get_def split: option.splits if_splits)
qed

lemma bufferpool_Get_empty: "gbBytes (fst (bufferpool_Get taken p)) = []"
  by (simp add: bufferpool_Get_def gb_Reset_def split: prod.split)

section \<open>The resolver and the time zone\<close>

text \<open>
  \<^verbatim>\<open>dns_patch.go\<close>: the resolver of the standard library asks a fixed server, and another one if the first cannot be dialled.
  \<^verbatim>\<open>tz_android.go\<close>: the local time zone is that of the system's property, if it can be read and is known.
\<close>

definition dns1 :: string where "dns1 = ''223.5.5.5:53''"
definition dns2 :: string where "dns2 = ''8.8.8.8:53''"

definition resolver_Dial :: "(string \<Rightarrow> string \<Rightarrow> go_error + 'c) \<Rightarrow> string \<Rightarrow> string \<Rightarrow> go_error + 'c" where
  "resolver_Dial dial network address = (case dial network dns1 of Inr conn \<Rightarrow> Inr conn | Inl _ \<Rightarrow> dial network dns2)"

lemma resolver_Dial_fails:
  "(\<exists>e. resolver_Dial dial n a = Inl e) \<longleftrightarrow> (\<exists>e. dial n dns1 = Inl e) \<and> (\<exists>e. dial n dns2 = Inl e)"
  by (auto simp: resolver_Dial_def split: sum.split)

definition local_zone :: "go_error + string \<Rightarrow> (string \<Rightarrow> go_error + 'z) \<Rightarrow> 'z \<Rightarrow> 'z" where
  "local_zone getprop loadLocation current =
     (case getprop of
        Inl _ \<Rightarrow> current
      | Inr out \<Rightarrow> (case loadLocation (TrimSpace out) of Inl _ \<Rightarrow> current | Inr location \<Rightarrow> location))"

end
