(* ===== verification/Dial.thy ===== *)
theory Dial
  imports Policy GoIO
begin

text \<open>
  Outbound dialling, \<^verbatim>\<open>internal/dial\<close>: the two global diallers, one for each address family, the
  local address they are bound to, and the monitor that renews it. The system's interfaces, the
  probing dial and the keyboard are arguments. Shown here: a failed binding leaves the diallers
  as they were, what the monitor stores agrees with what a new binding would store except for
  the zone, which the binding loses, and which answers at the prompt are accepted.
\<close>

section \<open>Interfaces\<close>

text \<open>An address, as far as the code asks about it.\<close>

record ipaddr =
  ipText :: string
  ipLinkLocal :: bool
  ipTo4 :: bool
  ipTo16 :: bool
  ipPrivate :: bool

datatype iface_addr = IPNet ipaddr | OtherNet

record raw_iface =
  riIndex :: int
  riName :: string
  riUp :: bool
  riLoopback :: bool
  riAddrs :: "go_error + iface_addr list"

record networkInterface =
  niIndex :: int
  niName :: string
  niGateway :: string
  niIPv4 :: "ipaddr option"
  niIPv6 :: "ipaddr option"

text \<open>The first usable address of each family; the loop stops when it has both.\<close>

fun pick_addrs :: "iface_addr list \<Rightarrow> ipaddr option \<Rightarrow> ipaddr option \<Rightarrow> ipaddr option \<times> ipaddr option" where
  "pick_addrs [] v4 v6 = (v4, v6)"
| "pick_addrs (x # xs) v4 v6 =
     (if v4 \<noteq> None \<and> v6 \<noteq> None then (v4, v6)
      else case x of
        OtherNet \<Rightarrow> pick_addrs xs v4 v6
      | IPNet ip \<Rightarrow>
          if ipLinkLocal ip then pick_addrs xs v4 v6
          else if v4 = None \<and> ipTo4 ip then pick_addrs xs (Some ip) v6
          else if v6 = None \<and> \<not> ipTo4 ip \<and> ipTo16 ip then pick_addrs xs v4 (Some ip)
          else pick_addrs xs v4 v6)"

definition filter_iface :: "(int \<Rightarrow> string) \<Rightarrow> raw_iface \<Rightarrow> networkInterface list" where
  "filter_iface gateway i =
     (if \<not> riUp i \<or> riLoopback i then []
      else case riAddrs i of
        Inl _ \<Rightarrow> []
      | Inr xs \<Rightarrow>
          (case pick_addrs xs None None of
             (v4, v6) \<Rightarrow>
               if v4 = None \<and> v6 = None then []
               else [\<lparr>niIndex = riIndex i, niName = riName i, niGateway = gateway (riIndex i), niIPv4 = v4, niIPv6 = v6\<rparr>]))"

definition getFilteredInterfaces :: "(int \<Rightarrow> string) \<Rightarrow> go_error + raw_iface list \<Rightarrow> go_error + networkInterface list" where
  "getFilteredInterfaces gateway ifaces =
     (case ifaces of
        Inl err \<Rightarrow> Inl (WithStr ''list network interfaces'' err)
      | Inr is \<Rightarrow>
          let interfaces = concat (map (filter_iface gateway) is) in
          if interfaces = [] then Inl (ErrorNew ''no interface detected'') else Inr interfaces)"

text \<open>\<^verbatim>\<open>gateway_stub.go\<close> and \<^verbatim>\<open>gateway_windows.go\<close>: no gateway is known on any system.\<close>

definition getGatewayForInterface :: "int \<Rightarrow> string" where "getGatewayForInterface i = []"
definition windows_getGatewayForInterface :: "int \<Rightarrow> string" where "windows_getGatewayForInterface i = []"

definition iface_find :: "string \<Rightarrow> networkInterface list \<Rightarrow> networkInterface option" where
  "iface_find name ifaces = List.find (\<lambda>i. niName i = name) ifaces"

definition autoSelect :: "networkInterface list \<Rightarrow> networkInterface option" where
  "autoSelect ifaces =
     (case List.find (\<lambda>i. niGateway i \<noteq> [] \<and> (case niIPv4 i of None \<Rightarrow> False | Some ip \<Rightarrow> ipPrivate ip)) ifaces of
        Some i \<Rightarrow> Some i
      | None \<Rightarrow> List.find (\<lambda>i. niGateway i \<noteq> [] \<and> niIPv4 i \<noteq> None) ifaces)"

text \<open>
  \<^verbatim>\<open>manualSelect\<close> on the answers typed, \<^const>\<open>None\<close> for one that is not a number (the variable stays 0):
  the interface or a panic; \<^const>\<open>None\<close> when the answers run out and it is still asking.
\<close>

fun manualSelect :: "networkInterface list \<Rightarrow> int option list \<Rightarrow> networkInterface outcome option" where
  "manualSelect ifaces [] = None"
| "manualSelect ifaces (a # as) =
     (let i = (case a of None \<Rightarrow> 0 | Some i \<Rightarrow> i) in
      if i \<le> 0 \<or> i > int (length ifaces) then manualSelect ifaces as
      else Some (case go_index ifaces i of None \<Rightarrow> Panic | Some x \<Rightarrow> Ok x))"

section \<open>Options\<close>

datatype Method = MethodOff | MethodSelectInterface | MethodDialDetect | MethodCustom

definition Method_UnmarshalJSON :: "json \<Rightarrow> go_error + Method" where
  "Method_UnmarshalJSON v =
     sum_bind (json_into_string v []) (\<lambda>s.
     if s = ''off'' then Inr MethodOff
     else if s = ''select_interface'' then Inr MethodSelectInterface
     else if s = ''dial_detect'' then Inr MethodDialDetect
     else if s = ''custom'' then Inr MethodCustom
     else Inl (ErrorNew (''invalid method: '' @ s)))"

record BindingOption =
  boMethod :: Method
  boManualSelect :: bool
  boZone :: string
  boUpdateInterval :: int
  boDialTCP :: bool
  boDialIPv4Target :: string
  boDialIPv6Target :: string
  boDialTimeout :: int
  boCustomIPv4 :: "ipaddr option"
  boCustomIPv6 :: "ipaddr option"
  boCustomZone :: string

definition binding_zero :: BindingOption where
  "binding_zero = \<lparr>boMethod = MethodOff, boManualSelect = False, boZone = [], boUpdateInterval = 0, boDialTCP = False,
     boDialIPv4Target = [], boDialIPv6Target = [], boDialTimeout = 0, boCustomIPv4 = None, boCustomIPv6 = None, boCustomZone = []\<rparr>"

record binding_tmp =
  btMethod :: Method
  btManualSelect :: bool
  btZone :: string
  btUpdateInterval :: string
  btDialTCP :: bool
  btDialIPv4Target :: string
  btDialIPv6Target :: string
  btDialTimeout :: string
  btCustomIPv4 :: string
  btCustomIPv6 :: string
  btCustomZone :: string

definition binding_tmp_zero :: binding_tmp where
  "binding_tmp_zero = \<lparr>btMethod = MethodOff, btManualSelect = False, btZone = [], btUpdateInterval = [], btDialTCP = False,
     btDialIPv4Target = [], btDialIPv6Target = [], btDialTimeout = [], btCustomIPv4 = [], btCustomIPv6 = [], btCustomZone = []\<rparr>"

definition binding_tmp_set :: "string \<Rightarrow> json \<Rightarrow> binding_tmp \<Rightarrow> go_error + binding_tmp" where
  "binding_tmp_set k v t =
     (if k = ''method'' then sum_map (\<lambda>x. t\<lparr>btMethod := x\<rparr>) (Method_UnmarshalJSON v)
      else if k = ''manual_select'' then sum_map (\<lambda>x. t\<lparr>btManualSelect := x\<rparr>) (json_into_bool v (btManualSelect t))
      else if k = ''zone'' then sum_map (\<lambda>x. t\<lparr>btZone := x\<rparr>) (json_into_string v (btZone t))
      else if k = ''update_interval'' then sum_map (\<lambda>x. t\<lparr>btUpdateInterval := x\<rparr>) (json_into_string v (btUpdateInterval t))
      else if k = ''dial_tcp'' then sum_map (\<lambda>x. t\<lparr>btDialTCP := x\<rparr>) (json_into_bool v (btDialTCP t))
      else if k = ''dial_ipv4_target'' then sum_map (\<lambda>x. t\<lparr>btDialIPv4Target := x\<rparr>) (json_into_string v (btDialIPv4Target t))
      else if k = ''dial_ipv6_target'' then sum_map (\<lambda>x. t\<lparr>btDialIPv6Target := x\<rparr>) (json_into_string v (btDialIPv6Target t))
      else if k = ''dial_timeout'' then sum_map (\<lambda>x. t\<lparr>btDialTimeout := x\<rparr>) (json_into_string v (btDialTimeout t))
      else if k = ''custom_ipv4'' then sum_map (\<lambda>x. t\<lparr>btCustomIPv4 := x\<rparr>) (json_into_string v (btCustomIPv4 t))
      else if k = ''custom_ipv6'' then sum_map (\<lambda>x. t\<lparr>btCustomIPv6 := x\<rparr>) (json_into_string v (btCustomIPv6 t))
      else if k = ''custom_zone'' then sum_map (\<lambda>x. t\<lparr>btCustomZone := x\<rparr>) (json_into_string v (btCustomZone t))
      else Inr t)"

definition binding_duration :: "duration_parser \<Rightarrow> string \<Rightarrow> string \<Rightarrow> int \<Rightarrow> go_error + int" where
  "binding_duration ParseDuration name s old =
     (if s = [] then Inr old
      else case ParseDuration s of
        Inl err \<Rightarrow> Inl (opError (''parse '' @ name @ '' '' @ s) err)
      | Inr d \<Rightarrow> Inr d)"

definition binding_fill :: "duration_parser \<Rightarrow> (string \<Rightarrow> ipaddr option) \<Rightarrow> binding_tmp \<Rightarrow> BindingOption \<Rightarrow> go_error + BindingOption" where
  "binding_fill ParseDuration ParseIP t bo =
     (let bo = bo\<lparr>boMethod := btMethod t\<rparr> in
      case btMethod t of
        MethodOff \<Rightarrow> Inr bo
      | MethodSelectInterface \<Rightarrow>
          sum_bind (binding_duration ParseDuration ''update_interval'' (btUpdateInterval t) (boUpdateInterval bo)) (\<lambda>d.
          Inr (bo\<lparr>boUpdateInterval := d, boManualSelect := btManualSelect t, boZone := btZone t\<rparr>))
      | MethodDialDetect \<Rightarrow>
          sum_bind (binding_duration ParseDuration ''update_interval'' (btUpdateInterval t) (boUpdateInterval bo)) (\<lambda>d.
          sum_bind (binding_duration ParseDuration ''dial_timeout'' (btDialTimeout t) (boDialTimeout bo)) (\<lambda>tmo.
          Inr (bo\<lparr>boUpdateInterval := d, boDialTimeout := tmo, boDialTCP := btDialTCP t,
            boDialIPv4Target := btDialIPv4Target t, boDialIPv6Target := btDialIPv6Target t\<rparr>)))
      | MethodCustom \<Rightarrow>
          let bo = bo\<lparr>boCustomIPv4 := ParseIP (btCustomIPv4 t), boCustomIPv6 := ParseIP (btCustomIPv6 t),
                boCustomZone := btCustomZone t\<rparr> in
          if boCustomIPv4 bo = None \<and> boCustomIPv6 bo = None then Inl (ErrorNew ''neither custom IPv4 nor IPv6 specified'')
          else Inr bo)"

definition BindingOption_UnmarshalJSON ::
  "duration_parser \<Rightarrow> (string \<Rightarrow> ipaddr option) \<Rightarrow> json \<Rightarrow> BindingOption \<Rightarrow> go_error + BindingOption" where
  "BindingOption_UnmarshalJSON ParseDuration ParseIP v bo =
     (case sum_bind (json_into_struct binding_tmp_set v binding_tmp_zero) (\<lambda>t. binding_fill ParseDuration ParseIP t bo) of
        Inl err \<Rightarrow> Inl (WithStr ''outbound_binding'' err)
      | Inr x \<Rightarrow> Inr x)"

section \<open>Diallers\<close>

text \<open>A dialler is its local address and zone, if any; a monitor is what its closure remembers.\<close>

type_synonym dialer = "(ipaddr \<times> string) option"

datatype laddr_monitor =
    MonitorInterface int string
  | MonitorDial int string string string int

record dial_state =
  globalIPv4Dialer :: dialer
  globalIPv6Dialer :: dialer
  monitorRunning :: "laddr_monitor option"

record dial_env =
  deInterfaces :: "go_error + raw_iface list"
  deGateway :: "int \<Rightarrow> string"
  deAnswers :: "int option list"
  deProbe :: "string \<Rightarrow> string \<Rightarrow> int \<Rightarrow> go_error + (ipaddr \<times> string) option"  \<comment> \<open>network, target, timeout; \<^const>\<open>None\<close>: another kind of address\<close>

definition dial_DialContext :: "string \<Rightarrow> dial_state \<Rightarrow> dialer outcome" where
  "dial_DialContext address s =
     (case go_index address 0 of
        None \<Rightarrow> Panic
      | Some c \<Rightarrow> Ok (if c = CHR ''['' then globalIPv6Dialer s else globalIPv4Dialer s))"

definition dialTimeoutOf :: "int \<Rightarrow> int" where
  "dialTimeoutOf timeout = (if timeout \<le> 0 then defaultConnectTimeout else timeout)"

definition detectByDial :: "dial_env \<Rightarrow> string \<Rightarrow> string \<Rightarrow> int \<Rightarrow> go_error + ipaddr \<times> string" where
  "detectByDial env network target timeout =
     (case deProbe env network target (if timeout \<le> 0 then 5000000000 else timeout) of
        Inl err \<Rightarrow> Inl (WithStr ''dial detect'' err)
      | Inr None \<Rightarrow> Inl (ErrorNew ''unsupported network'')
      | Inr (Some a) \<Rightarrow> Inr a)"

text \<open>One run of the closure the monitor was started with: the addresses and the zone.\<close>

definition monitor_fn :: "dial_env \<Rightarrow> laddr_monitor \<Rightarrow> go_error + ipaddr option \<times> ipaddr option \<times> string" where
  "monitor_fn env m =
     (case m of
        MonitorInterface _ zone \<Rightarrow>
          sum_bind (getFilteredInterfaces (deGateway env) (deInterfaces env)) (\<lambda>ifaces.
          case (if zone = [] then autoSelect ifaces else iface_find zone ifaces) of
            None \<Rightarrow> Inl (ErrorNew (if zone = [] then ''no interface with gateway detected'' else ''interface not found: '' @ zone))
          | Some i \<Rightarrow> Inr (niIPv4 i, niIPv6 i, niName i))
      | MonitorDial _ network t4 t6 timeout \<Rightarrow>
          let r4 = (if t4 = [] then Inr None else sum_map Some (detectByDial env network t4 timeout));
              r6 = (if t6 = [] then Inr None else sum_map Some (detectByDial env network t6 timeout)) in
          (case (r4, r6) of
             (Inr a, Inr b) \<Rightarrow> Inr (map_option fst a, map_option fst b, case b of None \<Rightarrow> [] | Some (_, z) \<Rightarrow> z)
           | (Inl e1, Inl e2) \<Rightarrow> Inl (ErrorNew (Error e1 @ [CHR 0x0A] @ Error e2))
           | (Inl e, _) \<Rightarrow> Inl e
           | (_, Inl e) \<Rightarrow> Inl e))"

text \<open>One tick of \<^verbatim>\<open>laddrMonitor\<close>; an error is logged.\<close>

definition laddrMonitor_tick :: "dial_env \<Rightarrow> dial_state \<Rightarrow> dial_state" where
  "laddrMonitor_tick env s =
     (case monitorRunning s of
        None \<Rightarrow> s
      | Some m \<Rightarrow>
          (case monitor_fn env m of
             Inl _ \<Rightarrow> s
           | Inr (v4, v6, zone) \<Rightarrow>
               s\<lparr>globalIPv4Dialer := (case v4 of None \<Rightarrow> globalIPv4Dialer s | Some ip \<Rightarrow> Some (ip, [])),
                 globalIPv6Dialer := (case v6 of None \<Rightarrow> globalIPv6Dialer s | Some ip \<Rightarrow> Some (ip, zone))\<rparr>))"

definition stopLaddrMonitor :: "dial_state \<Rightarrow> dial_state" where
  "stopLaddrMonitor s = s\<lparr>monitorRunning := None\<rparr>"

text \<open>Starting a monitor cancels the one that runs, so that there is never more than one.\<close>

definition startLaddrMonitor :: "laddr_monitor \<Rightarrow> dial_state \<Rightarrow> dial_state" where
  [simp]: "startLaddrMonitor m s = s\<lparr>monitorRunning := Some m\<rparr>"

text \<open>
  The selection under \<^verbatim>\<open>select_interface\<close>: the interface and the zone the monitor will look for.
  \<^const>\<open>None\<close>: the prompt is still waiting.
\<close>

definition selectInterface :: "dial_env \<Rightarrow> BindingOption \<Rightarrow> (networkInterface \<times> string) outcome option" where
  "selectInterface env bo =
     (let manual = (\<lambda>ifaces. map_option (\<lambda>r. case r of Ok i \<Rightarrow> Ok (i, niName i) | Fail e \<Rightarrow> Fail e | Panic \<Rightarrow> Panic)
                     (manualSelect ifaces (deAnswers env))) in
      case getFilteredInterfaces (deGateway env) (deInterfaces env) of
        Inl err \<Rightarrow> Some (Fail err)
      | Inr ifaces \<Rightarrow>
          if boZone bo \<noteq> [] then
            (case iface_find (boZone bo) ifaces of
               None \<Rightarrow> Some (Fail (ErrorNew (''interface not found: '' @ boZone bo)))
             | Some i \<Rightarrow> Some (Ok (i, boZone bo)))
          else if boManualSelect bo then manual ifaces
          else (case autoSelect ifaces of Some i \<Rightarrow> Some (Ok (i, [])) | None \<Rightarrow> manual ifaces))"

definition bind_dialers :: "ipaddr option \<Rightarrow> ipaddr option \<Rightarrow> string \<Rightarrow> dial_state \<Rightarrow> dial_state" where
  "bind_dialers v4 v6 zone s =
     s\<lparr>globalIPv4Dialer := map_option (\<lambda>ip. (ip, [])) v4, globalIPv6Dialer := map_option (\<lambda>ip. (ip, zone)) v6\<rparr>"

text \<open>
  \<^verbatim>\<open>SetLocalAddr\<close>; the zone of \<^verbatim>\<open>select_interface\<close> is a variable of the inner block, so the zone stored
  stays empty. The outcome \<^const>\<open>None\<close>: still waiting at the prompt.
\<close>

definition SetLocalAddr :: "dial_env \<Rightarrow> BindingOption \<Rightarrow> dial_state \<Rightarrow> unit outcome option \<times> dial_state" where
  "SetLocalAddr env bo s =
     (let s = stopLaddrMonitor s; started = (\<lambda>m s. if boUpdateInterval bo > 0 then startLaddrMonitor m s else s) in
      case boMethod bo of
        MethodOff \<Rightarrow> (Some (Ok ()), bind_dialers None None [] s)
      | MethodSelectInterface \<Rightarrow>
          (case selectInterface env bo of
             None \<Rightarrow> (None, s)
           | Some Panic \<Rightarrow> (Some Panic, s)
           | Some (Fail err) \<Rightarrow> (Some (Fail err), s)
           | Some (Ok (i, zone)) \<Rightarrow>
               (Some (Ok ()), bind_dialers (niIPv4 i) (niIPv6 i) [] (started (MonitorInterface (boUpdateInterval bo) zone) s)))
      | MethodDialDetect \<Rightarrow>
          let network = (if boDialTCP bo then ''tcp'' else ''udp'');
              r4 = (if boDialIPv4Target bo = [] then Inr None
                    else sum_map Some (detectByDial env network (boDialIPv4Target bo) (boDialTimeout bo))) in
          (case r4 of
             Inl err \<Rightarrow> (Some (Fail err), s)
           | Inr a \<Rightarrow>
               (case (if boDialIPv6Target bo = [] then Inr None
                      else sum_map Some (detectByDial env network (boDialIPv6Target bo) (boDialTimeout bo))) of
                  Inl err \<Rightarrow> (Some (Fail err), s)
                | Inr b \<Rightarrow>
                    (Some (Ok ()),
                     bind_dialers (map_option fst a) (map_option fst b) (case b of None \<Rightarrow> [] | Some (_, z) \<Rightarrow> z)
                       (started (MonitorDial (boUpdateInterval bo) network (boDialIPv4Target bo) (boDialIPv6Target bo) (boDialTimeout bo)) s))))
      | MethodCustom \<Rightarrow> (Some (Ok ()), bind_dialers (boCustomIPv4 bo) (boCustomIPv6 bo) (boCustomZone bo) s))"

section \<open>What a binding does\<close>

text \<open>A binding that fails leaves both diallers as they were; the monitor is stopped all the same.\<close>

lemma SetLocalAddr_fails:
  assumes "SetLocalAddr env bo s = (Some (Fail err), s')"
  shows "globalIPv4Dialer s' = globalIPv4Dialer s \<and> globalIPv6Dialer s' = globalIPv6Dialer s \<and> monitorRunning s' = None"
  using assms
  by (cases "boMethod bo")
    (auto simp: SetLocalAddr_def stopLaddrMonitor_def Let_def split: option.splits outcome.splits prod.splits sum.splits)

text \<open>Without gateways no interface is selected automatically: the prompt always appears.\<close>

lemma autoSelect_without_gateway:
  assumes "getFilteredInterfaces gateway raw = Inr ifaces" and "gateway \<in> {getGatewayForInterface, windows_getGatewayForInterface}"
  shows "autoSelect ifaces = None"
proof -
  have "niGateway i = []" if "i \<in> set ifaces" for i
    using assms that
    by (auto simp: getFilteredInterfaces_def filter_iface_def getGatewayForInterface_def windows_getGatewayForInterface_def Let_def
        split: sum.splits if_splits prod.splits)
  then show ?thesis by (auto simp: autoSelect_def find_None_iff split: option.split)
qed

text \<open>
  The answers the prompt takes: the list is shown with indices from 0, 0 is refused, and the number of
  interfaces is accepted and indexes out of range.
\<close>

lemma manualSelect_answer:
  "manualSelect ifaces (Some i # as) =
     (if 0 < i \<and> i < int (length ifaces) then Some (Ok (ifaces ! nat i))
      else if 0 < i \<and> i = int (length ifaces) then Some Panic
      else manualSelect ifaces as)"
  by (auto simp: go_index_def)

text \<open>
  The zone of an IPv6 address is lost by the binding and comes back with the monitor's first tick, on
  the same interfaces.
\<close>

lemma select_interface_loses_zone:
  assumes "boMethod bo = MethodSelectInterface" and "boZone bo \<noteq> []" and "0 < boUpdateInterval bo"
    and "getFilteredInterfaces (deGateway env) (deInterfaces env) = Inr ifaces" and "iface_find (boZone bo) ifaces = Some i"
    and "niIPv6 i = Some ip" and "SetLocalAddr env bo s = (r, s1)"
  shows "r = Some (Ok ()) \<and> globalIPv6Dialer s1 = Some (ip, []) \<and>
    globalIPv6Dialer (laddrMonitor_tick env s1) = Some (ip, boZone bo) \<and>
    globalIPv4Dialer (laddrMonitor_tick env s1) = globalIPv4Dialer s1"
proof -
  have n: "niName i = boZone bo" using assms(5) by (simp add: iface_find_def find_Some_iff) auto
  have "selectInterface env bo = Some (Ok (i, boZone bo))" using assms by (simp add: selectInterface_def)
  with assms have r: "r = Some (Ok ())" and s1: "s1 = bind_dialers (niIPv4 i) (niIPv6 i) []
      ((stopLaddrMonitor s)\<lparr>monitorRunning := Some (MonitorInterface (boUpdateInterval bo) (boZone bo))\<rparr>)"
    by (simp_all add: SetLocalAddr_def Let_def)
  have m: "monitor_fn env (MonitorInterface (boUpdateInterval bo) (boZone bo)) = Inr (niIPv4 i, niIPv6 i, niName i)"
    using assms by (simp add: monitor_fn_def)
  show ?thesis
    using m by (cases "niIPv4 i") (simp_all add: r s1 n assms(6) laddrMonitor_tick_def bind_dialers_def)
qed

end
