(* ===== verification/Config.thy ===== *)
theory Config
  imports Dial MobileDns TTLRules Engine
begin

text \<open>
  The configuration, \<^verbatim>\<open>internal/config.go\<close>: decoding, validation, and loading into the package's
  global variables. Files, the tries, the caches and the network are arguments. Shown here:
  loading is all or nothing. A file that cannot be read or decoded leaves the running
  configuration alone; any later error leaves the reset state, with the local-address monitor and
  the pools' monitors stopped; success leaves exactly what the file prescribes.
\<close>

section \<open>Decoding\<close>

record Config =
  cLogLevel :: string
  cTransmitFileLimit :: int
  cSocks5Addr :: string
  cHttpAddr :: string
  cOutboundBinding :: BindingOption
  cDNSAddr :: string
  cUDPSize :: int
  cDoHProxy :: string
  cFakeTTLRules :: string
  cDNSSingleflight :: bool
  cDNSCacheTTL :: int
  cDNSCacheCapacity :: int
  cTTLSingleflight :: bool
  cTTLCacheTTL :: int
  cTTLCacheCapacity :: int
  cIPPools :: "(string \<times> IPPool option) list"     \<comment> \<open>\<^const>\<open>None\<close>: a nil pointer\<close>
  cHosts :: "(string \<times> string) list"
  cDefaultPolicy :: Policy
  cDomainPolicies :: "(string \<times> Policy) list"
  cIpPolicies :: "(string \<times> Policy) list"

definition config_zero :: Config where
  "config_zero = \<lparr>cLogLevel = [], cTransmitFileLimit = 0, cSocks5Addr = [], cHttpAddr = [], cOutboundBinding = binding_zero,
     cDNSAddr = [], cUDPSize = 0, cDoHProxy = [], cFakeTTLRules = [], cDNSSingleflight = False, cDNSCacheTTL = 0,
     cDNSCacheCapacity = 0, cTTLSingleflight = False, cTTLCacheTTL = 0, cTTLCacheCapacity = 0, cIPPools = [], cHosts = [],
     cDefaultPolicy = zero_policy, cDomainPolicies = [], cIpPolicies = []\<rparr>"

record config_codec =
  ccDuration :: duration_parser
  ccParseIP :: "string \<Rightarrow> ipaddr option"
  ccLib :: netlib
  ccLookupIP :: "string \<Rightarrow> go_error + addr option list"

text \<open>Decoding an object into a Go map: a repeated key replaces the entry.\<close>

fun map_entries :: "(json \<Rightarrow> go_error + 'a) \<Rightarrow> (string \<times> json) list \<Rightarrow> (string \<times> 'a) list \<Rightarrow> go_error + (string \<times> 'a) list" where
  "map_entries dec [] m = Inr m"
| "map_entries dec ((k, v) # kvs) m = sum_bind (dec v) (\<lambda>x. map_entries dec kvs (AList.update k x m))"

definition json_into_map :: "(json \<Rightarrow> go_error + 'a) \<Rightarrow> json \<Rightarrow> (string \<times> 'a) list \<Rightarrow> go_error + (string \<times> 'a) list" where
  "json_into_map dec v m =
     (case v of JNull \<Rightarrow> Inr [] | JObject kvs \<Rightarrow> map_entries dec kvs m | _ \<Rightarrow> Inl (json_type_error ''map''))"

definition json_into_uint16 :: "json \<Rightarrow> int \<Rightarrow> go_error + int" where
  "json_into_uint16 v old =
     sum_bind (json_into_int v old) (\<lambda>i. if 0 \<le> i \<and> i < 65536 then Inr i else Inl (json_type_error ''uint16''))"

definition config_set :: "config_codec \<Rightarrow> string \<Rightarrow> json \<Rightarrow> Config \<Rightarrow> go_error + Config" where
  "config_set cc k v c =
     (let policy = (\<lambda>v. Policy_UnmarshalJSON (ccDuration cc) v zero_policy);
          pool = (\<lambda>v. if v = JNull then Inr None
                  else sum_map Some (IPPool_UnmarshalJSON (ccLib cc) (ccLookupIP cc) (ccDuration cc) v)) in
      if k = ''log_level'' then sum_map (\<lambda>x. c\<lparr>cLogLevel := x\<rparr>) (json_into_string v (cLogLevel c))
      else if k = ''transmit_file_limit'' then sum_map (\<lambda>x. c\<lparr>cTransmitFileLimit := x\<rparr>) (json_into_int v (cTransmitFileLimit c))
      else if k = ''socks5_address'' then sum_map (\<lambda>x. c\<lparr>cSocks5Addr := x\<rparr>) (json_into_string v (cSocks5Addr c))
      else if k = ''http_address'' then sum_map (\<lambda>x. c\<lparr>cHttpAddr := x\<rparr>) (json_into_string v (cHttpAddr c))
      else if k = ''outbound_binding'' then
        sum_map (\<lambda>x. c\<lparr>cOutboundBinding := x\<rparr>) (BindingOption_UnmarshalJSON (ccDuration cc) (ccParseIP cc) v (cOutboundBinding c))
      else if k = ''dns_addr'' then sum_map (\<lambda>x. c\<lparr>cDNSAddr := x\<rparr>) (json_into_string v (cDNSAddr c))
      else if k = ''udp_minsize'' then sum_map (\<lambda>x. c\<lparr>cUDPSize := x\<rparr>) (json_into_uint16 v (cUDPSize c))
      else if k = ''socks5_for_doh'' then sum_map (\<lambda>x. c\<lparr>cDoHProxy := x\<rparr>) (json_into_string v (cDoHProxy c))
      else if k = ''fake_ttl_rules'' then sum_map (\<lambda>x. c\<lparr>cFakeTTLRules := x\<rparr>) (json_into_string v (cFakeTTLRules c))
      else if k = ''dns_singleflight'' then sum_map (\<lambda>x. c\<lparr>cDNSSingleflight := x\<rparr>) (json_into_bool v (cDNSSingleflight c))
      else if k = ''dns_cache_ttl'' then sum_map (\<lambda>x. c\<lparr>cDNSCacheTTL := x\<rparr>) (json_into_int v (cDNSCacheTTL c))
      else if k = ''dns_cache_cap'' then sum_map (\<lambda>x. c\<lparr>cDNSCacheCapacity := x\<rparr>) (json_into_int v (cDNSCacheCapacity c))
      else if k = ''ttl_singleflight'' then sum_map (\<lambda>x. c\<lparr>cTTLSingleflight := x\<rparr>) (json_into_bool v (cTTLSingleflight c))
      else if k = ''ttl_cache_ttl'' then sum_map (\<lambda>x. c\<lparr>cTTLCacheTTL := x\<rparr>) (json_into_int v (cTTLCacheTTL c))
      else if k = ''ttl_cache_cap'' then sum_map (\<lambda>x. c\<lparr>cTTLCacheCapacity := x\<rparr>) (json_into_int v (cTTLCacheCapacity c))
      else if k = ''ip_pools'' then sum_map (\<lambda>x. c\<lparr>cIPPools := x\<rparr>) (json_into_map pool v (cIPPools c))
      else if k = ''hosts'' then sum_map (\<lambda>x. c\<lparr>cHosts := x\<rparr>) (json_into_map (\<lambda>v. json_into_string v []) v (cHosts c))
      else if k = ''default_policy'' then
        sum_map (\<lambda>x. c\<lparr>cDefaultPolicy := x\<rparr>) (Policy_UnmarshalJSON (ccDuration cc) v (cDefaultPolicy c))
      else if k = ''domain_policies'' then sum_map (\<lambda>x. c\<lparr>cDomainPolicies := x\<rparr>) (json_into_map policy v (cDomainPolicies c))
      else if k = ''ip_policies'' then sum_map (\<lambda>x. c\<lparr>cIpPolicies := x\<rparr>) (json_into_map policy v (cIpPolicies c))
      else Inr c)"

definition decodeConfig :: "config_codec \<Rightarrow> json \<Rightarrow> go_error + Config" where
  "decodeConfig cc v = json_into_struct (config_set cc) v config_zero"

section \<open>Validation\<close>

datatype logLevel = DEBUG | INFO | ERROR

definition parseLogLevel :: "string \<Rightarrow> logLevel option" where
  "parseLogLevel s =
     (if s \<in> {''DEBUG'', ''debug''} then Some DEBUG
      else if s \<in> {''INFO'', ''info''} then Some INFO
      else if s \<in> {''ERROR'', ''error''} then Some ERROR
      else None)"

definition validateConfigBasics :: "(rule list \<Rightarrow> rule list) \<Rightarrow> Config \<Rightarrow> go_error option" where
  "validateConfigBasics sortSlice conf =
     (if cLogLevel conf \<noteq> [] \<and> parseLogLevel (cLogLevel conf) = None then Some (ErrorNew (''unknown log level: '' @ cLogLevel conf))
      else if cDNSCacheTTL conf < 0 then Some (ErrorNew (''invalid dns_cache_ttl: '' @ Itoa (cDNSCacheTTL conf)))
      else if cDNSCacheTTL conf \<noteq> 0 \<and> cDNSCacheCapacity conf < 1 then
        Some (ErrorNew (''invalid dns_cache_cap: '' @ Itoa (cDNSCacheCapacity conf)))
      else if cTTLCacheTTL conf < 0 then Some (ErrorNew (''invalid ttl cache ttl: '' @ Itoa (cTTLCacheTTL conf)))
      else if cTTLCacheTTL conf \<noteq> 0 \<and> cTTLCacheCapacity conf < 1 then
        Some (ErrorNew (''invalid ttl_cache_cap: '' @ Itoa (cTTLCacheCapacity conf)))
      else if cFakeTTLRules conf \<noteq> [] then
        map_option (WithStr ''load fake ttl rules'') (validateTTLRules sortSlice (cFakeTTLRules conf))
      else None)"

definition ValidateConfigJSON :: "config_codec \<Rightarrow> (rule list \<Rightarrow> rule list) \<Rightarrow> go_error + json \<Rightarrow> go_error option" where
  "ValidateConfigJSON cc sortSlice raw =
     (case sum_bind raw (decodeConfig cc) of Inl err \<Rightarrow> Some err | Inr conf \<Rightarrow> validateConfigBasics sortSlice conf)"

section \<open>The loaded state\<close>

datatype exchanger = Do53 int | DoHDirect string Policy | DoHVia string

record config_state =
  sLogLevel :: logLevel
  sDefaultPolicy :: Policy
  sPools :: "(string \<times> IPPool option) list"
  sRunning :: "string list"                      \<comment> \<open>pools whose monitor goroutine runs\<close>
  sSem :: "int option"
  sDnsAddr :: string
  sExchange :: "exchanger option"
  sDnsCache :: "int option"
  sDnsCacheTTL :: int
  sDnsSingleflight :: bool
  sTtlCache :: "int option"
  sTtlCacheTTL :: int
  sTtlSingleflight :: bool
  sCalcTTL :: "calc option"
  sHostsMatcher :: "(string \<times> string) list"     \<comment> \<open>what was added, in order\<close>
  sDomainMatcher :: "(string \<times> Policy) list"
  sIPMatcher :: "(string \<times> Policy) list"
  sIPv6Matcher :: "(string \<times> Policy) list"
  sMobileRecords :: "(string \<times> string \<times> int) list"
  sDial :: dial_state

record config_env =
  ceCodec :: config_codec
  ceSort :: "rule list \<Rightarrow> rule list"
  ceDial :: dial_env
  ceFloat :: "rat \<Rightarrow> rat"
  cePing :: "string \<Rightarrow> nat \<Rightarrow> nat \<Rightarrow> int option"
  ceArrival :: "ipResult list \<Rightarrow> ipResult list"
  ceNewCache :: "int \<Rightarrow> go_error option"
  ceWindows :: bool
  ceMatchers :: "(string \<times> string) list \<Rightarrow> (string \<times> Policy) list \<Rightarrow> (string \<times> Policy) list \<Rightarrow> (string \<times> Policy) list \<Rightarrow> matchers"
  ceParse :: "string \<Rightarrow> addr option"
  ceDns :: dns_env
  ceURL :: "string \<Rightarrow> go_error + string \<times> string"
  ceSocks :: "string \<Rightarrow> go_error option"
  ceWorld :: world

definition reset_state :: config_state where
  "reset_state = \<lparr>sLogLevel = INFO, sDefaultPolicy = zero_policy, sPools = [], sRunning = [], sSem = None, sDnsAddr = [], sExchange = None,
     sDnsCache = None, sDnsCacheTTL = 0, sDnsSingleflight = False, sTtlCache = None, sTtlCacheTTL = 0, sTtlSingleflight = False,
     sCalcTTL = None, sHostsMatcher = [], sDomainMatcher = [], sIPMatcher = [], sIPv6Matcher = [], sMobileRecords = [],
     sDial = \<lparr>globalIPv4Dialer = None, globalIPv6Dialer = None, monitorRunning = None\<rparr>\<rparr>"

text \<open>
  Stopping: each pool of the global map cancels its goroutine; a nil pointer in the map is a
  panic. \<^verbatim>\<open>resetConfigState\<close> assigns every variable and forgets the pools, not their goroutines.
\<close>

definition stopPools :: "(config_state, unit) io" where
  "stopPools s =
     (if (\<exists>x \<in> set (sPools s). snd x = None) then (Panic, s)
      else (Ok (), s\<lparr>sPools := map (\<lambda>(t, p). (t, map_option Stop p)) (sPools s),
                     sRunning := filter (\<lambda>t. t \<notin> fst ` set (sPools s)) (sRunning s)\<rparr>))"

definition resetConfigState :: "config_env \<Rightarrow> (config_state, unit) io" where
  "resetConfigState env s =
     (Ok (), reset_state\<lparr>sRunning := sRunning s, sDial := snd (SetLocalAddr (ceDial env) binding_zero (sDial s))\<rparr>)"

section \<open>Loading\<close>

definition cfg :: "(config_state \<Rightarrow> config_state) \<Rightarrow> (config_state, unit) io" where
  "cfg f s = (Ok (), f s)"

definition cfg_check :: "go_error option \<Rightarrow> (config_state, unit) io" where
  "cfg_check e = (case e of None \<Rightarrow> io_return () | Some err \<Rightarrow> io_fail err)"

text \<open>A prompt that never gets an answer does not return; the model ends there with an error.\<close>

definition load_binding :: "config_env \<Rightarrow> BindingOption \<Rightarrow> (config_state, unit) io" where
  "load_binding env bo s =
     (case SetLocalAddr (ceDial env) bo (sDial s) of
        (r, d) \<Rightarrow> ((case r of Some x \<Rightarrow> x | None \<Rightarrow> Fail (ErrorNew ''waiting at the prompt'')), s\<lparr>sDial := d\<rparr>))"

definition load_logLevel :: "Config \<Rightarrow> (config_state, unit) io" where
  "load_logLevel conf =
     (if cLogLevel conf = [] then io_return ()
      else case parseLogLevel (cLogLevel conf) of
        None \<Rightarrow> io_fail (ErrorNew (''unknown log level: '' @ cLogLevel conf))
      | Some l \<Rightarrow> cfg (sLogLevel_update (\<lambda>_. l)))"

text \<open>The pools are started one after the other; the map holds all of them from the start.\<close>

definition init_pool :: "config_env \<Rightarrow> string \<times> IPPool option \<Rightarrow> (config_state, unit) io" where
  "init_pool env tp s =
     (case tp of
        (tag, None) \<Rightarrow> (Panic, s)
      | (tag, Some p) \<Rightarrow>
          (case Init (ceFloat env) (cePing env tag) (ceArrival env) p of
             (Some err, p') \<Rightarrow> (Fail (WithStr (''init ip pool '' @ tag) err), s\<lparr>sPools := AList.update tag (Some p') (sPools s)\<rparr>)
           | (None, p') \<Rightarrow> (Ok (), s\<lparr>sPools := AList.update tag (Some p') (sPools s), sRunning := sRunning s @ [tag]\<rparr>)))"

definition load_pools :: "config_env \<Rightarrow> Config \<Rightarrow> (config_state, unit) io" where
  "load_pools env conf =
     (if cIPPools conf = [] then io_return ()
      else io_bind (cfg (sPools_update (\<lambda>_. cIPPools conf))) (\<lambda>_. io_each (init_pool env) (cIPPools conf)))"

definition seconds :: "int \<Rightarrow> int" where "seconds n = wrap64 (n * 1000000000)"

definition load_dnsCache :: "config_env \<Rightarrow> Config \<Rightarrow> (config_state, unit) io" where
  "load_dnsCache env conf =
     (if cDNSCacheTTL conf < 0 then io_fail (ErrorNew (''invalid dns_cache_ttl: '' @ Itoa (cDNSCacheTTL conf)))
      else if cDNSCacheTTL conf \<noteq> 0 then
        (if cDNSCacheCapacity conf < 1 then io_fail (ErrorNew (''invalid dns_cache_cap: '' @ Itoa (cDNSCacheCapacity conf)))
         else case ceNewCache env (cDNSCacheCapacity conf mod 2 ^ 32) of
           Some err \<Rightarrow> io_bind (cfg (sDnsCache_update (\<lambda>_. None))) (\<lambda>_. io_fail (WithStr ''init dns cache'' err))
         | None \<Rightarrow> cfg (\<lambda>s. s\<lparr>sDnsCache := Some (cDNSCacheCapacity conf mod 2 ^ 32), sDnsCacheTTL := seconds (cDNSCacheTTL conf)\<rparr>))
      else io_return ())"

definition load_ttlCache :: "config_env \<Rightarrow> Config \<Rightarrow> (config_state, unit) io" where
  "load_ttlCache env conf =
     (if cTTLCacheTTL conf < 0 then io_fail (ErrorNew (''invalid ttl cache ttl: '' @ Itoa (cTTLCacheTTL conf)))
      else if cTTLCacheTTL conf \<noteq> 0 then
        (if cTTLCacheCapacity conf < 1 then io_fail (ErrorNew (''invalid ttl_cache_cap: '' @ Itoa (cTTLCacheCapacity conf)))
         else case ceNewCache env (cTTLCacheCapacity conf mod 2 ^ 32) of
           Some err \<Rightarrow> io_bind (cfg (sTtlCache_update (\<lambda>_. None))) (\<lambda>_. io_fail (WithStr ''init ttl cache'' err))
         | None \<Rightarrow> cfg (\<lambda>s. s\<lparr>sTtlCache := Some (cTTLCacheCapacity conf mod 2 ^ 32), sTtlCacheTTL := seconds (cTTLCacheTTL conf)\<rparr>))
      else io_return ())"

definition load_rules :: "config_env \<Rightarrow> Config \<Rightarrow> (config_state, unit) io" where
  "load_rules env conf =
     (if cFakeTTLRules conf = [] then io_return ()
      else case loadTTLRules (ceSort env) (cFakeTTLRules conf) of
        Inl err \<Rightarrow> io_fail (WithStr ''load fake ttl rules'' err)
      | Inr c \<Rightarrow> cfg (\<lambda>s. s\<lparr>sCalcTTL := Some c,
          sSem := (if ceWindows env \<and> cTransmitFileLimit conf > 0 then Some (cTransmitFileLimit conf) else sSem s)\<rparr>))"

text \<open>The patterns of a key: its parts between semicolons, each expanded.\<close>

definition patterns_of :: "string \<Rightarrow> string list" where
  "patterns_of key = concat (map expandPattern (split_on (CHR '';'') key))"

definition added :: "(string \<times> 'a) list \<Rightarrow> (string \<times> 'a) list" where
  "added m = concat (map (\<lambda>(key, v). map (\<lambda>p. (p, v)) (patterns_of key)) m)"

definition load_matchers :: "Config \<Rightarrow> (config_state, unit) io" where
  "load_matchers conf =
     cfg (\<lambda>s. s\<lparr>sDefaultPolicy := normalizePolicyDefaults (cDefaultPolicy conf),
       sHostsMatcher := added (cHosts conf), sDomainMatcher := added (cDomainPolicies conf),
       sIPMatcher := filter (\<lambda>(p, _). \<not> isIPv6 p) (added (cIpPolicies conf)),
       sIPv6Matcher := filter (\<lambda>(p, _). isIPv6 p) (added (cIpPolicies conf)),
       sDnsAddr := cDNSAddr conf\<rparr>)"

text \<open>The environment of the decisions, as loaded so far.\<close>

definition loaded_env :: "config_env \<Rightarrow> config_state \<Rightarrow> penv" where
  "loaded_env env s = \<lparr>eLib = ccLib (ceCodec env), eParseIP = ceParse env,
     eMatch = ceMatchers env (sHostsMatcher s) (sDomainMatcher s) (sIPMatcher s) (sIPv6Matcher s),
     eDns = ceDns env, eDefault = sDefaultPolicy s\<rparr>"

definition live_pools :: "config_state \<Rightarrow> pools" where
  "live_pools s = List.map_filter (\<lambda>(t, p). map_option (\<lambda>x. (t, x)) p) (sPools s)"

definition load_dns :: "config_env \<Rightarrow> Config \<Rightarrow> (config_state, unit) io" where
  "load_dns env conf s =
     (if HasPrefix (sDnsAddr s) ''https://'' then
        (if cDoHProxy conf = [] then
           (case genDoHDialFunc (loaded_env env s) JoinHostPort (ceURL env (sDnsAddr s)) ((ceWorld env)\<lparr>wPools := live_pools s\<rparr>) of
              (Ok (a, p), w) \<Rightarrow>
                (Ok (), s\<lparr>sExchange := Some (DoHDirect a p), sPools := map (\<lambda>(t, x). (t, Some x)) (wPools w)\<rparr>)
            | (Fail err, w) \<Rightarrow> (Fail err, s\<lparr>sPools := map (\<lambda>(t, x). (t, Some x)) (wPools w)\<rparr>)
            | (Panic, w) \<Rightarrow> (Panic, s))
         else
           (case ceSocks env (cDoHProxy conf) of
              Some err \<Rightarrow> (Fail (WithStr ''create socks5 dialer'' err), s)
            | None \<Rightarrow> (Ok (), s\<lparr>sExchange := Some (DoHVia (cDoHProxy conf))\<rparr>)))
      else (Ok (), s\<lparr>sExchange := Some (Do53 (if cUDPSize conf > 0 then cUDPSize conf else 0))\<rparr>))"

definition load_steps :: "config_env \<Rightarrow> Config \<Rightarrow> (config_state, unit) io" where
  "load_steps env conf = io_each id
     [cfg_check (validateConfigBasics (ceSort env) conf),
      load_binding env (cOutboundBinding conf),
      load_logLevel conf,
      load_pools env conf,
      cfg (\<lambda>s. s\<lparr>sDnsSingleflight := cDNSSingleflight conf, sTtlSingleflight := cTTLSingleflight conf\<rparr>),
      load_dnsCache env conf,
      load_ttlCache env conf,
      load_rules env conf,
      load_matchers conf,
      load_dns env conf]"

text \<open>\<open>file\<close>: the value read from the file, or the error of opening or parsing it.\<close>

definition LoadConfig :: "config_env \<Rightarrow> go_error + json \<Rightarrow> (config_state, string \<times> string) io" where
  "LoadConfig env file =
     io_bind (io_sum (sum_bind file (decodeConfig (ceCodec env)))) (\<lambda>conf.
     io_bind stopPools (\<lambda>_.
     io_bind (resetConfigState env) (\<lambda>_.
     io_bind (io_try (load_steps env conf)) (\<lambda>r.
     case r of
       Inr _ \<Rightarrow> io_return (cSocks5Addr conf, cHttpAddr conf)
     | Inl err \<Rightarrow> io_bind stopPools (\<lambda>_. io_bind (resetConfigState env) (\<lambda>_. io_fail err))))))"

section \<open>All or nothing\<close>

text \<open>The pools are usable and every running monitor belongs to one of them.\<close>

definition cfg_ok :: "config_state \<Rightarrow> bool" where
  "cfg_ok s \<longleftrightarrow> set (sRunning s) \<subseteq> fst ` set (sPools s) \<and> (\<forall>x \<in> set (sPools s). \<exists>p. snd x = Some p \<and> pool_ok p)"

definition conf_pools_ok :: "Config \<Rightarrow> bool" where
  "conf_pools_ok conf \<longleftrightarrow> (\<forall>x \<in> set (cIPPools conf). \<exists>p. snd x = Some p \<and> pool_ok p)"

definition arrival_ok :: "config_env \<Rightarrow> bool" where
  "arrival_ok env \<longleftrightarrow> (\<forall>rs. set (ceArrival env rs) = set rs)"

text \<open>The prompt of an interactive binding gets an answer, and not the one that panics.\<close>

definition prompt_answered :: "config_env \<Rightarrow> Config \<Rightarrow> bool" where
  "prompt_answered env conf \<longleftrightarrow> (\<forall>d. fst (SetLocalAddr (ceDial env) (cOutboundBinding conf) d) \<notin> {None, Some Panic})"

text \<open>No pool is \<^verbatim>\<open>null\<close>; every other decoded pool is well formed.\<close>

definition pools_given :: "Config \<Rightarrow> bool" where
  "pools_given conf \<longleftrightarrow> (\<forall>x \<in> set (cIPPools conf). snd x \<noteq> None)"

lemma cfg_ok_update [simp]:
  "cfg_ok (s\<lparr>sLogLevel := l\<rparr>) = cfg_ok s" "cfg_ok (s\<lparr>sDnsCache := a\<rparr>) = cfg_ok s"
  "cfg_ok (s\<lparr>sDnsCacheTTL := i\<rparr>) = cfg_ok s" "cfg_ok (s\<lparr>sTtlCache := a\<rparr>) = cfg_ok s"
  "cfg_ok (s\<lparr>sTtlCacheTTL := i\<rparr>) = cfg_ok s" "cfg_ok (s\<lparr>sCalcTTL := c\<rparr>) = cfg_ok s"
  "cfg_ok (s\<lparr>sSem := m\<rparr>) = cfg_ok s" "cfg_ok (s\<lparr>sDnsSingleflight := b\<rparr>) = cfg_ok s"
  "cfg_ok (s\<lparr>sTtlSingleflight := b\<rparr>) = cfg_ok s" "cfg_ok (s\<lparr>sDefaultPolicy := p\<rparr>) = cfg_ok s"
  "cfg_ok (s\<lparr>sHostsMatcher := h\<rparr>) = cfg_ok s" "cfg_ok (s\<lparr>sDomainMatcher := d\<rparr>) = cfg_ok s"
  "cfg_ok (s\<lparr>sIPMatcher := d\<rparr>) = cfg_ok s" "cfg_ok (s\<lparr>sIPv6Matcher := d\<rparr>) = cfg_ok s"
  "cfg_ok (s\<lparr>sDnsAddr := t\<rparr>) = cfg_ok s" "cfg_ok (s\<lparr>sExchange := e\<rparr>) = cfg_ok s"
  "cfg_ok (s\<lparr>sDial := y\<rparr>) = cfg_ok s"
  by (simp_all add: cfg_ok_def)

lemma set_AList_update: "set (AList.update k v al) \<subseteq> insert (k, v) (set al)"
  by (induction al) auto

definition pools_decoded :: "Config \<Rightarrow> bool" where
  "pools_decoded conf \<longleftrightarrow> (\<forall>x \<in> set (cIPPools conf). \<forall>p. snd x = Some p \<longrightarrow> pool_ok p)"

lemma map_entries_all:
  assumes "\<And>v x. dec v = Inr x \<Longrightarrow> P x"
  shows "map_entries dec kvs m = Inr m' \<Longrightarrow> \<forall>x \<in> set m. P (snd x) \<Longrightarrow> \<forall>x \<in> set m'. P (snd x)"
proof (induction kvs arbitrary: m)
  case (Cons kv kvs)
  then obtain x where x: "dec (snd kv) = Inr x" "map_entries dec kvs (AList.update (fst kv) x m) = Inr m'"
    by (cases kv) (auto simp: sum_bind_Inr_iff)
  have "\<forall>y \<in> set (AList.update (fst kv) x m). P (snd y)"
    using Cons.prems(2) set_AList_update [of "fst kv" x m] assms [OF x(1)] by auto
  with Cons.IH [OF x(2)] show ?case .
qed simp

lemma config_set_pools:
  assumes "names_ok (ccLib cc)" and "pools_decoded c" and "config_set cc k v c = Inr c'"
  shows "pools_decoded c'"
proof (cases "cIPPools c' = cIPPools c")
  case True
  with assms(2) show ?thesis by (simp add: pools_decoded_def)
next
  case False
  let ?pool = "\<lambda>v. if v = JNull then Inr None else sum_map Some (IPPool_UnmarshalJSON (ccLib cc) (ccLookupIP cc) (ccDuration cc) v)"
  let ?P = "\<lambda>x. \<forall>p. x = Some p \<longrightarrow> pool_ok p"
  have dec: "?P x" if "?pool v = Inr x" for v x
    using that IPPool_UnmarshalJSON_ok [OF assms(1)] by (auto simp: sum_map_Inr_iff split: if_splits)
  from False assms(3) have "json_into_map ?pool v (cIPPools c) = Inr (cIPPools c')"
    by (auto simp: config_set_def Let_def sum_map_Inr_iff split: if_splits)
  then show ?thesis
    using map_entries_all [of ?pool ?P, OF dec] assms(2)
    by (auto simp: json_into_map_def pools_decoded_def split: json.splits)
qed

lemma decodeConfig_pools:
  assumes "names_ok (ccLib cc)" and "decodeConfig cc v = Inr conf" and "pools_given conf"
  shows "conf_pools_ok conf"
proof -
  have "pools_decoded conf"
    by (rule json_into_struct_invariant [of pools_decoded "config_set cc" config_zero v])
      (use assms(2) in \<open>auto intro: config_set_pools [OF assms(1)] simp: decodeConfig_def\<close>, simp add: pools_decoded_def config_zero_def)
  with assms(3) show ?thesis by (fastforce simp: pools_decoded_def pools_given_def conf_pools_ok_def)
qed

definition keyed :: "string set \<Rightarrow> world \<Rightarrow> bool" where
  "keyed K w \<longleftrightarrow> fst ` set (wPools w) = K \<and> (\<forall>x \<in> set (wPools w). pool_ok (snd x))"

lemma returns_pool_get_keyed [returns_intros]: "returns (keyed K) False (pool_get tag)"
  unfolding returns_def
proof (intro allI impI)
  fix w assume k: "keyed K w"
  show "fst (pool_get tag w) \<noteq> Panic \<and> (False \<longrightarrow> (\<forall>e. fst (pool_get tag w) \<noteq> Fail e)) \<and> keyed K (snd (pool_get tag w))"
  proof (cases "map_of (wPools w) tag")
    case None
    with k show ?thesis by (cases "wPools w = []") (auto simp: pool_get_def getFromIPPool_def keyed_def)
  next
    case (Some p)
    then have m: "(tag, p) \<in> set (wPools w)" by (rule map_of_SomeD)
    with k have "pool_ok p" by (auto simp: keyed_def)
    from Get_ok [OF this] obtain ip p' where g: "Get p = Some (ip, p')" "pool_ok p'" by blast
    have "fst ` set (AList.update tag p' (wPools w)) = K" using k m by (force simp: keyed_def dom_update)
    moreover have "\<forall>x \<in> set (AList.update tag p' (wPools w)). pool_ok (snd x)"
      using k g(2) set_AList_update [of tag p' "wPools w"] by (auto simp: keyed_def)
    ultimately show ?thesis using Some g m k by (auto simp: pool_get_def getFromIPPool_def keyed_def)
  qed
qed

lemma returns_genDoHDialFunc: "returns (keyed K) False (genDoHDialFunc env J u)"
  unfolding genDoHDialFunc_def redirect_def ipRedirect_def resolveDoHPolicyHost_def Let_def
  by (auto split: option.split prod.split intro!: returns_intros)

lemma returns_cfg [returns_intros]: "(\<And>s. I s \<Longrightarrow> I (f s)) \<Longrightarrow> returns I ok (cfg f)"
  by (simp add: returns_def cfg_def)

lemma returns_cfg_check [returns_intros]: "returns I False (cfg_check e)"
  by (auto simp: cfg_check_def split: option.split intro: returns_intros)

lemma returns_load_binding:
  assumes "prompt_answered env conf"
  shows "returns cfg_ok False (load_binding env (cOutboundBinding conf))"
  unfolding returns_def
proof (intro allI impI)
  let ?bo = "cOutboundBinding conf"
  fix s assume "cfg_ok s"
  moreover obtain r d where r: "SetLocalAddr (ceDial env) ?bo (sDial s) = (Some r, d)" "r \<noteq> Panic"
    using assms unfolding prompt_answered_def by (cases "SetLocalAddr (ceDial env) ?bo (sDial s)") (metis fst_conv insert_iff not_Some_eq)
  ultimately show "fst (load_binding env ?bo s) \<noteq> Panic \<and> (False \<longrightarrow> (\<forall>e. fst (load_binding env ?bo s) \<noteq> Fail e)) \<and>
      cfg_ok (snd (load_binding env ?bo s))"
    by (simp add: load_binding_def cfg_ok_def)
qed

lemma returns_init_pool:
  assumes "arrival_ok env" and "\<exists>p. snd tp = Some p \<and> pool_ok p" and "fst tp \<in> K"
  shows "returns (\<lambda>s. cfg_ok s \<and> fst ` set (sPools s) = K) False (init_pool env tp)"
  unfolding returns_def
proof (intro allI impI)
  fix s assume s: "cfg_ok s \<and> fst ` set (sPools s) = K"
  obtain tag p where tp: "tp = (tag, Some p)" "pool_ok p" "tag \<in> K" using assms(2,3) by (cases tp) auto
  obtain e p' where i: "Init (ceFloat env) (cePing env tag) (ceArrival env) p = (e, p')" by fastforce
  have "pool_ok (scan (ceFloat env) (cePing env tag) (ceArrival env) p)"
    using tp(2) assms(1) by (intro scan_ok) (auto simp: arrival_ok_def)
  with i have "pool_ok p'" by (auto simp: Init_def pool_ok_def Let_def split: if_splits)
  with s tp(3) have "\<forall>x \<in> set (AList.update tag (Some p') (sPools s)). \<exists>q. snd x = Some q \<and> pool_ok q"
    "fst ` set (AList.update tag (Some p') (sPools s)) = K"
    using set_AList_update [of tag "Some p'" "sPools s"] by (auto simp: cfg_ok_def dom_update)
  with s tp i show "fst (init_pool env tp s) \<noteq> Panic \<and> (False \<longrightarrow> (\<forall>e. fst (init_pool env tp s) \<noteq> Fail e)) \<and>
      cfg_ok (snd (init_pool env tp s)) \<and> fst ` set (sPools (snd (init_pool env tp s))) = K"
    by (cases e) (auto simp: init_pool_def cfg_ok_def)
qed

lemma load_pools_ok:
  assumes "arrival_ok env" and "conf_pools_ok conf" and "cfg_ok s" and "sRunning s = []"
  shows "fst (load_pools env conf s) \<noteq> Panic \<and> cfg_ok (snd (load_pools env conf s))"
proof (cases "cIPPools conf = []")
  case True
  with assms show ?thesis by (simp add: load_pools_def io_return_def)
next
  case False
  let ?s = "s\<lparr>sPools := cIPPools conf\<rparr>" and ?K = "fst ` set (cIPPools conf)"
  have "returns (\<lambda>s. cfg_ok s \<and> fst ` set (sPools s) = ?K) False (io_each (init_pool env) (cIPPools conf))"
    using assms(1,2) by (intro returns_each returns_init_pool) (auto simp: conf_pools_ok_def)
  moreover have "cfg_ok ?s \<and> fst ` set (sPools ?s) = ?K" using assms by (simp add: cfg_ok_def conf_pools_ok_def)
  moreover have "load_pools env conf s = io_each (init_pool env) (cIPPools conf) ?s"
    using False by (simp add: load_pools_def cfg_def io_bind_def del: io_bind_Ok_iff)
  ultimately show ?thesis unfolding returns_def by metis
qed

lemma live_pools_eq:
  assumes "cfg_ok s"
  shows "live_pools s = map (\<lambda>(t, p). (t, the p)) (sPools s)"
proof -
  have "\<forall>x \<in> set ps. snd x \<noteq> None \<Longrightarrow>
      List.map_filter (\<lambda>(t, p). map_option (\<lambda>x. (t, x)) p) ps = map (\<lambda>(t, p). (t, the p)) ps" for ps :: "(string \<times> IPPool option) list"
    by (induction ps) (auto simp: List.map_filter_simps)
  then show ?thesis using assms by (force simp: live_pools_def cfg_ok_def)
qed

lemma returns_load_dns: "returns cfg_ok False (load_dns env conf)"
  unfolding returns_def
proof (intro allI impI)
  fix s assume s: "cfg_ok s"
  let ?w = "(ceWorld env)\<lparr>wPools := live_pools s\<rparr>"
  let ?m = "genDoHDialFunc (loaded_env env s) JoinHostPort (ceURL env (sDnsAddr s))"
  have "live_pools s = map (\<lambda>(t, p). (t, the p)) (sPools s)" by (rule live_pools_eq [OF s])
  then have "keyed (fst ` set (sPools s)) ?w"
    using s unfolding keyed_def cfg_ok_def by (auto simp: image_image case_prod_beta)
  then have k: "fst (?m ?w) \<noteq> Panic" "keyed (fst ` set (sPools s)) (snd (?m ?w))"
    using returns_genDoHDialFunc unfolding returns_def by blast+
  then have "cfg_ok (s\<lparr>sPools := map (\<lambda>(t, x). (t, Some x)) (wPools (snd (?m ?w)))\<rparr>)"
    using s unfolding keyed_def cfg_ok_def by (simp add: image_image case_prod_beta)
  with k(1) s show "fst (load_dns env conf s) \<noteq> Panic \<and> (False \<longrightarrow> (\<forall>e. fst (load_dns env conf s) \<noteq> Fail e)) \<and>
      cfg_ok (snd (load_dns env conf s))"
    by (auto simp: load_dns_def cfg_ok_def split: prod.split outcome.split option.split)
qed

lemma load_steps_ok:
  assumes "arrival_ok env" and "conf_pools_ok conf" and "prompt_answered env conf" and "cfg_ok s" and "sRunning s = []"
  shows "fst (load_steps env conf s) \<noteq> Panic \<and> cfg_ok (snd (load_steps env conf s))"
proof -
  let ?I = "\<lambda>s. cfg_ok s \<and> sRunning s = []"
  let ?A = "io_each id [cfg_check (validateConfigBasics (ceSort env) conf), load_binding env (cOutboundBinding conf), load_logLevel conf]"
  let ?B = "io_each id [cfg (\<lambda>s. s\<lparr>sDnsSingleflight := cDNSSingleflight conf, sTtlSingleflight := cTTLSingleflight conf\<rparr>),
      load_dnsCache env conf, load_ttlCache env conf, load_rules env conf, load_matchers conf, load_dns env conf]"
  have steps: "load_steps env conf = io_bind ?A (\<lambda>_. io_bind (load_pools env conf) (\<lambda>_. ?B))"
    by (simp add: load_steps_def)
  have "returns ?I False (load_binding env (cOutboundBinding conf))"
    using returns_load_binding [OF assms(3)]
    by (auto simp: returns_def load_binding_def split: prod.splits)
  then have A: "returns ?I False ?A"
    by (intro returns_each) (auto simp: load_logLevel_def intro!: returns_intros split: option.split)
  have B: "returns cfg_ok False ?B"
    by (intro returns_each) (auto simp: load_dnsCache_def load_ttlCache_def load_rules_def load_matchers_def
        intro!: returns_intros returns_load_dns split: option.split sum.split)
  obtain r s1 where a: "?A s = (r, s1)" by fastforce
  have "fst (?A s) \<noteq> Panic \<and> ?I (snd (?A s))" using A assms(4,5) unfolding returns_def by blast
  then have r: "r \<noteq> Panic" "?I s1" unfolding a by simp_all
  show ?thesis
  proof (cases r)
    case (Ok u)
    obtain q s2 where p: "load_pools env conf s1 = (q, s2)" by fastforce
    with load_pools_ok [OF assms(1,2)] r(2) have q: "q \<noteq> Panic" "cfg_ok s2" by (metis fst_conv snd_conv)+
    show ?thesis
    proof (cases q)
      case (Ok v)
      with \<open>r = Ok u\<close> a p have "load_steps env conf s = ?B s2" by (simp add: steps io_bind_def del: io_bind_Ok_iff io_each.simps)
      with B q(2) show ?thesis by (simp add: returns_def del: io_each.simps)
    qed (use q \<open>r = Ok u\<close> a p in \<open>simp_all add: steps io_bind_def del: io_bind_Ok_iff io_each.simps\<close>)
  qed (use r a in \<open>simp_all add: steps io_bind_def del: io_bind_Ok_iff io_each.simps\<close>)
qed

lemma stopPools_ok: "cfg_ok s \<Longrightarrow> \<exists>s'. stopPools s = (Ok (), s') \<and> sRunning s' = []"
  by (auto simp: stopPools_def cfg_ok_def filter_empty_conv)

lemma reset_after_stop: "sRunning s = [] \<Longrightarrow> resetConfigState env s = (Ok (), reset_state)"
  by (simp add: resetConfigState_def SetLocalAddr_def binding_zero_def bind_dialers_def stopLaddrMonitor_def reset_state_def)

lemma cfg_ok_reset: "cfg_ok reset_state" "sRunning reset_state = []"
  by (simp_all add: cfg_ok_def reset_state_def)

text \<open>What the file prescribes, of the parts that do not depend on the network.\<close>

definition as_configured :: "config_env \<Rightarrow> Config \<Rightarrow> config_state \<Rightarrow> bool" where
  "as_configured env conf s \<longleftrightarrow>
     sDefaultPolicy s = normalizePolicyDefaults (cDefaultPolicy conf) \<and>
     sHostsMatcher s = added (cHosts conf) \<and> sDomainMatcher s = added (cDomainPolicies conf) \<and>
     sIPMatcher s = filter (\<lambda>(p, _). \<not> isIPv6 p) (added (cIpPolicies conf)) \<and>
     sIPv6Matcher s = filter (\<lambda>(p, _). isIPv6 p) (added (cIpPolicies conf)) \<and>
     sDnsAddr s = cDNSAddr conf \<and> sExchange s \<noteq> None \<and>
     sDnsSingleflight s = cDNSSingleflight conf \<and> sTtlSingleflight s = cTTLSingleflight conf \<and>
     (sDnsCache s \<noteq> None \<longleftrightarrow> 0 < cDNSCacheTTL conf) \<and> (sTtlCache s \<noteq> None \<longleftrightarrow> 0 < cTTLCacheTTL conf) \<and>
     (sCalcTTL s \<noteq> None \<longleftrightarrow> cFakeTTLRules conf \<noteq> []) \<and> sMobileRecords s = []"

lemma init_pools_frame:
  "io_each (init_pool env) tps s = (Ok (), s') \<Longrightarrow> \<exists>ps rs. s' = s\<lparr>sPools := ps, sRunning := rs\<rparr>"
proof (induction tps arbitrary: s)
  case Nil
  then show ?case by (auto intro!: exI [of _ "sPools s"] exI [of _ "sRunning s"])
next
  case (Cons tp tps)
  then obtain s1 where s1: "init_pool env tp s = (Ok (), s1)" "io_each (init_pool env) tps s1 = (Ok (), s')" by auto
  then obtain ps rs where "s1 = s\<lparr>sPools := ps, sRunning := rs\<rparr>" by (auto simp: init_pool_def split: prod.splits option.splits)
  moreover obtain qs us where "s' = s1\<lparr>sPools := qs, sRunning := us\<rparr>" using Cons.IH [OF s1(2)] by blast
  ultimately show ?case by (intro exI [of _ qs] exI [of _ us]) simp
qed

lemma load_pools_frame: "load_pools env conf s = (Ok (), s') \<Longrightarrow> \<exists>ps rs. s' = s\<lparr>sPools := ps, sRunning := rs\<rparr>"
proof (cases "cIPPools conf = []")
  case True
  then show "load_pools env conf s = (Ok (), s') \<Longrightarrow> ?thesis"
    by (intro exI [of _ "sPools s"] exI [of _ "sRunning s"]) (simp add: load_pools_def)
next
  case False
  assume "load_pools env conf s = (Ok (), s')"
  with False have "io_each (init_pool env) (cIPPools conf) (s\<lparr>sPools := cIPPools conf\<rparr>) = (Ok (), s')"
    by (simp add: load_pools_def cfg_def)
  from init_pools_frame [OF this] show ?thesis by simp
qed

lemma load_binding_frame: "load_binding env bo s = (Ok (), s') \<Longrightarrow> \<exists>d. s' = s\<lparr>sDial := d\<rparr>"
  by (auto simp: load_binding_def split: prod.splits)

lemma load_caches_Ok:
  "load_dnsCache env conf s = (Ok (), s') \<Longrightarrow>
     s' = (if 0 < cDNSCacheTTL conf then s\<lparr>sDnsCache := Some (cDNSCacheCapacity conf mod 2 ^ 32), sDnsCacheTTL := seconds (cDNSCacheTTL conf)\<rparr> else s)"
  "load_ttlCache env conf s = (Ok (), s') \<Longrightarrow>
     s' = (if 0 < cTTLCacheTTL conf then s\<lparr>sTtlCache := Some (cTTLCacheCapacity conf mod 2 ^ 32), sTtlCacheTTL := seconds (cTTLCacheTTL conf)\<rparr> else s)"
  unfolding load_dnsCache_def load_ttlCache_def cfg_def by (simp_all split: if_splits option.splits)

lemma load_rules_Ok:
  "load_rules env conf s = (Ok (), s') \<Longrightarrow>
   if cFakeTTLRules conf = [] then s' = s else \<exists>c. s' = s\<lparr>sCalcTTL := Some c\<rparr> \<or> s' = s\<lparr>sCalcTTL := Some c, sSem := Some (cTransmitFileLimit conf)\<rparr>"
  unfolding load_rules_def cfg_def by (simp split: if_splits sum.splits) blast+

lemma load_steps_configured:
  assumes "load_steps env conf reset_state = (Ok (), s')"
  shows "as_configured env conf s' \<and> validateConfigBasics (ceSort env) conf = None"
proof -
  obtain s1 s2 s3 s4 s5 s6 s7 s8 s9 where
    s1: "cfg_check (validateConfigBasics (ceSort env) conf) reset_state = (Ok (), s1)" and
    s2: "load_binding env (cOutboundBinding conf) s1 = (Ok (), s2)" and
    s3: "load_logLevel conf s2 = (Ok (), s3)" and
    s4: "load_pools env conf s3 = (Ok (), s4)" and
    s5: "s5 = s4\<lparr>sDnsSingleflight := cDNSSingleflight conf, sTtlSingleflight := cTTLSingleflight conf\<rparr>" and
    s6: "load_dnsCache env conf s5 = (Ok (), s6)" and
    s7: "load_ttlCache env conf s6 = (Ok (), s7)" and
    s8: "load_rules env conf s7 = (Ok (), s8)" and
    s9: "load_matchers conf s8 = (Ok (), s9)" and
    fin: "load_dns env conf s9 = (Ok (), s')"
    using assms unfolding load_steps_def io_each.simps id_apply io_bind_Ok_iff io_return_Ok_iff by (auto simp: cfg_def)
  have v: "validateConfigBasics (ceSort env) conf = None" "s1 = reset_state"
    using s1 by (auto simp: cfg_check_def split: option.splits)
  have "sDnsCache s3 = None \<and> sTtlCache s3 = None \<and> sCalcTTL s3 = None \<and> sMobileRecords s3 = []"
    using load_binding_frame [OF s2] s3 v(2)
    by (auto simp: load_logLevel_def cfg_def reset_state_def split: if_splits option.splits)
  then have 5: "sDnsCache s5 = None \<and> sTtlCache s5 = None \<and> sCalcTTL s5 = None \<and> sMobileRecords s5 = [] \<and>
      sDnsSingleflight s5 = cDNSSingleflight conf \<and> sTtlSingleflight s5 = cTTLSingleflight conf"
    using load_pools_frame [OF s4] s5 by auto
  then have 6: "(sDnsCache s6 \<noteq> None \<longleftrightarrow> 0 < cDNSCacheTTL conf) \<and> sTtlCache s6 = None \<and> sCalcTTL s6 = None \<and> sMobileRecords s6 = [] \<and>
      sDnsSingleflight s6 = cDNSSingleflight conf \<and> sTtlSingleflight s6 = cTTLSingleflight conf"
    using load_caches_Ok(1) [OF s6] by simp
  then have 7: "(sDnsCache s7 \<noteq> None \<longleftrightarrow> 0 < cDNSCacheTTL conf) \<and> (sTtlCache s7 \<noteq> None \<longleftrightarrow> 0 < cTTLCacheTTL conf) \<and>
      sCalcTTL s7 = None \<and> sMobileRecords s7 = [] \<and>
      sDnsSingleflight s7 = cDNSSingleflight conf \<and> sTtlSingleflight s7 = cTTLSingleflight conf"
    using load_caches_Ok(2) [OF s7] by simp
  then have 8: "(sDnsCache s8 \<noteq> None \<longleftrightarrow> 0 < cDNSCacheTTL conf) \<and> (sTtlCache s8 \<noteq> None \<longleftrightarrow> 0 < cTTLCacheTTL conf) \<and>
      (sCalcTTL s8 \<noteq> None \<longleftrightarrow> cFakeTTLRules conf \<noteq> []) \<and> sMobileRecords s8 = [] \<and>
      sDnsSingleflight s8 = cDNSSingleflight conf \<and> sTtlSingleflight s8 = cTTLSingleflight conf"
    using load_rules_Ok [OF s8] by (auto split: if_splits)
  have "\<exists>e ps. s' = sPools_update (\<lambda>_. ps) (sExchange_update (\<lambda>_. Some e) s9)"
  proof (cases "sPools s' = sPools s9")
    case True
    with fin show ?thesis
      by (intro exI [of _ "the (sExchange s')"] exI [of _ "sPools s9"])
        (auto simp: load_dns_def split: if_splits prod.splits outcome.splits option.splits)
  next
    case False
    with fin show ?thesis
      by (intro exI [of _ "the (sExchange s')"] exI [of _ "sPools s'"])
        (auto simp: load_dns_def split: if_splits prod.splits outcome.splits option.splits)
  qed
  then obtain e ps where "s' = sPools_update (\<lambda>_. ps) (sExchange_update (\<lambda>_. Some e) s9)" by blast
  moreover have "s9 = snd (load_matchers conf s8)" using s9 by simp
  ultimately show ?thesis using 8 v(1) unfolding as_configured_def load_matchers_def cfg_def by simp
qed


section \<open>A load\<close>

definition dial_env_example :: dial_env where
  "dial_env_example = \<lparr>deInterfaces = Inl IoEOF, deGateway = getGatewayForInterface, deAnswers = [], deProbe = (\<lambda>_ _ _. Inl TimeoutError)\<rparr>"

definition config_env_example :: config_env where
  "config_env_example = \<lparr>ceCodec = \<lparr>ccDuration = (\<lambda>_. Inl IoEOF), ccParseIP = (\<lambda>_. None), ccLib = lib_example\<lparr>AddrString := (\<lambda>_. ''1.2.3.4'')\<rparr>, ccLookupIP = (\<lambda>_. Inl IoEOF)\<rparr>,
     ceSort = sort_rules, ceDial = dial_env_example, ceFloat = id, cePing = (\<lambda>_ _ _. None), ceArrival = id, ceNewCache = (\<lambda>_. None),
     ceWindows = False, ceMatchers = (\<lambda>_ _ _ _. matchers_example), ceParse = (\<lambda>_. None), ceDns = dns_example,
     ceURL = (\<lambda>_. Inl IoEOF), ceSocks = (\<lambda>_. None), ceWorld = world_start\<rparr>"

lemma prompt_answered_zero: "prompt_answered config_env_example config_zero"
  by (simp add: prompt_answered_def SetLocalAddr_def config_zero_def binding_zero_def)

lemma names_ok_config_example: "names_ok (ccLib (ceCodec config_env_example))"
  by (simp add: names_ok_def config_env_example_def lib_example_def)

lemma load_example:
  "\<exists>s. LoadConfig config_env_example (Inr (JObject [])) reset_state = (Ok ([], []), s)"
proof -
  have d: "decodeConfig (ceCodec config_env_example) (JObject []) = Inr config_zero" by (simp add: decodeConfig_def json_into_struct_def)
  have s: "stopPools reset_state = (Ok (), reset_state)" by (simp add: stopPools_def reset_state_def)
  have r: "resetConfigState config_env_example reset_state = (Ok (), reset_state)" by (rule reset_after_stop) (simp add: reset_state_def)
  have "\<exists>t. load_steps config_env_example config_zero reset_state = (Ok (), t)"
    by (simp add: load_steps_def cfg_check_def validateConfigBasics_def load_binding_def SetLocalAddr_def load_logLevel_def load_pools_def
        load_dnsCache_def load_ttlCache_def load_rules_def load_matchers_def load_dns_def cfg_def config_zero_def binding_zero_def
        HasPrefix_def del: io_bind_Ok_iff add: io_bind_def io_return_def)
  then obtain t where "load_steps config_env_example config_zero reset_state = (Ok (), t)" by blast
  with d s r show ?thesis
    by (simp add: LoadConfig_def io_bind_def io_try_def io_return_def config_zero_def del: io_bind_Ok_iff)
qed


end
