(* ===== verification/Program.thy ===== *)
theory Program
  imports Config Socks5 HttpProxy Steps
begin

text \<open>
  The program on a desktop: \<^verbatim>\<open>main.go\<close> and the two servers' accepting routines, \<^verbatim>\<open>SOCKS5Accept\<close> (\<^verbatim>\<open>socks5.go\<close>) and
  \<^verbatim>\<open>HTTPAccept\<close> (\<^verbatim>\<open>http.go\<close>). The SOCKS5 server is a goroutine that says on a channel when it has ended; the main
  goroutine serves HTTP and then waits for that. Shown here, for every interleaving: the program only ends when there is no SOCKS5
  server to run, it never gets stuck before, and every accepted connection gets a handler with a number of five
  hexadecimal digits, given out in turn.
\<close>

section \<open>The routines\<close>

text \<open>
  \<open>listen\<close> is the error of listening on an address. Both routines choose the address alike: the
  flag, else the configuration; none at all, or the word \<^verbatim>\<open>none\<close>, starts no server.
\<close>

definition HTTPListenAddr :: "string \<Rightarrow> string \<Rightarrow> go_error + string option" where
  "HTTPListenAddr flag conf =
     (let a = (if flag = [] then conf else flag) in
      if a = [] then Inl (ErrorNew ''HTTP bind address is not specified'')
      else if a = ''none'' then Inr None else Inr (Some a))"

definition listens :: "(string \<Rightarrow> go_error option) \<Rightarrow> go_error + string option \<Rightarrow> string option" where
  "listens listen a = (case a of Inr (Some x) \<Rightarrow> if listen x = None then Some x else None | _ \<Rightarrow> None)"

datatype socks_phase = SocksStart | SocksServing int | SocksDone | SocksEnded
datatype main_phase = HttpStart | HttpServing | Waiting | Exited

record program =
  prSocks :: socks_phase
  prMain :: main_phase
  prHandlers :: "(nat \<times> int) list"  \<comment> \<open>connection and number of every handler started\<close>

text \<open>One step of \<^verbatim>\<open>SOCKS5Accept\<close>; its deferred send waits for the receiver.\<close>

inductive SOCKS5Accept :: "(string \<Rightarrow> go_error option) \<Rightarrow> string \<Rightarrow> string \<Rightarrow> program \<Rightarrow> program \<Rightarrow> bool" for listen flag conf where
  socks_none: "prSocks p = SocksStart \<Longrightarrow> listens listen (listenAddr flag conf) = None \<Longrightarrow>
    SOCKS5Accept listen flag conf p (p\<lparr>prSocks := SocksDone\<rparr>)"
| socks_listen: "prSocks p = SocksStart \<Longrightarrow> listens listen (listenAddr flag conf) = Some a \<Longrightarrow>
    SOCKS5Accept listen flag conf p (p\<lparr>prSocks := SocksServing 0\<rparr>)"
| socks_refused: "prSocks p = SocksServing n \<Longrightarrow> SOCKS5Accept listen flag conf p p"
| socks_accepted: "prSocks p = SocksServing n \<Longrightarrow>
    SOCKS5Accept listen flag conf p
      (p\<lparr>prSocks := SocksServing (nextConnID n), prHandlers := prHandlers p @ [(c, nextConnID n)]\<rparr>)"

text \<open>One step of \<^verbatim>\<open>HTTPAccept\<close>, which the main goroutine runs: it serves until the listener fails.\<close>

inductive HTTPAccept :: "(string \<Rightarrow> go_error option) \<Rightarrow> string \<Rightarrow> string \<Rightarrow> program \<Rightarrow> program \<Rightarrow> bool" for listen flag conf where
  http_none: "prMain p = HttpStart \<Longrightarrow> listens listen (HTTPListenAddr flag conf) = None \<Longrightarrow>
    HTTPAccept listen flag conf p (p\<lparr>prMain := Waiting\<rparr>)"
| http_listen: "prMain p = HttpStart \<Longrightarrow> listens listen (HTTPListenAddr flag conf) = Some a \<Longrightarrow>
    HTTPAccept listen flag conf p (p\<lparr>prMain := HttpServing\<rparr>)"
| http_failed: "prMain p = HttpServing \<Longrightarrow> HTTPAccept listen flag conf p (p\<lparr>prMain := Waiting\<rparr>)"

text \<open>The flags \<^verbatim>\<open>-b\<close> and \<^verbatim>\<open>-hb\<close>.\<close>

record flags =
  flB :: string
  flHB :: string

text \<open>The program after its configuration was loaded, with the addresses \<open>(s, h)\<close> of that.\<close>

inductive main_step :: "(string \<Rightarrow> go_error option) \<Rightarrow> flags \<Rightarrow> string \<times> string \<Rightarrow> program \<Rightarrow> program \<Rightarrow> bool" for listen fl sh where
  main_socks: "SOCKS5Accept listen (flB fl) (fst sh) p p' \<Longrightarrow> main_step listen fl sh p p'"
| main_http: "HTTPAccept listen (flHB fl) (snd sh) p p' \<Longrightarrow> main_step listen fl sh p p'"
| main_done: "prSocks p = SocksDone \<Longrightarrow> prMain p = Waiting \<Longrightarrow>
    main_step listen fl sh p (p\<lparr>prSocks := SocksEnded, prMain := Exited\<rparr>)"

definition program_start :: program where
  "program_start = \<lparr>prSocks = SocksStart, prMain = HttpStart, prHandlers = []\<rparr>"

definition program_exit :: program where
  "program_exit = \<lparr>prSocks = SocksStart, prMain = Exited, prHandlers = []\<rparr>"

text \<open>\<^verbatim>\<open>main\<close>: the state from which the two servers run, and the addresses; a configuration that cannot be loaded ends the program.\<close>

definition main :: "config_env \<Rightarrow> go_error + json \<Rightarrow> config_state \<Rightarrow> program \<times> string \<times> string" where
  "main env file s =
     (case fst (LoadConfig env file s) of
        Ok addrs \<Rightarrow> (program_start, addrs)
      | _ \<Rightarrow> (program_exit, [], []))"

inductive_cases socks_cases: "SOCKS5Accept listen flag conf p p'"
inductive_cases http_cases: "HTTPAccept listen flag conf p p'"

section \<open>What every run does\<close>

text \<open>The number of the k-th handler, from zero.\<close>

definition handler_id :: "nat \<Rightarrow> int" where
  "handler_id k = int (k mod 0xFFFFF) + 1"

lemma handler_id_next: "nextConnID (handler_id k) = handler_id (Suc k)"
proof (cases "Suc (k mod 0xFFFFF) = 0xFFFFF")
  case True
  then have "Suc k mod 0xFFFFF = 0" "k mod 0xFFFFF = 0xFFFFE" by (simp_all add: mod_Suc)
  then show ?thesis by (simp add: handler_id_def nextConnID_def)
next
  case False
  have "k mod 0xFFFFF < 0xFFFFF" by simp
  with False have "Suc k mod 0xFFFFF = Suc (k mod 0xFFFFF)" "Suc (k mod 0xFFFFF) < 0xFFFFF" by (simp_all add: mod_Suc)
  then show ?thesis by (simp add: handler_id_def nextConnID_def Let_def)
qed

definition last_id :: "nat \<Rightarrow> int" where
  "last_id k = (case k of 0 \<Rightarrow> 0 | Suc j \<Rightarrow> handler_id j)"

lemma last_id_next: "nextConnID (last_id k) = handler_id k" "last_id (Suc k) = handler_id k" "last_id 0 = 0"
  by (cases k) (simp_all add: last_id_def handler_id_next, simp add: handler_id_def nextConnID_def)

definition program_inv :: "(string \<Rightarrow> go_error option) \<Rightarrow> flags \<Rightarrow> string \<times> string \<Rightarrow> program \<Rightarrow> bool" where
  "program_inv listen fl sh p \<longleftrightarrow>
     map snd (prHandlers p) = map handler_id [0..<length (prHandlers p)] \<and>
     (case prSocks p of
        SocksStart \<Rightarrow> prHandlers p = [] \<and> prMain p \<noteq> Exited
      | SocksServing n \<Rightarrow> listens listen (listenAddr (flB fl) (fst sh)) \<noteq> None \<and> n = last_id (length (prHandlers p)) \<and> prMain p \<noteq> Exited
      | SocksDone \<Rightarrow> listens listen (listenAddr (flB fl) (fst sh)) = None \<and> prHandlers p = [] \<and> prMain p \<noteq> Exited
      | SocksEnded \<Rightarrow> listens listen (listenAddr (flB fl) (fst sh)) = None \<and> prHandlers p = [] \<and> prMain p = Exited)"

lemma program_inv_step:
  assumes "program_inv listen fl sh p" and "main_step listen fl sh p p'"
  shows "program_inv listen fl sh p'"
  using assms(2)
proof cases
  case main_socks
  with assms(1) show ?thesis
    by (elim socks_cases) (auto simp: program_inv_def last_id_next)
next
  case main_http
  with assms(1) show ?thesis by (elim http_cases) (auto simp: program_inv_def split: socks_phase.splits)
next
  case main_done
  with assms(1) show ?thesis by (auto simp: program_inv_def)
qed

interpretation running: invariant_system "\<lambda>p. p = program_start" "main_step listen fl sh" "program_inv listen fl sh" for listen fl sh
proof unfold_locales
  fix p assume "p = program_start"
  then show "program_inv listen fl sh p" by (simp add: program_inv_def program_start_def)
qed (rule program_inv_step)

lemma program_progress:
  assumes "program_inv listen fl sh p" and "prMain p \<noteq> Exited"
  shows "\<exists>p'. main_step listen fl sh p p'"
proof (cases "prSocks p")
  case SocksStart
  then show ?thesis
    by (cases "listens listen (listenAddr (flB fl) (fst sh))") (blast intro: main_socks socks_none socks_listen)+
next
  case (SocksServing n)
  then show ?thesis by (blast intro: main_socks socks_refused)
next
  case SocksDone
  then show ?thesis
    by (cases "prMain p"; cases "listens listen (HTTPListenAddr (flHB fl) (snd sh))")
      (use assms(2) in \<open>blast intro: main_http http_none http_listen http_failed main_done\<close>)+
next
  case SocksEnded
  with assms show ?thesis by (simp add: program_inv_def)
qed



end
