(* ===== verification/NameHiding.thy ===== *)
theory NameHiding
  imports Fragment
begin

text \<open>
  What the fragmentation is for: a filter that looks at one TLS record, or at one TCP segment, never sees the whole server
  name. \<open>covered\<close> says that one of the parts of a message holds a given range of it. Shown here: of the
  records that are sent, and of the segments when one record is sent in several, none holds the whole
  name.
\<close>

section \<open>Parts of a message\<close>

text \<open>One of the parts, which begin at the place \<open>i\<close> of the message, holds all the bytes from \<open>a\<close> up to \<open>b\<close>.\<close>

fun covered :: "nat \<Rightarrow> bytes list \<Rightarrow> nat \<Rightarrow> nat \<Rightarrow> bool" where
  "covered i [] a b \<longleftrightarrow> False"
| "covered i (p # ps) a b \<longleftrightarrow> i \<le> a \<and> b \<le> i + length p \<or> covered (i + length p) ps a b"

lemma covered_append: "covered i (ps @ qs) a b \<longleftrightarrow> covered i ps a b \<or> covered (i + length (concat ps)) qs a b"
  by (induction i ps a b rule: covered.induct) (auto simp: add.assoc)

lemma covered_range: "covered i ps a b \<Longrightarrow> i \<le> a \<and> b \<le> i + length (concat ps)"
  by (induction i ps a b rule: covered.induct) auto

text \<open>A cut strictly inside the range leaves it in no part.\<close>

lemma covered_cut:
  assumes "i + length (concat ps) = c" and "a < c" and "c < b"
  shows "\<not> covered i (ps @ qs) a b"
  using assms covered_range [of i ps a b] covered_range [of c qs a b] by (auto simp: covered_append)

text \<open>The cut of a name of at least two bytes that does not begin with a dot lies strictly inside it.\<close>

lemma cut_inside:
  assumes "go_slice data start (start + len) = Some name" and "findLastDotOrMidPos data start len = Some c"
    and "2 \<le> length name" and "hd name \<noteq> 0x2E"
  shows "start < c \<and> c < start + len"
proof -
  from go_slice_length [OF assms(1)] have len: "int (length name) = len" by simp
  obtain c' where c': "findLastDotOrMidPos data start len = Some c'" "start \<le> c'" "0 < len \<Longrightarrow> c' < start + len"
    "0x2E \<notin> set name \<Longrightarrow> c' = start + len div 2" "0x2E \<in> set name \<Longrightarrow> name ! nat (c' - start) = 0x2E"
    using findLastDotOrMidPos_cut [OF assms(1)] by metis
  have "c' \<noteq> start"
  proof (cases "0x2E \<in> set name")
    case True
    from assms(3) have "name \<noteq> []" by auto
    with assms(4) have "name ! 0 \<noteq> 0x2E" by (simp add: hd_conv_nth)
    with c'(5) [OF True] show ?thesis by auto
  next
    case False
    with c'(4) len assms(3) show ?thesis by simp
  qed
  with c' assms(2,3) len show ?thesis by auto
qed

section \<open>Records\<close>

lemma makeChunks_covered:
  assumes "makeChunks ch off len records = Some chunks" and "2 \<le> records"
    and "go_slice ch off (off + len) = Some name" and "2 \<le> length name" and "hd name \<noteq> 0x2E"
  obtains parts where "chunks = map (makeRecord (take 3 ch)) parts" and "concat parts = drop 5 ch" and "5 \<le> length ch"
    and "\<not> covered 5 parts (nat off) (nat (off + len))"
proof -
  from makeChunks_split [OF assms(1,2)] obtain c ps qs where c: "findLastDotOrMidPos ch off len = Some c" "5 \<le> c" "c \<le> int (length ch)"
    and ps: "chunks = map (makeRecord (take 3 ch)) (ps @ qs)" "concat ps = take (nat c - 5) (drop 5 ch)" "concat qs = drop (nat c) ch"
    by metis
  have "concat (ps @ qs) = take (nat c - 5) (drop 5 ch) @ drop (nat c - 5) (drop 5 ch)" using ps c by simp
  then have cat: "concat (ps @ qs) = drop 5 ch" by (simp only: append_take_drop_id)
  have "\<not> covered 5 (ps @ qs) (nat off) (nat (off + len))"
  proof (rule covered_cut)
    show "5 + length (concat ps) = nat c" using ps(2) c by auto
    show "nat off < nat c" "nat c < nat (off + len)"
      using cut_inside [OF assms(3) c(1) assms(4,5)] go_slice_SomeD [OF assms(3)] c(2) by auto
  qed
  with ps(1) cat c show thesis by (intro that [of "ps @ qs"]) auto
qed

section \<open>Segments\<close>

text \<open>The segments of a run: the data of every call that sends, without the urgent byte.\<close>

fun segs :: "sock_op list \<Rightarrow> bytes list" where
  "segs [] = []"
| "segs (ConnWrite b # ops) = b # segs ops"
| "segs (SendOOB b # ops) = butlast b # segs ops"
| "segs (_ # ops) = segs ops"

lemma segs_append [simp]: "segs (xs @ ys) = segs xs @ segs ys"
  by (induction xs rule: segs.induct) auto

lemma segs_quiet: "quiet ops \<Longrightarrow> segs ops = []"
  by (induction ops rule: segs.induct) (auto simp: quiet_def)

lemma adds_segs_packet: "adds (sendPacket env oob ack interval i p) (\<lambda>_ ops. segs ops = [p])"
proof -
  have w: "adds (io_wrap s (conn_write env p)) (\<lambda>_ ops. segs ops = [p])" for s
    by (rule adds_wrap, rule adds_weaken [OF adds_conn_write]) simp
  have o: "adds (io_wrap s (sendWithOOB env p x)) (\<lambda>_ ops. segs ops = [p])" for s x
    by (rule adds_wrap, rule adds_weaken [OF adds_sendWithOOB]) simp
  show ?thesis unfolding sendPacket_def
    by (rule adds_seq [where P = "\<lambda>ops. segs ops = [p]"]) (use w o in \<open>auto intro!: adds_weaken [OF adds_waitForAck] simp: segs_quiet\<close>)
qed

lemma adds_segs_each:
  "(\<And>i x. adds (f i x) (\<lambda>_ ops. segs ops = [x])) \<Longrightarrow> adds (io_each_indexed f xs) (\<lambda>_ ops. segs ops = xs)"
proof (induction xs arbitrary: f)
  case (Cons x xs)
  show ?case
    by (simp only: io_each_indexed_simps, rule adds_seq [OF Cons.prems], rule adds_weaken [OF Cons.IH])
      (use Cons.prems in auto)
qed (simp add: adds_return)

text \<open>One record in several segments: the segments are the record, cut inside the name.\<close>

lemma packets_covered:
  assumes "do { c \<leftarrow> findLastDotOrMidPos d off len; l \<leftarrow> go_slice d 0 c; r \<leftarrow> go_slice d c (int (length d));
      packets \<leftarrow> splitAndAppend l None (n div 2) []; splitAndAppend r None (n - n div 2) packets } = Some packets"
    and "2 \<le> n" and "go_slice d off (off + len) = Some name" and "2 \<le> length name" and "hd name \<noteq> 0x2E"
  shows "concat packets = d \<and> \<not> covered 0 packets (nat off) (nat (off + len))"
proof -
  have n: "1 \<le> n div 2" "1 \<le> n - n div 2" using assms(2) by linarith+
  from assms(1) obtain c l r ls where c: "findLastDotOrMidPos d off len = Some c" "go_slice d 0 c = Some l"
    and ls: "splitAndAppend l None (n div 2) [] = Some ls" "splitAndAppend r None (n - n div 2) ls = Some packets"
    by (auto simp: bind_eq_Some_conv)
  have "addRecord None = (\<lambda>x. x)" by (simp add: addRecord_def fun_eq_iff)
  then obtain rs where "packets = ls @ rs"
    using splitAndAppend_parts [OF n(2), of r None ls] ls(2) by (metis list.map_ident option.inject)
  moreover have "\<not> covered 0 (ls @ rs) (nat off) (nat (off + len))"
  proof (rule covered_cut)
    show "0 + length (concat ls) = nat c"
      using splitAndAppend_raw [OF ls(1) n(1)] go_slice_length [OF c(2)] by simp
    show "nat off < nat c" "nat c < nat (off + len)"
      using cut_inside [OF assms(3) c(1) assms(4,5)] go_slice_SomeD [OF assms(3)] by auto
  qed
  ultimately show ?thesis using packets_concat [OF assms(1,2)] by simp
qed

lemma adds_segs_single:
  assumes "2 \<le> segments" and "go_slice ch off (off + len) = Some name" and "2 \<le> length name" and "hd name \<noteq> 0x2E"
  shows "adds (sendSingleRecord env ch off len segments oob False ack interval)
    (\<lambda>_ ops. concat (segs ops) = ch \<and> \<not> covered 0 (segs ops) (nat off) (nat (off + len)))"
proof -
  let ?goal = "\<lambda>_ ops. concat (segs ops) = ch \<and> \<not> covered 0 (segs ops) (nat off) (nat (off + len))"
  let ?packets = "do { c \<leftarrow> findLastDotOrMidPos ch off len; l \<leftarrow> go_slice ch 0 c; r \<leftarrow> go_slice ch c (int (length ch));
      packets \<leftarrow> splitAndAppend l None (segments div 2) []; splitAndAppend r None (segments - segments div 2) packets }"
  have "adds (io_bind (io_option ?packets) (io_each_indexed (sendPacket env oob ack interval))) ?goal"
  proof (rule adds_option_bind)
    fix packets assume "?packets = Some packets"
    from packets_covered [OF this assms] show "adds (io_each_indexed (sendPacket env oob ack interval) packets) ?goal"
      by (intro adds_weaken [OF adds_segs_each [OF adds_segs_packet]]) simp
  qed
  then have "adds (sendRemaining env len segments oob ack interval ch off) ?goal"
    using assms(1) by (simp add: sendRemaining_def Let_def go_make_cap_def)
  then show ?thesis by (simp add: sendSingleRecord_def)
qed

section \<open>No part holds the name\<close>

lemma sendRecords_hidden:
  assumes "sendRecords env ch offset len records segments oob oobex modv ack interval w = (Ok (), w')"
    and "0 \<le> records" and "-1 \<le> segments" and "\<not> (oob \<and> oobex)" and "length ch \<le> 65540"
    and "go_slice ch offset (offset + len) = Some name" and "2 < offset" and "2 \<le> length name" and "hd name \<noteq> 0x2E"
  shows "\<exists>ops. calls w' = calls w @ map (\<lambda>op. (op, None)) ops \<and>
    (2 \<le> records \<longrightarrow> (\<exists>parts. decode_frames decRecord (length (received ops)) (received ops) =
         Some (map (Pair (take 3 (sent_hello modv ch))) parts) \<and>
       concat parts = drop 5 (sent_hello modv ch) \<and> \<not> covered 5 parts (nat offset) (nat (offset + len)))) \<and>
    (records \<le> 1 \<and> 2 \<le> segments \<and> \<not> oobex \<longrightarrow>
       concat (segs ops) = sent_hello modv ch \<and> \<not> covered 0 (segs ops) (nat offset) (nat (offset + len)))"
proof -
  let ?ch = "sent_hello modv ch"
  have name: "go_slice ?ch offset (offset + len) = Some name" using go_slice_sent_hello [OF assms(7)] assms(6) by simp
  consider (several) "2 \<le> records" | (segments) "records \<le> 1" "2 \<le> segments" "\<not> oobex" | (other) "records \<le> 1" "\<not> (2 \<le> segments \<and> \<not> oobex)"
    by linarith
  then show ?thesis
  proof cases
    case several
    then obtain chunks ops where chunks: "makeChunks ?ch offset len records = Some chunks"
      and ops: "calls w' = calls w @ map (\<lambda>op. (op, None)) ops" "received ops = concat chunks"
      using sendRecords_several [OF assms(1) _ assms(3,4)] by blast
    obtain parts where parts: "chunks = map (makeRecord (take 3 ?ch)) parts" "concat parts = drop 5 ?ch" "5 \<le> length ?ch"
      "\<not> covered 5 parts (nat offset) (nat (offset + len))"
      by (rule makeChunks_covered [OF chunks several name assms(8,9)])
    have "decode_frames decRecord (length (received ops)) (received ops) = Some (map (Pair (take 3 ?ch)) parts)"
      by (rule records_decoded) (use ops parts assms(5) in \<open>simp_all add: min_def\<close>)
    with ops(1) parts(2,4) several show ?thesis by (intro exI [of _ ops]) auto
  next
    case segments
    with assms(2) sendRecords_run [OF assms(1)] have
      "sendSingleRecord env ?ch offset len segments oob False ack interval w = (Ok (), w')"
      by (cases "records = 0") auto
    from addsD [OF adds_segs_single [OF segments(2) name assms(8,9)] this] segments show ?thesis by auto
  next
    case other
    with sendRecords_received [OF assms(1-5)] show ?thesis by auto
  qed
qed

text \<open>
  C4: with several records no TLS record that the peer receives, and with one record in several segments no segment, holds the
  whole server name: a filter that looks at them one by one cannot match it. The name has at least two bytes and does not
  begin with a dot.
\<close>

theorem sendRecords_hides_name:
  assumes "sendRecords env ch offset len records segments oob oobex modv ack interval w = (Ok (), w')"
    and "0 \<le> records" and "-1 \<le> segments" and "\<not> (oob \<and> oobex)" and "length ch \<le> 65540"
    and "go_slice ch offset (offset + len) = Some name" and "2 < offset" and "2 \<le> length name" and "hd name \<noteq> 0x2E"
  shows "\<exists>ops. calls w' = calls w @ map (\<lambda>op. (op, None)) ops \<and>
    (2 \<le> records \<longrightarrow> (\<exists>parts. decode_frames decRecord (length (received ops)) (received ops) =
         Some (map (Pair (take 3 (sent_hello modv ch))) parts) \<and>
       concat parts = drop 5 (sent_hello modv ch) \<and> \<not> covered 5 parts (nat offset) (nat (offset + len)))) \<and>
    (records \<le> 1 \<and> 2 \<le> segments \<and> \<not> oobex \<longrightarrow>
       concat (segs ops) = sent_hello modv ch \<and> \<not> covered 0 (segs ops) (nat offset) (nat (offset + len)))"
  using assms by (rule sendRecords_hidden)

theorem sendRecords_hides_name_witness:
  "\<exists>w' ops parts. sendRecords quiet_env record_example 58 3 4 (-1) False True True False 0 sock_example = (Ok (), w') \<and>
     calls w' = map (\<lambda>op. (op, None)) ops \<and>
     decode_frames decRecord (length (received ops)) (received ops) = Some (map (Pair [0x16, 3, 4]) parts) \<and> \<not> covered 5 parts 58 61"
proof -
  have "returns (sock_ok True) True (sendRecords quiet_env record_example 58 3 4 (-1) False True True False 0)"
    by (rule returns_sendRecords [OF _ _ record_example_name]) (simp_all add: env_ok_def quiet_env_def)
  then obtain w' where run: "sendRecords quiet_env record_example 58 3 4 (-1) False True True False 0 sock_example = (Ok (), w')"
    by (rule returns_OkE [where w = sock_example]) (auto simp: sock_ok_def sock_example_def)
  have "take 3 (sent_hello True record_example) = [0x16, 3, 4]"
    by (simp add: sent_hello_def record_example_def)
  with sendRecords_hides_name [OF run _ _ _ _ record_example_name] run show ?thesis
    by (auto simp: sock_example_def record_example_def)
qed

end
