(* ===== verification/Session.thy ===== *)
theory Session
  imports Socks5 NameHiding
begin

text \<open>
  A whole session through the SOCKS5 server: \<^verbatim>\<open>socks5Handler\<close>, \<^verbatim>\<open>genPolicy\<close>, the dial, \<^verbatim>\<open>handleTunnel\<close>, the parser and the
  fragmentation put together. From the bytes of a client that asks for a domain and then sends a
  ClientHello for it, on a network without errors: what the client is answered, what is dialled, and
  what the server and a filter on the way get to see.
\<close>

section \<open>Sending on a connection without errors\<close>

lemma with_conn_sock:
  assumes "i < length (pConns w)" and "m (cSock (pConns w ! i)) = (Ok (), s)"
  obtains w' where "with_conn i (on_sock m) w = (Ok (), w')" and "conn_calls w' i = calls s" and "pIn w' = pIn w"
    and "pDials w' = pDials w" and "\<And>j. j \<noteq> i \<Longrightarrow> pConns w' ! j = pConns w ! j" and "cSock (pConns w' ! i) = s"
    and "length (pConns w') = length (pConns w)"
  by (rule that [of "w\<lparr>pConns := (pConns w)[i := \<lparr>cSock = s, cOpen = cOpen (pConns w ! i)\<rparr>]\<rparr>"])
    (use assms in \<open>auto simp: with_conn_def on_sock_def conn_calls_def Let_def\<close>)

text \<open>What a policy that fragments may ask for so that nothing but the network can fail.\<close>

definition sends_hello :: "Policy \<Rightarrow> bool" where
  "sends_hello p \<longleftrightarrow> Mode_of p \<in> {ModeDirect, ModeTLSRF} \<and> can_fragment p \<and> \<not> IsTrue (WaitForAck p) \<and>
     (NumSegments p = -1 \<longrightarrow> 2 \<le> NumRecords p)"

text \<open>No TLS record that is received holds all the bytes from \<open>a\<close> up to \<open>b\<close> of the ClientHello.\<close>

definition hidden :: "Policy \<Rightarrow> bytes \<Rightarrow> nat \<Rightarrow> nat \<Rightarrow> sock_op list \<Rightarrow> bool" where
  "hidden p rec a b ops \<longleftrightarrow>
     (\<exists>parts. decode_frames decRecord (length (received ops)) (received ops) =
          Some (map (Pair (take 3 (sent_hello (IsTrue (ModMinorVer p)) rec))) parts) \<and>
        concat parts = drop 5 (sent_hello (IsTrue (ModMinorVer p)) rec) \<and> \<not> covered 5 parts a b)"

lemma sendFragments_quiet:
  assumes "\<forall>s op. rerr (env s op) = None" and "is_tcp s" and "sends_hello p" and "length rec \<le> 65540"
    and "go_slice rec (sniStart h) (sniStart h + sniLen h) = Some name" and "58 \<le> sniStart h" and "2 \<le> length name" and "hd name \<noteq> 0x2E"
  obtains s' ops where "sendRecords env rec (sniStart h) (sniLen h) (NumRecords p) (NumSegments p) (IsTrue (OOB p)) (IsTrue (OOBEx p))
      (IsTrue (ModMinorVer p)) (IsTrue (WaitForAck p)) (SendInterval p) s = (Ok (), s')"
    and "is_tcp s'" and "calls s' = calls s @ map (\<lambda>op. (op, None)) ops" and "fragmented p rec ops"
    and "2 \<le> NumRecords p \<Longrightarrow> hidden p rec (nat (sniStart h)) (nat (sniStart h + sniLen h)) ops"
proof -
  let ?run = "sendRecords env rec (sniStart h) (sniLen h) (NumRecords p) (NumSegments p) (IsTrue (OOB p)) (IsTrue (OOBEx p))
    (IsTrue (ModMinorVer p)) (IsTrue (WaitForAck p)) (SendInterval p)"
  have p: "0 \<le> NumRecords p" "-1 \<le> NumSegments p" "\<not> (IsTrue (OOB p) \<and> IsTrue (OOBEx p))" "\<not> IsTrue (WaitForAck p)"
    "NumSegments p = -1 \<longrightarrow> 2 \<le> NumRecords p"
    using assms(3) by (auto simp: sends_hello_def can_fragment_def)
  have "returns (sock_ok True) True ?run"
    by (rule returns_sendRecords [OF _ _ assms(5)]) (use assms(1,6) p in \<open>auto simp: env_ok_def\<close>)
  then obtain s' where run: "?run s = (Ok (), s')" and tcp: "is_tcp s'"
    by (rule returns_OkE [where w = s]) (use assms(2) in \<open>auto simp: sock_ok_def\<close>)
  obtain ops where ops: "calls s' = calls s @ map (\<lambda>op. (op, None)) ops"
    and hid: "2 \<le> NumRecords p \<Longrightarrow> hidden p rec (nat (sniStart h)) (nat (sniStart h + sniLen h)) ops"
    using sendRecords_hidden [OF run p(1-3) assms(4,5) _ assms(7,8)] assms(6) unfolding hidden_def by fastforce
  obtain ops' where "calls s' = calls s @ map (\<lambda>op. (op, None)) ops'" "fragmented p rec ops'"
    using sendRecords_received [OF run p(1-3) assms(4)] unfolding fragmented_def Let_def by blast
  moreover from this ops have "ops' = ops" by (simp add: inj_map_eq_map inj_on_def)
  ultimately show thesis using that [OF run tcp ops] hid by blast
qed

lemma sendFirst_quiet:
  assumes "\<forall>s op. rerr (neSock (peNet env) s op) = None" and "i < length (pConns w)" and "is_tcp (cSock (pConns w ! i))"
    and "sends_hello p" and "length rec \<le> 65540" and "go_slice rec (sniStart h) (sniStart h + sniLen h) = Some name"
    and "58 \<le> sniStart h" and "2 \<le> length name" and "hd name \<noteq> 0x2E"
  obtains w' ops where "sendFirst env p target rec h i w = (Ok (), w')" and "pIn w' = pIn w" and "pDials w' = pDials w"
    and "conn_calls w' i = conn_calls w i @ map (\<lambda>op. (op, None)) ops" and "carries p rec ops"
    and "Mode_of p = ModeTLSRF \<Longrightarrow> 2 \<le> NumRecords p \<Longrightarrow> hidden p rec (nat (sniStart h)) (nat (sniStart h + sniLen h)) ops"
    and "\<And>j. j \<noteq> i \<Longrightarrow> pConns w' ! j = pConns w ! j" and "is_tcp (cSock (pConns w' ! i))" and "length (pConns w') = length (pConns w)"
proof (cases "Mode_of p = ModeTLSRF")
  case True
  let ?s = "cSock (pConns w ! i)"
  from sendFragments_quiet [OF assms(1,3-9)] obtain s' ops where
    run: "sendRecords (neSock (peNet env)) rec (sniStart h) (sniLen h) (NumRecords p) (NumSegments p) (IsTrue (OOB p)) (IsTrue (OOBEx p))
      (IsTrue (ModMinorVer p)) (IsTrue (WaitForAck p)) (SendInterval p) ?s = (Ok (), s')"
    and s': "is_tcp s'" "calls s' = calls ?s @ map (\<lambda>op. (op, None)) ops" "fragmented p rec ops"
    "2 \<le> NumRecords p \<Longrightarrow> hidden p rec (nat (sniStart h)) (nat (sniStart h + sniLen h)) ops"
    by metis
  obtain w' where "with_conn i (sendFragments (peNet env) p rec h) w = (Ok (), w')"
    and w': "conn_calls w' i = calls s'" "pIn w' = pIn w" "pDials w' = pDials w" "\<And>j. j \<noteq> i \<Longrightarrow> pConns w' ! j = pConns w ! j"
    "cSock (pConns w' ! i) = s'" "length (pConns w') = length (pConns w)"
    unfolding sendFragments_def by (rule with_conn_sock [OF assms(2)], rule run, blast)
  then have "sendFirst env p target rec h i w = (Ok (), w')" using True by (simp add: sendFirst_def)
  then show thesis
    by (rule that) (use w' s' assms(2) True in \<open>auto simp: conn_calls_def carries_def\<close>)
next
  case False
  with assms(4) have d: "Mode_of p = ModeDirect" by (simp add: sends_hello_def)
  let ?s = "cSock (pConns w ! i)" and ?b = "neSock (peNet env)"
  obtain s' where run: "conn_write ?b rec ?s = (Ok (), s')" and s': "calls s' = calls ?s @ [(ConnWrite rec, None)]" "is_tcp s' = is_tcp ?s"
    using assms(1) by (simp add: conn_write_def sys_def io_bind_def io_return_def Let_def)
  obtain w' where "write_conn env i rec w = (Ok (), w')"
    and w': "conn_calls w' i = calls s'" "pIn w' = pIn w" "pDials w' = pDials w" "\<And>j. j \<noteq> i \<Longrightarrow> pConns w' ! j = pConns w ! j"
    "cSock (pConns w' ! i) = s'" "length (pConns w') = length (pConns w)"
    unfolding write_conn_def by (rule with_conn_sock [OF assms(2)], rule run, blast)
  then have "sendFirst env p target rec h i w = (Ok (), w')" using d by (simp add: sendFirst_def)
  then show thesis
    by (rule that [of w' "[ConnWrite rec]"]) (use w' s' assms(2,3) d in \<open>auto simp: conn_calls_def carries_def\<close>)
qed

section \<open>The tunnel\<close>

lemma enc_hello_size:
  assumes "wf_hello hello"
  shows "44 \<le> length (enc_hello minor hello)" and "length (enc_hello minor hello) \<le> 65540"
  using assms by (auto simp: wf_hello_def enc_hello_def enc_body_def Let_def)

text \<open>A ClientHello with the server name \<open>host\<close> is parsed to its place.\<close>

lemma hello_named:
  assumes "wf_hello hello" and "map_of (chExtensions hello) tlsExtTypeSNI = Some (enc_sni host)" and "host \<noteq> []"
  obtains h where "parseClientHello (enc_hello minor hello) = Some (h, None)"
    and "go_slice (enc_hello minor hello) (sniStart h) (sniStart h + sniLen h) = Some host" and "58 \<le> sniStart h" and "0 < sniLen h"
    and "hasKeyShare h \<longleftrightarrow> tlsExtTypeKeyShare \<in> fst ` set (chExtensions hello)"
proof -
  have inj: "enc_sni x = enc_sni y \<Longrightarrow> x = y" for x y
    using length_enc_sni [of x] length_enc_sni [of y] by (simp add: enc_sni_def)
  obtain h where h: "parseClientHello (enc_hello minor hello) = Some (h, None)"
    "hasKeyShare h \<longleftrightarrow> tlsExtTypeKeyShare \<in> fst ` set (chExtensions hello)"
    "go_slice (enc_hello minor hello) (sniStart h) (sniStart h + sniLen h) = Some host"
    using hello_decodes [OF assms(1), of minor] assms(2) by (auto dest: inj)
  have len: "sniLen h = int (length host)" using go_slice_length [OF h(3)] by simp
  have "sni_in_range (enc_hello minor hello) 58 h"
    using parseClientHello_ok [of "enc_hello minor hello"] h(1) enc_hello_size [OF assms(1), of minor] by simp
  with len assms(3) h(3) have "58 \<le> sniStart h" by (auto simp: sni_in_range_def dest: go_slice_SomeD)
  with h len assms(3) show thesis using that by simp
qed

lemma handleTLS_quiet:
  assumes "\<forall>s op. rerr (neSock (peNet env) s op) = None" and "i < length (pConns w)" and "is_tcp (cSock (pConns w ! i))" and "sends_hello p"
    and "pIn w = rec @ rest" and "length rec \<le> 65540" and "parseClientHello rec = Some (h, None)"
    and "go_slice rec (sniStart h) (sniStart h + sniLen h) = Some host" and "58 \<le> sniStart h" and "0 < sniLen h"
    and "2 \<le> length host" and "hd host \<noteq> 0x2E" and "IsTrue (TLS13Only p) \<longrightarrow> hasKeyShare h"
  obtains w' ops where "handleTLS env cli p (string_of_bytes host) target port (length rec) (Some i) w = (Ok (Some i, True), w')"
    and "pIn w' = rest" and "pDials w' = pDials w" and "conn_calls w' i = conn_calls w i @ map (\<lambda>op. (op, None)) ops" and "carries p rec ops"
    and "Mode_of p = ModeTLSRF \<Longrightarrow> 2 \<le> NumRecords p \<Longrightarrow> hidden p rec (nat (sniStart h)) (nat (sniStart h + sniLen h)) ops"
    and "\<And>j. j \<noteq> i \<Longrightarrow> pConns w' ! j = pConns w ! j" and "is_tcp (cSock (pConns w' ! i))" and "length (pConns w') = length (pConns w)"
proof -
  let ?w = "w\<lparr>pIn := rest\<rparr>"
  have rd: "readFull (length rec) w = (Ok rec, ?w)" by (rule readFull_append [OF assms(5)]) simp
  have i: "i < length (pConns ?w)" "is_tcp (cSock (pConns ?w ! i))" using assms(2,3) by simp_all
  from sendFirst_quiet [OF assms(1) i assms(4,6,8,9,11,12), of target] obtain w' ops where
    send: "sendFirst env p target rec h i ?w = (Ok (), w')"
    and w': "pIn w' = pIn ?w" "pDials w' = pDials ?w" "conn_calls w' i = conn_calls ?w i @ map (\<lambda>op. (op, None)) ops" "carries p rec ops"
    "Mode_of p = ModeTLSRF \<Longrightarrow> 2 \<le> NumRecords p \<Longrightarrow> hidden p rec (nat (sniStart h)) (nat (sniStart h + sniLen h)) ops"
    "\<And>j. j \<noteq> i \<Longrightarrow> pConns w' ! j = pConns ?w ! j" "is_tcp (cSock (pConns w' ! i))" "length (pConns w') = length (pConns ?w)"
    by metis
  have "handleTLS env cli p (string_of_bytes host) target port (length rec) (Some i) w = (Ok (Some i, True), w')"
    using assms(4,7-10,13) rd send
    by (simp add: handleTLS_def handleClientHello_def sendNamed_def sniffOverride_def ensureDst_def then_forward_def sends_hello_def
        io_try_def io_bind_def io_return_def Let_def) (auto simp: io_return_def)
  then show thesis by (rule that) (use w' in \<open>simp_all add: conn_calls_def\<close>)
qed

text \<open>The tunnel recognises the ClientHello by its first bytes, sends it and goes on to forward.\<close>

lemma handleTunnel_quiet:
  assumes "\<forall>s op. rerr (neSock (peNet env) s op) = None" and "i < length (pConns w)" and "is_tcp (cSock (pConns w ! i))" and "sends_hello p"
    and "cli \<noteq> i" and "is_tcp (cSock (pConns w ! cli))" and "wf_hello hello" and "pIn w = enc_hello minor hello @ rest"
    and "map_of (chExtensions hello) tlsExtTypeSNI = Some (enc_sni host)" and "2 \<le> length host" and "hd host \<noteq> 0x2E"
    and "IsTrue (TLS13Only p) \<longrightarrow> tlsExtTypeKeyShare \<in> fst ` set (chExtensions hello)"
  obtains h w' ops where "handleTunnel env p (Some i) cli target (string_of_bytes host) port w = (Ok (TunnelForward i), w')"
    and "parseClientHello (enc_hello minor hello) = Some (h, None)"
    and "go_slice (enc_hello minor hello) (sniStart h) (sniStart h + sniLen h) = Some host"
    and "pIn w' = rest" and "pDials w' = pDials w" and "conn_calls w' i = conn_calls w i @ map (\<lambda>op. (op, None)) ops"
    and "carries p (enc_hello minor hello) ops" and "\<And>j. j \<noteq> i \<Longrightarrow> conn_calls w' j = conn_calls w j"
    and "Mode_of p = ModeTLSRF \<Longrightarrow> 2 \<le> NumRecords p \<Longrightarrow>
      hidden p (enc_hello minor hello) (nat (sniStart h)) (nat (sniStart h + sniLen h)) ops"
proof -
  let ?rec = "enc_hello minor hello"
  have "host \<noteq> []" using assms(10) by auto
  from hello_named [OF assms(7,9) this, of minor] obtain h where h: "parseClientHello ?rec = Some (h, None)"
    "go_slice ?rec (sniStart h) (sniStart h + sniLen h) = Some host" "58 \<le> sniStart h" "0 < sniLen h"
    "hasKeyShare h \<longleftrightarrow> tlsExtTypeKeyShare \<in> fst ` set (chExtensions hello)" by metis
  note size = enc_hello_size [OF assms(7), of minor]
  have t13: "IsTrue (TLS13Only p) \<longrightarrow> hasKeyShare h" using assms(12) h(5) by simp
  from handleTLS_quiet [OF assms(1-4,8) size(2) h(1-4) assms(10,11) t13, of cli target port] obtain w' ops where
    run: "handleTLS env cli p (string_of_bytes host) target port (length ?rec) (Some i) w = (Ok (Some i, True), w')"
    and w': "pIn w' = rest" "pDials w' = pDials w" "conn_calls w' i = conn_calls w i @ map (\<lambda>op. (op, None)) ops" "carries p ?rec ops"
    "Mode_of p = ModeTLSRF \<Longrightarrow> 2 \<le> NumRecords p \<Longrightarrow> hidden p ?rec (nat (sniStart h)) (nat (sniStart h + sniLen h)) ops"
    and same: "\<And>j. j \<noteq> i \<Longrightarrow> pConns w' ! j = pConns w ! j" "is_tcp (cSock (pConns w' ! i))" "length (pConns w') = length (pConns w)"
    by metis
  have first: "first_record ?rec = FirstRecord ?rec []" using first_record_enc_hello [OF assms(7), of minor "[]"] by simp
  then have rec: "?rec ! 0 = tlsRecordTypeHandshake" "?rec ! 1 = tlsMajorVersion" "nat (5 + be16_val ?rec 3) = length ?rec"
    using size(1) by (auto simp: first_record_def Let_def tls_consts split: if_splits)
  have peek: "take 10 (pIn w) ! 0 = tlsRecordTypeHandshake" "take 10 (pIn w) ! 1 = tlsMajorVersion"
    "nat (5 + be16_val (take 10 (pIn w)) 3) = length ?rec" "\<not> length (pIn w) < 10"
    using rec assms(8) size(1) by (simp_all add: nth_append be16_val_def)
  have mode: "Mode_of p \<noteq> ModeRaw" using assms(4) by (auto simp: sends_hello_def)
  have "handleTunnel env p (Some i) cli target (string_of_bytes host) port w = (Ok (TunnelForward i), w')"
    unfolding handleTunnel_def Let_def using mode peek run same(1) [OF assms(5)] same(2) assms(6)
    by (simp add: unless_ok_def startForward_def io_bind_def)
  then show thesis
    by (rule that [OF _ h(1,2) w'(1-4)]) (use same w'(5) in \<open>auto simp: conn_calls_def\<close>)
qed

section \<open>The server up to the tunnel\<close>

lemma socks5_enters:
  assumes "\<forall>s op. rerr (neSock (peNet env) s op) = None" and "cli < length (pConns w)" and "is_tcp (cSock (pConns w ! cli))"
    and "pIn w = enc_greeting ms @ enc_connect host @ put_uint16 port @ rest" and "0 \<in> set ms" and "length ms < 256" and "length host \<le> 253"
    and "genPolicy (pePol env) (string_of_bytes host) False False (pPol w) = (Ok (GenOk dst p), x)"
    and "0 \<le> port" and "port < 65536" and "ReplyFirst p \<noteq> BoolTrue"
    and "target = JoinHostPort dst (Itoa (if Port p \<noteq> 0 \<and> Port p \<noteq> unsetInt then Port p mod 65536 else port))"
    and "peDial env (length (pDials w)) target = Inr t"
  obtains w' where "socks5Handler env ipText cli w =
      handleTunnel env p (Some (length (pConns w))) cli target (string_of_bytes host) (Itoa port) w'"
    and "pIn w' = rest" and "pDials w' = pDials w @ [target]"
    and "conn_calls w' cli = conn_calls w cli @ [(ConnWrite noAuthReply, None), (ConnWrite socks5ReplySuccess, None)]"
    and "length (pConns w') = Suc (length (pConns w))" and "conn_calls w' (length (pConns w)) = []"
    and "is_tcp (cSock (pConns w' ! cli))" and "is_tcp (cSock (pConns w' ! length (pConns w)))"
proof -
  let ?i = "length (pConns w)"
  from socks5Request_reads [OF assms(1,2,4-8), of ipText] obtain w1 where
    r: "socks5Request env ipText cli w = connectTo env cli (string_of_bytes host) (GenOk dst p) w1"
    and w1: "pIn w1 = put_uint16 port @ rest" "pDials w1 = pDials w" "length (pConns w1) = ?i"
    "conn_calls w1 cli = conn_calls w cli @ [(ConnWrite noAuthReply, None)]" "same_kinds w w1" by metis
  have cli: "cli < length (pConns w1)" using assms(2) w1 by simp
  have dial: "peDial env (length (pDials w1)) target = Inr t" using assms(13) w1 by simp
  obtain w2 where w2: "pDials w2 = pDials w @ [target]" "pIn w2 = rest" "cli < length (pConns w2)" "conn_calls w2 cli = conn_calls w1 cli"
    "same_kinds w1 w2" "pConns w2 = pConns w1 @ [\<lparr>cSock = \<lparr>is_tcp = True, calls = [], now = t\<rparr>, cOpen = True\<rparr>]"
    and good: "connectTo env cli (string_of_bytes host) (GenOk dst p) w1 =
      (Ok \<lparr>caPolicy = p, caDst = Some ?i, caTarget = target, caHost = string_of_bytes host, caPort = Itoa port\<rparr>,
       wrote_conn env cli socks5ReplySuccess w2)"
    using connectTo_dials [OF assms(1) cli w1(1) assms(9-12)] w1(2,3) dial by metis
  let ?w = "wrote_conn env cli socks5ReplySuccess w2"
  note q = write_conn_quiet [OF assms(1) w2(3), of socks5ReplySuccess]
  have kinds: "same_kinds w2 ?w" by (rule wrote_conn_kinds [OF w2(3)])
  have other: "conn_calls ?w ?i = conn_calls w2 ?i"
  proof (rule with_conn_Ok [OF q(1) [unfolded write_conn_def] w2(3)])
    fix n n' assume "\<And>j. j \<noteq> cli \<Longrightarrow> conn_calls ?w j = conn_calls w2 j"
    with assms(2) show ?thesis by simp
  qed
  have "socks5Handler env ipText cli w =
      handleTunnel env p (Some ?i) cli target (string_of_bytes host) (Itoa port) ?w"
    using good r by (simp add: socks5Handler_def io_try_def io_bind_def)
  then show thesis
    by (rule that) (use q w1 w2 other kinds assms(2,3) in \<open>simp_all add: same_kinds_def conn_calls_def nth_append\<close>)
qed

end
