(* ===== verification/SockOpts.thy ===== *)
theory SockOpts
  imports HttpProxy
begin

text \<open>
  The options of the engine's outgoing sockets, \<^verbatim>\<open>tun2socks/dialer\<close>: the dialler hands the system a control function, which each
  system's build writes its own way (\<^verbatim>\<open>sockopt_linux.go\<close>, \<^verbatim>\<open>sockopt_darwin.go\<close>, \<^verbatim>\<open>sockopt_freebsd.go\<close>, \<^verbatim>\<open>sockopt_openbsd.go\<close>,
  \<^verbatim>\<open>sockopt_windows.go\<close>, \<^verbatim>\<open>sockopt_others.go\<close>). The contract of such a function is the locale \<open>socket_options\<close>, what
  the dialler gets from it is proved there once, and every build is an interpretation. Shown here: a
  socket to an address that is not global unicast is left alone, nothing is set that was not asked for, and an error of the
  system is reported, except by the Windows build, which loses one.
\<close>

unbundle bit_operations_syntax

section \<open>The options and the frame of every build\<close>

record Options =
  InterfaceName :: string
  InterfaceIndex :: int
  RoutingMark :: int

definition isTCPSocket :: "string \<Rightarrow> bool" where "isTCPSocket n \<longleftrightarrow> n \<in> {''tcp'', ''tcp4'', ''tcp6''}"
definition isUDPSocket :: "string \<Rightarrow> bool" where "isUDPSocket n \<longleftrightarrow> n \<in> {''udp'', ''udp4'', ''udp6''}"

datatype sockopt_call =
    BindToDevice string
  | SetMark int
  | BoundIf4 int
  | BoundIf6 int
  | UserCookie int
  | RTable int
  | UnicastIf4 "32 word"
  | UnicastIf6 "32 word"

text \<open>
  \<open>soControl\<close>: the error of the raw connection; \<open>soGlobal host\<close>: whether the host is an address that is global unicast, \<^const>\<open>None\<close> if
  it is no address; \<open>soIface\<close> and \<open>soIndex\<close>: an interface's name by its index and index by its name; \<open>soCall\<close>: the
  error of a call. The result is the error, and the calls made on the socket.
\<close>

record sockopt_env =
  soControl :: "go_error option"
  soGlobal :: "string \<Rightarrow> bool option"
  soIface :: "int \<Rightarrow> string option"
  soIndex :: "string \<Rightarrow> int option"
  soCall :: "sockopt_call \<Rightarrow> go_error option"

type_synonym sockopt_result = "go_error option \<times> sockopt_call list"

text \<open>Calls one after the other, up to the first that fails.\<close>

fun sockopt_calls :: "sockopt_env \<Rightarrow> sockopt_call list \<Rightarrow> sockopt_result" where
  "sockopt_calls env [] = (None, [])"
| "sockopt_calls env (c # cs) =
     (case soCall env c of
        Some e \<Rightarrow> (Some e, [c])
      | None \<Rightarrow> (case sockopt_calls env cs of (e, done_calls) \<Rightarrow> (e, c # done_calls)))"

text \<open>
  What the builds share: nothing without options or on another kind of socket, the error of the raw
  connection, and no option on a socket to a local address. The rest of the control function gets the options
  and the host.
\<close>

definition controlled ::
  "sockopt_env \<Rightarrow> string \<Rightarrow> string \<Rightarrow> Options option \<Rightarrow> (Options \<Rightarrow> string \<Rightarrow> sockopt_result) \<Rightarrow> sockopt_result" where
  "controlled env network address opts body =
     (case opts of
        None \<Rightarrow> (None, [])
      | Some opts \<Rightarrow>
          if \<not> isTCPSocket network \<and> \<not> isUDPSocket network then (None, [])
          else if soControl env \<noteq> None then (soControl env, [])
          else
            let host = (case SplitHostPort address of Inl _ \<Rightarrow> [] | Inr (h, _) \<Rightarrow> h) in
            if soGlobal env host = Some False then (None, []) else body opts host)"

section \<open>The builds\<close>

definition sockopt_name :: "sockopt_env \<Rightarrow> Options \<Rightarrow> string" where
  "sockopt_name env opts =
     (if InterfaceName opts = [] \<and> InterfaceIndex opts \<noteq> 0 then (case soIface env (InterfaceIndex opts) of None \<Rightarrow> [] | Some n \<Rightarrow> n)
      else InterfaceName opts)"

definition linux_calls :: "sockopt_env \<Rightarrow> string \<Rightarrow> Options \<Rightarrow> sockopt_call list" where
  "linux_calls env network opts =
     (let name = sockopt_name env opts in
      (if name \<noteq> [] then [BindToDevice name] else []) @ (if RoutingMark opts \<noteq> 0 then [SetMark (RoutingMark opts)] else []))"

definition linux_setSocketOptions :: "sockopt_env \<Rightarrow> string \<Rightarrow> string \<Rightarrow> Options option \<Rightarrow> sockopt_result" where
  "linux_setSocketOptions env network address opts =
     controlled env network address opts (\<lambda>opts _. sockopt_calls env (linux_calls env network opts))"

definition sockopt_index :: "sockopt_env \<Rightarrow> Options \<Rightarrow> int" where
  "sockopt_index env opts =
     (if InterfaceIndex opts = 0 \<and> InterfaceName opts \<noteq> [] then (case soIndex env (InterfaceName opts) of None \<Rightarrow> 0 | Some i \<Rightarrow> i)
      else InterfaceIndex opts)"

definition darwin_calls :: "sockopt_env \<Rightarrow> string \<Rightarrow> Options \<Rightarrow> sockopt_call list" where
  "darwin_calls env network opts =
     (let i = sockopt_index env opts in
      if i = 0 then []
      else if network \<in> {''tcp4'', ''udp4''} then [BoundIf4 i]
      else if network \<in> {''tcp6'', ''udp6''} then [BoundIf6 i]
      else [])"

definition darwin_setSocketOptions :: "sockopt_env \<Rightarrow> string \<Rightarrow> string \<Rightarrow> Options option \<Rightarrow> sockopt_result" where
  "darwin_setSocketOptions env network address opts =
     controlled env network address opts (\<lambda>opts _. sockopt_calls env (darwin_calls env network opts))"

definition freebsd_calls :: "sockopt_env \<Rightarrow> string \<Rightarrow> Options \<Rightarrow> sockopt_call list" where
  "freebsd_calls env network opts = (if RoutingMark opts \<noteq> 0 then [UserCookie (RoutingMark opts)] else [])"

definition freebsd_setSocketOptions :: "sockopt_env \<Rightarrow> string \<Rightarrow> string \<Rightarrow> Options option \<Rightarrow> sockopt_result" where
  "freebsd_setSocketOptions env network address opts =
     controlled env network address opts (\<lambda>opts _. sockopt_calls env (freebsd_calls env network opts))"

definition openbsd_calls :: "sockopt_env \<Rightarrow> string \<Rightarrow> Options \<Rightarrow> sockopt_call list" where
  "openbsd_calls env network opts = (if RoutingMark opts \<noteq> 0 then [RTable (RoutingMark opts)] else [])"

definition openbsd_setSocketOptions :: "sockopt_env \<Rightarrow> string \<Rightarrow> string \<Rightarrow> Options option \<Rightarrow> sockopt_result" where
  "openbsd_setSocketOptions env network address opts =
     controlled env network address opts (\<lambda>opts _. sockopt_calls env (openbsd_calls env network opts))"

definition others_setSocketOptions :: "sockopt_env \<Rightarrow> string \<Rightarrow> string \<Rightarrow> Options option \<Rightarrow> sockopt_result" where
  "others_setSocketOptions env network address opts = (None, [])"

text \<open>
  Windows wants the index of an IPv4 interface in network byte order: the big-endian bytes of the index,
  read again as a word on a little-endian machine.
\<close>

definition BigEndian_PutUint32 :: "32 word \<Rightarrow> bytes" where
  "BigEndian_PutUint32 v = [ucast (drop_bit 24 v), ucast (drop_bit 16 v), ucast (drop_bit 8 v), ucast v]"

definition load_uint32 :: "bytes \<Rightarrow> 32 word" where
  "load_uint32 b = ucast (b ! 0) OR push_bit 8 (ucast (b ! 1)) OR push_bit 16 (ucast (b ! 2)) OR push_bit 24 (ucast (b ! 3))"

definition bindSocketToInterface4 :: "sockopt_env \<Rightarrow> 32 word \<Rightarrow> sockopt_result" where
  "bindSocketToInterface4 env i =
     (let c = UnicastIf4 (load_uint32 (BigEndian_PutUint32 i)) in (soCall env c, [c]))"

definition bindSocketToInterface6 :: "sockopt_env \<Rightarrow> 32 word \<Rightarrow> sockopt_result" where
  "bindSocketToInterface6 env i = (let c = UnicastIf6 i in (soCall env c, [c]))"

definition windows_setSocketOptions :: "sockopt_env \<Rightarrow> string \<Rightarrow> string \<Rightarrow> Options option \<Rightarrow> sockopt_result" where
  "windows_setSocketOptions env network address opts =
     controlled env network address opts (\<lambda>opts host.
       let i = sockopt_index env opts in
       if i = 0 then (None, [])
       else if network \<in> {''tcp4'', ''udp4''} then bindSocketToInterface4 env (of_int i)
       else if network \<in> {''tcp6'', ''udp6''} then
         (let six = bindSocketToInterface6 env (of_int i) in
          if network = ''udp6'' \<and> soGlobal env host = None
          then (let four = bindSocketToInterface4 env (of_int i) in (fst four, snd six @ snd four))
          else six)
       else (None, []))"

section \<open>The dialler, over any build\<close>

text \<open>
  The options are read from atomic variables when a dial begins. \<open>dial\<close> is the system's dial, which
  runs the control function on the socket before it connects; \<open>setopts\<close> is the build's function.
\<close>

record Dialer =
  dlInterfaceName :: string
  dlInterfaceIndex :: "32 word"
  dlRoutingMark :: "32 word"

type_synonym control = "string \<Rightarrow> string \<Rightarrow> sockopt_result"
type_synonym setopts = "sockopt_env \<Rightarrow> string \<Rightarrow> string \<Rightarrow> Options option \<Rightarrow> sockopt_result"

definition dialer_Options :: "Dialer \<Rightarrow> Options" where
  "dialer_Options d = \<lparr>InterfaceName = dlInterfaceName d, InterfaceIndex = sint (dlInterfaceIndex d), RoutingMark = sint (dlRoutingMark d)\<rparr>"

definition DialContextWithOptions :: "setopts \<Rightarrow> sockopt_env \<Rightarrow> (control \<Rightarrow> string \<Rightarrow> string \<Rightarrow> 'r) \<Rightarrow> Options \<Rightarrow> string \<Rightarrow> string \<Rightarrow> 'r" where
  "DialContextWithOptions setopts env dial opts network address = dial (\<lambda>n a. setopts env n a (Some opts)) network address"

definition Dialer_DialContext :: "setopts \<Rightarrow> sockopt_env \<Rightarrow> (control \<Rightarrow> string \<Rightarrow> string \<Rightarrow> 'r) \<Rightarrow> Dialer \<Rightarrow> string \<Rightarrow> string \<Rightarrow> 'r" where
  "Dialer_DialContext setopts env dial d network address = DialContextWithOptions setopts env dial (dialer_Options d) network address"

definition ListenPacketWithOptions :: "setopts \<Rightarrow> sockopt_env \<Rightarrow> (control \<Rightarrow> string \<Rightarrow> string \<Rightarrow> 'r) \<Rightarrow> Options \<Rightarrow> string \<Rightarrow> string \<Rightarrow> 'r" where
  "ListenPacketWithOptions setopts env lp opts network address = lp (\<lambda>n a. setopts env n a (Some opts)) network address"

definition Dialer_ListenPacket :: "setopts \<Rightarrow> sockopt_env \<Rightarrow> (control \<Rightarrow> string \<Rightarrow> string \<Rightarrow> 'r) \<Rightarrow> Dialer \<Rightarrow> string \<Rightarrow> string \<Rightarrow> 'r" where
  "Dialer_ListenPacket setopts env lp d network address = ListenPacketWithOptions setopts env lp (dialer_Options d) network address"

text \<open>\<open>DefaultDialer\<close> as it is before an interface or a mark is set.\<close>

definition DefaultDialer :: Dialer where
  "DefaultDialer = \<lparr>dlInterfaceName = [], dlInterfaceIndex = 0, dlRoutingMark = 0\<rparr>"

section \<open>The contract\<close>

definition asked :: "Options \<Rightarrow> bool" where
  "asked op \<longleftrightarrow> InterfaceName op \<noteq> [] \<or> InterfaceIndex op \<noteq> 0 \<or> RoutingMark op \<noteq> 0"

text \<open>The dial \<open>\<lambda>control. control\<close> runs the control function and hands on what it did.\<close>

locale socket_options =
  fixes setopts :: setopts
  assumes other_socket: "\<not> isTCPSocket n \<Longrightarrow> \<not> isUDPSocket n \<Longrightarrow> setopts env n a opts = (None, [])"
    and local_address: "SplitHostPort a = Inr (host, port) \<Longrightarrow> soGlobal env host = Some False \<Longrightarrow> snd (setopts env n a opts) = []"
    and not_asked: "\<not> asked op \<Longrightarrow> snd (setopts env n a (Some op)) = []"
    and no_error: "soControl env = None \<Longrightarrow> (\<And>c. soCall env c = None) \<Longrightarrow> fst (setopts env n a opts) = None"
    and last_error: "fst (setopts env n a opts) = None \<Longrightarrow> snd (setopts env n a opts) \<noteq> [] \<Longrightarrow> soCall env (last (snd (setopts env n a opts))) = None"
begin

lemma local_dial:
  assumes "SplitHostPort a = Inr (host, port)" and "soGlobal env host = Some False"
  shows "snd (Dialer_DialContext setopts env (\<lambda>control. control) d n a) = []" and "snd (Dialer_ListenPacket setopts env (\<lambda>control. control) d n a) = []"
  using local_address [OF assms]
  by (simp_all add: Dialer_DialContext_def DialContextWithOptions_def Dialer_ListenPacket_def ListenPacketWithOptions_def)

lemma default_dial: "snd (Dialer_DialContext setopts env (\<lambda>control. control) DefaultDialer n a) = []"
  using not_asked [of "dialer_Options DefaultDialer"]
  by (simp add: Dialer_DialContext_def DialContextWithOptions_def dialer_Options_def DefaultDialer_def asked_def)

end

text \<open>A build that reports the error of every call it makes.\<close>

locale reporting_options = socket_options +
  assumes reported: "c \<in> set (snd (setopts env n a opts)) \<Longrightarrow> soCall env c = Some e \<Longrightarrow> fst (setopts env n a opts) \<noteq> None"
begin

lemma silent_success: "fst (setopts env n a opts) = None \<Longrightarrow> c \<in> set (snd (setopts env n a opts)) \<Longrightarrow> soCall env c = None"
  using reported by (cases "soCall env c") auto

end

section \<open>Every build keeps it\<close>

lemma sockopt_calls_reported:
  "c \<in> set (snd (sockopt_calls env cs)) \<Longrightarrow> soCall env c = Some e \<Longrightarrow> fst (sockopt_calls env cs) \<noteq> None"
  by (induction cs) (auto split: option.splits prod.splits)

lemma sockopt_calls_quiet: "\<forall>c. soCall env c = None \<Longrightarrow> fst (sockopt_calls env cs) = None"
  by (induction cs) (auto split: prod.splits)

lemma sockopt_calls_done: "fst (sockopt_calls env cs) = None \<Longrightarrow> snd (sockopt_calls env cs) = cs \<and> (\<forall>c \<in> set cs. soCall env c = None)"
  by (induction cs) (auto split: option.splits prod.splits)

text \<open>A build that makes its calls one after the other keeps the contract, if it asks for none that was not asked of it.\<close>

lemma controlled_calls:
  assumes "\<And>env n a opts. setopts env n a opts = controlled env n a opts (\<lambda>op host. sockopt_calls env (cs env n op))"
    and "\<And>env n op. \<not> asked op \<Longrightarrow> cs env n op = []"
  shows "reporting_options setopts"
proof
  fix env n a opts op host port c e
  show "\<not> isTCPSocket n \<Longrightarrow> \<not> isUDPSocket n \<Longrightarrow> setopts env n a opts = (None, [])"
    by (simp add: assms(1) controlled_def split: option.split)
  show "SplitHostPort a = Inr (host, port) \<Longrightarrow> soGlobal env host = Some False \<Longrightarrow> snd (setopts env n a opts) = []"
    by (auto simp: assms(1) controlled_def Let_def split: option.split)
  show "\<not> asked op \<Longrightarrow> snd (setopts env n a (Some op)) = []" by (auto simp: assms controlled_def Let_def)
  show "soControl env = None \<Longrightarrow> (\<And>c. soCall env c = None) \<Longrightarrow> fst (setopts env n a opts) = None"
    by (simp add: assms(1) controlled_def Let_def sockopt_calls_quiet split: option.split)
  show "soCall env (last (snd (setopts env n a opts))) = None" if "fst (setopts env n a opts) = None" "snd (setopts env n a opts) \<noteq> []"
    using that sockopt_calls_done
    by (auto simp: assms(1) controlled_def Let_def split: option.splits if_splits)
  show "c \<in> set (snd (setopts env n a opts)) \<Longrightarrow> soCall env c = Some e \<Longrightarrow> fst (setopts env n a opts) \<noteq> None"
    using sockopt_calls_reported [of c env _ e] unfolding assms(1) controlled_def Let_def by (cases opts) (auto split: if_splits)
qed

interpretation linux: reporting_options linux_setSocketOptions
  by (rule controlled_calls [where cs = linux_calls])
    (simp_all add: linux_setSocketOptions_def linux_calls_def sockopt_name_def asked_def)

interpretation darwin: reporting_options darwin_setSocketOptions
  by (rule controlled_calls [where cs = darwin_calls])
    (simp_all add: darwin_setSocketOptions_def darwin_calls_def sockopt_index_def asked_def)

interpretation freebsd: reporting_options freebsd_setSocketOptions
  by (rule controlled_calls [where cs = freebsd_calls]) (simp_all add: freebsd_setSocketOptions_def freebsd_calls_def asked_def)

interpretation openbsd: reporting_options openbsd_setSocketOptions
  by (rule controlled_calls [where cs = openbsd_calls]) (simp_all add: openbsd_setSocketOptions_def openbsd_calls_def asked_def)

interpretation others: reporting_options others_setSocketOptions
  by unfold_locales (simp_all add: others_setSocketOptions_def)

text \<open>On Windows, what is left of the control function after the frame, by its cases.\<close>

lemma windows_cases:
  "windows_setSocketOptions env n a opts \<in>
     {(None, []), (soControl env, [])} \<union>
     {r. soControl env = None \<and> (\<exists>op i. opts = Some op \<and> asked op \<and>
        (\<forall>host port. SplitHostPort a = Inr (host, port) \<longrightarrow> soGlobal env host \<noteq> Some False) \<and> (isTCPSocket n \<or> isUDPSocket n) \<and>
        r \<in> {bindSocketToInterface4 env i, bindSocketToInterface6 env i,
          (fst (bindSocketToInterface4 env i), snd (bindSocketToInterface6 env i) @ snd (bindSocketToInterface4 env i))})}"
proof (cases opts)
  case (Some op)
  have "asked op" if "sockopt_index env op \<noteq> 0" using that by (auto simp: sockopt_index_def asked_def split: if_splits)
  then show ?thesis unfolding Some
    by (simp add: windows_setSocketOptions_def controlled_def Let_def) fastforce
qed (simp add: windows_setSocketOptions_def controlled_def)

interpretation windows: socket_options windows_setSocketOptions
proof
  fix env n a opts op host port
  note w = windows_cases [of env n a opts]
  show "\<not> isTCPSocket n \<Longrightarrow> \<not> isUDPSocket n \<Longrightarrow> windows_setSocketOptions env n a opts = (None, [])"
    by (simp add: windows_setSocketOptions_def controlled_def split: option.split)
  show "SplitHostPort a = Inr (host, port) \<Longrightarrow> soGlobal env host = Some False \<Longrightarrow> snd (windows_setSocketOptions env n a opts) = []"
    using w by auto
  show "\<not> asked op \<Longrightarrow> snd (windows_setSocketOptions env n a (Some op)) = []"
    using windows_cases [of env n a "Some op"] by auto
  show "soControl env = None \<Longrightarrow> (\<And>c. soCall env c = None) \<Longrightarrow> fst (windows_setSocketOptions env n a opts) = None"
    using w by (auto simp: bindSocketToInterface4_def bindSocketToInterface6_def Let_def)
  show "fst (windows_setSocketOptions env n a opts) = None \<Longrightarrow> snd (windows_setSocketOptions env n a opts) \<noteq> [] \<Longrightarrow>
      soCall env (last (snd (windows_setSocketOptions env n a opts))) = None"
    using w by (auto simp: bindSocketToInterface4_def bindSocketToInterface6_def Let_def)
qed

section \<open>Windows\<close>

text \<open>
  The word that Windows gets for an IPv4 interface has the index's bytes in network order in memory, that is as
  a little-endian machine stores it.
\<close>

definition stored :: "32 word \<Rightarrow> bytes" where
  "stored v = [ucast v, ucast (drop_bit 8 v), ucast (drop_bit 16 v), ucast (drop_bit 24 v)]"

lemma load_uint32_bit:
  fixes a b c d :: byte
  assumes "k < 8"
  shows "bit (load_uint32 [a, b, c, d]) k = bit a k" and "bit (load_uint32 [a, b, c, d]) (k + 8) = bit b k"
    and "bit (load_uint32 [a, b, c, d]) (k + 16) = bit c k" and "bit (load_uint32 [a, b, c, d]) (k + 24) = bit d k"
  using assms bit_imp_le_length [of a "k + 8"] bit_imp_le_length [of a "k + 16"] bit_imp_le_length [of a "k + 24"]
    bit_imp_le_length [of b "k + 8"] bit_imp_le_length [of b "k + 16"] bit_imp_le_length [of c "k + 8"]
  by (auto simp: load_uint32_def bit_simps add.commute)

lemma stored_load: "stored (load_uint32 [a, b, c, d]) = [a, b, c, d]"
  unfolding stored_def by (intro arg_cong2 [where f = Cons] refl bit_word_eqI) (simp_all add: bit_simps load_uint32_bit add.commute)

lemma network_order: "stored (load_uint32 (BigEndian_PutUint32 i)) = BigEndian_PutUint32 i"
  by (simp add: BigEndian_PutUint32_def stored_load)

text \<open>
  The Windows build does not report every error: for a datagram socket of IPv6 without an address it binds both families, and keeps the error
  of the second only.
\<close>

lemma windows_loses_error:
  assumes "soControl env = None" and "soGlobal env host = None" and "SplitHostPort a = Inr (host, port)" and "sockopt_index env op = i"
    and "i \<noteq> 0" and "soCall env (UnicastIf4 (load_uint32 (BigEndian_PutUint32 (of_int i)))) = None"
  shows "windows_setSocketOptions env ''udp6'' a (Some op) =
    (None, [UnicastIf6 (of_int i), UnicastIf4 (load_uint32 (BigEndian_PutUint32 (of_int i)))])"
  using assms by (simp add: windows_setSocketOptions_def controlled_def isTCPSocket_def isUDPSocket_def Let_def
      bindSocketToInterface4_def bindSocketToInterface6_def)

section \<open>What the dialler gets from every build\<close>

text \<open>
  Whichever system the engine is built for, a dial or a packet socket for an address that is not global unicast (a loopback or link-local
  one) has none of the options set, so it does not leave through the bound interface, and the default dialler sets none at all.
\<close>

theorem dialer_spares_local:
  assumes "setopts \<in> {linux_setSocketOptions, darwin_setSocketOptions, freebsd_setSocketOptions, openbsd_setSocketOptions,
      windows_setSocketOptions, others_setSocketOptions}"
  shows "(SplitHostPort a = Inr (host, port) \<and> soGlobal env host = Some False \<longrightarrow>
      snd (Dialer_DialContext setopts env (\<lambda>control. control) d n a) = [] \<and> snd (Dialer_ListenPacket setopts env (\<lambda>control. control) d n a) = []) \<and>
    snd (Dialer_DialContext setopts env (\<lambda>control. control) DefaultDialer n a) = []"
  using assms by (elim insertE emptyE) (simp_all add: linux.local_dial darwin.local_dial freebsd.local_dial openbsd.local_dial
      windows.local_dial others.local_dial linux.default_dial darwin.default_dial freebsd.default_dial openbsd.default_dial
      windows.default_dial others.default_dial)

end
