(* ===== verification/EngineLog.thy ===== *)
theory EngineLog
  imports Engine
begin

text \<open>
  The packet engine's logging, \<^verbatim>\<open>tun2socks/log\<close>: levels, loggers of a level, the global logger and the target that
  gVisor's own messages go to. The zap library (its levels, its parser and the construction of loggers) and gVisor's levels are
  arguments. Shown here: setting the level of a configuration never panics, whatever the text; the
  global logger, its sugared form and gVisor's target always write to the same place; and gVisor's messages keep their severity.
\<close>

section \<open>Levels\<close>

text \<open>
  \<open>zString\<close>: a level's text; \<open>zParse\<close>: \<^verbatim>\<open>zapcore.ParseLevel\<close>; \<open>zDevelopment\<close> and \<open>zProduction\<close>: the errors of building a logger. The names of the fields
  are those of zap's levels.
\<close>

record zap =
  DebugLevel :: int
  InfoLevel :: int
  WarnLevel :: int
  ErrorLevel :: int
  DPanicLevel :: int
  PanicLevel :: int
  FatalLevel :: int
  InvalidLevel :: int
  zString :: "int \<Rightarrow> string"
  zParse :: "string \<Rightarrow> go_error + int"
  zDevelopment :: "go_error option"
  zProduction :: "int \<Rightarrow> go_error option"

definition SilentLevel :: "zap \<Rightarrow> int" where "SilentLevel z = InvalidLevel z + 1"

definition ParseLevel :: "zap \<Rightarrow> string \<Rightarrow> go_error + int" where
  "ParseLevel z s = (if s = ''silent'' \<or> s = ''SILENT'' then Inr (SilentLevel z) else zParse z s)"

text \<open>A logger: what it writes to, and how many callers it skips.\<close>

datatype sink = Nop | Development | Production int

record Logger =
  lgSink :: sink
  lgSkip :: nat

definition NewLeveled :: "zap \<Rightarrow> int \<Rightarrow> go_error + Logger" where
  "NewLeveled z l =
     (if l = SilentLevel z then Inr \<lparr>lgSink = Nop, lgSkip = 0\<rparr>
      else if l = DebugLevel z then (case zDevelopment z of Some e \<Rightarrow> Inl e | None \<Rightarrow> Inr \<lparr>lgSink = Development, lgSkip = 0\<rparr>)
      else if l \<in> {InfoLevel z, WarnLevel z, ErrorLevel z, DPanicLevel z, PanicLevel z, FatalLevel z} then
        (case zProduction z l of Some e \<Rightarrow> Inl e | None \<Rightarrow> Inr \<lparr>lgSink = Production l, lgSkip = 0\<rparr>)
      else Inl (ErrorNew (''invalid level: '' @ zString z l)))"

section \<open>The global loggers\<close>

record log_state =
  globalL :: Logger
  globalS :: Logger
  emitterL :: Logger
  logLines :: "(Logger \<times> int \<times> string) list"

definition pkgCallerSkip :: "Logger \<Rightarrow> Logger" where "pkgCallerSkip l = l\<lparr>lgSkip := lgSkip l + 2\<rparr>"

definition emitter_setLogger :: "Logger \<Rightarrow> log_state \<Rightarrow> log_state" where
  "emitter_setLogger l s = s\<lparr>emitterL := pkgCallerSkip l\<rparr>"

definition SetLogger :: "Logger \<Rightarrow> log_state \<Rightarrow> log_state" where
  "SetLogger l s = (let s = s\<lparr>globalL := pkgCallerSkip l\<rparr>; s = s\<lparr>globalS := globalL s\<rparr> in emitter_setLogger (globalS s) s)"

text \<open>The package's \<^verbatim>\<open>init\<close>: a production logger, which writes from the information level on.\<close>

definition log_init :: "zap \<Rightarrow> log_state option" where
  "log_init z =
     (let l = \<lparr>lgSink = Production (InfoLevel z), lgSkip = 0\<rparr> in
      case zProduction z (InfoLevel z) of
        Some _ \<Rightarrow> None
      | None \<Rightarrow> Some (SetLogger l \<lparr>globalL = l, globalS = l, emitterL = l, logLines = []\<rparr>))"

definition log_logf :: "int \<Rightarrow> string \<Rightarrow> log_state \<Rightarrow> log_state" where
  "log_logf l msg s = s\<lparr>logLines := logLines s @ [(globalS s, l, msg)]\<rparr>"

definition Debugf :: "zap \<Rightarrow> string \<Rightarrow> log_state \<Rightarrow> log_state" where "Debugf z = log_logf (DebugLevel z)"
definition Infof :: "zap \<Rightarrow> string \<Rightarrow> log_state \<Rightarrow> log_state" where "Infof z = log_logf (InfoLevel z)"
definition Warnf :: "zap \<Rightarrow> string \<Rightarrow> log_state \<Rightarrow> log_state" where "Warnf z = log_logf (WarnLevel z)"
definition Errorf :: "zap \<Rightarrow> string \<Rightarrow> log_state \<Rightarrow> log_state" where "Errorf z = log_logf (ErrorLevel z)"

text \<open>\<^verbatim>\<open>Fatalf\<close>: zap ends the process after a fatal message; the flag says so.\<close>

definition Fatalf :: "zap \<Rightarrow> string \<Rightarrow> log_state \<Rightarrow> log_state \<times> bool" where
  "Fatalf z msg s = (log_logf (FatalLevel z) msg s, True)"

text \<open>gVisor's messages: \<open>at\<close> is the file and the line of the caller, if the runtime knows it.\<close>

definition emitter_logf :: "int \<Rightarrow> string \<Rightarrow> log_state \<Rightarrow> log_state" where
  "emitter_logf level msg s = s\<lparr>logLines := logLines s @ [(emitterL s, 1 - level, ''[STACK] '' @ msg)]\<rparr>"

definition HasSuffix :: "string \<Rightarrow> string \<Rightarrow> bool" where
  "HasSuffix s p \<longleftrightarrow> length p \<le> length s \<and> drop (length s - length p) s = p"

definition Emit :: "(string \<times> int) option \<Rightarrow> int \<Rightarrow> string \<Rightarrow> log_state \<Rightarrow> log_state" where
  "Emit at level msg s =
     (if (case at of Some (file, line) \<Rightarrow> line = 457 \<and> HasSuffix file ''gonet/gonet.go'' | None \<Rightarrow> False) then s
      else emitter_logf level msg s)"

text \<open>The first lines of \<^verbatim>\<open>general\<close>: \<^verbatim>\<open>Must\<close> panics on an error of the construction.\<close>

definition set_level :: "zap \<Rightarrow> string \<Rightarrow> (log_state, unit) io" where
  "set_level z s w =
     (case ParseLevel z s of
        Inl err \<Rightarrow> (Fail err, w)
      | Inr l \<Rightarrow> (case NewLeveled z l of Inl _ \<Rightarrow> (Panic, w) | Inr logger \<Rightarrow> (Ok (), SetLogger logger w)))"

section \<open>The engine's calls that log\<close>

text \<open>
  \<^verbatim>\<open>Start\<close> and \<^verbatim>\<open>Stop\<close>: a fatal message, and with it the end of the process, if there was an error. A
  command before or after the start is split by \<^verbatim>\<open>shlex\<close> and run by the system, both arguments; its error is only logged.
\<close>

definition engine_Start :: "zap \<Rightarrow> engine_env \<Rightarrow> engine \<times> log_state \<Rightarrow> (engine \<times> log_state) \<times> bool" where
  "engine_Start z env = (\<lambda>(e, s).
     (case start env e of
        (Fail err, e') \<Rightarrow> (case Fatalf z (''[ENGINE] failed to start: '' @ Error err) s of (s', ends) \<Rightarrow> ((e', s'), ends))
      | (Panic, e') \<Rightarrow> ((e', s), True)
      | (Ok _, e') \<Rightarrow> ((e', s), False)))"

definition engine_StartErr :: "engine_env \<Rightarrow> (engine, unit) io" where "engine_StartErr env = start env"

definition execCommand :: "(string \<Rightarrow> go_error + string list) \<Rightarrow> (string \<Rightarrow> string list \<Rightarrow> go_error option) \<Rightarrow> string \<Rightarrow> go_error option" where
  "execCommand split run cmd =
     (case split cmd of
        Inl err \<Rightarrow> Some err
      | Inr [] \<Rightarrow> Some (ErrorNew ''empty command'')
      | Inr (p # ps) \<Rightarrow> run p ps)"

definition exec_logged :: "zap \<Rightarrow> (string \<Rightarrow> go_error option) \<Rightarrow> string \<Rightarrow> string \<Rightarrow> log_state \<Rightarrow> log_state" where
  "exec_logged z exec what cmd s =
     (if cmd = [] then s
      else
        let s = Infof z (''[TUN] '' @ what @ ''-execute command: `'' @ cmd @ ''`'') s in
        case exec cmd of
          None \<Rightarrow> s
        | Some err \<Rightarrow> Errorf z (''[TUN] failed to '' @ what @ ''-execute: '' @ cmd @ '': '' @ Error err) s)"

lemma engine_Start_ends:
  "snd (engine_Start z env (e, s)) \<longleftrightarrow> fst (engine_StartErr env e) \<noteq> Ok ()"
  by (auto simp: engine_Start_def engine_StartErr_def Fatalf_def split: prod.splits outcome.splits)

section \<open>What holds\<close>

text \<open>What zap documents: its parser gives one of its seven levels, and loggers of those levels can be built.\<close>

definition zap_documented :: "zap \<Rightarrow> bool" where
  "zap_documented z \<longleftrightarrow>
     (\<forall>s l. zParse z s = Inr l \<longrightarrow> l \<in> {DebugLevel z, InfoLevel z, WarnLevel z, ErrorLevel z, DPanicLevel z, PanicLevel z, FatalLevel z}) \<and>
     zDevelopment z = None \<and> (\<forall>l. zProduction z l = None)"

definition one_sink :: "log_state \<Rightarrow> bool" where
  "one_sink s \<longleftrightarrow> globalS s = globalL s \<and> lgSink (emitterL s) = lgSink (globalL s) \<and> lgSkip (emitterL s) = lgSkip (globalL s) + 2"

text \<open>
  Setting the level that a configuration names either reports the parser's error and leaves the loggers alone, or
  installs a logger; it does not panic, and afterwards every message, gVisor's too, goes to one place.
\<close>

theorem set_level_safe:
  assumes "zap_documented z" and "one_sink w"
  shows "fst (set_level z s w) \<noteq> Panic" and "one_sink (snd (set_level z s w))"
    and "set_level z s w = (Fail e, w') \<longleftrightarrow> ParseLevel z s = Inl e \<and> w' = w"
proof -
  have "NewLeveled z l \<noteq> Inl e'" if "ParseLevel z s = Inr l" for l e'
    using that assms(1) by (auto simp: zap_documented_def ParseLevel_def NewLeveled_def split: if_splits)
  then show "fst (set_level z s w) \<noteq> Panic" "one_sink (snd (set_level z s w))" "set_level z s w = (Fail e, w') \<longleftrightarrow> ParseLevel z s = Inl e \<and> w' = w"
    using assms(2) by (auto simp: set_level_def one_sink_def SetLogger_def emitter_setLogger_def pkgCallerSkip_def Let_def split: sum.split)
qed

lemma one_sink_init: "log_init z = Some s \<Longrightarrow> one_sink s"
  by (auto simp: log_init_def one_sink_def SetLogger_def emitter_setLogger_def pkgCallerSkip_def Let_def split: option.splits)

lemma one_sink_kept:
  "one_sink s \<Longrightarrow> one_sink (SetLogger l s) \<and> one_sink (log_logf k msg s) \<and> one_sink (Emit at k msg s)"
  by (simp add: one_sink_def SetLogger_def emitter_setLogger_def pkgCallerSkip_def log_logf_def Emit_def emitter_logf_def Let_def)

text \<open>
  With zap's levels in steps of one from debug, gVisor's levels (0 a warning, 1 information, 2 debugging) arrive as zap's
  levels of the same name; only the message of one line of gVisor is dropped.
\<close>

lemma Emit_severity:
  assumes "DebugLevel z = -1" and "InfoLevel z = 0" and "WarnLevel z = 1"
  shows "logLines (Emit at 0 msg s) \<noteq> logLines s \<longrightarrow> logLines (Emit at 0 msg s) = logLines s @ [(emitterL s, WarnLevel z, ''[STACK] '' @ msg)]"
    and "logLines (Emit at 1 msg s) \<noteq> logLines s \<longrightarrow> logLines (Emit at 1 msg s) = logLines s @ [(emitterL s, InfoLevel z, ''[STACK] '' @ msg)]"
    and "logLines (Emit at 2 msg s) \<noteq> logLines s \<longrightarrow> logLines (Emit at 2 msg s) = logLines s @ [(emitterL s, DebugLevel z, ''[STACK] '' @ msg)]"
    and "logLines (Emit None l msg s) \<noteq> logLines s"
  using assms by (simp_all add: Emit_def emitter_logf_def)

text \<open>A level of the engine's configuration, as the engine's model of \<^const>\<open>general\<close> takes it.\<close>

definition level_error :: "zap \<Rightarrow> string \<Rightarrow> go_error option" where
  "level_error z s = (case ParseLevel z s of Inl e \<Rightarrow> Some e | Inr _ \<Rightarrow> None)"

lemma general_level:
  assumes "zap_documented z" and "one_sink w" and "eeLevel env = level_error z"
  shows "fst (set_level z (kLogLevel k) w) = Ok () \<longleftrightarrow> eeLevel env (kLogLevel k) = None"
    and "fst (set_level z (kLogLevel k) w) = Fail e \<Longrightarrow> general env k st = (Fail e, st)"
  using set_level_safe [OF assms(1,2), of "kLogLevel k"] assms(3)
  by (auto simp: level_error_def set_level_def general_def io_fail_def split: sum.splits)

end
