(* ===== verification/RestServer.thy ===== *)
theory RestServer
  imports RestApi "HOL-Library.AList"
begin

text \<open>
  The server of the control interface, \<^verbatim>\<open>tun2socks/restapi/server.go\<close>, with the routers of \<^verbatim>\<open>connections.go\<close>, \<^verbatim>\<open>netstats.go\<close> and
  \<^verbatim>\<open>debug.go\<close>, and \<^verbatim>\<open>internal/version\<close>: which handler gets a request, behind which guards, and what it answers. The matching
  of a path against the routes and the answer to a preflight request are the libraries' and are arguments. Shown
  here: with a token set, a request without it gets nothing but a refusal and changes nothing, and one with it
  gets what it would get if no token were set; a deletion takes exactly the named connection out of the table.
\<close>

section \<open>Pages\<close>

text \<open>What a handler gives: a text, the messages of a stream, nothing together with the connections closed, or a panic.\<close>

datatype page = Page string | Messages "string list" | NoContent "string list" | Panicked

type_synonym handler = "request \<Rightarrow> page answer"

text \<open>
  \<open>reRoute prefix routes r\<close>: the route chosen for what follows the prefix of the request's path, with the value of its parameter, or
  the code with which the router refuses. \<open>reStats\<close>: the counters at the request and at the ticks, once the
  function that reads them is set. \<open>reModules\<close>: the dependencies, as JSON, if the binary knows them.
\<close>

record rest_env =
  reManager :: Manager
  reTicks :: "Manager list"
  reStats :: "((string \<times> stat_val) list \<times> (string \<times> stat_val) list list) option"
  reUpgrade :: "go_error option"
  reWrite :: "nat \<Rightarrow> go_error option"
  reSnapshot :: "Snapshot \<Rightarrow> string"
  reVersion :: string
  reCommit :: string
  reModules :: "string option"
  rePprof :: "string \<Rightarrow> handler"
  reRoute :: "string \<Rightarrow> (string \<times> string) list \<Rightarrow> request \<Rightarrow> (nat \<times> string) + int"
  rePreflight :: "request \<Rightarrow> int option"
  reListen :: "string \<Rightarrow> go_error option"

text \<open>The text of a string in \<^verbatim>\<open>encoding/json\<close>, for the characters of ASCII.\<close>

definition json_hex :: "char \<Rightarrow> string" where
  "json_hex c = (let n = of_char c :: nat; h = ''0123456789abcdef'' in [CHR 0x5C] @ ''u00'' @ [h ! (n div 16 mod 16), h ! (n mod 16)])"

definition json_char :: "char \<Rightarrow> string" where
  "json_char c =
     (if c = CHR 0x22 \<or> c = CHR 0x5C then [CHR 0x5C, c]
      else if c = CHR 0x08 then [CHR 0x5C, CHR ''b''] else if c = CHR 0x0C then [CHR 0x5C, CHR ''f'']
      else if c = CHR 0x0A then [CHR 0x5C, CHR ''n''] else if c = CHR 0x0D then [CHR 0x5C, CHR ''r'']
      else if c = CHR 0x09 then [CHR 0x5C, CHR ''t'']
      else if (of_char c :: nat) < 32 \<or> c \<in> {CHR ''<'', CHR ''>'', CHR ''&''} then json_hex c
      else [c])"

definition json_string :: "string \<Rightarrow> string" where "json_string s = quoted (concat (map json_char s))"

definition render_JSON :: "string \<Rightarrow> page answer" where "render_JSON t = Served (Page (t @ [CHR 0x0A]))"

definition version_Name :: string where "version_Name = ''tun2socks''"

definition version_String :: "string \<Rightarrow> string" where
  "version_String v = version_Name @ ''-'' @ (if HasPrefix v ''v'' then drop 1 v else v)"

definition BuildString :: "string \<Rightarrow> string \<Rightarrow> string \<Rightarrow> string \<Rightarrow> string" where
  "BuildString goos goarch goversion commit = goos @ ''/'' @ goarch @ '', '' @ goversion @ '', '' @ commit"

text \<open>\<^verbatim>\<open>Info\<close> reads a field of the build information, which is nil if there is none.\<close>

definition version_Info :: "string option \<Rightarrow> string option" where "version_Info bi = bi"

definition rest_hello :: handler where "rest_hello r = render_JSON (json_object [(''hello'', json_string version_Name)])"

definition rest_version :: "rest_env \<Rightarrow> handler" where
  "rest_version env r =
     (case version_Info (reModules env) of
        None \<Rightarrow> Served Panicked
      | Some modules \<Rightarrow>
          render_JSON (json_object [(''commit'', json_string (reCommit env)), (''modules'', modules), (''version'', json_string (reVersion env))]))"

text \<open>A message at every tick, until one cannot be written.\<close>

fun sent_until :: "(nat \<Rightarrow> go_error option) \<Rightarrow> nat \<Rightarrow> string list \<Rightarrow> string list" where
  "sent_until wr k [] = []"
| "sent_until wr k (m # ms) = (case wr k of Some _ \<Rightarrow> [] | None \<Rightarrow> m # sent_until wr (Suc k) ms)"

definition rest_traffic :: "rest_env \<Rightarrow> handler" where
  "rest_traffic env r =
     (if rqWebSocket r \<and> reUpgrade env \<noteq> None then Served (Messages [])
      else Served (Messages (traffic_lines (reWrite env) 0 (reTicks env))))"

definition getNetStats :: "rest_env \<Rightarrow> handler" where
  "getNetStats env r =
     (case reStats env of
        None \<Rightarrow> Refused 500 ErrUninitialized
      | Some (fs, ticks) \<Rightarrow>
          if \<not> rqWebSocket r then Served (Page (encode_val (Stats fs)))
          else if reUpgrade env \<noteq> None then Served (Messages [])
          else Served (Messages (sent_until (reWrite env) 0 (map (\<lambda>fs. encode_val (Stats fs)) ticks))))"

definition connections_page :: "rest_env \<Rightarrow> handler" where
  "connections_page env r =
     (case getConnections (reSnapshot env) (reUpgrade env) r (reWrite env) (reManager env) (reTicks env) of
        None \<Rightarrow> Served Panicked
      | Some (Refused code msg) \<Rightarrow> Refused code msg
      | Some (Served ms) \<Rightarrow> Served (Messages ms))"

section \<open>Routes\<close>

text \<open>A router: the handler of the route that matches, given the value of the route's parameter.\<close>

type_synonym route = "string \<times> string \<times> (string \<Rightarrow> handler)"

definition chi_serve :: "rest_env \<Rightarrow> string \<Rightarrow> route list \<Rightarrow> handler" where
  "chi_serve env pre routes r =
     (case reRoute env pre (map (\<lambda>(m, p, h). (m, p)) routes) r of
        Inl (i, v) \<Rightarrow> if i < length routes then snd (snd (routes ! i)) v r else Refused 404 []
      | Inr code \<Rightarrow> Refused code [])"

definition connectionRouter :: "rest_env \<Rightarrow> handler" where
  "connectionRouter env =
     chi_serve env ''/connections''
       [(''GET'', ''/'', \<lambda>_. connections_page env),
        (''DELETE'', ''/'', \<lambda>_ r. Served (NoContent (closeAllConnections (reManager env)))),
        (''DELETE'', ''/{id}'', \<lambda>i r. Served (NoContent (closeConnection i (reManager env))))]"

definition pprofHandler :: "rest_env \<Rightarrow> string \<Rightarrow> handler" where "pprofHandler env name = rePprof env name"

definition pprofRouter :: "rest_env \<Rightarrow> handler" where
  "pprofRouter env =
     chi_serve env ''/debug/pprof/''
       ([(''*'', ''/'', \<lambda>_. rePprof env ''''), (''*'', ''/cmdline'', \<lambda>_. rePprof env ''cmdline''), (''*'', ''/profile'', \<lambda>_. rePprof env ''profile''),
         (''*'', ''/symbol'', \<lambda>_. rePprof env ''symbol''), (''*'', ''/trace'', \<lambda>_. rePprof env ''trace''), (''*'', ''/{name}'', pprofHandler env)])"

text \<open>The endpoints registered when the package is loaded; profiling is only there in a build for debugging.\<close>

definition registerEndpoint :: "string \<Rightarrow> handler \<Rightarrow> (string \<times> handler) list \<Rightarrow> (string \<times> handler) list" where
  "registerEndpoint = AList.update"

definition rest_endpoints :: "rest_env \<Rightarrow> bool \<Rightarrow> (string \<times> handler) list" where
  "rest_endpoints env debug =
     registerEndpoint ''/netstats'' (getNetStats env)
       ((if debug then registerEndpoint ''/debug/pprof/'' (pprofRouter env) else id)
         (registerEndpoint ''/connections'' (connectionRouter env) []))"

definition rest_routes :: "rest_env \<Rightarrow> string \<Rightarrow> (string \<times> handler) list \<Rightarrow> route list" where
  "rest_routes env token eps =
     map (\<lambda>(m, p, h). (m, p, \<lambda>v. authenticator token (h v)))
       ([(''GET'', ''/'', \<lambda>_. rest_hello), (''GET'', ''/traffic'', \<lambda>_. rest_traffic env), (''GET'', ''/version'', \<lambda>_. rest_version env)] @
        map (\<lambda>(p, h). (''*'', p @ ''*'', \<lambda>_. h)) eps)"

definition rest_serve :: "rest_env \<Rightarrow> string \<Rightarrow> (string \<times> handler) list \<Rightarrow> handler" where
  "rest_serve env token eps r =
     (case rePreflight env r of
        Some code \<Rightarrow> Refused code []
      | None \<Rightarrow> chi_serve env [] (rest_routes env token eps) r)"

definition rest_Start :: "rest_env \<Rightarrow> string \<Rightarrow> string \<Rightarrow> bool \<Rightarrow> go_error + handler" where
  "rest_Start env addr token debug =
     (case reListen env addr of Some err \<Rightarrow> Inl err | None \<Rightarrow> Inr (rest_serve env token (rest_endpoints env debug)))"

section \<open>What the server guards\<close>

text \<open>What a request does to the connections' statistics.\<close>

fun page_effect :: "page answer \<Rightarrow> stats \<Rightarrow> stats" where
  "page_effect (Served (NoContent cs)) s = after_ops (closing_ops cs) s"
| "page_effect _ s = s"

lemma sent_until_prefix: "\<exists>n. sent_until wr k ms = take n ms"
proof (induction ms arbitrary: k)
  case (Cons m ms)
  obtain n where "sent_until wr (Suc k) ms = take n ms" using Cons by blast
  then show ?case by (cases "wr k") (auto intro: exI [of _ "Suc n"] exI [of _ 0])
qed simp

lemma streams:
  "traffic_lines wr k ms = sent_until wr k (map (traffic_line \<circ> Now) ms)"
  "snapshots_sent enc wr k ms = sent_until wr k (map (enc \<circ> Manager_Snapshot) ms)"
  by (induction ms arbitrary: k) (simp_all split: option.split)

lemma route_guarded:
  assumes "i < length (rest_routes env token eps)"
  shows "snd (snd (rest_routes env token eps ! i)) v =
    authenticator token (snd (snd (([(''GET'', ''/'', \<lambda>_. rest_hello), (''GET'', ''/traffic'', \<lambda>_. rest_traffic env), (''GET'', ''/version'', \<lambda>_. rest_version env)] @
        map (\<lambda>(p, h). (''*'', p @ ''*'', \<lambda>_. h)) eps) ! i)) v)"
  using assms unfolding rest_routes_def by (simp only: length_map nth_map case_prod_unfold snd_conv)

lemma routes_keys: "map (\<lambda>(m, p, h). (m, p)) (rest_routes env token eps) = map (\<lambda>(m, p, h). (m, p)) (rest_routes env [] eps)"
  by (simp add: rest_routes_def comp_def case_prod_unfold)

text \<open>
  A control interface with a token gives a request that carries the token exactly what it would give without any token set, and gives
  every other request a refusal, which changes no connection, whatever route the request takes.
\<close>

theorem rest_guarded:
  assumes "rest_Start env addr token debug = Inr serve" and "token \<noteq> []"
  shows "(if bears_token token r then rest_Start env addr [] debug = Inr serve0 \<longrightarrow> serve r = serve0 r
    else (\<exists>code msg. serve r = Refused code msg) \<and> page_effect (serve r) s = s)"
proof -
  have serve: "serve = rest_serve env token (rest_endpoints env debug)" using assms(1) by (simp add: rest_Start_def split: option.splits)
  have len: "length (rest_routes env token eps) = length (rest_routes env [] eps)" for eps by (simp add: rest_routes_def)
  have same: "serve r = rest_serve env [] (rest_endpoints env debug) r" if "bears_token token r"
    using that unfolding serve rest_serve_def chi_serve_def routes_keys [of env token] len
    by (auto simp: route_guarded len authenticator_serves split: option.split sum.split)
  have "\<exists>code msg. serve r = Refused code msg" if "\<not> bears_token token r"
    using that assms(2) unfolding serve rest_serve_def chi_serve_def
    by (auto simp: route_guarded authenticator_serves split: option.split sum.split)
  then show ?thesis using same by (auto simp: rest_Start_def split: option.splits)
qed

text \<open>A deletion of one connection, when the router takes the request to its route: that connection leaves the table, and no other.\<close>

theorem rest_delete:
  assumes "rest_Start env addr token False = Inr serve" and "token = [] \<or> bears_token token r" and "rePreflight env r = None"
    and "reRoute env [] (map (\<lambda>(m, p, h). (m, p)) (rest_routes env token (rest_endpoints env False))) r = Inl (3, v)"
    and "reRoute env ''/connections'' [(''GET'', ''/''), (''DELETE'', ''/''), (''DELETE'', ''/{id}'')] r = Inl (2, i)"
    and "sManager s = reManager env"
  shows "connections (sManager (page_effect (serve r) s)) = removeAll i (connections (sManager s))"
proof -
  have serve: "serve = rest_serve env token (rest_endpoints env False)" using assms(1) by (simp add: rest_Start_def split: option.splits)
  have "serve r = Served (NoContent (closeConnection i (sManager s)))"
    using assms(2-5) unfolding serve rest_serve_def chi_serve_def [of env "[]"]
    by (auto simp: rest_routes_def rest_endpoints_def registerEndpoint_def authenticator_serves connectionRouter_def chi_serve_def assms(6))
  then show ?thesis by (simp add: close_by_id)
qed

text \<open>The version page panics in a binary without build information.\<close>

lemma version_panics: "reModules env = None \<Longrightarrow> rest_version env r = Served Panicked"
  by (simp add: rest_version_def version_Info_def)

end
