(* ===== verification/LinkRun.thy ===== *)
theory LinkRun
  imports Devices Engine Steps
begin

text \<open>
  The life of a link endpoint, \<^verbatim>\<open>core/device/iobased/endpoint.go\<close> (\<^verbatim>\<open>Attach\<close>, \<^verbatim>\<open>Wait\<close> and the two goroutines), and the device over a
  given descriptor, \<^verbatim>\<open>core/device/fdbased\<close>, with the parsing that opens devices in \<^verbatim>\<open>engine/parse.go\<close> and \<^verbatim>\<open>engine/parse_windows.go\<close>.
  Shown here: however often the endpoint is attached the goroutines are started once; \<^verbatim>\<open>Wait\<close> returns exactly when neither runs;
  the outbound one ends only after the inbound one saw the device fail, and then both can always end.
\<close>

section \<open>Attach and Wait\<close>

text \<open>
  A goroutine: not started, in its loop, out of its loop (for the inbound one, its deferred cancel has run), and past its \<^verbatim>\<open>Done\<close>. \<open>lkIn\<close> is
  the one that reads from the device, \<open>lkOut\<close> the one that writes to it; \<open>lkWg\<close> is the count of the wait group, \<open>lkStarts\<close> how
  often the goroutines were started.
\<close>

datatype phase = Unstarted | Looping | Returned | Finished

record link_state =
  lkAttached :: bool
  lkOnce :: bool
  lkIn :: phase
  lkOut :: phase
  lkCancelled :: bool
  lkWg :: int
  lkStarts :: nat

definition link_init :: link_state where
  "link_init = \<lparr>lkAttached = False, lkOnce = False, lkIn = Unstarted, lkOut = Unstarted, lkCancelled = False, lkWg = 0, lkStarts = 0\<rparr>"

definition Attach :: "bool \<Rightarrow> link_state \<Rightarrow> link_state" where
  "Attach dispatcher s =
     (let s = s\<lparr>lkAttached := dispatcher\<rparr> in
      if lkOnce s then s
      else s\<lparr>lkOnce := True, lkWg := lkWg s + 2, lkIn := Looping, lkOut := Looping, lkStarts := lkStarts s + 1\<rparr>)"

text \<open>A call of \<^verbatim>\<open>Wait\<close> returns in a state where the count is zero.\<close>

definition Wait_returns :: "link_state \<Rightarrow> bool" where "Wait_returns s \<longleftrightarrow> lkWg s = 0"

text \<open>
  \<open>in_packet\<close>: a packet of the device; \<open>in_fails\<close>: the loop ends and cancels the context; \<open>out_packet\<close>: a packet of the stack;
  \<open>out_ends\<close>: the context is done, so there is no packet.
\<close>

inductive link_step :: "link_state \<Rightarrow> link_state \<Rightarrow> bool" where
  attach: "link_step s (Attach d s)"
| in_packet: "lkIn s = Looping \<Longrightarrow> link_step s s"
| in_fails: "lkIn s = Looping \<Longrightarrow> link_step s (s\<lparr>lkIn := Returned, lkCancelled := True\<rparr>)"
| in_done: "lkIn s = Returned \<Longrightarrow> link_step s (s\<lparr>lkIn := Finished, lkWg := lkWg s - 1\<rparr>)"
| out_packet: "lkOut s = Looping \<Longrightarrow> link_step s s"
| out_ends: "lkOut s = Looping \<Longrightarrow> lkCancelled s \<Longrightarrow> link_step s (s\<lparr>lkOut := Returned\<rparr>)"
| out_done: "lkOut s = Returned \<Longrightarrow> link_step s (s\<lparr>lkOut := Finished, lkWg := lkWg s - 1\<rparr>)"

inductive_simps link_step_simps: "link_step s s'"

definition running :: "phase \<Rightarrow> int" where "running p = (if p \<in> {Looping, Returned} then 1 else 0)"

definition link_inv :: "link_state \<Rightarrow> bool" where
  "link_inv s \<longleftrightarrow> lkWg s = running (lkIn s) + running (lkOut s) \<and> lkStarts s = (if lkOnce s then 1 else 0) \<and>
     (lkIn s = Unstarted \<longleftrightarrow> \<not> lkOnce s) \<and> (lkOut s = Unstarted \<longleftrightarrow> \<not> lkOnce s) \<and>
     (lkCancelled s \<longleftrightarrow> lkIn s \<in> {Returned, Finished}) \<and> (lkOut s \<in> {Returned, Finished} \<longrightarrow> lkCancelled s)"

interpretation link: invariant_system "\<lambda>s. s = link_init" link_step link_inv
proof
  show "s = link_init \<Longrightarrow> link_inv s" for s by (simp add: link_init_def link_inv_def running_def)
  show "link_inv s \<Longrightarrow> link_step s s' \<Longrightarrow> link_inv s'" for s s'
    by (erule link_step.cases) (auto simp: link_inv_def running_def Attach_def Let_def)
qed

text \<open>Once the device has failed, both goroutines have a way to their end.\<close>

lemma link_ends:
  assumes "link_inv s" and "lkCancelled s"
  shows "\<exists>s'. link_step\<^sup>*\<^sup>* s s' \<and> lkIn s' = Finished \<and> lkOut s' = Finished"
proof -
  have "lkIn s \<in> {Returned, Finished}" and out: "lkOut s \<in> {Looping, Returned, Finished}"
    using assms by (auto simp: link_inv_def intro: phase.exhaust [of "lkOut s"])
  moreover define s1 where "s1 = (if lkIn s = Returned then s\<lparr>lkIn := Finished, lkWg := lkWg s - 1\<rparr> else s)"
  ultimately have s1: "link_step\<^sup>*\<^sup>* s s1" "lkIn s1 = Finished" "lkOut s1 = lkOut s" "lkCancelled s1"
    using assms(2) by (auto intro: link_step.in_done)
  define s2 where "s2 = (if lkOut s1 = Looping then s1\<lparr>lkOut := Returned\<rparr> else s1)"
  have s2: "link_step\<^sup>*\<^sup>* s1 s2" "lkIn s2 = Finished" "lkOut s2 \<in> {Returned, Finished}"
    using s1 out r_into_rtranclp [of link_step, OF link_step.out_ends [of s1]] by (auto simp: s2_def)
  define s3 where "s3 = (if lkOut s2 = Returned then s2\<lparr>lkOut := Finished, lkWg := lkWg s2 - 1\<rparr> else s2)"
  have "link_step\<^sup>*\<^sup>* s2 s3" "lkIn s3 = Finished" "lkOut s3 = Finished"
    using s2 r_into_rtranclp [of link_step, OF link_step.out_done [of s2]] by (auto simp: s3_def)
  with s1(1) s2(1) show ?thesis by (meson rtranclp_trans)
qed

text \<open>
  Under every interleaving of attaching, reading and writing, the endpoint's goroutines are started at most once, \<^verbatim>\<open>Wait\<close> returns
  exactly when neither of them runs, the writer ends only after the reader saw the device fail, and once it
  has, both can end, so that a \<^verbatim>\<open>Wait\<close> then returns.
\<close>

theorem link_lifecycle:
  assumes "link_step\<^sup>*\<^sup>* link_init s"
  shows "lkStarts s \<le> 1 \<and> (Wait_returns s \<longleftrightarrow> lkIn s \<in> {Unstarted, Finished} \<and> lkOut s \<in> {Unstarted, Finished}) \<and>
    (lkOut s = Finished \<longrightarrow> lkIn s \<in> {Returned, Finished}) \<and>
    (lkCancelled s \<longrightarrow> (\<exists>s'. link_step\<^sup>*\<^sup>* s s' \<and> Wait_returns s'))"
proof -
  have inv: "link_inv s" using link.reachable_inv [OF refl assms] .
  have "lkCancelled s \<longrightarrow> (\<exists>s'. link_step\<^sup>*\<^sup>* s s' \<and> Wait_returns s')"
  proof
    assume "lkCancelled s"
    then obtain s' where s': "link_step\<^sup>*\<^sup>* s s'" "lkIn s' = Finished" "lkOut s' = Finished" using link_ends [OF inv] by blast
    moreover have "link_inv s'" using link.steps_inv [OF s'(1) inv] .
    ultimately show "\<exists>s'. link_step\<^sup>*\<^sup>* s s' \<and> Wait_returns s'" by (auto simp: link_inv_def Wait_returns_def running_def)
  qed
  moreover have "Wait_returns s \<longleftrightarrow> lkIn s \<in> {Unstarted, Finished} \<and> lkOut s \<in> {Unstarted, Finished}"
    using inv by (cases "lkIn s"; cases "lkOut s") (simp_all add: link_inv_def Wait_returns_def running_def)
  ultimately show ?thesis using inv by (auto simp: link_inv_def)
qed

theorem link_lifecycle_witness:
  "\<exists>s. link_step\<^sup>*\<^sup>* link_init s \<and> lkCancelled s \<and> lkStarts s \<le> 1 \<and> (\<exists>s'. link_step\<^sup>*\<^sup>* s s' \<and> Wait_returns s')"
proof -
  let ?s1 = "Attach True link_init" and ?s2 = "Attach False (Attach True link_init)"
  let ?s3 = "?s2\<lparr>lkIn := Returned, lkCancelled := True\<rparr>"
  have "link_step link_init ?s1" "link_step ?s1 ?s2" by (rule link_step.attach)+
  moreover have "link_step ?s2 ?s3" by (rule link_step.in_fails) (simp add: Attach_def link_init_def)
  ultimately have r: "link_step\<^sup>*\<^sup>* link_init ?s3" by (meson converse_rtranclp_into_rtranclp r_into_rtranclp)
  from link_lifecycle [OF r] r show ?thesis by (intro exI [of _ ?s3]) auto
qed

section \<open>Devices over a descriptor\<close>

text \<open>On Linux the endpoint is gVisor's; on other Unix systems it is the one above, over a file of the descriptor.\<close>

record FD =
  fdFd :: int
  fdMTU :: nat
  fdEndpoint :: "Endpoint option"

definition open_linux :: "dev_env \<Rightarrow> int \<Rightarrow> nat \<Rightarrow> int \<Rightarrow> (dev_log, FD) io" where
  "open_linux env fd mtu off =
     io_bind (io_wrap ''create endpoint'' (dev_sys env (FdEndpoint fd mtu))) (\<lambda>_.
     io_return \<lparr>fdFd = fd, fdMTU = mtu, fdEndpoint = None\<rparr>)"

text \<open>\<^verbatim>\<open>os.NewFile\<close> gives a pointer, which is never the nil interface that \<^verbatim>\<open>iobased.New\<close> looks for.\<close>

definition open_unix :: "int \<Rightarrow> nat \<Rightarrow> int \<Rightarrow> (dev_log, FD) io" where
  "open_unix fd mtu off =
     io_bind (io_wrap ''create endpoint'' (io_of_sum (iobased_New False mtu off))) (\<lambda>ep.
     io_return \<lparr>fdFd = fd, fdMTU = mtu, fdEndpoint = Some ep\<rparr>)"

definition fd_defaultMTU :: nat where "fd_defaultMTU = 1500"

definition fd_Open :: "(int \<Rightarrow> nat \<Rightarrow> int \<Rightarrow> (dev_log, FD) io) \<Rightarrow> string \<Rightarrow> nat \<Rightarrow> int \<Rightarrow> (dev_log, FD) io" where
  "fd_Open open_fd name mtu off =
     (case Atoi name of
        None \<Rightarrow> io_fail (ErrorNew (''cannot open fd: '' @ name))
      | Some fd \<Rightarrow> open_fd fd (if mtu = 0 then fd_defaultMTU else mtu) off)"

definition fd_windows_Open :: "string \<Rightarrow> nat \<Rightarrow> int \<Rightarrow> (dev_log, FD) io" where
  "fd_windows_Open name mtu off = io_fail (ErrorNew ''unsupported operation'')"

definition FD_Name :: "FD \<Rightarrow> string" where "FD_Name f = Itoa (fdFd f)"

definition FD_Close :: "dev_env \<Rightarrow> FD \<Rightarrow> (dev_log, unit) io" where
  "FD_Close env f =
     dev_deferred env CloseEndpoint (\<lambda>l. (Ok (), snd (dev_sys env (CloseFd (fdFd f)) l)))"

definition parseFD :: "(int \<Rightarrow> nat \<Rightarrow> int \<Rightarrow> (dev_log, FD) io) \<Rightarrow> string \<Rightarrow> url \<Rightarrow> nat \<Rightarrow> (dev_log, FD) io" where
  "parseFD open_fd goos u mtu = fd_Open open_fd (urlHost u) mtu (if goos = ''ios'' then 4 else 0)"

text \<open>
  \<^verbatim>\<open>parseTUN\<close> on Windows: the decoded query's GUID, if there is one, is stored for the driver before the device is opened. The state is
  that global variable; decoding and the GUID's syntax are the libraries'.
\<close>

definition parseTUN_unix :: "(string \<Rightarrow> nat \<Rightarrow> ('w, 'd) io) \<Rightarrow> url \<Rightarrow> nat \<Rightarrow> ('w, 'd) io" where
  "parseTUN_unix tunOpen u mtu = tunOpen (urlHost u) mtu"

definition parseTUN_windows ::
  "(string \<Rightarrow> go_error + string) \<Rightarrow> (string \<Rightarrow> go_error + 'g) \<Rightarrow> (string \<Rightarrow> nat \<Rightarrow> ('g option, 'd) io) \<Rightarrow> url \<Rightarrow> nat \<Rightarrow> ('g option, 'd) io" where
  "parseTUN_windows decode guidOf tunOpen u mtu =
     io_bind (io_of_sum (decode (urlQuery u))) (\<lambda>guid.
     io_bind (if guid \<noteq> [] then io_bind (io_of_sum (guidOf guid)) (\<lambda>g _. (Ok (), Some g)) else io_return ()) (\<lambda>_.
     tunOpen (urlHost u) mtu))"

text \<open>
  A descriptor in decimal always opens on a Unix system without gVisor's endpoint, with the offset that iOS needs; the name
  of the device reads back as the descriptor. On Linux the engine's model of opening is this one.
\<close>

lemma parseFD_unix:
  assumes "Atoi (urlHost u) = Some fd"
  shows "\<exists>f. parseFD open_unix goos u mtu l = (Ok f, l) \<and> fdFd f = fd \<and> fdMTU f = (if mtu = 0 then 1500 else mtu) \<and>
    fdEndpoint f = Some \<lparr>epMTU = fdMTU f, epOffset = (if goos = ''ios'' then 4 else 0)\<rparr>"
  using assms by (simp add: parseFD_def fd_Open_def open_unix_def iobased_New_def io_of_sum_def fd_defaultMTU_def io_bind_def io_wrap_def io_return_def)

lemma FD_Name_opens: "0 \<le> fdFd f \<Longrightarrow> fdFd f < 2 ^ 63 \<Longrightarrow> fd_Open open_fd (FD_Name f) mtu off = open_fd (fdFd f) (if mtu = 0 then 1500 else mtu) off"
  by (simp add: fd_Open_def FD_Name_def Atoi_Itoa fd_defaultMTU_def)

lemma fdOpen_linux:
  assumes "\<And>fd m. eeFdNew env fd m = (case denv (FdEndpoint fd (nat m)) of Inl e \<Rightarrow> Some e | Inr _ \<Rightarrow> None)" and "0 \<le> mtu"
  shows "fst (fd_Open (open_linux denv) name (nat mtu) 0 l) =
    (case fdOpen env name mtu of Inl e \<Rightarrow> Fail e | Inr (FDDevice fd m) \<Rightarrow> Ok \<lparr>fdFd = fd, fdMTU = nat m, fdEndpoint = None\<rparr>)"
  using assms by (auto simp: fd_Open_def fdOpen_def open_linux_def fd_defaultMTU_def dev_sys_def io_bind_def io_wrap_def io_return_def io_fail_def WithStr_def
      Let_def split: option.split sum.split)

lemma FD_Close_closes: "opened (snd (FD_Close env f l)) M = opened l M - {#fdFd f#}"
  by (simp add: FD_Close_def dev_deferred_def dev_sys_def)

lemma parseTUN_windows_guid:
  assumes "decode (urlQuery u) = Inr guid"
  shows "parseTUN_windows decode guidOf tunOpen u mtu g =
    (if guid = [] then tunOpen (urlHost u) mtu g
     else case guidOf guid of Inl e \<Rightarrow> (Fail e, g) | Inr g' \<Rightarrow> tunOpen (urlHost u) mtu (Some g'))"
  using assms by (simp add: parseTUN_windows_def io_bind_def io_of_sum_def io_return_def io_fail_def split: sum.split)

end
