(* ===== verification/Spec2Isabelle.thy ===== *)
theory Spec2Isabelle
  imports Pattern MobileProxy MobileApi SocksClient EngineProxy Allocator Devices RestApi Support Program Session SockOpts
    EngineLog RestServer LinkRun
begin

text \<open>
  \<^bold>\<open>Lumine\<close> is a local proxy that gets TLS connections past filters which look at the server name: it
  cuts the ClientHello into several TLS records or TCP segments, puts urgent bytes between them, or sends
  a decoy with a small TTL. It runs as a SOCKS5 and HTTP proxy, and on Android as the user side of a
  tunnel device, through the packet engine tun2socks. This development models the program's Go code
  (under \<^verbatim>\<open>src/internal\<close>, \<^verbatim>\<open>src/mobile\<close> and \<^verbatim>\<open>src/tun2socks\<close>) as HOL functions and step relations, and proves
  what makes each part correct.

  \<^bold>\<open>The parts and how they interact.\<close> A client connects to the SOCKS5 or the HTTP server, or a packet of
  the tunnel reaches the engine's network stack. The requested host is turned into a policy and an
  address (\<open>genPolicy\<close>), through domain rules, a hosts table, the resolver with its cache, address pools
  and address rules. The tunnel then looks at the first bytes of the client: a ClientHello is parsed
  and sent in the way the policy says, and the rest is copied in both directions. On Android the tunnel's
  own resolver answers for the domains that have a rule and remembers the addresses, so that a later
  connection to an address can be planned for its domain.

  \<^bold>\<open>Conventions.\<close> Go's integers are mathematical integers with the wrap-around written where the source can
  overflow, or words of their width; a panic is \<^const>\<open>None\<close> or \<^const>\<open>Panic\<close>; a Go \<^verbatim>\<open>error\<close> is the left side of a
  sum, or \<^const>\<open>Fail\<close>. Code with effects has type \<^typ>\<open>('w, 'a) io\<close>: it transforms an explicit world and ends in a
  value, an error or a panic. The operating system, the network, the clock and random bytes are arguments,
  as is every library outside the repository; what is assumed of one of these is a named predicate
  (\<open>aead_laws\<close>, \<open>stream_laws\<close>, \<open>md5_laws\<close>, \<open>picked_laws\<close>, \<open>relay_accepts\<close>, \<open>tun_driver\<close>, \<open>names_ok\<close>, \<open>slice_sort\<close>) and stands as a hypothesis where it is
  used. What a routine does to the world is a log: of system calls on a socket, of connections opened and closed
  (\<open>outbound_env\<close> answers them), of calls to the gVisor stack (which may refuse any of them), of calls on a device.

  \<^bold>\<open>Foundations.\<close>
  \<^item> \<open>Prelude\<close>: bytes, slices with their panics, 16-bit codec, decimal numbers, error values
    (\<^verbatim>\<open>internal/errors\<close>), shared list lemmas.
  \<^item> \<open>GoIO\<close>: outcomes and sequencing, the socket world with its log of system calls, the calculi \<open>returns\<close> (no
    panic) and \<open>adds\<close> (what a routine appends to the log).
  \<^item> \<open>Framing\<close> (locale \<open>framing\<close>: a decoder that inverts an encoder on a stream; provided by TLS records, DNS over
    TCP, SOCKS addresses, relayed datagrams), \<open>Steps\<close> (locales \<open>invariant_system\<close> and \<open>terminating_system\<close> for concurrent parts),
    \<open>Duplex\<close> (a connection as input and writes; locale \<open>stream_reader\<close>: the promise a wrapping connection makes to
    its reader; provided by both kinds of Shadowsocks connection, the TLS obfuscation and the relay connection).
  \<^item> \<open>Json\<close>: how \<^verbatim>\<open>encoding/json\<close> stores a value in a Go variable.

  \<^bold>\<open>Getting a ClientHello through\<close> (\<^verbatim>\<open>src/internal\<close>).
  \<^item> \<open>ClientHello\<close> (\<^verbatim>\<open>utils.go\<close>): the parser decodes what a well-formed message encodes, and panics exactly on
    slices too short for the record header; every place it reports lies in the record.
  \<^item> \<open>WaitAck\<close> (\<^verbatim>\<open>oob_unix.go\<close>, \<^verbatim>\<open>waitack_linux.go\<close>) and \<open>Fragment\<close> (\<^verbatim>\<open>fragment.go\<close>): the records the peer puts
    together carry exactly the handshake bytes, the wait is bounded, and which configurations panic. \<open>NameHiding\<close>: no
    record, or segment, holds the whole server name.
  \<^item> \<open>TTLRules\<close>, \<open>TTLDetect\<close> (\<^verbatim>\<open>desync.go\<close>, \<^verbatim>\<open>desync_rules.go\<close>) and \<open>DesyncSend\<close> (\<^verbatim>\<open>desync_linux.go\<close>): rules are read and
    applied in order of threshold for every sort that keeps the contract \<open>slice_sort\<close>; the binary search finds
    the distance of a stable path; the decoy reveals nothing of the name and the peer gets the real bytes.
  \<^item> \<open>DesyncWindows\<close> (\<^verbatim>\<open>desync_windows.go\<close>, \<^verbatim>\<open>oob_windows.go\<close>): the same for a file that the kernel transmits; whenever it
    sends, the decoy goes out with the fake TTL only; the file, the event and the semaphore are released on every path.
  \<^item> \<open>TunConn\<close> (\<^verbatim>\<open>tun_bridge.go\<close>, the connection types of \<^verbatim>\<open>policy.go\<close>): what goes out does not depend on how the client cut its
    writes. \<open>Tunnel\<close> (\<^verbatim>\<open>tunnel.go\<close>): what the first flight to the server is under each mode, and that forwarding ends with
    both connections closed once.

  \<^bold>\<open>Deciding what to do\<close> (\<^verbatim>\<open>src/internal\<close>).
  \<^item> \<open>Policy\<close> (\<^verbatim>\<open>policy.go\<close>): decoding with its ranges, merging, defaults. \<open>Pattern\<close> and \<open>Redirect\<close> (\<^verbatim>\<open>utils.go\<close>): expansion
    of patterns, mapping of addresses into a prefix bit by bit.
  \<^item> \<open>IPPool\<close> (\<^verbatim>\<open>ippool.go\<close>): the pools' invariant, and the weighted round robin is exactly proportional.
    \<open>Dns\<close> (\<^verbatim>\<open>dns.go\<close>), \<open>GenPolicy\<close> (\<^verbatim>\<open>policy.go\<close>): which answer a mode may give, which policy wins, no panic.
  \<^item> \<open>MobileDns\<close> (\<^verbatim>\<open>dns_mobile.go\<close>, \<^verbatim>\<open>dial_plan.go\<close>): a connection to an answered address is planned for the answered domain.
  \<^item> \<open>Dial\<close> (\<^verbatim>\<open>dial/\<close>) and \<open>Config\<close> (\<^verbatim>\<open>config.go\<close>): binding to a local address; loading a configuration is all or nothing.

  \<^bold>\<open>Servers and the Android side.\<close> \<open>Socks5\<close>, \<open>HttpProxy\<close> (\<^verbatim>\<open>socks5.go\<close>, \<^verbatim>\<open>http.go\<close>): a request is answered by what the policy
  decides and dialled only when it is let through. \<open>Program\<close> (\<^verbatim>\<open>main.go\<close> and the accepting routines): when the program ends,
  under every interleaving of its goroutines. \<open>Session\<close> and the end of this theory put the parts together: a SOCKS5 session from the
  client's greeting to the forwarding, through the server, the policy, the dial, the parser and the fragmentation. \<open>MobileProxy\<close>, \<open>MobileStats\<close>, \<open>PacketQueue\<close>, \<open>MobileApi\<close>
  (\<^verbatim>\<open>src/mobile\<close>): datagrams leave only towards their plan's target, DNS over TCP is answered in order, the queue is a
  FIFO under every interleaving, the statistics are a function of the history (locale \<open>bounded_log\<close>), and every
  sequence of calls keeps the library's state consistent.

  \<^bold>\<open>The packet engine\<close> (\<^verbatim>\<open>src/tun2socks\<close>). \<open>Engine\<close>: parsing of the settings, start and stop.
  \<open>EngineLog\<close> (\<^verbatim>\<open>log/\<close>): setting a level never panics, and every message goes to one place. \<open>SockOpts\<close> (\<^verbatim>\<open>dialer/\<close>): the options of outgoing
  sockets on each system (locales \<open>socket_options\<close> and \<open>reporting_options\<close>, an interpretation for every system's build). \<open>EngineTunnel\<close>,
  \<open>EngineStats\<close>: relaying of sessions and counting of traffic under every interleaving (locale \<open>packet_source\<close>).
  \<open>SocksClient\<close>: the SOCKS clients. \<open>ShadowAead\<close>, \<open>ShadowStream\<close>, \<open>ShadowCipher\<close>, \<open>SimpleObfs\<close>: Shadowsocks; what is written is
  read back whatever the sizes of the pieces. \<open>RelayProxy\<close> (\<^verbatim>\<open>proxy/relay.go\<close>) and \<open>EngineProxy\<close> (the other outbound proxies of
  \<^verbatim>\<open>proxy/\<close>): every dial leaves one open connection or none, and datagrams pass unchanged. \<open>CoreStack\<close> (\<^verbatim>\<open>core/\<close> and its options): how
  the network stack is set up, and that every connection request is completed. \<open>LinkEndpoint\<close>, \<open>Devices\<close> (\<^verbatim>\<open>core/device\<close>): packets cross the
  link unchanged; which descriptors opening and closing a device leave. \<open>LinkRun\<close>: the endpoint's goroutines start once and can end, and
  devices over a descriptor. \<open>RestApi\<close>, \<open>RestServer\<close> (\<^verbatim>\<open>restapi/\<close>): who is served on every route, which connections are
  closed, and when the counters are JSON. \<open>Allocator\<close>: the buffer pools. \<open>Support\<close>: text helpers, the stubs of systems without
  a decoy, names, pools, the start-up code of the resolver and the time zone.

  \<^bold>\<open>Bounds and fuel.\<close> Loops are structural recursion or functions with a termination proof. \<open>decode_frames\<close> takes the
  number of bytes as its bound, which is enough because no frame is empty; \<open>copyPacketData\<close> takes one more than the
  number of packets, because every read takes one; \<open>kdf_loop\<close> may diverge and is shown to return. Concurrency is an
  \<open>inductive\<close> step relation, or the set of interleavings of two logs.

  \<^bold>\<open>Not modelled.\<close> The Kotlin application and its user interface; the inside of the gVisor stack, of the cryptographic
  primitives, of the DNS, relay, logging and JSON libraries, which are arguments, as are the matching of a path by the HTTP router and
  the web socket upgrade; accessors and methods that only return a field or nil; text of log messages where no result depends on it;
  single-flight sharing of equal requests, which does not change what one caller gets.
\<close>

section \<open>A session from end to end\<close>


definition session_policy :: Policy where
  "session_policy = normalizePolicyDefaults (zero_policy\<lparr>Mode_of := ModeTLSRF, NumRecords := 4\<rparr>)"

definition session_env :: proxy_env where
  "session_env = proxy_env_example\<lparr>pePol := block_env\<lparr>eDefault := session_policy\<rparr>\<rparr>"

lemma session_policy_facts [simp]:
  "Mode_of session_policy = ModeTLSRF" "NumRecords session_policy = 4" "sends_hello session_policy" "ReplyFirst session_policy \<noteq> BoolTrue"
  "\<not> IsTrue (TLS13Only session_policy)" "Port session_policy = 0" "\<not> IsTrue (ModMinorVer session_policy)"
  by (simp_all add: session_policy_def zero_policy_def sends_hello_def can_fragment_def IsTrue_def)

lemma session_env_policy:
  "\<exists>x. genPolicy (pePol session_env) ''a.io'' False False world_start = (Ok (GenOk ''ip'' session_policy), x)"
proof -
  let ?env = "block_env\<lparr>eDefault := session_policy\<rparr>"
  have "DNSMode_of session_policy = DNSModePreferIPv4" "eDns ?env = dns_example"
    by (simp_all add: session_policy_def zero_policy_def DNSModeDefault_def block_env_def)
  then obtain x where r: "resolve ?env ''a.io'' (DNSMode_of session_policy) world_start = (Ok ''ip'', x)"
    using dns_example_resolves by (fastforce simp: resolve_def on_dns_def world_start_def)
  have "Host session_policy = unsetString" by (simp add: session_policy_def zero_policy_def)
  moreover have "findDomain (eMatch ?env) ''a.io'' = None" "findHosts (eMatch ?env) ''a.io'' = None" "eParseIP ?env ''a.io'' = None"
    "getIPPolicy (eMatch ?env) ''ip'' = None" "eDefault ?env = session_policy"
    using block_env_facts by simp_all
  ultimately show ?thesis using r
    by (simp add: session_env_def genPolicy_def genDomainPolicy_def Let_def with_default_def HasPrefix_def
        prefix_consts unsetString_def or_failed_def io_try_def applyRedirect_def redirect_def ipRedirect_def
        io_bind_def io_return_def)
qed


end
